(* ===== verification/Prelude.thy ===== *)
theory Prelude
  imports Main "HOL-Library.Word" "HOL-Library.Monad_Syntax"
begin

text \<open>
  Shared vocabulary of the development: machine integers at their C widths, the
  byte order conversions, byte memory with little-endian loads and stores (the
  platform of the traffic generator is x86-64), and the generic facts about
  lists, options and words that the component theories use.

  An access outside an object, a NULL dereference and every other undefined
  behaviour of the C code is the value \<open>None\<close>; a defined error return is
  an ordinary value.
\<close>

unbundle bit_operations_syntax

section \<open>Machine integers\<close>

type_synonym u8 = "8 word"
type_synonym u16 = "16 word"
type_synonym u32 = "32 word"
type_synonym u64 = "64 word"

text \<open>Collections: \<open>mem_simps\<close> computes lengths and bytes of buffers after
  writes, \<open>step_inv\<close> collects the invariant-preservation lemmas of steps.\<close>

named_theorems mem_simps \<open>bytes and lengths after a memory access\<close>
named_theorems step_inv \<open>invariant preservation by operations\<close>
named_theorems layout \<open>offsets and sizes of the C structures\<close>

lemma unat_less:
  "unat (a :: u8) < 256" "unat (b :: u16) < 65536" "unat (c :: u32) < 4294967296"
  "unat (d :: u64) < 18446744073709551616"
proof -
  have "unat a < 2 ^ LENGTH(8)" "unat b < 2 ^ LENGTH(16)" "unat c < 2 ^ LENGTH(32)"
    "unat d < 2 ^ LENGTH(64)" by (rule unsigned_less)+
  then show "unat a < 256" "unat b < 65536" "unat c < 4294967296" "unat d < 18446744073709551616"
    by simp_all
qed

lemma unat_of_nat8: "n < 256 \<Longrightarrow> unat (word_of_nat n :: u8) = n"
  and unat_of_nat16: "n < 65536 \<Longrightarrow> unat (word_of_nat n :: u16) = n"
  and unat_of_nat32: "n < 4294967296 \<Longrightarrow> unat (word_of_nat n :: u32) = n"
  and unat_of_nat64: "n < 18446744073709551616 \<Longrightarrow> unat (word_of_nat n :: u64) = n"
  by (simp_all add: unat_of_nat)

section \<open>Byte order\<close>

definition bswap16 :: "u16 \<Rightarrow> u16" where
  "bswap16 w = push_bit 8 w OR drop_bit 8 w"

definition bswap32 :: "u32 \<Rightarrow> u32" where
  "bswap32 w = push_bit 24 w OR (push_bit 8 w AND 0x00FF0000)
     OR (drop_bit 8 w AND 0x0000FF00) OR drop_bit 24 w"

abbreviation htons :: "u16 \<Rightarrow> u16" where "htons \<equiv> bswap16"
abbreviation ntohs :: "u16 \<Rightarrow> u16" where "ntohs \<equiv> bswap16"
abbreviation htonl :: "u32 \<Rightarrow> u32" where "htonl \<equiv> bswap32"
abbreviation ntohl :: "u32 \<Rightarrow> u32" where "ntohl \<equiv> bswap32"

lemma bswap16_bswap16 [simp]: "bswap16 (bswap16 w) = w"
  by (rule bit_word_eqI) (auto simp: bswap16_def bit_simps)

lemma mask_00FF0000: "(0x00FF0000 :: u32) = push_bit 16 (mask 8)"
  by (simp add: mask_eq_decr_exp push_bit_eq_mult)

lemma mask_0000FF00: "(0x0000FF00 :: u32) = push_bit 8 (mask 8)"
  by (simp add: mask_eq_decr_exp push_bit_eq_mult)

lemma bit_bswap32:
  "bit (bswap32 w) n \<longleftrightarrow> n < 32 \<and>
     bit w (if n < 8 then n + 24 else if n < 16 then n + 8
            else if n < 24 then n - 8 else n - 24)"
  by (auto simp: bswap32_def mask_00FF0000 mask_0000FF00 bit_simps ac_simps
      dest: bit_imp_le_length)

lemma bswap32_bswap32 [simp]: "bswap32 (bswap32 w) = w"
proof (rule bit_word_eqI)
  fix n :: nat assume "n < LENGTH(32)"
  then consider "n < 8" | "8 \<le> n" "n < 16" | "16 \<le> n" "n < 24" | "24 \<le> n" "n < 32"
    by fastforce
  then show "bit (bswap32 (bswap32 w)) n = bit w n"
  proof cases
    case 3
    then have "\<not> n - 8 < 8" "n - 8 < 16" by linarith+
    with 3 show ?thesis by (simp add: bit_bswap32)
  next
    case 4
    then have "n - 24 < 8" by linarith
    with 4 show ?thesis by (simp add: bit_bswap32)
  qed (simp_all add: bit_bswap32)
qed

section \<open>Bytes of words\<close>

definition le16 :: "u16 \<Rightarrow> u8 list" where
  "le16 w = [ucast w, ucast (drop_bit 8 w)]"

definition le32 :: "u32 \<Rightarrow> u8 list" where
  "le32 w = [ucast w, ucast (drop_bit 8 w), ucast (drop_bit 16 w), ucast (drop_bit 24 w)]"

definition mk16 :: "u8 \<Rightarrow> u8 \<Rightarrow> u16" where
  "mk16 lo hi = ucast lo OR push_bit 8 (ucast hi)"

definition mk32 :: "u8 \<Rightarrow> u8 \<Rightarrow> u8 \<Rightarrow> u8 \<Rightarrow> u32" where
  "mk32 a b c d = ucast a OR push_bit 8 (ucast b) OR push_bit 16 (ucast c) OR push_bit 24 (ucast d)"

lemma length_le16 [simp, mem_simps]: "length (le16 w) = 2"
  by (simp add: le16_def)

lemma length_le32 [simp, mem_simps]: "length (le32 w) = 4"
  by (simp add: le32_def)

lemma mk16_le16 [simp]: "mk16 (le16 w ! 0) (le16 w ! Suc 0) = w"
  by (rule bit_word_eqI) (auto simp: mk16_def le16_def bit_simps)

lemma mk32_le32 [simp]:
  "mk32 (le32 w ! 0) (le32 w ! Suc 0) (le32 w ! 2) (le32 w ! 3) = w"
proof -
  have "le32 w ! 2 = ucast (drop_bit 16 w)" "le32 w ! 3 = ucast (drop_bit 24 w)"
    by (simp_all add: le32_def)
  note bytes = this
  show ?thesis
  proof (rule bit_word_eqI)
    fix n :: nat assume "n < LENGTH(32)"
    then have n: "n < 32" by simp
    show "bit (mk32 (le32 w ! 0) (le32 w ! Suc 0) (le32 w ! 2) (le32 w ! 3)) n = bit w n"
    proof (cases "n < 16")
      case True
      then show ?thesis unfolding bytes by (auto simp: mk32_def le32_def bit_simps)
    next
      case False
      with n have "24 + (n - 24) = n \<or> n < 24" "16 + (n - 16) = n" "\<not> n - 8 < 8"
        "n - 16 < 8 \<longleftrightarrow> n < 24" "n - 24 < 8" by linarith+
      with False n show ?thesis unfolding bytes by (auto simp: mk32_def le32_def bit_simps)
    qed
  qed
qed

lemma le16_mk16 [simp]: "le16 (mk16 a b) = [a, b]"
proof -
  have "(ucast (mk16 a b) :: u8) = a"
    by (rule bit_word_eqI) (auto simp: mk16_def bit_simps)
  moreover have "(ucast (drop_bit 8 (mk16 a b)) :: u8) = b"
    by (rule bit_word_eqI) (auto simp: mk16_def bit_simps dest: bit_imp_le_length)
  ultimately show ?thesis by (simp add: le16_def)
qed

lemma unat_mk16: "unat (mk16 a b) = unat a + 256 * unat b"
proof -
  have a: "unat a < 256" and b: "unat b < 256"
    using unsigned_less [of a] unsigned_less [of b] by simp_all
  have "(ucast a :: u16) AND push_bit 8 (ucast b) = 0"
    by (rule bit_word_eqI) (auto simp: bit_simps dest: bit_imp_le_length)
  then have "mk16 a b = ucast a + push_bit 8 (ucast b)"
    by (simp add: mk16_def disjunctive_add_eq_or)
  also have "\<dots> = ucast a + ucast b * 256"
    by (simp add: push_bit_eq_mult)
  finally have "unat (mk16 a b) = (unat a + unat b * 256 mod 65536) mod 65536"
    using a b by (simp add: unat_word_ariths unsigned_ucast_eq take_bit_nat_eq_self)
  then show ?thesis using a b by simp
qed

text \<open>Network byte order: storing a swapped word is writing its bytes big-endian.\<close>

definition be16 :: "u16 \<Rightarrow> u8 list" where
  "be16 w = [ucast (drop_bit 8 w), ucast w]"

definition be32 :: "u32 \<Rightarrow> u8 list" where
  "be32 w = [ucast (drop_bit 24 w), ucast (drop_bit 16 w), ucast (drop_bit 8 w), ucast w]"

lemma length_be [simp, mem_simps]: "length (be16 w) = 2" "length (be32 x) = 4"
  by (simp_all add: be16_def be32_def)

lemma le16_htons [simp]: "le16 (htons w) = be16 w"
proof -
  have "(ucast (htons w) :: u8) = ucast (drop_bit 8 w)" "(ucast (drop_bit 8 (htons w)) :: u8) = ucast w"
    by (rule bit_word_eqI; auto simp: bswap16_def bit_simps dest: bit_imp_le_length)+
  then show ?thesis by (simp add: le16_def be16_def)
qed

lemma le32_htonl [simp]: "le32 (htonl w) = be32 w"
proof -
  have "(ucast (htonl w) :: u8) = ucast (drop_bit 24 w)"
    "(ucast (drop_bit 8 (htonl w)) :: u8) = ucast (drop_bit 16 w)"
    "(ucast (drop_bit 16 (htonl w)) :: u8) = ucast (drop_bit 8 w)"
    "(ucast (drop_bit 24 (htonl w)) :: u8) = ucast w"
    by (rule bit_word_eqI; auto simp: bit_bswap32 bit_simps ac_simps dest: bit_imp_le_length)+
  then show ?thesis by (simp add: le32_def be32_def)
qed

section \<open>Byte memory\<close>

text \<open>A memory object is the list of its bytes; an access outside it is \<open>None\<close>.\<close>

type_synonym mem = "u8 list"

definition rd :: "nat \<Rightarrow> nat \<Rightarrow> mem \<Rightarrow> mem option" where
  "rd off n m = (if off + n \<le> length m then Some (take n (drop off m)) else None)"

definition put :: "nat \<Rightarrow> u8 list \<Rightarrow> mem \<Rightarrow> mem" where
  "put off bs m = take off m @ bs @ drop (off + length bs) m"

definition wr :: "nat \<Rightarrow> u8 list \<Rightarrow> mem \<Rightarrow> mem option" where
  "wr off bs m = (if off + length bs \<le> length m then Some (put off bs m) else None)"

definition memset :: "nat \<Rightarrow> u8 \<Rightarrow> nat \<Rightarrow> mem \<Rightarrow> mem option" where
  "memset off b n = wr off (replicate n b)"

definition ld8 :: "nat \<Rightarrow> mem \<Rightarrow> u8 option" where
  "ld8 off m = (if off < length m then Some (m ! off) else None)"

definition ld16 :: "nat \<Rightarrow> mem \<Rightarrow> u16 option" where
  "ld16 off m = (if off + 2 \<le> length m then Some (mk16 (m ! off) (m ! (off + 1))) else None)"

definition ld32 :: "nat \<Rightarrow> mem \<Rightarrow> u32 option" where
  "ld32 off m = (if off + 4 \<le> length m
     then Some (mk32 (m ! off) (m ! (off + 1)) (m ! (off + 2)) (m ! (off + 3))) else None)"

definition st8 :: "nat \<Rightarrow> u8 \<Rightarrow> mem \<Rightarrow> mem option" where
  "st8 off b = wr off [b]"

definition st16 :: "nat \<Rightarrow> u16 \<Rightarrow> mem \<Rightarrow> mem option" where
  "st16 off w = wr off (le16 w)"

definition st32 :: "nat \<Rightarrow> u32 \<Rightarrow> mem \<Rightarrow> mem option" where
  "st32 off w = wr off (le32 w)"

lemma wr_Some [mem_simps]: "off + length bs \<le> length m \<Longrightarrow> wr off bs m = Some (put off bs m)"
  by (simp add: wr_def)

lemma length_put [simp, mem_simps]: "off + length bs \<le> length m \<Longrightarrow> length (put off bs m) = length m"
  by (simp add: put_def)

lemma nth_put:
  "off + length bs \<le> length m \<Longrightarrow> i < length m \<Longrightarrow>
    put off bs m ! i = (if off \<le> i \<and> i < off + length bs then bs ! (i - off) else m ! i)"
  by (auto simp: put_def nth_append min_def)

lemma drop_put [mem_simps]:
  "off + length bs \<le> length m \<Longrightarrow> drop off (put off bs m) = bs @ drop (off + length bs) m"
  by (simp add: put_def)

lemma take_put [mem_simps]: "off + length bs \<le> length m \<Longrightarrow> take off (put off bs m) = take off m"
  by (simp add: put_def)

text \<open>A write inside a block that has just been written is a write to the block.\<close>

lemma put_put_in:
  assumes "k + length bs \<le> length blk" "off + length blk \<le> length m"
  shows "put (off + k) bs (put off blk m) = put off (put k bs blk) m"
proof (rule nth_equalityI)
  show "length (put (off + k) bs (put off blk m)) = length (put off (put k bs blk) m)"
    using assms by simp
  fix i assume "i < length (put (off + k) bs (put off blk m))"
  then show "put (off + k) bs (put off blk m) ! i = put off (put k bs blk) m ! i"
    using assms by (auto simp: nth_put)
qed

lemma put_put_same:
  "length bs' = length bs \<Longrightarrow> off + length bs \<le> length m \<Longrightarrow> put off bs' (put off bs m) = put off bs' m"
  by (simp add: put_def)

lemma wr_length: "wr off bs m = Some m' \<Longrightarrow> length m' = length m"
  by (auto simp: wr_def split: if_splits)

lemma wr_nth:
  "wr off bs m = Some m' \<Longrightarrow> i < length m \<Longrightarrow>
    m' ! i = (if off \<le> i \<and> i < off + length bs then bs ! (i - off) else m ! i)"
  by (auto simp: wr_def nth_put split: if_splits)

lemma wr_in_range: "wr off bs m = Some m' \<Longrightarrow> off + length bs \<le> length m"
  by (auto simp: wr_def split: if_splits)

lemma wr_total: "\<exists>m'. wr off bs m = Some m'" if "off + length bs \<le> length m"
  using that by (simp add: wr_def)

lemma rd_wr_same: "wr off bs m = Some m' \<Longrightarrow> rd off (length bs) m' = Some bs"
  by (auto simp: wr_def rd_def drop_put split: if_splits)

lemma rd_nth: "rd off n m = Some bs \<Longrightarrow> i < n \<Longrightarrow> bs ! i = m ! (off + i)"
  by (auto simp: rd_def split: if_splits)

lemma ld16_wr_other:
  assumes "wr off bs m = Some m'" and "i + 2 \<le> off \<or> off + length bs \<le> i"
  shows "ld16 i m' = ld16 i m"
  using assms by (auto simp: ld16_def wr_length wr_nth)

lemma ld16_st16:
  assumes "st16 off w m = Some m'"
  shows "ld16 off m' = Some w"
proof -
  have w: "wr off (le16 w) m = Some m'" using assms by (simp add: st16_def)
  have "off + 2 \<le> length m'" using wr_in_range [OF w] wr_length [OF w] by simp
  then have "m' ! off = le16 w ! 0" "m' ! (off + 1) = le16 w ! 1"
    using wr_length [OF w] by (simp_all add: wr_nth [OF w])
  with \<open>off + 2 \<le> length m'\<close> show ?thesis by (simp add: ld16_def)
qed

lemma ld32_st32:
  assumes "st32 off w m = Some m'"
  shows "ld32 off m' = Some w"
proof -
  have w: "wr off (le32 w) m = Some m'" using assms by (simp add: st32_def)
  have "off + 4 \<le> length m'" using wr_in_range [OF w] wr_length [OF w] by simp
  then have "m' ! off = le32 w ! 0" "m' ! (off + 1) = le32 w ! 1"
      "m' ! (off + 2) = le32 w ! 2" "m' ! (off + 3) = le32 w ! 3"
    using wr_length [OF w] by (simp_all add: wr_nth [OF w])
  with \<open>off + 4 \<le> length m'\<close> show ?thesis by (simp add: ld32_def)
qed

section \<open>Options and lists\<close>

lemma bind_SomeE:
  assumes "Option.bind x f = Some y"
  obtains z where "x = Some z" "f z = Some y"
  using assms by (cases x) auto

lemma bind_eq_Some_iff: "Option.bind x f = Some y \<longleftrightarrow> (\<exists>z. x = Some z \<and> f z = Some y)"
  by (cases x) auto

definition guard :: "bool \<Rightarrow> unit option" where
  "guard b = (if b then Some () else None)"

lemma guard_simps [simp]: "guard True = Some ()" "guard False = None"
  by (simp_all add: guard_def)

lemma guard_eq_Some [simp]: "guard b = Some u \<longleftrightarrow> b"
  by (simp add: guard_def)

end
