(* ===== verification/Inet.thy ===== *)
theory Inet
  imports Prelude
begin

text \<open>
  The network header vocabulary of \<open>lib/common/pg_inet.h\<close>: the packed header
  structures as field layouts (field name and byte size, in declaration
  order), the protocol constants, the address helpers \<open>mask_size\<close>,
  \<open>size_to_mask\<close>, \<open>inet_mtoh64\<close>, \<open>inet_h64tom\<close>, and the in-place
  copies and swaps of packet fields.  A MAC address is its six bytes.
\<close>

section \<open>Structure layouts\<close>

type_synonym layout = "(string \<times> nat) list"

primrec sizeof :: "layout \<Rightarrow> nat" where
  "sizeof [] = 0"
| "sizeof (f # fs) = snd f + sizeof fs"

primrec offsetof :: "layout \<Rightarrow> string \<Rightarrow> nat" where
  "offsetof [] x = 0"
| "offsetof (f # fs) x = (if fst f = x then 0 else snd f + offsetof fs x)"

definition ether_hdr :: layout where
  "ether_hdr = [(''d_addr'', 6), (''s_addr'', 6), (''ether_type'', 2)]"

definition ipHdr :: layout where
  "ipHdr = [(''vl'', 1), (''tos'', 1), (''tlen'', 2), (''ident'', 2), (''ffrag'', 2),
     (''ttl'', 1), (''proto'', 1), (''cksum'', 2), (''src'', 4), (''dst'', 4)]"

definition ipv6Hdr :: layout where
  "ipv6Hdr = [(''ver_tc_fl'', 4), (''payload_length'', 2), (''next_header'', 1),
     (''hop_limit'', 1), (''saddr'', 16), (''daddr'', 16)]"

definition gtpuHdr :: layout where
  "gtpuHdr = [(''version_flags'', 1), (''msg_type'', 1), (''tot_len'', 2), (''teid'', 4)]"

definition ipOverlay :: layout where
  "ipOverlay = [(''node'', 8), (''pad0'', 1), (''proto'', 1), (''len'', 2), (''src'', 4), (''dst'', 4)]"

definition ipv6Overlay :: layout where
  "ipv6Overlay = [(''saddr'', 16), (''daddr'', 16), (''tcp_length'', 4), (''zero'', 2),
     (''pad'', 1), (''next_header'', 1)]"

definition udpHdr :: layout where
  "udpHdr = [(''sport'', 2), (''dport'', 2), (''len'', 2), (''cksum'', 2)]"

definition tcpHdr :: layout where
  "tcpHdr = [(''sport'', 2), (''dport'', 2), (''seq'', 4), (''ack'', 4), (''offset'', 1),
     (''flags'', 1), (''window'', 2), (''cksum'', 2), (''urgent'', 2)]"

definition icmpv4Hdr_echo :: layout where
  "icmpv4Hdr_echo = [(''type'', 1), (''code'', 1), (''cksum'', 2), (''ident'', 2), (''seq'', 2),
     (''data'', 4)]"

definition icmpv4Hdr_timestamp :: layout where
  "icmpv4Hdr_timestamp = [(''type'', 1), (''code'', 1), (''cksum'', 2), (''ident'', 2), (''seq'', 2),
     (''originate'', 4), (''receive'', 4), (''transmit'', 4)]"

definition mplsHdr :: layout where
  "mplsHdr = [(''label'', 4)]"

definition qinqHdr :: layout where
  "qinqHdr = [(''qinq_tci'', 2), (''vlan_tpid'', 2), (''vlan_tci'', 2), (''eth_proto'', 2)]"

definition vlan_hdr :: layout where
  "vlan_hdr = [(''vlan_tci'', 2), (''eth_proto'', 2)]"

definition greHdr :: layout where
  "greHdr = [(''bits0'', 1), (''bits1'', 1), (''eth_type'', 2), (''extra_fields'', 12)]"

definition arpPkt :: layout where
  "arpPkt = [(''hrd'', 2), (''pro'', 2), (''hln'', 1), (''pln'', 1), (''op'', 2), (''sha'', 6),
     (''spa'', 4), (''tha'', 6), (''tpa'', 4)]"

definition udpip :: layout where "udpip = [(''ip'', sizeof ipOverlay), (''udp'', sizeof udpHdr)]"
definition tcpip :: layout where "tcpip = [(''ip'', sizeof ipOverlay), (''tcp'', sizeof tcpHdr)]"
definition udpipv6 :: layout where "udpipv6 = [(''ip'', sizeof ipv6Overlay), (''udp'', sizeof udpHdr)]"
definition tcpipv6 :: layout where "tcpipv6 = [(''ip'', sizeof ipv6Overlay), (''tcp'', sizeof tcpHdr)]"

definition gtpuUdpIp :: layout where
  "gtpuUdpIp = [(''ip'', sizeof ipOverlay), (''udp'', sizeof udpHdr), (''gtpu'', sizeof gtpuHdr)]"

definition gtpuTcpIp :: layout where
  "gtpuTcpIp = [(''ip'', sizeof ipOverlay), (''tcp'', sizeof tcpHdr), (''gtpu'', sizeof gtpuHdr)]"

definition greIp :: layout where "greIp = [(''ip'', sizeof ipHdr), (''gre'', sizeof greHdr)]"

definition greEther :: layout where
  "greEther = [(''ip'', sizeof ipHdr), (''gre'', sizeof greHdr), (''ether'', sizeof ether_hdr)]"

text \<open>\<open>pkt_hdr_t\<close>: the Ethernet header and a union whose largest member is the
  64 byte array \<open>pad\<close>, exceeded by none of the protocol views.\<close>

definition pkt_hdr :: layout where
  "pkt_hdr = [(''eth'', sizeof ether_hdr),
     (''u'', Max {sizeof ipHdr, sizeof ipv6Hdr, sizeof tcpip, sizeof udpip, sizeof gtpuUdpIp,
                  sizeof tcpipv6, sizeof udpipv6, 8 * 8})]"

lemmas struct_defs = ether_hdr_def ipHdr_def ipv6Hdr_def gtpuHdr_def ipOverlay_def
  ipv6Overlay_def udpHdr_def tcpHdr_def icmpv4Hdr_echo_def icmpv4Hdr_timestamp_def mplsHdr_def
  qinqHdr_def vlan_hdr_def greHdr_def arpPkt_def udpip_def tcpip_def udpipv6_def tcpipv6_def
  gtpuUdpIp_def gtpuTcpIp_def greIp_def greEther_def pkt_hdr_def

lemma sizeof_structs [layout, simp]:
  "sizeof ether_hdr = 14" "sizeof ipHdr = 20" "sizeof ipv6Hdr = 40" "sizeof gtpuHdr = 8"
  "sizeof ipOverlay = 20" "sizeof ipv6Overlay = 40" "sizeof udpHdr = 8" "sizeof tcpHdr = 20"
  "sizeof icmpv4Hdr_timestamp = 20" "sizeof mplsHdr = 4" "sizeof qinqHdr = 8" "sizeof vlan_hdr = 4"
  "sizeof greHdr = 16" "sizeof arpPkt = 28" "sizeof udpip = 28" "sizeof tcpip = 40"
  "sizeof udpipv6 = 48" "sizeof tcpipv6 = 60" "sizeof gtpuUdpIp = 36" "sizeof gtpuTcpIp = 48"
  "sizeof greIp = 36" "sizeof greEther = 50" "sizeof pkt_hdr = 78"
  by (simp_all add: struct_defs)

lemma offsetof_ether [layout, simp]:
  "offsetof ether_hdr ''d_addr'' = 0" "offsetof ether_hdr ''s_addr'' = 6"
  "offsetof ether_hdr ''ether_type'' = 12"
  by (simp_all add: ether_hdr_def)

lemma offsetof_ip [layout, simp]:
  "offsetof ipHdr ''vl'' = 0" "offsetof ipHdr ''tos'' = 1" "offsetof ipHdr ''tlen'' = 2"
  "offsetof ipHdr ''ident'' = 4" "offsetof ipHdr ''ffrag'' = 6" "offsetof ipHdr ''ttl'' = 8"
  "offsetof ipHdr ''proto'' = 9" "offsetof ipHdr ''cksum'' = 10" "offsetof ipHdr ''src'' = 12"
  "offsetof ipHdr ''dst'' = 16"
  by (simp_all add: ipHdr_def)

lemma offsetof_ipv6 [layout, simp]:
  "offsetof ipv6Hdr ''ver_tc_fl'' = 0" "offsetof ipv6Hdr ''payload_length'' = 4"
  "offsetof ipv6Hdr ''next_header'' = 6" "offsetof ipv6Hdr ''hop_limit'' = 7"
  "offsetof ipv6Hdr ''saddr'' = 8" "offsetof ipv6Hdr ''daddr'' = 24"
  by (simp_all add: ipv6Hdr_def)

lemma offsetof_overlay [layout, simp]:
  "offsetof ipOverlay ''node'' = 0" "offsetof ipOverlay ''pad0'' = 8"
  "offsetof ipOverlay ''proto'' = 9" "offsetof ipOverlay ''len'' = 10"
  "offsetof ipOverlay ''src'' = 12" "offsetof ipOverlay ''dst'' = 16"
  by (simp_all add: ipOverlay_def)

lemma offsetof_overlay6 [layout, simp]:
  "offsetof ipv6Overlay ''saddr'' = 0" "offsetof ipv6Overlay ''daddr'' = 16"
  "offsetof ipv6Overlay ''tcp_length'' = 32" "offsetof ipv6Overlay ''zero'' = 36"
  "offsetof ipv6Overlay ''pad'' = 38" "offsetof ipv6Overlay ''next_header'' = 39"
  by (simp_all add: ipv6Overlay_def)

lemma offsetof_l4 [layout, simp]:
  "offsetof udpHdr ''sport'' = 0" "offsetof udpHdr ''dport'' = 2" "offsetof udpHdr ''len'' = 4"
  "offsetof udpHdr ''cksum'' = 6"
  "offsetof tcpHdr ''sport'' = 0" "offsetof tcpHdr ''dport'' = 2" "offsetof tcpHdr ''seq'' = 4"
  "offsetof tcpHdr ''ack'' = 8" "offsetof tcpHdr ''offset'' = 12" "offsetof tcpHdr ''flags'' = 13"
  "offsetof tcpHdr ''window'' = 14" "offsetof tcpHdr ''cksum'' = 16" "offsetof tcpHdr ''urgent'' = 18"
  by (simp_all add: udpHdr_def tcpHdr_def)

lemma offsetof_tunnel [layout, simp]:
  "offsetof gtpuHdr ''version_flags'' = 0" "offsetof gtpuHdr ''msg_type'' = 1"
  "offsetof gtpuHdr ''tot_len'' = 2" "offsetof gtpuHdr ''teid'' = 4"
  "offsetof greHdr ''bits0'' = 0" "offsetof greHdr ''bits1'' = 1" "offsetof greHdr ''eth_type'' = 2"
  "offsetof greHdr ''extra_fields'' = 4"
  "offsetof vlan_hdr ''vlan_tci'' = 0" "offsetof vlan_hdr ''eth_proto'' = 2"
  "offsetof qinqHdr ''qinq_tci'' = 0" "offsetof qinqHdr ''vlan_tpid'' = 2"
  "offsetof qinqHdr ''vlan_tci'' = 4" "offsetof qinqHdr ''eth_proto'' = 6"
  "offsetof mplsHdr ''label'' = 0"
  by (simp_all add: struct_defs)

lemma offsetof_views [layout, simp]:
  "offsetof udpip ''ip'' = 0" "offsetof udpip ''udp'' = 20"
  "offsetof tcpip ''ip'' = 0" "offsetof tcpip ''tcp'' = 20"
  "offsetof udpipv6 ''ip'' = 0" "offsetof udpipv6 ''udp'' = 40"
  "offsetof tcpipv6 ''ip'' = 0" "offsetof tcpipv6 ''tcp'' = 40"
  "offsetof gtpuUdpIp ''ip'' = 0" "offsetof gtpuUdpIp ''udp'' = 20" "offsetof gtpuUdpIp ''gtpu'' = 28"
  "offsetof gtpuTcpIp ''ip'' = 0" "offsetof gtpuTcpIp ''tcp'' = 20" "offsetof gtpuTcpIp ''gtpu'' = 40"
  "offsetof greIp ''ip'' = 0" "offsetof greIp ''gre'' = 20"
  "offsetof greEther ''ip'' = 0" "offsetof greEther ''gre'' = 20" "offsetof greEther ''ether'' = 36"
  "offsetof pkt_hdr ''eth'' = 0" "offsetof pkt_hdr ''u'' = 14"
  by (simp_all add: udpip_def tcpip_def udpipv6_def tcpipv6_def gtpuUdpIp_def gtpuTcpIp_def
      greIp_def greEther_def pkt_hdr_def)

lemma offsetof_arp [layout, simp]:
  "offsetof arpPkt ''hrd'' = 0" "offsetof arpPkt ''pro'' = 2" "offsetof arpPkt ''hln'' = 4"
  "offsetof arpPkt ''pln'' = 5" "offsetof arpPkt ''op'' = 6" "offsetof arpPkt ''sha'' = 8"
  "offsetof arpPkt ''spa'' = 14" "offsetof arpPkt ''tha'' = 18" "offsetof arpPkt ''tpa'' = 24"
  "offsetof icmpv4Hdr_echo ''type'' = 0" "offsetof icmpv4Hdr_echo ''code'' = 1"
  "offsetof icmpv4Hdr_echo ''cksum'' = 2" "offsetof icmpv4Hdr_echo ''ident'' = 4"
  "offsetof icmpv4Hdr_echo ''seq'' = 6" "offsetof icmpv4Hdr_echo ''data'' = 8"
  "offsetof icmpv4Hdr_timestamp ''originate'' = 8"
  by (simp_all add: arpPkt_def icmpv4Hdr_echo_def icmpv4Hdr_timestamp_def)

section \<open>Protocol constants\<close>

definition PG_IPPROTO_ICMP :: u8 where "PG_IPPROTO_ICMP = 1"
definition PG_IPPROTO_TCP :: u8 where "PG_IPPROTO_TCP = 6"
definition PG_IPPROTO_UDP :: u8 where "PG_IPPROTO_UDP = 17"
definition PG_IPPROTO_GRE :: u8 where "PG_IPPROTO_GRE = 47"
definition PG_IPPROTO_L4_GTPU_PORT :: u16 where "PG_IPPROTO_L4_GTPU_PORT = 2152"
definition ETHER_TYPE_IPv4 :: u16 where "ETHER_TYPE_IPv4 = 0x0800"
definition ETHER_TYPE_IPv6 :: u16 where "ETHER_TYPE_IPv6 = 0x86DD"
definition ETHER_TYPE_ARP :: u16 where "ETHER_TYPE_ARP = 0x0806"
definition ETHER_TYPE_VLAN :: u16 where "ETHER_TYPE_VLAN = 0x8100"
definition ETHER_TYPE_MPLS_UNICAST :: u16 where "ETHER_TYPE_MPLS_UNICAST = 0x8847"
definition ETHER_TYPE_Q_IN_Q :: u16 where "ETHER_TYPE_Q_IN_Q = 0x88A8"
definition ETHER_TYPE_TRANSP_ETH_BR :: u16 where "ETHER_TYPE_TRANSP_ETH_BR = 0x6558"
definition INADDR_BROADCAST :: u32 where "INADDR_BROADCAST = 0xffffffff"
definition ICMP4_ECHO_REPLY :: int where "ICMP4_ECHO_REPLY = 0"
definition ICMP4_ECHO :: int where "ICMP4_ECHO = 8"
definition ARP_REQUEST :: u16 where "ARP_REQUEST = 1"
definition ARP_REPLY :: u16 where "ARP_REPLY = 2"
definition GRATUITOUS_ARP :: u32 where "GRATUITOUS_ARP = 5"

lemmas proto_consts = PG_IPPROTO_ICMP_def PG_IPPROTO_TCP_def PG_IPPROTO_UDP_def PG_IPPROTO_GRE_def
  PG_IPPROTO_L4_GTPU_PORT_def ETHER_TYPE_IPv4_def ETHER_TYPE_IPv6_def ETHER_TYPE_ARP_def
  ETHER_TYPE_VLAN_def ETHER_TYPE_MPLS_UNICAST_def ETHER_TYPE_Q_IN_Q_def ETHER_TYPE_TRANSP_ETH_BR_def

definition URG_FLAG :: u8 where "URG_FLAG = 0x20"
definition ACK_FLAG :: u8 where "ACK_FLAG = 0x10"
definition PSH_FLAG :: u8 where "PSH_FLAG = 0x08"
definition RST_FLAG :: u8 where "RST_FLAG = 0x04"
definition SYN_FLAG :: u8 where "SYN_FLAG = 0x02"
definition FIN_FLAG :: u8 where "FIN_FLAG = 0x01"

definition IPv4 :: "u32 \<Rightarrow> u32 \<Rightarrow> u32 \<Rightarrow> u32 \<Rightarrow> u32" where
  "IPv4 a b c d = push_bit 24 (a AND 0xff) OR push_bit 16 (b AND 0xff)
     OR push_bit 8 (c AND 0xff) OR (d AND 0xff)"

definition MPLS_SET_BOS :: "u32 \<Rightarrow> u32" where
  "MPLS_SET_BOS l = l OR push_bit 8 1"

definition MPLS_CLR_BOS :: "u32 \<Rightarrow> u32" where
  "MPLS_CLR_BOS l = l AND NOT (push_bit 8 1)"

lemma MPLS_BOS_bit: "bit (MPLS_SET_BOS l) 8" "\<not> bit (MPLS_CLR_BOS l) 8"
  by (simp_all add: MPLS_SET_BOS_def MPLS_CLR_BOS_def bit_simps)

section \<open>Netmask helpers\<close>

function mask_loop :: "u32 \<Rightarrow> nat \<Rightarrow> nat" where
  "mask_loop m i =
    (if i < 32 then if m AND push_bit (31 - i) 1 = 0 then i else mask_loop m (i + 1) else i)"
  by pat_completeness auto
termination by (relation "measure (\<lambda>(m, i). 32 - i)") auto

definition mask_size :: "u32 \<Rightarrow> nat" where
  "mask_size m =
    (if m = 0 then 0
     else if m = 0xFF000000 then 8
     else if m = 0xFFFF0000 then 16
     else if m = 0xFFFFFF00 then 24
     else if m = 0xFFFFFFFF then 32
     else mask_loop m 0)"

text \<open>The shift count \<open>31 - i\<close> of the source is negative, hence undefined, past 31.\<close>

function size_mask_loop :: "nat \<Rightarrow> nat \<Rightarrow> u32 \<Rightarrow> u32 option" where
  "size_mask_loop len i m =
    (if i < len then if i \<le> 31 then size_mask_loop len (i + 1) (m OR push_bit (31 - i) 1) else None
     else Some m)"
  by pat_completeness auto
termination by (relation "measure (\<lambda>(len, i, m). len - i)") auto

definition size_to_mask :: "int \<Rightarrow> u32 option" where
  "size_to_mask len =
    (if len = 0 then Some 0
     else if len = 8 then Some 0xFF000000
     else if len = 16 then Some 0xFFFF0000
     else if len = 24 then Some 0xFFFFFF00
     else if len = 32 then Some 0xFFFFFFFF
     else size_mask_loop (nat len) 0 0)"

declare mask_loop.simps [simp del] size_mask_loop.simps [simp del]

lemma word_bit_AND_eq_0 [simp]: "(m :: u32) AND push_bit k 1 = 0 \<longleftrightarrow> \<not> bit m k"
  by (simp add: and_exp_eq_0_iff_not_bit)

lemma mask_loop_spec:
  "i \<le> 32 \<Longrightarrow> (\<forall>j<i. bit m (31 - j)) \<Longrightarrow>
    mask_loop m i \<le> 32 \<and> (\<forall>j<mask_loop m i. bit m (31 - j)) \<and>
    (mask_loop m i < 32 \<longrightarrow> \<not> bit m (31 - mask_loop m i))"
proof (induction m i rule: mask_loop.induct)
  case (1 m i)
  show ?case
  proof (cases "i < 32 \<and> bit m (31 - i)")
    case True
    then have nz: "m AND push_bit (31 - i) 1 \<noteq> 0" by (simp add: and_exp_eq_0_iff_not_bit)
    have eq: "mask_loop m i = mask_loop m (i + 1)"
      using True nz by (subst mask_loop.simps) simp
    have "\<forall>j<i + 1. bit m (31 - j)" using 1(3) True by (auto simp: less_Suc_eq)
    then show ?thesis using 1(1) [OF _ nz] True unfolding eq by simp
  next
    case False
    then have eq: "mask_loop m i = i"
      by (subst mask_loop.simps) (auto simp: and_exp_eq_0_iff_not_bit)
    then show ?thesis using 1(2,3) False by auto
  qed
qed

lemma mask_consts:
  "(0xFF000000 :: u32) = push_bit 24 (mask 8)" "(0xFFFF0000 :: u32) = push_bit 16 (mask 16)"
  "(0xFFFFFF00 :: u32) = push_bit 8 (mask 24)" "(0xFFFFFFFF :: u32) = mask 32"
  by (simp_all add: mask_eq_decr_exp push_bit_eq_mult)

definition prefix_mask :: "nat \<Rightarrow> u32 \<Rightarrow> bool" where
  "prefix_mask n m \<longleftrightarrow> n \<le> 32 \<and> (\<forall>k. bit m k \<longleftrightarrow> 32 - n \<le> k \<and> k < 32)"

lemma prefix_mask_consts [simp]:
  "prefix_mask 0 0" "prefix_mask 8 0xFF000000" "prefix_mask 16 0xFFFF0000"
  "prefix_mask 24 0xFFFFFF00" "prefix_mask 32 0xFFFFFFFF"
  unfolding prefix_mask_def mask_consts by (auto simp: bit_simps)

lemma prefix_mask_bit: "prefix_mask n m \<Longrightarrow> bit m k \<longleftrightarrow> 32 - n \<le> k \<and> k < 32"
  by (simp add: prefix_mask_def)

lemma prefix_mask_le: "prefix_mask n m \<Longrightarrow> n \<le> 32"
  by (simp add: prefix_mask_def)

lemma prefix_mask_step:
  assumes "prefix_mask i m" "i \<le> 31"
  shows "prefix_mask (i + 1) (m OR push_bit (31 - i) 1)"
  unfolding prefix_mask_def
proof (intro conjI allI)
  fix k
  have "bit (m OR push_bit (31 - i) 1) k \<longleftrightarrow> bit m k \<or> k = 31 - i"
    using assms(2) by (auto simp: bit_simps)
  also have "\<dots> \<longleftrightarrow> 32 - (i + 1) \<le> k \<and> k < 32"
    unfolding prefix_mask_bit [OF assms(1)] using assms(2) by linarith
  finally show "bit (m OR push_bit (31 - i) 1) k \<longleftrightarrow> 32 - (i + 1) \<le> k \<and> k < 32" .
qed (use assms(2) in simp)

text \<open>\<open>mask_size\<close> is the number of leading one bits, for every mask.\<close>

lemma mask_size_leading_ones:
  "mask_size m \<le> 32 \<and> (\<forall>j<mask_size m. bit m (31 - j)) \<and>
   (mask_size m < 32 \<longrightarrow> \<not> bit m (31 - mask_size m))"
proof -
  have "mask_size m = mask_loop m 0 \<or> prefix_mask (mask_size m) m"
    by (simp add: mask_size_def)
  then show ?thesis
  proof
    assume "mask_size m = mask_loop m 0"
    then show ?thesis using mask_loop_spec [of 0 m] by simp
  next
    assume "prefix_mask (mask_size m) m"
    then show ?thesis using prefix_mask_le [of "mask_size m" m]
      by (auto simp: prefix_mask_bit)
  qed
qed

lemma size_mask_loop_prefix:
  "len \<le> 32 \<Longrightarrow> prefix_mask i m \<Longrightarrow> i \<le> len \<Longrightarrow>
    \<exists>r. size_mask_loop len i m = Some r \<and> prefix_mask len r"
proof (induction len i m rule: size_mask_loop.induct)
  case (1 len i m)
  show ?case
  proof (cases "i < len")
    case True
    with 1(2) have i: "i \<le> 31" by simp
    have "size_mask_loop len i m = size_mask_loop len (i + 1) (m OR push_bit (31 - i) 1)"
      using True i by (subst size_mask_loop.simps) (simp only: if_True)
    then show ?thesis using 1(1) [OF True i 1(2) prefix_mask_step [OF 1(3) i]] True by simp
  next
    case False
    then have "size_mask_loop len i m = Some m" by (simp add: size_mask_loop.simps)
    with False 1(3,4) show ?thesis by simp
  qed
qed

lemma size_mask_loop_undefined:
  "32 < len \<Longrightarrow> i \<le> 32 \<Longrightarrow> size_mask_loop len i m = None"
proof (induction len i m rule: size_mask_loop.induct)
  case (1 len i m)
  show ?case
  proof (cases "i \<le> 31")
    case True
    with 1(2) have "i < len" by simp
    have "size_mask_loop len i m = size_mask_loop len (i + 1) (m OR push_bit (31 - i) 1)"
      using True \<open>i < len\<close> by (subst size_mask_loop.simps) (simp only: if_True)
    then show ?thesis using 1(1) [OF \<open>i < len\<close> True 1(2)] True by simp
  next
    case False
    with 1(2,3) have "i < len" "\<not> i \<le> 31" by simp_all
    then show ?thesis by (subst size_mask_loop.simps) (simp only: if_True if_False)
  qed
qed

lemma size_to_mask_prefix:
  assumes "n \<le> 32"
  shows "\<exists>m. size_to_mask (int n) = Some m \<and> prefix_mask n m"
proof -
  have "prefix_mask 0 (0 :: u32)" by simp
  then show ?thesis
    using size_mask_loop_prefix [OF assms, of 0 0] assms by (auto simp: size_to_mask_def)
qed

text \<open>For every prefix length up to 32, \<open>size_to_mask\<close> returns a mask, and the
  \<open>mask_size\<close> of that mask is the length.\<close>

theorem mask_size_size_to_mask:
  assumes "n \<le> 32"
  shows "\<exists>m. size_to_mask (int n) = Some m \<and> mask_size m = n"
proof -
  obtain m where m: "size_to_mask (int n) = Some m" and p: "prefix_mask n m"
    using size_to_mask_prefix [OF assms] by blast
  let ?s = "mask_size m"
  note s = mask_size_leading_ones [of m]
  have "\<not> ?s < n"
  proof
    assume "?s < n"
    with assms have "32 - n \<le> 31 - ?s" "31 - ?s < 32" by linarith+
    then have "bit m (31 - ?s)" using prefix_mask_bit [OF p] by blast
    with s \<open>?s < n\<close> assms show False by auto
  qed
  moreover have "\<not> n < ?s"
  proof
    assume "n < ?s"
    then have "bit m (31 - n)" and "n < 32" using s by auto
    with prefix_mask_bit [OF p, of "31 - n"] show False by linarith
  qed
  ultimately show ?thesis using m by auto
qed

theorem mask_size_size_to_mask_witness:
  "\<exists>m. size_to_mask 20 = Some m \<and> mask_size m = 20"
  using mask_size_size_to_mask [of 20] by simp

section \<open>Ethernet addresses as numbers\<close>

type_synonym ether_addr = "u8 list"

definition inet_mtoh64 :: "ether_addr \<Rightarrow> u64" where
  "inet_mtoh64 e = push_bit 0 (ucast (e ! 5)) + push_bit 8 (ucast (e ! 4))
     + push_bit 16 (ucast (e ! 3)) + push_bit 24 (ucast (e ! 2))
     + push_bit 32 (ucast (e ! 1)) + push_bit 40 (ucast (e ! 0))"

definition inet_h64tom :: "u64 \<Rightarrow> ether_addr" where
  "inet_h64tom v = [ucast (drop_bit 40 v AND 0xFF), ucast (drop_bit 32 v AND 0xFF),
     ucast (drop_bit 24 v AND 0xFF), ucast (drop_bit 16 v AND 0xFF),
     ucast (drop_bit 8 v AND 0xFF), ucast (drop_bit 0 v AND 0xFF)]"

lemma length_inet_h64tom [simp]: "length (inet_h64tom v) = 6"
  by (simp add: inet_h64tom_def)

lemma mask_0xFF: "(0xFF :: 'a :: len word) = mask 8"
  by (simp add: mask_eq_decr_exp)

lemma ucast_and_FF: "(ucast ((w :: u64) AND 0xFF) :: u8) = ucast w"
  unfolding mask_0xFF by (rule bit_word_eqI) (auto simp: bit_simps)

text \<open>Adding a byte above the bits already used is the bitwise or of the two.\<close>

lemma add_byte_or:
  assumes "take_bit n (x :: u64) = x"
  shows "x + push_bit n (ucast (b :: u8)) = x OR push_bit n (ucast b)"
    and "n' = n + 8 \<Longrightarrow> take_bit n' (x + push_bit n (ucast b)) = x + push_bit n (ucast b)"
proof -
  have hi: "\<not> bit x k" if "n \<le> k" for k
    using assms that by (metis bit_take_bit_iff not_le)
  have "x AND push_bit n (ucast b) = 0"
    by (rule bit_word_eqI) (auto simp: bit_simps hi)
  then show or: "x + push_bit n (ucast (b :: u8)) = x OR push_bit n (ucast b)"
    by (simp add: disjunctive_add_eq_or)
  show "take_bit n' (x + push_bit n (ucast b)) = x + push_bit n (ucast b)" if "n' = n + 8"
    unfolding or that by (rule bit_word_eqI) (auto simp: bit_simps hi dest: bit_imp_le_length)
qed

lemma inet_mtoh64_or:
  "inet_mtoh64 e = ucast (e ! 5) OR push_bit 8 (ucast (e ! 4))
     OR push_bit 16 (ucast (e ! 3)) OR push_bit 24 (ucast (e ! 2))
     OR push_bit 32 (ucast (e ! 1)) OR push_bit 40 (ucast (e ! 0))"
proof -
  have 0: "take_bit 8 (ucast (e ! 5) :: u64) = ucast (e ! 5)"
    by (rule bit_word_eqI) (auto simp: bit_simps dest: bit_imp_le_length)
  note 1 = add_byte_or [OF 0, where b = "e ! 4"]
  have n: "(16 :: nat) = 8 + 8" "(24 :: nat) = 16 + 8" "(32 :: nat) = 24 + 8" "(40 :: nat) = 32 + 8"
    by simp_all
  note 2 = add_byte_or [OF 1(2) [OF n(1)], where b = "e ! 3"]
  note 3 = add_byte_or [OF 2(2) [OF n(2)], where b = "e ! 2"]
  note 4 = add_byte_or [OF 3(2) [OF n(3)], where b = "e ! 1"]
  note 5 = add_byte_or [OF 4(2) [OF n(4)], where b = "e ! 0"]
  show ?thesis
    unfolding inet_mtoh64_def push_bit_0_id id_apply
    unfolding 5(1) unfolding 4(1) unfolding 3(1) unfolding 2(1) unfolding 1(1)
    by (simp only: or.assoc)
qed

lemma ether_addr_expand:
  assumes "length e = 6"
  shows "e = [e ! 0, e ! 1, e ! 2, e ! 3, e ! 4, e ! 5]"
proof -
  obtain a b c d g h where "e = [a, b, c, d, g, h]"
    using assms by (auto simp: numeral_eq_Suc length_Suc_conv)
  then show ?thesis by simp
qed

lemma byte_split:
  fixes w :: u64
  assumes "w = ucast b OR push_bit 8 z"
  shows "(ucast w :: u8) = b" and "push_bit 8 (drop_bit 8 w) = push_bit 8 z"
  unfolding assms by (rule bit_word_eqI; auto simp: bit_simps dest: bit_imp_le_length)+

lemma bytes_of_mtoh64:
  "(ucast (drop_bit 40 (inet_mtoh64 e)) :: u8) = e ! 0"
  "(ucast (drop_bit 32 (inet_mtoh64 e)) :: u8) = e ! 1"
  "(ucast (drop_bit 24 (inet_mtoh64 e)) :: u8) = e ! 2"
  "(ucast (drop_bit 16 (inet_mtoh64 e)) :: u8) = e ! 3"
  "(ucast (drop_bit 8 (inet_mtoh64 e)) :: u8) = e ! 4"
  "(ucast (inet_mtoh64 e) :: u8) = e ! 5"
  unfolding inet_mtoh64_or
  by (rule bit_word_eqI; auto simp: bit_simps dest: bit_imp_le_length)+

lemma inet_h64tom_mtoh64:
  assumes "length e = 6"
  shows "inet_h64tom (inet_mtoh64 e) = e"
  using ether_addr_expand [OF assms]
  by (simp add: inet_h64tom_def ucast_and_FF bytes_of_mtoh64)

lemma bit_inet_h64tom:
  "i < 6 \<Longrightarrow> bit (inet_h64tom v ! i) k \<longleftrightarrow> k < 8 \<and> bit v (8 * (5 - i) + k)"
proof -
  assume "i < 6"
  then consider "i = 0" | "i = 1" | "i = 2" | "i = 3" | "i = 4" | "i = 5" by linarith
  then show ?thesis
    by cases (auto simp: inet_h64tom_def ucast_and_FF bit_simps ac_simps)
qed

lemma inet_mtoh64_h64tom: "inet_mtoh64 (inet_h64tom v) = take_bit 48 v"
proof (rule bit_word_eqI)
  fix k :: nat assume "k < LENGTH(64)"
  let ?w = "inet_mtoh64 (inet_h64tom v)"
  show "bit ?w k = bit (take_bit 48 v) k"
  proof (cases "k < 48")
    case True
    then have i: "5 - k div 8 < 6" "8 * (5 - (5 - k div 8)) + k mod 8 = k" by auto
    have "inet_h64tom ?w = inet_h64tom v" by (simp add: inet_h64tom_mtoh64)
    then have "bit (inet_h64tom ?w ! (5 - k div 8)) (k mod 8) = bit (inet_h64tom v ! (5 - k div 8)) (k mod 8)"
      by simp
    then show ?thesis using True i by (simp add: bit_inet_h64tom bit_take_bit_iff)
  next
    case False
    then show ?thesis unfolding inet_mtoh64_or
      by (auto simp: bit_simps dest: bit_imp_le_length)
  qed
qed

section \<open>Copies and swaps of packet fields\<close>

text \<open>The routines work through 16 bit (32 bit for IPv4 addresses) accesses; both
  swap operands lie in the packet buffer, a copy reads its source object.\<close>

definition ethAddrCopy :: "nat \<Rightarrow> ether_addr \<Rightarrow> mem \<Rightarrow> mem option" where
  "ethAddrCopy t f m = do {
     v \<leftarrow> ld16 0 f; m \<leftarrow> st16 t v m;
     v \<leftarrow> ld16 2 f; m \<leftarrow> st16 (t + 2) v m;
     v \<leftarrow> ld16 4 f; st16 (t + 4) v m }"

definition uint16Swap :: "nat \<Rightarrow> nat \<Rightarrow> mem \<Rightarrow> mem option" where
  "uint16Swap d s m = do {
     v \<leftarrow> ld16 d m; w \<leftarrow> ld16 s m;
     m \<leftarrow> st16 d w m; st16 s v m }"

definition ethAddrSwap :: "nat \<Rightarrow> nat \<Rightarrow> mem \<Rightarrow> mem option" where
  "ethAddrSwap d s m = do {
     m \<leftarrow> uint16Swap d s m;
     m \<leftarrow> uint16Swap (d + 2) (s + 2) m;
     uint16Swap (d + 4) (s + 4) m }"

definition inetAddrCopy :: "nat \<Rightarrow> mem \<Rightarrow> mem \<Rightarrow> mem option" where
  "inetAddrCopy t f m = do { v \<leftarrow> ld32 0 f; st32 t v m }"

definition inetAddrSwap :: "nat \<Rightarrow> nat \<Rightarrow> mem \<Rightarrow> mem option" where
  "inetAddrSwap d s m = do {
     v \<leftarrow> ld32 d m; w \<leftarrow> ld32 s m;
     m \<leftarrow> st32 d w m; st32 s v m }"

text \<open>What a swap of two disjoint \<open>n\<close>-byte fields leaves at every index.\<close>

definition swapped :: "nat \<Rightarrow> nat \<Rightarrow> nat \<Rightarrow> mem \<Rightarrow> mem \<Rightarrow> bool" where
  "swapped n d s m m' \<longleftrightarrow> length m' = length m \<and>
     (\<forall>i<length m. m' ! i = (if d \<le> i \<and> i < d + n then m ! (s + (i - d))
        else if s \<le> i \<and> i < s + n then m ! (d + (i - s)) else m ! i))"

lemma uint16Swap_swapped:
  assumes "d + 2 \<le> length m" "s + 2 \<le> length m" "d + 2 \<le> s \<or> s + 2 \<le> d"
  shows "\<exists>m'. uint16Swap d s m = Some m' \<and> swapped 2 d s m m'"
proof -
  obtain m1 where m1: "wr d (le16 (mk16 (m ! s) (m ! (s + 1)))) m = Some m1"
    using wr_total [of d "le16 (mk16 (m ! s) (m ! (s + 1)))" m] assms by auto
  obtain m2 where m2: "wr s (le16 (mk16 (m ! d) (m ! (d + 1)))) m1 = Some m2"
    using wr_total [of s "le16 (mk16 (m ! d) (m ! (d + 1)))" m1] assms wr_length [OF m1] by auto
  have "swapped 2 d s m m2"
    unfolding swapped_def
  proof (intro conjI allI impI)
    fix i assume i: "i < length m"
    consider "i = d" | "i = Suc d" | "i = s" | "i = Suc s"
      | "\<not> (d \<le> i \<and> i < d + 2)" "\<not> (s \<le> i \<and> i < s + 2)" by linarith
    then show "m2 ! i = (if d \<le> i \<and> i < d + 2 then m ! (s + (i - d))
        else if s \<le> i \<and> i < s + 2 then m ! (d + (i - s)) else m ! i)"
      by cases (use i assms(3) wr_length [OF m1] in \<open>auto simp: wr_nth [OF m2] wr_nth [OF m1]\<close>)
  qed (simp add: wr_length [OF m2] wr_length [OF m1])
  moreover have "uint16Swap d s m = Some m2"
    using assms m1 m2 by (simp add: uint16Swap_def ld16_def st16_def)
  ultimately show ?thesis by blast
qed

text \<open>Swaps of adjacent fields compose.\<close>

lemma swapped_append:
  assumes "swapped n d s m m1" "swapped k (d + n) (s + n) m1 m2"
    and "d + (n + k) \<le> s \<or> s + (n + k) \<le> d"
    and "d + (n + k) \<le> length m" "s + (n + k) \<le> length m"
  shows "swapped (n + k) d s m m2"
  unfolding swapped_def
proof (intro conjI allI impI)
  show "length m2 = length m" using assms(1,2) by (simp add: swapped_def)
  fix i assume i: "i < length m"
  have len: "length m1 = length m" using assms(1) by (simp add: swapped_def)
  have m1: "m1 ! j = (if d \<le> j \<and> j < d + n then m ! (s + (j - d))
        else if s \<le> j \<and> j < s + n then m ! (d + (j - s)) else m ! j)" if "j < length m" for j
    using assms(1) that by (simp add: swapped_def)
  have m2: "m2 ! j = (if d + n \<le> j \<and> j < d + n + k then m1 ! (s + n + (j - (d + n)))
        else if s + n \<le> j \<and> j < s + n + k then m1 ! (d + n + (j - (s + n))) else m1 ! j)"
    if "j < length m" for j
    using assms(2) that len by (simp add: swapped_def)
  consider (d1) j where "i = d + j" "j < n" | (d2) j where "i = d + n + j" "j < k"
    | (s1) j where "i = s + j" "j < n" | (s2) j where "i = s + n + j" "j < k"
    | (out) "\<not> (d \<le> i \<and> i < d + (n + k))" "\<not> (s \<le> i \<and> i < s + (n + k))"
    by (metis add.assoc le_iff_add nat_add_left_cancel_less not_le)
  then show "m2 ! i = (if d \<le> i \<and> i < d + (n + k) then m ! (s + (i - d))
        else if s \<le> i \<and> i < s + (n + k) then m ! (d + (i - s)) else m ! i)"
  proof cases
    case (d1 j) then show ?thesis using i assms(3-5) by (auto simp: m2 m1)
  next
    case (d2 j) then show ?thesis using i assms(3-5) by (auto simp: m2 m1 add.assoc)
  next
    case (s1 j) then show ?thesis using i assms(3-5) by (auto simp: m2 m1)
  next
    case (s2 j)
    then have i2: "m2 ! i = m1 ! (d + n + j)" using i assms(3) by (subst m2) auto
    have "m1 ! (d + n + j) = m ! (d + n + j)" using s2 assms(3,4) by (subst m1) auto
    moreover have "i - s = n + j" "s \<le> i" "i < s + (n + k)" using s2 by simp_all
    moreover have "\<not> (d \<le> i \<and> i < d + (n + k))" using s2 assms(3) by auto
    ultimately show ?thesis unfolding i2 by (simp only: if_False if_True simp_thms add.assoc)
  next
    case out
    then have "\<not> (d + n \<le> i \<and> i < d + n + k)" "\<not> (s + n \<le> i \<and> i < s + n + k)"
      "\<not> (d \<le> i \<and> i < d + n)" "\<not> (s \<le> i \<and> i < s + n)" by auto
    with out show ?thesis by (simp only: m2 [OF i] m1 [OF i] if_False)
  qed
qed

text \<open>\<open>ethAddrSwap\<close> exchanges two disjoint Ethernet addresses of a frame, byte by byte, and
  changes no other byte.\<close>

theorem ethAddrSwap_swapped:
  assumes "d + 6 \<le> length m" "s + 6 \<le> length m" "d + 6 \<le> s \<or> s + 6 \<le> d"
  shows "\<exists>m'. ethAddrSwap d s m = Some m' \<and> swapped 6 d s m m'"
proof -
  from uint16Swap_swapped [of d m s] assms obtain m1 where
    m1: "uint16Swap d s m = Some m1" "swapped 2 d s m m1" by auto
  have l1: "length m1 = length m" using m1(2) by (simp add: swapped_def)
  from uint16Swap_swapped [of "d + 2" m1 "s + 2"] assms l1 obtain m2 where
    m2: "uint16Swap (d + 2) (s + 2) m1 = Some m2" "swapped 2 (d + 2) (s + 2) m1 m2" by auto
  have disj: "d + (2 + 2) \<le> s \<or> s + (2 + 2) \<le> d" "d + (4 + 2) \<le> s \<or> s + (4 + 2) \<le> d"
    using assms(3) by linarith+
  have s4: "swapped 4 d s m m2"
    using swapped_append [OF m1(2) m2(2) disj(1)] assms(1,2) by simp
  have l2: "length m2 = length m" using s4 by (simp add: swapped_def)
  from uint16Swap_swapped [of "d + 4" m2 "s + 4"] assms l2 obtain m3 where
    m3: "uint16Swap (d + 4) (s + 4) m2 = Some m3" "swapped 2 (d + 4) (s + 4) m2 m3" by auto
  have "swapped 6 d s m m3"
    using swapped_append [OF s4 m3(2) disj(2)] assms(1,2) by simp
  then show ?thesis using m1(1) m2(1) m3(1) by (simp add: ethAddrSwap_def)
qed

theorem ethAddrSwap_swapped_witness:
  "\<exists>m'. ethAddrSwap 0 6 [1, 2, 3, 4, 5, 6, 7, 8, 9, 10, 11, 12, 13] = Some m'
    \<and> swapped 6 0 6 [1, 2, 3, 4, 5, 6, 7, 8, 9, 10, 11, 12, 13] m'"
  by (rule ethAddrSwap_swapped) simp_all

lemma ethAddrCopy_wr:
  assumes "length f = 6" "t + 6 \<le> length m"
  shows "ethAddrCopy t f m = wr t f m"
proof -
  obtain a b c d g h where "f = [a, b, c, d, g, h]"
    using assms(1) by (auto simp: numeral_eq_Suc length_Suc_conv)
  then show ?thesis using assms(2)
    by (simp add: ethAddrCopy_def ld16_def st16_def wr_def put_def min_def numeral_eq_Suc) arith
qed

text \<open>A MAC address survives the way to a number and back, and a number survives the way to
  a MAC address and back in its low 48 bits.\<close>

theorem mac_number_roundtrip:
  assumes "length e = 6"
  shows "inet_h64tom (inet_mtoh64 e) = e \<and> inet_mtoh64 (inet_h64tom v) = take_bit 48 v"
  using assms inet_h64tom_mtoh64 inet_mtoh64_h64tom by simp

theorem mac_number_roundtrip_witness:
  "inet_h64tom (inet_mtoh64 [2, 0, 0, 0, 0, 1]) = [2, 0, 0, 0, 0, 1]
    \<and> inet_mtoh64 (inet_h64tom 7) = take_bit 48 7"
  by (rule mac_number_roundtrip) simp

end
