(* ===== verification/PortData.thy ===== *)
theory PortData
  imports Complex_Main Inet
begin

text \<open>
  The data of the traffic generator (\<open>app/pktgen-seq.h\<close>,
  \<open>app/pktgen-range.h\<close>, \<open>app/pktgen-stats.h\<close>, \<open>app/pktgen-port-cfg.h\<close>,
  \<open>app/pktgen-random.h\<close>, \<open>app/pktgen-tool.h\<close>, \<open>app/pktgen.h\<close>): a packet
  template, the range description, the state of a port and of a queue, the
  program's global state, with the constants and flag bits.  A sequence array
  \<open>seq_pkt\<close> is the list of its templates and \<open>[]\<close> is the NULL pointer of a
  port that is not configured.  \<open>hdr\<close> is the byte image of \<open>pkt_hdr_t\<close> and
  of the padding that follows it, whose length \<open>MBUF_SIZE\<close> is chosen by DPDK.
\<close>

section \<open>Constants\<close>

definition NUM_SEQ_PKTS :: nat where "NUM_SEQ_PKTS = 16"
definition NUM_EXTRA_TX_PKTS :: nat where "NUM_EXTRA_TX_PKTS = 8"
definition FIRST_SEQ_PKT :: nat where "FIRST_SEQ_PKT = 0"
definition SINGLE_PKT :: nat where "SINGLE_PKT = FIRST_SEQ_PKT + NUM_SEQ_PKTS"
definition PING_PKT :: nat where "PING_PKT = SINGLE_PKT + 1"
definition RANGE_PKT :: nat where "RANGE_PKT = PING_PKT + 1"
definition DUMP_PKT :: nat where "DUMP_PKT = RANGE_PKT + 1"
definition EXTRA_TX_PKT :: nat where "EXTRA_TX_PKT = DUMP_PKT + 1"
definition NUM_TOTAL_PKTS :: nat where "NUM_TOTAL_PKTS = EXTRA_TX_PKT + NUM_EXTRA_TX_PKTS"

lemma pkt_index_values [simp]:
  "NUM_SEQ_PKTS = 16" "FIRST_SEQ_PKT = 0" "SINGLE_PKT = 16" "PING_PKT = 17" "RANGE_PKT = 18"
  "DUMP_PKT = 19" "EXTRA_TX_PKT = 20" "NUM_EXTRA_TX_PKTS = 8" "NUM_TOTAL_PKTS = 28"
  by (simp_all add: NUM_SEQ_PKTS_def FIRST_SEQ_PKT_def SINGLE_PKT_def PING_PKT_def RANGE_PKT_def
      DUMP_PKT_def EXTRA_TX_PKT_def NUM_EXTRA_TX_PKTS_def NUM_TOTAL_PKTS_def)

text \<open>\<open>ETHER_MIN_LEN\<close> and \<open>ETHER_MAX_LEN\<close> are the frame sizes of \<open>rte_ether.h\<close>.\<close>

definition ETHER_MIN_LEN :: u16 where "ETHER_MIN_LEN = 64"
definition ETHER_MAX_LEN :: u16 where "ETHER_MAX_LEN = 1518"
definition INTER_FRAME_GAP :: u64 where "INTER_FRAME_GAP = 12"
definition PKT_PREAMBLE_SIZE :: u64 where "PKT_PREAMBLE_SIZE = 8"
definition FCS_SIZE :: u16 where "FCS_SIZE = 4"
definition MIN_PKT_SIZE :: u16 where "MIN_PKT_SIZE = ETHER_MIN_LEN - FCS_SIZE"
definition MAX_PKT_SIZE :: u16 where "MAX_PKT_SIZE = ETHER_MAX_LEN - FCS_SIZE"
definition MIN_v6_PKT_SIZE :: u16 where "MIN_v6_PKT_SIZE = 78 - FCS_SIZE"
definition DEFAULT_PKT_BURST :: u16 where "DEFAULT_PKT_BURST = 64"
definition MAX_PRIME_COUNT :: u16 where "MAX_PRIME_COUNT = 4"
definition NUM_Q :: nat where "NUM_Q = 8"
definition MAX_DUMP_PACKETS :: nat where "MAX_DUMP_PACKETS = 32"
definition MIN_VLAN_ID :: u16 where "MIN_VLAN_ID = 1"
definition MAX_VLAN_ID :: u16 where "MAX_VLAN_ID = 4095"
definition MIN_COS :: u8 where "MIN_COS = 0"
definition MAX_COS :: u8 where "MAX_COS = 7"
definition MIN_TOS :: u8 where "MIN_TOS = 0"
definition MAX_TOS :: u8 where "MAX_TOS = 255"
definition DEFAULT_PKT_NUMBER :: u32 where "DEFAULT_PKT_NUMBER = 0x012345678"
definition DEFAULT_ACK_NUMBER :: u32 where "DEFAULT_ACK_NUMBER = 0x012345690"
definition DEFAULT_WND_SIZE :: u16 where "DEFAULT_WND_SIZE = 8192"
definition DEFAULT_NETMASK :: u32 where "DEFAULT_NETMASK = 0xFFFFFF00"
definition DEFAULT_SRC_PORT :: u16 where "DEFAULT_SRC_PORT = 1234"
definition DEFAULT_DST_PORT :: u16 where "DEFAULT_DST_PORT = 5678"
definition DEFAULT_PORTS_PER_PAGE :: nat where "DEFAULT_PORTS_PER_PAGE = 4"

lemmas size_consts = ETHER_MIN_LEN_def ETHER_MAX_LEN_def FCS_SIZE_def MIN_PKT_SIZE_def
  MAX_PKT_SIZE_def MIN_v6_PKT_SIZE_def INTER_FRAME_GAP_def PKT_PREAMBLE_SIZE_def

lemmas field_consts = MIN_VLAN_ID_def MAX_VLAN_ID_def MIN_COS_def MAX_COS_def MIN_TOS_def
  MAX_TOS_def DEFAULT_PKT_BURST_def MAX_PRIME_COUNT_def NUM_Q_def

section \<open>Flag bits\<close>

text \<open>Per port flags.\<close>

definition SEND_ARP_REQUEST :: u32 where "SEND_ARP_REQUEST = 0x00000001"
definition SEND_GRATUITOUS_ARP :: u32 where "SEND_GRATUITOUS_ARP = 0x00000002"
definition ICMP_ECHO_ENABLE_FLAG :: u32 where "ICMP_ECHO_ENABLE_FLAG = 0x00000004"
definition SEND_PCAP_PKTS :: u32 where "SEND_PCAP_PKTS = 0x00000008"
definition SEND_RANGE_PKTS :: u32 where "SEND_RANGE_PKTS = 0x00000010"
definition SEND_SEQ_PKTS :: u32 where "SEND_SEQ_PKTS = 0x00000020"
definition PROCESS_INPUT_PKTS :: u32 where "PROCESS_INPUT_PKTS = 0x00000040"
definition SEND_PING4_REQUEST :: u32 where "SEND_PING4_REQUEST = 0x00000080"
definition SEND_PING6_REQUEST :: u32 where "SEND_PING6_REQUEST = 0x00000100"
definition PROCESS_RX_TAP_PKTS :: u32 where "PROCESS_RX_TAP_PKTS = 0x00000200"
definition PROCESS_TX_TAP_PKTS :: u32 where "PROCESS_TX_TAP_PKTS = 0x00000400"
definition SEND_VLAN_ID :: u32 where "SEND_VLAN_ID = 0x00000800"
definition PROCESS_GARP_PKTS :: u32 where "PROCESS_GARP_PKTS = 0x00001000"
definition CAPTURE_PKTS :: u32 where "CAPTURE_PKTS = 0x00002000"
definition SEND_MPLS_LABEL :: u32 where "SEND_MPLS_LABEL = 0x00004000"
definition SEND_Q_IN_Q_IDS :: u32 where "SEND_Q_IN_Q_IDS = 0x00008000"
definition SEND_GRE_IPv4_HEADER :: u32 where "SEND_GRE_IPv4_HEADER = 0x00010000"
definition SEND_RANDOM_PKTS :: u32 where "SEND_RANDOM_PKTS = 0x00020000"
definition SEND_GRE_ETHER_HEADER :: u32 where "SEND_GRE_ETHER_HEADER = 0x00040000"
definition SEND_LATENCY_PKTS :: u32 where "SEND_LATENCY_PKTS = 0x00080000"
definition BONDING_TX_PACKETS :: u32 where "BONDING_TX_PACKETS = 0x00100000"
definition SEND_SHORT_PACKETS :: u32 where "SEND_SHORT_PACKETS = 0x00200000"
definition SENDING_PACKETS :: u32 where "SENDING_PACKETS = 0x40000000"
definition SEND_FOREVER :: u32 where "SEND_FOREVER = 0x80000000"
definition SEND_ARP_PING_REQUESTS :: u32 where
  "SEND_ARP_PING_REQUESTS =
    SEND_ARP_REQUEST OR SEND_GRATUITOUS_ARP OR SEND_PING4_REQUEST OR SEND_PING6_REQUEST"

lemmas port_flag_defs = SEND_ARP_REQUEST_def SEND_GRATUITOUS_ARP_def ICMP_ECHO_ENABLE_FLAG_def
  SEND_PCAP_PKTS_def SEND_RANGE_PKTS_def SEND_SEQ_PKTS_def PROCESS_INPUT_PKTS_def
  SEND_PING4_REQUEST_def SEND_PING6_REQUEST_def PROCESS_RX_TAP_PKTS_def PROCESS_TX_TAP_PKTS_def
  SEND_VLAN_ID_def PROCESS_GARP_PKTS_def CAPTURE_PKTS_def SEND_MPLS_LABEL_def SEND_Q_IN_Q_IDS_def
  SEND_GRE_IPv4_HEADER_def SEND_RANDOM_PKTS_def SEND_GRE_ETHER_HEADER_def SEND_LATENCY_PKTS_def
  BONDING_TX_PACKETS_def SEND_SHORT_PACKETS_def SENDING_PACKETS_def SEND_FOREVER_def

text \<open>Queue flags.\<close>

definition CLEAR_FAST_ALLOC_FLAG :: u32 where "CLEAR_FAST_ALLOC_FLAG = 1"
definition DO_TX_FLUSH :: u32 where "DO_TX_FLUSH = 2"

text \<open>Program flags.\<close>

definition PRINT_LABELS_FLAG :: u32 where "PRINT_LABELS_FLAG = push_bit 0 1"
definition MAC_FROM_ARP_FLAG :: u32 where "MAC_FROM_ARP_FLAG = push_bit 1 1"
definition PROMISCUOUS_ON_FLAG :: u32 where "PROMISCUOUS_ON_FLAG = push_bit 2 1"
definition BLINK_PORTS_FLAG :: u32 where "BLINK_PORTS_FLAG = push_bit 10 1"
definition CONFIG_PAGE_FLAG :: u32 where "CONFIG_PAGE_FLAG = push_bit 16 1"
definition SEQUENCE_PAGE_FLAG :: u32 where "SEQUENCE_PAGE_FLAG = push_bit 17 1"
definition RANGE_PAGE_FLAG :: u32 where "RANGE_PAGE_FLAG = push_bit 18 1"
definition PCAP_PAGE_FLAG :: u32 where "PCAP_PAGE_FLAG = push_bit 19 1"
definition CPU_PAGE_FLAG :: u32 where "CPU_PAGE_FLAG = push_bit 20 1"
definition RND_BITFIELD_PAGE_FLAG :: u32 where "RND_BITFIELD_PAGE_FLAG = push_bit 21 1"
definition LOG_PAGE_FLAG :: u32 where "LOG_PAGE_FLAG = push_bit 22 1"
definition LATENCY_PAGE_FLAG :: u32 where "LATENCY_PAGE_FLAG = push_bit 23 1"
definition STATS_PAGE_FLAG :: u32 where "STATS_PAGE_FLAG = push_bit 24 1"
definition UPDATE_DISPLAY_FLAG :: u32 where "UPDATE_DISPLAY_FLAG = push_bit 31 1"

definition PAGE_MASK_BITS :: u32 where
  "PAGE_MASK_BITS = CONFIG_PAGE_FLAG OR SEQUENCE_PAGE_FLAG OR RANGE_PAGE_FLAG OR PCAP_PAGE_FLAG
     OR CPU_PAGE_FLAG OR RND_BITFIELD_PAGE_FLAG OR LOG_PAGE_FLAG OR LATENCY_PAGE_FLAG
     OR STATS_PAGE_FLAG"

lemmas page_flag_defs = CONFIG_PAGE_FLAG_def SEQUENCE_PAGE_FLAG_def RANGE_PAGE_FLAG_def
  PCAP_PAGE_FLAG_def CPU_PAGE_FLAG_def RND_BITFIELD_PAGE_FLAG_def LOG_PAGE_FLAG_def
  LATENCY_PAGE_FLAG_def STATS_PAGE_FLAG_def

section \<open>Packet template\<close>

text \<open>The address union: the first four bytes of the IPv6 address are the IPv4 one.\<close>

record cmdline_ipaddr =
  s_addr :: u32
  s6_tail :: "u8 list"
  prefixlen :: u32

definition s6_addr :: "cmdline_ipaddr \<Rightarrow> u8 list" where
  "s6_addr a = le32 (s_addr a) @ s6_tail a"

record pkt_seq =
  eth_dst_addr :: ether_addr
  eth_src_addr :: ether_addr
  ip_src_addr :: cmdline_ipaddr
  ip_dst_addr :: cmdline_ipaddr
  ip_mask :: u32
  sport :: u16
  dport :: u16
  ethType :: u16
  ipProto :: u16
  vlanid :: u16
  pkt_cos :: u8
  tos :: u8
  ether_hdr_size :: u16
  mpls_entry :: u32
  qinq_outerid :: u16
  qinq_innerid :: u16
  gre_key :: u32
  pktSize :: u16
  gtpu_teid :: u32
  seq_enabled :: u8
  hdr :: mem

section \<open>Range description\<close>

record range_info =
  src_ip_inc :: u32
  dst_ip_inc :: u32
  src_port_inc :: u16
  dst_port_inc :: u16
  vlan_id_inc :: u16
  tos_inc :: u16
  cos_inc :: u16
  pkt_size_inc :: u16
  src_mac_inc :: u64
  dst_mac_inc :: u64
  src_ip :: u32
  src_ip_min :: u32
  src_ip_max :: u32
  dst_ip :: u32
  dst_ip_min :: u32
  dst_ip_max :: u32
  ip_proto :: u16
  src_port :: u16
  src_port_min :: u16
  src_port_max :: u16
  dst_port :: u16
  dst_port_min :: u16
  dst_port_max :: u16
  vlan_id :: u16
  vlan_id_min :: u16
  vlan_id_max :: u16
  rcos :: u8
  cos_min :: u8
  cos_max :: u8
  rtos :: u8
  tos_min :: u8
  tos_max :: u8
  pkt_size :: u16
  pkt_size_min :: u16
  pkt_size_max :: u16
  dst_mac :: u64
  dst_mac_min :: u64
  dst_mac_max :: u64
  src_mac :: u64
  src_mac_min :: u64
  src_mac_max :: u64
  rgtpu_teid :: u32
  gtpu_teid_inc :: u32
  gtpu_teid_min :: u32
  gtpu_teid_max :: u32

section \<open>Random bitfields\<close>

definition MAX_RND_BITFIELDS :: nat where "MAX_RND_BITFIELDS = 32"

record bf_spec =
  offset :: u8
  andMask :: u32
  orMask :: u32
  rndMask :: u32

record rnd_bits =
  active_specs :: u32
  specs :: "bf_spec list"

section \<open>Statistics\<close>

record port_sizes =
  sz_64 :: u64
  sz_65_127 :: u64
  sz_128_255 :: u64
  sz_256_511 :: u64
  sz_512_1023 :: u64
  sz_1024_1518 :: u64
  broadcast :: u64
  multicast :: u64
  jumbo :: u64
  runt :: u64

record pkt_stats =
  arp_pkts :: u64
  echo_pkts :: u64
  ip_pkts :: u64
  ipv6_pkts :: u64
  vlan_pkts :: u64
  dropped_pkts :: u64
  unknown_pkts :: u64
  tx_failed :: u64
  st_imissed :: u64
  ibadcrc :: u64
  ibadlen :: u64
  rx_nombuf :: u64

text \<open>\<open>struct rte_eth_stats\<close>: the counters of it that the program uses.\<close>

record eth_stats =
  ipackets :: u64
  opackets :: u64
  ibytes :: u64
  obytes :: u64
  imissed :: u64
  ierrors :: u64
  oerrors :: u64
  rx_nombufs :: u64

definition zero_eth_stats :: eth_stats where
  "zero_eth_stats = \<lparr>ipackets = 0, opackets = 0, ibytes = 0, obytes = 0, imissed = 0, ierrors = 0,
     oerrors = 0, rx_nombufs = 0\<rparr>"

definition zero_pkt_stats :: pkt_stats where
  "zero_pkt_stats = \<lparr>arp_pkts = 0, echo_pkts = 0, ip_pkts = 0, ipv6_pkts = 0, vlan_pkts = 0,
     dropped_pkts = 0, unknown_pkts = 0, tx_failed = 0, st_imissed = 0, ibadcrc = 0, ibadlen = 0,
     rx_nombuf = 0\<rparr>"

definition zero_port_sizes :: port_sizes where
  "zero_port_sizes = \<lparr>sz_64 = 0, sz_65_127 = 0, sz_128_255 = 0, sz_256_511 = 0, sz_512_1023 = 0,
     sz_1024_1518 = 0, broadcast = 0, multicast = 0, jumbo = 0, runt = 0\<rparr>"

section \<open>Ports and queues\<close>

datatype fill_t = ZERO_FILL_PATTERN | ABC_FILL_PATTERN | USER_FILL_PATTERN | NO_FILL_PATTERN

definition USER_PATTERN_SIZE :: nat where "USER_PATTERN_SIZE = 16"

text \<open>A packet buffer (\<open>struct rte_mbuf\<close>): its address, the bytes from the start of the packet
  to the end of the buffer (the packet starts at the default headroom), the two length fields, the
  reference count and the input port.\<close>

record mbuf =
  mid :: nat
  mdata :: mem
  mpkt_len :: u32
  mdata_len :: u16
  mrefcnt :: u16
  mport :: u16

text \<open>A queue: its flag word, the packet buffers waiting for transmission and its packet
  counters.\<close>

record q_info =
  qflags :: u32
  tx_mbufs :: "mbuf list"
  tx_cnt :: u64
  rx_cnt :: u64

text \<open>The part of \<open>pcap_info_t\<close> that the sender and the pages use.\<close>

record pcap_info =
  pcap_pkt_size :: u32
  pcap_pkt_count :: u32
  pcap_pkt_idx :: u32

record port_info =
  pid :: u16
  tx_burst :: u16
  tx_rate :: rat
  port_flags :: u32
  transmit_count :: u64
  current_tx_count :: u64
  tx_cycles :: u64
  tx_pps :: u64
  delta :: u64
  tx_count :: u64
  seqIdx :: u16
  seqCnt :: u16
  prime_cnt :: u16
  pvlanid :: u16
  pcos :: u8
  ptos :: u8
  seq_pkt :: "pkt_seq list"
  range :: range_info
  pmpls_entry :: u32
  pgre_key :: u32
  max_latency :: u64
  avg_latency :: u64
  min_latency :: u64
  magic_errors :: u32
  latency_nb_pkts :: u32
  jitter_threshold :: u64
  jitter_threshold_clks :: u64
  jitter_count :: u64
  stats :: pkt_stats
  sizes :: port_sizes
  init_stats :: eth_stats
  prev_stats :: eth_stats
  rate_stats :: eth_stats
  max_ipackets :: u64
  max_opackets :: u64
  max_missed :: u64
  link_speed :: u32
  link_status :: bool
  q :: "q_info list"
  pcap :: "pcap_info option"
  dump_list :: "mem option list"
  dump_head :: u8
  dump_tail :: u8
  dump_count :: u8
  rnd_bitfields :: "rnd_bits option"
  user_pattern :: string
  fill_pattern_type :: fill_t

section \<open>Global state\<close>

record gtpu_params =
  no_of_enb :: u32
  enb_start_ip :: u32
  enb_end_ip :: u32
  no_of_ue :: u32
  ue_start_ip :: u32
  ue_end_ip :: u32
  as_srvr_start_ip :: u32
  as_srvr_end_ip :: u32
  s1u_sgw_ip :: u32
  enb_teid :: u32
  s1u_teid :: u32

definition IL_TRAFFIC_GEN :: u8 where "IL_TRAFFIC_GEN = 0"
definition IL_TRAFFIC_RESP :: u8 where "IL_TRAFFIC_RESP = 1"
definition IL_TRAFFIC_RESP_AS_REF :: u8 where "IL_TRAFFIC_RESP_AS_REF = 2"

text \<open>The global variables: the \<open>pktgen\<close> structure and the variables of the
  traffic tool (\<open>app/pktgen-tool.h\<close>).\<close>

record glob =
  flags :: u32
  ident :: u16
  nb_ports :: u16
  starting_port :: u8
  ending_port :: u8
  nb_ports_per_page :: u8
  portNum :: u16
  blinklist :: u32
  hz :: u64
  cumm_rate_totals :: eth_stats
  max_total_ipackets :: u64
  max_total_opackets :: u64
  is_gui_running :: bool
  enable_gtpu :: u8
  traffic_gen_as :: u8
  start_ip :: u32
  end_ip :: u32
  subs :: u64
  tool_pkt_size :: u64
  gtpu_info :: gtpu_params

definition wf_pkt :: "nat \<Rightarrow> pkt_seq \<Rightarrow> bool" where
  "wf_pkt sz p \<longleftrightarrow> length (eth_dst_addr p) = 6 \<and> length (eth_src_addr p) = 6
     \<and> length (s6_tail (ip_src_addr p)) = 12 \<and> length (s6_tail (ip_dst_addr p)) = 12
     \<and> length (hdr p) = sz"

text \<open>A configured port: every template of the array exists.\<close>

definition wf_port :: "nat \<Rightarrow> port_info \<Rightarrow> bool" where
  "wf_port sz i \<longleftrightarrow> length (seq_pkt i) = NUM_TOTAL_PKTS \<and> list_all (wf_pkt sz) (seq_pkt i)
     \<and> length (q i) = NUM_Q"

lemma wf_port_nth [intro]:
  "wf_port sz i \<Longrightarrow> k < NUM_TOTAL_PKTS \<Longrightarrow> wf_pkt sz (seq_pkt i ! k)"
  by (simp add: wf_port_def list_all_length)

definition has_flag :: "u32 \<Rightarrow> u32 \<Rightarrow> bool" where
  "has_flag w f \<longleftrightarrow> w AND f \<noteq> 0"

end
