(* ===== verification/CLib.thy ===== *)
theory CLib
  imports PortData
begin

text \<open>
  The functions of the C library that the modelled code calls on strings: \<open>strtok\<close> and
  \<open>inet_aton\<close>, after their documentation.  A C string is the list of the characters
  before its NUL.
\<close>

section \<open>Tokens\<close>

text \<open>The next token and what remains after its delimiter; None is the NULL pointer.\<close>

definition strtok :: "char set \<Rightarrow> string \<Rightarrow> string option \<times> string" where
  "strtok d s = (let s = dropWhile (\<lambda>c. c \<in> d) s in
     if s = [] then (None, [])
     else (Some (takeWhile (\<lambda>c. c \<notin> d) s), drop 1 (dropWhile (\<lambda>c. c \<notin> d) s)))"

lemma strtok_token: "strtok d s = (Some t, r) \<Longrightarrow> t \<noteq> [] \<and> set t \<inter> d = {}"
proof -
  assume "strtok d s = (Some t, r)"
  then obtain c u where cu: "dropWhile (\<lambda>c. c \<in> d) s = c # u" "t = takeWhile (\<lambda>c. c \<notin> d) (c # u)"
    by (cases "dropWhile (\<lambda>c. c \<in> d) s") (auto simp: strtok_def)
  then have "c \<notin> d" by (metis hd_dropWhile list.distinct(1) list.sel(1))
  with cu show ?thesis by (auto dest: set_takeWhileD)
qed

section \<open>Numbers\<close>

definition digit_val :: "char \<Rightarrow> nat option" where
  "digit_val c = (let n = of_char c :: nat in
     if 48 \<le> n \<and> n \<le> 57 then Some (n - 48)
     else if 97 \<le> n \<and> n \<le> 102 then Some (n - 87)
     else if 65 \<le> n \<and> n \<le> 70 then Some (n - 55) else None)"

definition is_digit_of :: "nat \<Rightarrow> char \<Rightarrow> bool" where
  "is_digit_of b c = (case digit_val c of None \<Rightarrow> False | Some v \<Rightarrow> v < b)"

definition num_val :: "nat \<Rightarrow> string \<Rightarrow> nat" where
  "num_val b ds = foldl (\<lambda>n c. n * b + (case digit_val c of None \<Rightarrow> 0 | Some v \<Rightarrow> v)) 0 ds"

text \<open>The value of the longest number at the start of the string, in the base that its prefix
  selects, and the rest.\<close>

definition scan_num :: "string \<Rightarrow> nat \<times> string" where
  "scan_num s = (let (b, s') =
       (case s of
          z # x # h # r \<Rightarrow>
            if z = CHR ''0'' \<and> (x = CHR ''x'' \<or> x = CHR ''X'') \<and> is_digit_of 16 h then (16, h # r)
            else if z = CHR ''0'' then (8, s) else (10, s)
        | z # r \<Rightarrow> if z = CHR ''0'' then (8, s) else (10, s)
        | [] \<Rightarrow> (10, s))
     in (num_val b (takeWhile (is_digit_of b) s'), dropWhile (is_digit_of b) s'))"

section \<open>Addresses\<close>

text \<open>\<open>inet_aton\<close>: at most four parts; all but the last are bytes and the last fills the
  rest.  The result is in host order here, and None is the return value 0.\<close>

fun aton_parts :: "nat \<Rightarrow> nat \<Rightarrow> string \<Rightarrow> nat option" where
  "aton_parts 0 acc s = None"
| "aton_parts (Suc k) acc s =
    (case s of [] \<Rightarrow> None | c # _ \<Rightarrow>
       if \<not> is_digit_of 10 c then None
       else let (v, r) = scan_num s in
         case r of
           [] \<Rightarrow> if v < 256 ^ Suc k then Some (acc * 256 ^ Suc k + v) else None
         | d # r' \<Rightarrow>
             if d = CHR ''.'' then if v < 256 then aton_parts k (acc * 256 + v) r' else None
             else if d \<in> {CHR '' '', CHR 0x09, CHR 0x0A, CHR 0x0B, CHR 0x0C, CHR 0x0D} \<and> v < 256 ^ Suc k
             then Some (acc * 256 ^ Suc k + v) else None)"

definition inet_aton :: "string \<Rightarrow> u32 option" where
  "inet_aton s = map_option word_of_nat (aton_parts 4 0 s)"

text \<open>What the call leaves in the variable, in network order: nothing is stored on an error.\<close>

definition aton_store :: "string \<Rightarrow> u32 \<Rightarrow> u32" where
  "aton_store s old = (case inet_aton s of None \<Rightarrow> old | Some a \<Rightarrow> htonl a)"

lemma four_parts: "aton_parts 4 = aton_parts (Suc (Suc (Suc (Suc 0))))"
  by (simp add: numeral_eq_Suc)

lemmas aton_eval = inet_aton_def four_parts scan_num_def is_digit_of_def digit_val_def num_val_def

lemma inet_aton_examples:
  "inet_aton ''10.0.0.1'' = Some 0x0A000001" "inet_aton ''16.0.0.300'' = None" "inet_aton ''0x10.1'' = Some 0x10000001"
  by (simp_all add: aton_eval)

end
