(* ===== verification/Samples.thy ===== *)
theory Samples
  imports PortData
begin

text \<open>
  Sample values: a template, a range, a configured port and a global state, on which the
  theorems of the development are applied.  The port is the one that the console shows
  after \<open>pktgen_port_defaults\<close>: 192.168.0.1 sends to 192.168.1.1 over TCP.
\<close>

definition sample_ip :: "u32 \<Rightarrow> cmdline_ipaddr" where
  "sample_ip a = \<lparr>s_addr = a, s6_tail = replicate 12 0, prefixlen = 24\<rparr>"

definition sample_pkt :: "nat \<Rightarrow> pkt_seq" where
  "sample_pkt sz = \<lparr>eth_dst_addr = [2, 0, 0, 0, 0, 1], eth_src_addr = [2, 0, 0, 0, 0, 2],
     ip_src_addr = sample_ip 0xC0A80001, ip_dst_addr = sample_ip 0xC0A80101, ip_mask = 0xFFFFFF00,
     sport = 1234, dport = 5678, ethType = 0x0800, ipProto = 6, vlanid = 1, pkt_cos = 0, tos = 0,
     ether_hdr_size = 14, mpls_entry = 0, qinq_outerid = 0, qinq_innerid = 0, gre_key = 0,
     pktSize = 60, gtpu_teid = 0, seq_enabled = 0, hdr = replicate sz 0\<rparr>"

definition sample_range :: range_info where
  "sample_range = \<lparr>src_ip_inc = 1, dst_ip_inc = 1, src_port_inc = 1, dst_port_inc = 1,
     vlan_id_inc = 1, tos_inc = 1, cos_inc = 1, pkt_size_inc = 4, src_mac_inc = 1, dst_mac_inc = 1,
     src_ip = 0xC0A80001, src_ip_min = 0xC0A80001, src_ip_max = 0xC0A800FE,
     dst_ip = 0xC0A80101, dst_ip_min = 0xC0A80101, dst_ip_max = 0xC0A801FE,
     ip_proto = 6, src_port = 1234, src_port_min = 1234, src_port_max = 1244,
     dst_port = 5678, dst_port_min = 5678, dst_port_max = 5700,
     vlan_id = 1, vlan_id_min = 1, vlan_id_max = 4095, rcos = 0, cos_min = 0, cos_max = 7,
     rtos = 0, tos_min = 0, tos_max = 255, pkt_size = 60, pkt_size_min = 60, pkt_size_max = 1514,
     dst_mac = 1, dst_mac_min = 1, dst_mac_max = 0xFF, src_mac = 1, src_mac_min = 1, src_mac_max = 0xFF,
     rgtpu_teid = 1, gtpu_teid_inc = 1, gtpu_teid_min = 1, gtpu_teid_max = 100\<rparr>"

definition sample_port :: port_info where
  "sample_port = \<lparr>pid = 0, tx_burst = 64, tx_rate = 100, port_flags = 0, transmit_count = 0,
     current_tx_count = 0, tx_cycles = 0, tx_pps = 0, delta = 0, tx_count = 0, seqIdx = 0, seqCnt = 0,
     prime_cnt = 1, pvlanid = 1, pcos = 0, ptos = 0, seq_pkt = replicate 28 (sample_pkt 128),
     range = sample_range, pmpls_entry = 0, pgre_key = 0, max_latency = 0, avg_latency = 0,
     min_latency = 0, magic_errors = 0, latency_nb_pkts = 0, jitter_threshold = 0,
     jitter_threshold_clks = 0, jitter_count = 0, stats = zero_pkt_stats, sizes = zero_port_sizes,
     init_stats = zero_eth_stats, prev_stats = zero_eth_stats, rate_stats = zero_eth_stats,
     max_ipackets = 0, max_opackets = 0, max_missed = 0, link_speed = 10000, link_status = True,
     q = replicate 8 \<lparr>qflags = 0, tx_mbufs = [], tx_cnt = 0, rx_cnt = 0\<rparr>,
     pcap = None, dump_list = replicate 32 None, dump_head = 0, dump_tail = 0, dump_count = 0,
     rnd_bitfields = None, user_pattern = replicate 16 (CHR ''u''),
     fill_pattern_type = ABC_FILL_PATTERN\<rparr>"

definition sample_glob :: glob where
  "sample_glob = \<lparr>flags = 0, ident = 0, nb_ports = 2, starting_port = 0, ending_port = 2,
     nb_ports_per_page = 4, portNum = 0, blinklist = 0, hz = 2000000000,
     cumm_rate_totals = zero_eth_stats, max_total_ipackets = 0, max_total_opackets = 0,
     is_gui_running = False, enable_gtpu = 0, traffic_gen_as = IL_TRAFFIC_GEN, start_ip = 0, end_ip = 0, subs = 0,
     tool_pkt_size = 60,
     gtpu_info = \<lparr>no_of_enb = 1, enb_start_ip = 0, enb_end_ip = 0, no_of_ue = 1, ue_start_ip = 0,
       ue_end_ip = 0, as_srvr_start_ip = 0, as_srvr_end_ip = 0, s1u_sgw_ip = 0, enb_teid = 0,
       s1u_teid = 0\<rparr>\<rparr>"

lemma wf_sample_pkt [simp]: "wf_pkt sz (sample_pkt sz)"
  by (simp add: wf_pkt_def sample_pkt_def sample_ip_def)

lemma wf_sample_port [simp]: "wf_port 128 sample_port"
  by (simp add: wf_port_def sample_port_def NUM_Q_def list_all_length)

end
