(* ===== verification/UserConfig.thy ===== *)
theory UserConfig
  imports CLib Samples
begin

text \<open>
  The user's configuration (\<open>parse_user_config\<close> of \<open>app/pktgen-tool.c\<close>).  The
  settings are read from a file by libconfig, whose lookups are the fields of a parameter: the
  value of a key, or None where the lookup fails.  Every setting is a step that changes
  the program's variables and tells whether the parse goes on; a step that would follow a NULL
  pointer or overflow an array is None.
\<close>

section \<open>Settings and variables\<close>

record config =
  look_string :: "string \<Rightarrow> string option"
  look_int :: "string \<Rightarrow> int option"
  look_int64 :: "string \<Rightarrow> int option"

record user_vars =
  vglob :: glob
  gen_host_ip :: u32
  resp_host_ip :: u32
  gen_host_port :: u16
  resp_host_port :: u16
  gen_host_pci :: string
  resp_host_pci :: string
  test_duration :: u32

type_synonym step = "user_vars \<Rightarrow> (user_vars \<times> bool) option"

fun run_steps :: "step list \<Rightarrow> step" where
  "run_steps [] v = Some (v, True)"
| "run_steps (f # fs) v = (case f v of None \<Rightarrow> None
     | Some (v, ok) \<Rightarrow> if ok then run_steps fs v else Some (v, False))"

section \<open>Steps\<close>

definition set_gtpu :: "(gtpu_params \<Rightarrow> gtpu_params) \<Rightarrow> user_vars \<Rightarrow> user_vars" where
  "set_gtpu f v = v\<lparr>vglob := (vglob v)\<lparr>gtpu_info := f (gtpu_info (vglob v))\<rparr>\<rparr>"

abbreviation gtpu_of :: "user_vars \<Rightarrow> gtpu_params" where
  "gtpu_of v \<equiv> gtpu_info (vglob v)"

abbreviation gtpu_on :: "user_vars \<Rightarrow> bool" where
  "gtpu_on v \<equiv> enable_gtpu (vglob v) = 1"

text \<open>A setting that must be there, and one that must be there for GTP-U only.\<close>

definition must :: "'a option \<Rightarrow> ('a \<Rightarrow> step) \<Rightarrow> step" where
  "must x f v = (case x of Some a \<Rightarrow> f a v | None \<Rightarrow> Some (v, False))"

definition must_gtpu :: "'a option \<Rightarrow> ('a \<Rightarrow> step) \<Rightarrow> step" where
  "must_gtpu x f v = (case x of Some a \<Rightarrow> f a v | None \<Rightarrow> Some (v, \<not> gtpu_on v))"

definition keep :: "(user_vars \<Rightarrow> user_vars) \<Rightarrow> step" where
  "keep f v = Some (f v, True)"

text \<open>\<open>strcpy\<close> to an array of 20 bytes.\<close>

definition pci_copy :: "string \<Rightarrow> ((string \<Rightarrow> string) \<Rightarrow> user_vars \<Rightarrow> user_vars) \<Rightarrow> step" where
  "pci_copy s upd v = (if length s < 20 then Some (upd (\<lambda>_. s) v, True) else None)"

text \<open>\<open>strtok(str, " to ")\<close> twice; \<open>inet_aton\<close> follows a NULL pointer when a token is missing.\<close>

definition to_delims :: "char set" where "to_delims = {CHR '' '', CHR ''t'', CHR ''o''}"

definition two_addrs :: "string \<Rightarrow> u32 \<Rightarrow> u32 \<Rightarrow> (u32 \<times> u32) option" where
  "two_addrs s a b = (case strtok to_delims s of (t1, r) \<Rightarrow>
     case (t1, fst (strtok to_delims r)) of
       (Some t1, Some t2) \<Rightarrow> Some (aton_store t1 a, aton_store t2 b)
     | _ \<Rightarrow> None)"

definition enb_range :: "string \<Rightarrow> step" where
  "enb_range s v = (case two_addrs s (enb_start_ip (gtpu_of v)) (enb_end_ip (gtpu_of v)) of
     None \<Rightarrow> None
   | Some (a, b) \<Rightarrow>
      (let v = set_gtpu (\<lambda>i. i\<lparr>enb_start_ip := ntohl a, enb_end_ip := ntohl b\<rparr>) v; i = gtpu_of v in
       if enb_start_ip i + no_of_enb i - 1 > enb_end_ip i then Some (v, False)
       else Some (set_gtpu (\<lambda>i. i\<lparr>enb_end_ip := enb_start_ip i + no_of_enb i - 1\<rparr>) v, True)))"

definition ue_range :: "string \<Rightarrow> step" where
  "ue_range s v = (case two_addrs s (ue_start_ip (gtpu_of v)) (ue_end_ip (gtpu_of v)) of
     None \<Rightarrow> None
   | Some (a, b) \<Rightarrow>
      (let v = set_gtpu (\<lambda>i. i\<lparr>ue_start_ip := a, ue_end_ip := b\<rparr>) v; i = gtpu_of v in
       if ntohl (ue_start_ip i) + no_of_ue i - 1 > ntohl (ue_end_ip i) then Some (v, False)
       else Some (set_gtpu (\<lambda>i. i\<lparr>ue_end_ip := htonl (ntohl (ue_start_ip i) + no_of_ue i - 1)\<rparr>) v, True)))"

definition srvr_range :: "string \<Rightarrow> step" where
  "srvr_range s v = (case two_addrs s (as_srvr_start_ip (gtpu_of v)) (as_srvr_end_ip (gtpu_of v)) of
     None \<Rightarrow> None
   | Some (a, b) \<Rightarrow> Some (set_gtpu (\<lambda>i. i\<lparr>as_srvr_start_ip := a, as_srvr_end_ip := b\<rparr>) v, True))"

text \<open>The whole parse.  \<open>cfg\<close> is None when the file cannot be read; the result is the return value
  0 (True) or -1 (False).\<close>

definition host_steps :: "config \<Rightarrow> step list" where
  "host_steps c =
    [must (look_string c ''gen_host_ip'') (\<lambda>s. keep (\<lambda>v. v\<lparr>gen_host_ip := aton_store s (gen_host_ip v)\<rparr>)),
     must (look_int c ''gen_host_port'') (\<lambda>n. keep (\<lambda>v. v\<lparr>gen_host_port := word_of_int n\<rparr>)),
     must (look_string c ''resp_host_ip'') (\<lambda>s. keep (\<lambda>v. v\<lparr>resp_host_ip := aton_store s (resp_host_ip v)\<rparr>)),
     must (look_int c ''resp_host_port'') (\<lambda>n. keep (\<lambda>v. v\<lparr>resp_host_port := word_of_int n\<rparr>)),
     must (look_string c ''s1u_port'') (\<lambda>s. pci_copy s gen_host_pci_update),
     must (look_string c ''sgi_port'') (\<lambda>s. pci_copy s resp_host_pci_update),
     must (look_int c ''test_duration'') (\<lambda>n. keep (\<lambda>v. v\<lparr>test_duration := word_of_int n\<rparr>))]"

definition traffic_steps :: "config \<Rightarrow> step list" where
  "traffic_steps c =
    [must (look_int c ''enable_gtpu'') (\<lambda>n. keep (\<lambda>v. v\<lparr>vglob := (vglob v)\<lparr>enable_gtpu := word_of_int n\<rparr>\<rparr>)),
     must_gtpu (look_int c ''no_of_enb'') (\<lambda>n. keep (set_gtpu (\<lambda>i. i\<lparr>no_of_enb := word_of_int n\<rparr>))),
     must_gtpu (look_string c ''enb_ip_range'') enb_range,
     must (look_int c ''flows'') (\<lambda>n. keep (set_gtpu (\<lambda>i. i\<lparr>no_of_ue := word_of_int n\<rparr>))),
     must (look_string c ''ue_ip_range'') ue_range,
     must (look_string c ''app_srvr_ip_range'') srvr_range,
     must_gtpu (look_string c ''s1u_sgw_ip'')
       (\<lambda>s. keep (set_gtpu (\<lambda>i. i\<lparr>s1u_sgw_ip := aton_store s (s1u_sgw_ip i)\<rparr>))),
     must_gtpu (look_int64 c ''enb_teid'') (\<lambda>n. keep (set_gtpu (\<lambda>i. i\<lparr>enb_teid := word_of_int n\<rparr>))),
     must_gtpu (look_int64 c ''s1u_teid'') (\<lambda>n. keep (set_gtpu (\<lambda>i. i\<lparr>s1u_teid := word_of_int n\<rparr>)))]"

definition parse_user_config :: "config option \<Rightarrow> user_vars \<Rightarrow> (user_vars \<times> bool) option" where
  "parse_user_config cfg v = (case cfg of None \<Rightarrow> Some (v, False)
     | Some c \<Rightarrow> run_steps (host_steps c @ traffic_steps c) v)"

section \<open>What a successful parse has established\<close>

lemma run_steps_ok:
  "run_steps (f # fs) v = Some (v', True) \<longleftrightarrow> (\<exists>w. f v = Some (w, True) \<and> run_steps fs w = Some (v', True))"
  by (auto split: option.split if_splits)

lemma run_steps_append:
  "run_steps (as @ bs) v = Some (v', True) \<longleftrightarrow> (\<exists>w. run_steps as v = Some (w, True) \<and> run_steps bs w = Some (v', True))"
  by (induction as arbitrary: v) (auto split: option.split if_splits)

lemma must_ok: "must x f v = Some (w, True) \<longleftrightarrow> (\<exists>a. x = Some a \<and> f a v = Some (w, True))"
  by (auto simp: must_def split: option.split)

lemma must_gtpu_ok:
  "must_gtpu x f v = Some (w, True) \<longleftrightarrow> (\<exists>a. x = Some a \<and> f a v = Some (w, True)) \<or> (x = None \<and> \<not> gtpu_on v \<and> w = v)"
  by (auto simp: must_gtpu_def split: option.split)

lemma keep_ok: "keep f v = Some (w, True) \<longleftrightarrow> w = f v"
  by (auto simp: keep_def)

lemma pci_copy_ok: "pci_copy s upd v = Some (w, True) \<longleftrightarrow> length s < 20 \<and> w = upd (\<lambda>_. s) v"
  by (auto simp: pci_copy_def)

lemmas step_ok = run_steps_ok must_ok must_gtpu_ok keep_ok pci_copy_ok

text \<open>The settings of an address range that a later step leaves alone.\<close>

definition enb_ok :: "user_vars \<Rightarrow> bool" where
  "enb_ok v \<longleftrightarrow> enb_end_ip (gtpu_of v) = enb_start_ip (gtpu_of v) + no_of_enb (gtpu_of v) - 1"

definition ue_ok :: "user_vars \<Rightarrow> bool" where
  "ue_ok v \<longleftrightarrow> ntohl (ue_end_ip (gtpu_of v)) = ntohl (ue_start_ip (gtpu_of v)) + no_of_ue (gtpu_of v) - 1"

text \<open>The variables that a range step keeps.\<close>

lemma enb_range_ok:
  assumes "enb_range s v = Some (w, True)"
  shows "enb_ok w" "enable_gtpu (vglob w) = enable_gtpu (vglob v)"
    "no_of_enb (gtpu_of w) = no_of_enb (gtpu_of v)"
  using assms by (auto simp: enb_range_def enb_ok_def set_gtpu_def Let_def split: option.splits if_splits)

lemma ue_range_ok:
  assumes "ue_range s v = Some (w, True)"
  shows "ue_ok w" "enable_gtpu (vglob w) = enable_gtpu (vglob v)" "enb_ok w = enb_ok v"
    "no_of_ue (gtpu_of w) = no_of_ue (gtpu_of v)" "no_of_enb (gtpu_of w) = no_of_enb (gtpu_of v)"
  using assms
  by (auto simp: ue_range_def ue_ok_def enb_ok_def set_gtpu_def Let_def split: option.splits if_splits)

lemma srvr_range_ok:
  assumes "srvr_range s v = Some (w, True)"
  shows "ue_ok w = ue_ok v" "enable_gtpu (vglob w) = enable_gtpu (vglob v)" "enb_ok w = enb_ok v"
    "no_of_ue (gtpu_of w) = no_of_ue (gtpu_of v)"
  using assms
  by (auto simp: srvr_range_def ue_ok_def enb_ok_def set_gtpu_def Let_def split: option.splits if_splits)

text \<open>The last three settings change nothing that the ranges depend on.\<close>

definition same_ranges :: "user_vars \<Rightarrow> user_vars \<Rightarrow> bool" where
  "same_ranges v w \<longleftrightarrow> ue_ok w = ue_ok v \<and> enb_ok w = enb_ok v \<and> enable_gtpu (vglob w) = enable_gtpu (vglob v)
     \<and> no_of_ue (gtpu_of w) = no_of_ue (gtpu_of v)"

lemma last_steps_ok:
  assumes "run_steps (drop 6 (traffic_steps c)) v = Some (w, True)"
  shows "same_ranges v w \<and> (gtpu_on v \<longrightarrow> look_string c ''s1u_sgw_ip'' \<noteq> None
    \<and> look_int64 c ''enb_teid'' \<noteq> None \<and> look_int64 c ''s1u_teid'' \<noteq> None)"
  using assms by (auto simp: traffic_steps_def step_ok same_ranges_def ue_ok_def enb_ok_def set_gtpu_def
      simp del: run_steps.simps(2))

lemma range_steps_ok:
  assumes "run_steps (take 6 (traffic_steps c)) v = Some (w, True)"
  shows "\<exists>e n r s. look_int c ''enable_gtpu'' = Some e \<and> look_int c ''flows'' = Some n
    \<and> look_string c ''ue_ip_range'' = Some r \<and> look_string c ''app_srvr_ip_range'' = Some s
    \<and> enable_gtpu (vglob w) = word_of_int e \<and> no_of_ue (gtpu_of w) = word_of_int n \<and> ue_ok w
    \<and> (gtpu_on w \<longrightarrow> enb_ok w \<and> look_int c ''no_of_enb'' \<noteq> None \<and> look_string c ''enb_ip_range'' \<noteq> None)"
proof -
  from assms obtain e v1 v2 v3 n v4 r v5 s where
    e: "look_int c ''enable_gtpu'' = Some e" "v1 = v\<lparr>vglob := (vglob v)\<lparr>enable_gtpu := word_of_int e\<rparr>\<rparr>"
    and v2: "must_gtpu (look_int c ''no_of_enb'') (\<lambda>n. keep (set_gtpu (\<lambda>i. i\<lparr>no_of_enb := word_of_int n\<rparr>))) v1
      = Some (v2, True)"
    and v3: "must_gtpu (look_string c ''enb_ip_range'') enb_range v2 = Some (v3, True)"
    and n: "look_int c ''flows'' = Some n" "v4 = set_gtpu (\<lambda>i. i\<lparr>no_of_ue := word_of_int n\<rparr>) v3"
    and r: "look_string c ''ue_ip_range'' = Some r" "ue_range r v4 = Some (v5, True)"
    and s: "look_string c ''app_srvr_ip_range'' = Some s" "srvr_range s v5 = Some (w, True)"
    by (auto simp: traffic_steps_def run_steps_ok must_ok keep_ok simp del: run_steps.simps(2))
  have g2: "enable_gtpu (vglob v2) = word_of_int e"
    and "gtpu_on v2 \<longrightarrow> look_int c ''no_of_enb'' \<noteq> None"
    using v2 e by (auto simp: must_gtpu_ok keep_ok set_gtpu_def)
  moreover have g3: "enable_gtpu (vglob v3) = word_of_int e"
    and "gtpu_on v3 \<longrightarrow> look_string c ''enb_ip_range'' \<noteq> None \<and> enb_ok v3"
    using v3 g2 enb_range_ok by (auto simp: must_gtpu_ok)
  moreover have "enable_gtpu (vglob v4) = word_of_int e" "enb_ok v4 = enb_ok v3" "no_of_ue (gtpu_of v4) = word_of_int n"
    using n g3 by (auto simp: set_gtpu_def enb_ok_def)
  moreover note ue_range_ok [OF r(2)] srvr_range_ok [OF s(2)]
  ultimately show ?thesis using e(1) n(1) r(1) s(1) by simp
qed

lemma host_steps_ok:
  assumes "run_steps (host_steps c) v = Some (w, True)"
  shows "list_all (\<lambda>k. look_string c k \<noteq> None) [''gen_host_ip'', ''resp_host_ip'', ''s1u_port'', ''sgi_port'']
    \<and> list_all (\<lambda>k. look_int c k \<noteq> None) [''gen_host_port'', ''resp_host_port'', ''test_duration'']
    \<and> length (gen_host_pci w) < 20 \<and> length (resp_host_pci w) < 20"
  using assms by (auto simp: host_steps_def step_ok simp del: run_steps.simps(2))

lemma traffic_keeps_pci:
  "run_steps (traffic_steps c) v = Some (w, True) \<Longrightarrow> gen_host_pci w = gen_host_pci v \<and> resp_host_pci w = resp_host_pci v"
proof -
  have keep: "\<And>s v w. enb_range s v = Some (w, True) \<Longrightarrow> gen_host_pci w = gen_host_pci v \<and> resp_host_pci w = resp_host_pci v"
    "\<And>s v w. ue_range s v = Some (w, True) \<Longrightarrow> gen_host_pci w = gen_host_pci v \<and> resp_host_pci w = resp_host_pci v"
    "\<And>s v w. srvr_range s v = Some (w, True) \<Longrightarrow> gen_host_pci w = gen_host_pci v \<and> resp_host_pci w = resp_host_pci v"
    by (auto simp: enb_range_def ue_range_def srvr_range_def set_gtpu_def Let_def split: option.splits if_splits)
  assume "run_steps (traffic_steps c) v = Some (w, True)"
  then show ?thesis
    by (auto simp: traffic_steps_def step_ok set_gtpu_def dest!: keep simp del: run_steps.simps(2))
qed


text \<open>A configuration of ten flows.\<close>

definition sample_config :: config where
  "sample_config = \<lparr>look_string = map_of [(''gen_host_ip'', ''10.0.0.1''), (''resp_host_ip'', ''10.0.0.2''),
      (''s1u_port'', ''0000:02:00.0''), (''sgi_port'', ''0000:02:00.1''),
      (''ue_ip_range'', ''16.0.0.1 to 16.0.0.10''), (''app_srvr_ip_range'', ''13.7.1.110 to 13.7.1.110'')],
    look_int = map_of [(''gen_host_port'', 8000), (''resp_host_port'', 8001), (''test_duration'', 60),
      (''enable_gtpu'', 0), (''flows'', 10)],
    look_int64 = Map.empty\<rparr>"

definition sample_vars :: user_vars where
  "sample_vars = \<lparr>vglob = sample_glob, gen_host_ip = 0, resp_host_ip = 0, gen_host_port = 0, resp_host_port = 0,
     gen_host_pci = [], resp_host_pci = [], test_duration = 0\<rparr>"

lemma sample_addrs:
  "two_addrs ''16.0.0.1 to 16.0.0.10'' a b = Some (htonl 0x10000001, htonl 0x1000000A)"
  "two_addrs ''13.7.1.110 to 13.7.1.110'' a b = Some (htonl 0x0D07016E, htonl 0x0D07016E)"
  by (simp_all add: two_addrs_def strtok_def to_delims_def aton_store_def aton_eval)

lemma sample_parse: "\<exists>w. parse_user_config (Some sample_config) sample_vars = Some (w, True)"
  by (simp add: parse_user_config_def host_steps_def traffic_steps_def sample_config_def sample_vars_def
      must_def must_gtpu_def keep_def pci_copy_def ue_range_def srvr_range_def sample_addrs set_gtpu_def
      sample_glob_def Let_def)


text \<open>The test of the end of a range wraps around: with no flows the range is accepted and its end
  is one below its start.\<close>

lemma ue_range_zero_flows:
  assumes "two_addrs s (ue_start_ip (gtpu_of v)) (ue_end_ip (gtpu_of v)) = Some (a, b)"
    and "no_of_ue (gtpu_of v) = 0" "ntohl a - 1 \<le> ntohl b"
  shows "\<exists>w. ue_range s v = Some (w, True) \<and> ntohl (ue_end_ip (gtpu_of w)) = ntohl a - 1"
  using assms by (auto simp: ue_range_def set_gtpu_def Let_def)

end
