(* ===== verification/Range.thy ===== *)
theory Range
  imports Samples
begin

text \<open>
  The range generator of \<open>app/pktgen-range.c\<close>: \<open>pktgen_range_ctor\<close> moves
  every field of the packet template that has a non-zero increment one step
  inside its configured interval, and \<open>pktgen_range_setup\<close> installs the default
  intervals.  The four kinds of field step (16 bit in place, 32 bit in place,
  narrow field widened to 32 bits, MAC address as a 64 bit number) share the
  contract \<open>range_field\<close>, which is interpreted on each of them.
\<close>

section \<open>Field steps\<close>

text \<open>TEID and ports: the sum is formed in the width of the field, and the two
  bound tests follow one another.\<close>

definition step_seq :: "'a :: len word \<Rightarrow> 'a word \<Rightarrow> 'a word \<Rightarrow> 'a word \<Rightarrow> 'a word" where
  "step_seq inc lo hi v =
    (let p = v + inc;
         p = (if p < lo then hi else p)
     in if p > hi then lo else p)"

text \<open>Addresses: \<open>else if\<close>.\<close>

definition step_else :: "'a :: len word \<Rightarrow> 'a word \<Rightarrow> 'a word \<Rightarrow> 'a word \<Rightarrow> 'a word" where
  "step_else inc lo hi v =
    (let p = v + inc in if p < lo then hi else if p > hi then lo else p)"

text \<open>VLAN id, class and type of service, packet size: computed in a \<open>uint32_t\<close>
  and truncated on assignment.\<close>

definition step_wide :: "u16 \<Rightarrow> 'a :: len word \<Rightarrow> 'a word \<Rightarrow> u32 \<Rightarrow> 'a word" where
  "step_wide inc lo hi p =
    (let p = p + ucast inc
     in ucast (if p < ucast lo then ucast hi else if p > ucast hi then ucast lo else p))"

section \<open>The constructor\<close>

text \<open>The function-local \<open>static\<close> variables.\<close>

record range_statics =
  min_vlan_set :: bool
  min_cos_set :: bool
  min_tos_set :: bool

datatype range_msg = Msg_IPv4_ipProto u16 | Msg_IPv6_unimplemented | Msg_IPv6_ipProto u16
  | Msg_ethType u16

definition range_teid :: "range_info \<Rightarrow> pkt_seq \<Rightarrow> pkt_seq" where
  "range_teid r p =
    (if dport p = PG_IPPROTO_L4_GTPU_PORT
     then p\<lparr>gtpu_teid := if gtpu_teid_inc r \<noteq> 0
              then step_seq (gtpu_teid_inc r) (gtpu_teid_min r) (gtpu_teid_max r) (gtpu_teid p)
              else rgtpu_teid r\<rparr>
     else p)"

definition range_ports :: "range_info \<Rightarrow> pkt_seq \<Rightarrow> pkt_seq" where
  "range_ports r p =
    (let p = p\<lparr>sport := if src_port_inc r \<noteq> 0
               then step_seq (src_port_inc r) (src_port_min r) (src_port_max r) (sport p)
               else src_port r\<rparr>
     in p\<lparr>dport := if dst_port_inc r \<noteq> 0
               then step_seq (dst_port_inc r) (dst_port_min r) (dst_port_max r) (dport p)
               else dst_port r\<rparr>)"

definition range_ips :: "range_info \<Rightarrow> pkt_seq \<Rightarrow> pkt_seq" where
  "range_ips r p =
    (let p = p\<lparr>ip_src_addr := (ip_src_addr p)\<lparr>s_addr := if src_ip_inc r \<noteq> 0
               then step_else (src_ip_inc r) (src_ip_min r) (src_ip_max r) (s_addr (ip_src_addr p))
               else src_ip r\<rparr>\<rparr>
     in p\<lparr>ip_dst_addr := (ip_dst_addr p)\<lparr>s_addr := if dst_ip_inc r \<noteq> 0
               then step_else (dst_ip_inc r) (dst_ip_min r) (dst_ip_max r) (s_addr (ip_dst_addr p))
               else dst_ip r\<rparr>\<rparr>)"

definition range_vlan :: "range_info \<Rightarrow> range_statics \<times> pkt_seq \<Rightarrow> range_statics \<times> pkt_seq" where
  "range_vlan r = (\<lambda>(s, p).
    if vlan_id_inc r \<noteq> 0 then
      let first = vlanid p = MIN_VLAN_ID \<and> \<not> min_vlan_set s;
          s = (if first then s\<lparr>min_vlan_set := True\<rparr> else s);
          v = (if first then 0 else ucast (vlanid p))
      in (s, p\<lparr>vlanid := step_wide (vlan_id_inc r) (vlan_id_min r) (vlan_id_max r) v\<rparr>)
    else (s, p\<lparr>vlanid := vlan_id r\<rparr>))"

definition range_cos :: "range_info \<Rightarrow> range_statics \<times> pkt_seq \<Rightarrow> range_statics \<times> pkt_seq" where
  "range_cos r = (\<lambda>(s, p).
    if cos_inc r \<noteq> 0 then
      let first = pkt_cos p = MIN_COS \<and> \<not> min_cos_set s;
          s = (if first then s\<lparr>min_cos_set := True\<rparr> else s);
          v = (if first then 0 else ucast (pkt_cos p))
      in (s, p\<lparr>pkt_cos := step_wide (cos_inc r) (cos_min r) (cos_max r) v\<rparr>)
    else (s, p\<lparr>pkt_cos := rcos r\<rparr>))"

definition range_tos :: "range_info \<Rightarrow> range_statics \<times> pkt_seq \<Rightarrow> range_statics \<times> pkt_seq" where
  "range_tos r = (\<lambda>(s, p).
    if tos_inc r \<noteq> 0 then
      let first = tos p = MIN_TOS \<and> \<not> min_tos_set s;
          s = (if first then s\<lparr>min_tos_set := True\<rparr> else s);
          v = (if first then 0 else ucast (tos p))
      in (s, p\<lparr>tos := step_wide (tos_inc r) (tos_min r) (tos_max r) v\<rparr>)
    else (s, p\<lparr>tos := rtos r\<rparr>))"

definition range_size :: "range_info \<Rightarrow> pkt_seq \<Rightarrow> pkt_seq" where
  "range_size r p = p\<lparr>pktSize := if pkt_size_inc r \<noteq> 0
      then step_wide (pkt_size_inc r) (pkt_size_min r) (pkt_size_max r) (ucast (pktSize p))
      else pkt_size r\<rparr>"

definition range_macs :: "range_info \<Rightarrow> pkt_seq \<Rightarrow> pkt_seq" where
  "range_macs r p =
    (let p = p\<lparr>eth_src_addr := inet_h64tom (if src_mac_inc r \<noteq> 0
               then step_else (src_mac_inc r) (src_mac_min r) (src_mac_max r) (inet_mtoh64 (eth_src_addr p))
               else src_mac r)\<rparr>
     in p\<lparr>eth_dst_addr := inet_h64tom (if dst_mac_inc r \<noteq> 0
               then step_else (dst_mac_inc r) (dst_mac_min r) (dst_mac_max r) (inet_mtoh64 (eth_dst_addr p))
               else dst_mac r)\<rparr>)"

definition pktgen_range_ctor ::
  "range_info \<Rightarrow> range_statics \<times> pkt_seq \<Rightarrow> range_msg option \<times> range_statics \<times> pkt_seq" where
  "pktgen_range_ctor r = (\<lambda>(s, p).
    if ethType p = ETHER_TYPE_IPv4 then
      if ipProto p = ucast PG_IPPROTO_TCP \<or> ipProto p = ucast PG_IPPROTO_UDP then
        let p = range_teid r p; p = range_ports r p; p = range_ips r p;
            (s, p) = range_vlan r (s, p);
            (s, p) = range_cos r (s, p);
            (s, p) = range_tos r (s, p);
            p = range_size r p; p = range_macs r p
        in (None, s, p)
      else (Some (Msg_IPv4_ipProto (ipProto p)), s, p)
    else if ethType p = ETHER_TYPE_IPv6 then
      if ipProto p = ucast PG_IPPROTO_UDP \<or> ipProto p = ucast PG_IPPROTO_TCP
      then (Some Msg_IPv6_unimplemented, s, p)
      else (Some (Msg_IPv6_ipProto (ipProto p)), s, p)
    else (Some (Msg_ethType (ethType p)), s, p))"

definition pktgen_range_setup :: "port_info \<Rightarrow> port_info option" where
  "pktgen_range_setup i =
    (if length (seq_pkt i) = 0 then None else
     let p = ucast (pid i) :: u32; r = range i;
         r = r\<lparr>dst_ip := IPv4 192 168 (p + 1) 1, dst_ip_min := IPv4 192 168 (p + 1) 1,
               dst_ip_max := IPv4 192 168 (p + 1) 254, dst_ip_inc := 1,
               src_ip := IPv4 192 168 p 1, src_ip_min := IPv4 192 168 p 1,
               src_ip_max := IPv4 192 168 p 254, src_ip_inc := 0,
               ip_proto := ucast PG_IPPROTO_TCP\<rparr>;
         r = r\<lparr>dst_port := push_bit 8 (pid i), dst_port_inc := 1,
               dst_port_min := push_bit 8 (pid i) + 0, dst_port_max := push_bit 8 (pid i) + 254,
               src_port := push_bit 8 (pid i), src_port_inc := 1,
               src_port_min := push_bit 8 (pid i) + 0, src_port_max := push_bit 8 (pid i) + 254\<rparr>;
         r = r\<lparr>vlan_id := pvlanid i, vlan_id_inc := 0, vlan_id_min := MIN_VLAN_ID, vlan_id_max := MAX_VLAN_ID,
               rcos := pcos i, cos_inc := 0, cos_min := MIN_COS, cos_max := MAX_COS,
               rtos := ptos i, tos_inc := 0, tos_min := MIN_TOS, tos_max := MAX_TOS,
               pkt_size := MIN_PKT_SIZE, pkt_size_inc := 0, pkt_size_min := MIN_PKT_SIZE,
               pkt_size_max := MAX_PKT_SIZE\<rparr>;
         sp = (seq_pkt i)[RANGE_PKT := (seq_pkt i ! RANGE_PKT)\<lparr>pktSize := MIN_PKT_SIZE\<rparr>];
         r = r\<lparr>dst_mac := inet_mtoh64 (eth_dst_addr (sp ! SINGLE_PKT)), dst_mac_inc := 0,
               dst_mac_min := 0, dst_mac_max := 0,
               src_mac := inet_mtoh64 (eth_src_addr (sp ! SINGLE_PKT)), src_mac_inc := 0,
               src_mac_min := 0, src_mac_max := 0\<rparr>
     in Some (i\<lparr>range := r, seq_pkt := sp\<rparr>))"

section \<open>The contract of a field step\<close>

text \<open>\<open>val\<close> reads a field value as a number; \<open>step\<close> is the step for fixed increment
  \<open>d\<close> and bounds \<open>lo\<close> and \<open>hi\<close>; sums below \<open>cap\<close> do not wrap.\<close>

locale range_field =
  fixes val :: "'v \<Rightarrow> nat" and cap :: nat
    and step :: "'i \<Rightarrow> 'v \<Rightarrow> 'v \<Rightarrow> 'v \<Rightarrow> 'v" and inc :: "'i \<Rightarrow> nat"
  assumes val_inject: "val x = val y \<Longrightarrow> x = y"
    and bounded: "val lo \<le> val hi \<Longrightarrow> val lo \<le> val (step d lo hi v) \<and> val (step d lo hi v) \<le> val hi"
    and advance: "val v + inc d < cap \<Longrightarrow> val lo \<le> val v + inc d \<Longrightarrow> val v + inc d \<le> val hi
      \<Longrightarrow> val (step d lo hi v) = val v + inc d"
    and restart: "val v + inc d < cap \<Longrightarrow> val lo \<le> val hi \<Longrightarrow> val hi < val v + inc d \<Longrightarrow> step d lo hi v = lo"
begin

lemma iterate_bounded:
  assumes "val lo \<le> val hi" "val lo \<le> val v" "val v \<le> val hi"
  shows "val lo \<le> val ((step d lo hi ^^ n) v) \<and> val ((step d lo hi ^^ n) v) \<le> val hi"
  using assms bounded [OF assms(1)] by (cases n) auto

text \<open>Iterating from the minimum sweeps the progression \<open>lo, lo + d, \<dots>\<close> cyclically.\<close>

lemma sweep:
  assumes "val lo \<le> val hi" "val hi + inc d < cap" "0 < inc d"
  shows "val ((step d lo hi ^^ n) lo)
    = val lo + inc d * (n mod ((val hi - val lo) div inc d + 1))"
proof (induction n)
  case (Suc n)
  let ?D = "inc d" and ?w = "(step d lo hi ^^ n) lo"
  let ?K = "(val hi - val lo) div ?D"
  let ?k = "n mod (?K + 1)"
  have k: "?k \<le> ?K" using mod_less_divisor [of "?K + 1" n] by simp
  have KD: "?D * ?K \<le> val hi - val lo" by (simp add: mult.commute)
  have lt: "val hi - val lo < ?D * (?K + 1)"
    using assms(3) by (metis Suc_eq_plus1 dividend_less_times_div mult_Suc_right)
  have w: "val ?w \<le> val hi"
  proof -
    have "?D * ?k \<le> val hi - val lo" using KD mult_le_mono2 [OF k, of ?D] by linarith
    then show ?thesis using Suc assms(1) by linarith
  qed
  show ?case
  proof (cases "?k = ?K")
    case False
    with k have kK: "?k + 1 \<le> ?K" by linarith
    have m: "Suc n mod (?K + 1) = ?k + 1" using kK by (simp add: mod_Suc)
    have "?D * (?k + 1) \<le> val hi - val lo" using kK KD by (meson le_trans mult_le_mono2)
    then have "val ?w + ?D \<le> val hi" using Suc assms(1) by (simp add: algebra_simps)
    then have "val (step d lo hi ?w) = val ?w + ?D"
      using advance [of ?w d lo hi] assms Suc by simp
    then show ?thesis using Suc m by (simp add: algebra_simps)
  next
    case True
    then have m: "Suc n mod (?K + 1) = 0" by (simp add: mod_Suc)
    have "val hi < val ?w + ?D" using Suc True lt assms(1) by (simp add: algebra_simps)
    then have "step d lo hi ?w = lo" using restart [of ?w d lo hi] assms w by simp
    then show ?thesis using m by simp
  qed
qed simp

end

lemma word_val_inject: "unat x = unat y \<Longrightarrow> x = y" for x y :: "'a :: len word"
  by (simp add: word_unat_eq_iff)

lemma unat_add_lt: "unat v + unat d < 2 ^ LENGTH('a) \<Longrightarrow> unat (v + d) = unat v + unat d"
  for v d :: "'a :: len word"
  by (simp add: unat_word_ariths)

interpretation seq_field: range_field unat "2 ^ LENGTH('a :: len)" step_seq "unat :: 'a word \<Rightarrow> nat"
  by unfold_locales
    (auto simp: step_seq_def Let_def word_less_nat_alt unat_add_lt word_unat_eq_iff)

interpretation else_field: range_field unat "2 ^ LENGTH('a :: len)" step_else "unat :: 'a word \<Rightarrow> nat"
  by unfold_locales
    (auto simp: step_else_def Let_def word_less_nat_alt unat_add_lt word_unat_eq_iff)

text \<open>The widened step on an 8 or 16 bit field cannot wrap its 32 bit sum.\<close>

definition step_wide8 :: "u16 \<Rightarrow> u8 \<Rightarrow> u8 \<Rightarrow> u8 \<Rightarrow> u8" where
  "step_wide8 d lo hi v = step_wide d lo hi (ucast v)"

definition step_wide16 :: "u16 \<Rightarrow> u16 \<Rightarrow> u16 \<Rightarrow> u16 \<Rightarrow> u16" where
  "step_wide16 d lo hi v = step_wide d lo hi (ucast v)"

lemma unat_ucast_8_32 [simp]: "unat (ucast (v :: u8) :: u32) = unat v"
  and unat_ucast_16_32 [simp]: "unat (ucast (w :: u16) :: u32) = unat w"
  by (simp_all add: unsigned_ucast_eq take_bit_nat_eq_self unat_less
      less_trans [OF unat_less(1)] less_trans [OF unat_less(2)])

lemma unat_wide_sum:
  "unat (ucast (v :: u8) + ucast (d :: u16) :: u32) = unat v + unat d"
  "unat (ucast (w :: u16) + ucast (d :: u16) :: u32) = unat w + unat d"
  using unat_less(1) [of v] unat_less(2) [of w] unat_less(2) [of d]
  by (subst unat_add_lt; simp)+

lemma unat_ucast_32_narrow:
  "unat (p :: u32) < 256 \<Longrightarrow> unat (ucast p :: u8) = unat p"
  "unat (p :: u32) < 65536 \<Longrightarrow> unat (ucast p :: u16) = unat p"
  by (simp_all add: unsigned_ucast_eq take_bit_nat_eq_self)

lemma step_wide8_unat:
  "unat (step_wide8 d lo hi v) =
    (if unat v + unat d < unat lo then unat hi
     else if unat hi < unat v + unat d then unat lo else unat v + unat d)"
  using unat_less(1) [of hi] unat_less(1) [of lo]
  by (auto simp: step_wide8_def step_wide_def Let_def word_less_nat_alt unat_wide_sum
      unat_ucast_32_narrow)

lemma step_wide16_unat:
  "unat (step_wide16 d lo hi v) =
    (if unat v + unat d < unat lo then unat hi
     else if unat hi < unat v + unat d then unat lo else unat v + unat d)"
  using unat_less(2) [of hi] unat_less(2) [of lo]
  by (auto simp: step_wide16_def step_wide_def Let_def word_less_nat_alt unat_wide_sum
      unat_ucast_32_narrow)

interpretation wide8_field: range_field unat 4294967296 step_wide8 "unat :: u16 \<Rightarrow> nat"
  by unfold_locales (auto simp: step_wide8_unat word_unat_eq_iff)

interpretation wide16_field: range_field unat 4294967296 step_wide16 "unat :: u16 \<Rightarrow> nat"
  by unfold_locales (auto simp: step_wide16_unat word_unat_eq_iff)

section \<open>The constructor on IPv4 TCP and UDP templates\<close>

definition range_kind :: "pkt_seq \<Rightarrow> bool" where
  "range_kind p \<longleftrightarrow> ethType p = ETHER_TYPE_IPv4 \<and>
     (ipProto p = ucast PG_IPPROTO_TCP \<or> ipProto p = ucast PG_IPPROTO_UDP)"

definition next_teid :: "range_info \<Rightarrow> pkt_seq \<Rightarrow> u32" where
  "next_teid r p = (if dport p = PG_IPPROTO_L4_GTPU_PORT then if gtpu_teid_inc r \<noteq> 0
     then step_seq (gtpu_teid_inc r) (gtpu_teid_min r) (gtpu_teid_max r) (gtpu_teid p) else rgtpu_teid r
     else gtpu_teid p)"

definition next_vlan :: "range_info \<Rightarrow> range_statics \<Rightarrow> u16 \<Rightarrow> u16" where
  "next_vlan r s v = (if vlan_id_inc r \<noteq> 0
     then step_wide16 (vlan_id_inc r) (vlan_id_min r) (vlan_id_max r)
            (if v = MIN_VLAN_ID \<and> \<not> min_vlan_set s then 0 else v) else vlan_id r)"

definition next_cos :: "range_info \<Rightarrow> u8 \<Rightarrow> u8" where
  "next_cos r v = (if cos_inc r \<noteq> 0 then step_wide8 (cos_inc r) (cos_min r) (cos_max r) v else rcos r)"

definition next_tos :: "range_info \<Rightarrow> u8 \<Rightarrow> u8" where
  "next_tos r v = (if tos_inc r \<noteq> 0 then step_wide8 (tos_inc r) (tos_min r) (tos_max r) v else rtos r)"

lemma range_teid_eq: "range_teid r p = p\<lparr>gtpu_teid := next_teid r p\<rparr>"
  by (simp add: range_teid_def next_teid_def)

lemma range_vlan_eq:
  "\<exists>s'. range_vlan r (s, p) = (s', p\<lparr>vlanid := next_vlan r s (vlanid p)\<rparr>)"
  by (simp add: range_vlan_def next_vlan_def step_wide16_def Let_def)

lemma range_cos_eq: "\<exists>s'. range_cos r (s, p) = (s', p\<lparr>pkt_cos := next_cos r (pkt_cos p)\<rparr>)"
  by (simp add: range_cos_def next_cos_def step_wide8_def Let_def MIN_COS_def)

lemma range_tos_eq: "\<exists>s'. range_tos r (s, p) = (s', p\<lparr>tos := next_tos r (tos p)\<rparr>)"
  by (simp add: range_tos_def next_tos_def step_wide8_def Let_def MIN_TOS_def)

lemma range_ctor_result:
  assumes "range_kind p"
  shows "\<exists>s'. pktgen_range_ctor r (s, p) = (None, s', range_macs r (range_size r
    ((range_ips r (range_ports r (p\<lparr>gtpu_teid := next_teid r p\<rparr>)))
      \<lparr>vlanid := next_vlan r s (vlanid p), pkt_cos := next_cos r (pkt_cos p), tos := next_tos r (tos p)\<rparr>)))"
proof -
  let ?p = "range_ips r (range_ports r (p\<lparr>gtpu_teid := next_teid r p\<rparr>))"
  have sel: "vlanid ?p = vlanid p" "pkt_cos ?p = pkt_cos p" "tos ?p = tos p"
    by (simp_all add: range_ips_def range_ports_def Let_def)
  obtain s1 where 1: "range_vlan r (s, ?p) = (s1, ?p\<lparr>vlanid := next_vlan r s (vlanid ?p)\<rparr>)"
    using range_vlan_eq by blast
  let ?p1 = "?p\<lparr>vlanid := next_vlan r s (vlanid ?p)\<rparr>"
  obtain s2 where 2: "range_cos r (s1, ?p1) = (s2, ?p1\<lparr>pkt_cos := next_cos r (pkt_cos ?p1)\<rparr>)"
    using range_cos_eq by blast
  let ?p2 = "?p1\<lparr>pkt_cos := next_cos r (pkt_cos ?p1)\<rparr>"
  obtain s3 where 3: "range_tos r (s2, ?p2) = (s3, ?p2\<lparr>tos := next_tos r (tos ?p2)\<rparr>)"
    using range_tos_eq by blast
  have "pktgen_range_ctor r (s, p) =
      (None, s3, range_macs r (range_size r (?p2\<lparr>tos := next_tos r (tos ?p2)\<rparr>)))"
    using assms unfolding range_kind_def pktgen_range_ctor_def Let_def range_teid_eq
    by (simp only: prod.case if_True simp_thms 1 2 3)
  then show ?thesis by (simp add: sel)
qed

lemma range_ctor_fields:
  assumes "range_kind p" and "pktgen_range_ctor r (s, p) = (m, s', p')"
  shows "m = None" "range_kind p'"
    "sport p' = (if src_port_inc r \<noteq> 0
       then step_seq (src_port_inc r) (src_port_min r) (src_port_max r) (sport p) else src_port r)"
    "dport p' = (if dst_port_inc r \<noteq> 0
       then step_seq (dst_port_inc r) (dst_port_min r) (dst_port_max r) (dport p) else dst_port r)"
    "s_addr (ip_src_addr p') = (if src_ip_inc r \<noteq> 0
       then step_else (src_ip_inc r) (src_ip_min r) (src_ip_max r) (s_addr (ip_src_addr p)) else src_ip r)"
    "s_addr (ip_dst_addr p') = (if dst_ip_inc r \<noteq> 0
       then step_else (dst_ip_inc r) (dst_ip_min r) (dst_ip_max r) (s_addr (ip_dst_addr p)) else dst_ip r)"
    "pktSize p' = (if pkt_size_inc r \<noteq> 0
       then step_wide16 (pkt_size_inc r) (pkt_size_min r) (pkt_size_max r) (pktSize p) else pkt_size r)"
    "eth_src_addr p' = inet_h64tom (if src_mac_inc r \<noteq> 0
       then step_else (src_mac_inc r) (src_mac_min r) (src_mac_max r) (inet_mtoh64 (eth_src_addr p)) else src_mac r)"
    "eth_dst_addr p' = inet_h64tom (if dst_mac_inc r \<noteq> 0
       then step_else (dst_mac_inc r) (dst_mac_min r) (dst_mac_max r) (inet_mtoh64 (eth_dst_addr p)) else dst_mac r)"
    "vlanid p' = (if vlan_id_inc r \<noteq> 0
       then step_wide16 (vlan_id_inc r) (vlan_id_min r) (vlan_id_max r)
              (if vlanid p = MIN_VLAN_ID \<and> \<not> min_vlan_set s then 0 else vlanid p) else vlan_id r)"
    "pkt_cos p' = (if cos_inc r \<noteq> 0
       then step_wide8 (cos_inc r) (cos_min r) (cos_max r) (pkt_cos p) else rcos r)"
    "tos p' = (if tos_inc r \<noteq> 0
       then step_wide8 (tos_inc r) (tos_min r) (tos_max r) (tos p) else rtos r)"
    "gtpu_teid p' = (if dport p = PG_IPPROTO_L4_GTPU_PORT then if gtpu_teid_inc r \<noteq> 0
       then step_seq (gtpu_teid_inc r) (gtpu_teid_min r) (gtpu_teid_max r) (gtpu_teid p) else rgtpu_teid r
       else gtpu_teid p)"
    "hdr p' = hdr p" "s6_tail (ip_src_addr p') = s6_tail (ip_src_addr p)"
    "s6_tail (ip_dst_addr p') = s6_tail (ip_dst_addr p)"
proof -
  have m: "m = None" and p': "p' = range_macs r (range_size r
    ((range_ips r (range_ports r (p\<lparr>gtpu_teid := next_teid r p\<rparr>)))
      \<lparr>vlanid := next_vlan r s (vlanid p), pkt_cos := next_cos r (pkt_cos p), tos := next_tos r (tos p)\<rparr>))"
    using range_ctor_result [OF assms(1), of r s] assms(2) by auto
  show "m = None" by (rule m)
  show "range_kind p'" using assms(1)
    unfolding p' by (simp add: range_macs_def range_size_def range_ips_def range_ports_def Let_def range_kind_def)
qed (use range_ctor_result [OF assms(1), of r s] assms(2) in
     \<open>auto simp: range_macs_def range_size_def range_ips_def range_ports_def Let_def
        next_teid_def next_vlan_def next_cos_def next_tos_def step_wide16_def\<close>)

lemma range_ctor_wf [step_inv]:
  "range_kind p \<Longrightarrow> pktgen_range_ctor r (s, p) = (m, s', p') \<Longrightarrow> wf_pkt sz p \<Longrightarrow> wf_pkt sz p'"
  by (simp add: wf_pkt_def range_ctor_fields)

text \<open>Every interval is in order, and the MAC intervals are addresses.\<close>

definition range_ok :: "range_info \<Rightarrow> bool" where
  "range_ok r \<longleftrightarrow> src_port_min r \<le> src_port_max r \<and> dst_port_min r \<le> dst_port_max r
     \<and> src_ip_min r \<le> src_ip_max r \<and> dst_ip_min r \<le> dst_ip_max r
     \<and> vlan_id_min r \<le> vlan_id_max r \<and> cos_min r \<le> cos_max r \<and> tos_min r \<le> tos_max r
     \<and> pkt_size_min r \<le> pkt_size_max r \<and> gtpu_teid_min r \<le> gtpu_teid_max r
     \<and> src_mac_min r \<le> src_mac_max r \<and> src_mac_max r < 2 ^ 48
     \<and> dst_mac_min r \<le> dst_mac_max r \<and> dst_mac_max r < 2 ^ 48"

definition in_range :: "range_info \<Rightarrow> pkt_seq \<Rightarrow> bool" where
  "in_range r p \<longleftrightarrow>
     (src_port_inc r \<noteq> 0 \<longrightarrow> src_port_min r \<le> sport p \<and> sport p \<le> src_port_max r)
   \<and> (dst_port_inc r \<noteq> 0 \<longrightarrow> dst_port_min r \<le> dport p \<and> dport p \<le> dst_port_max r)
   \<and> (src_ip_inc r \<noteq> 0 \<longrightarrow> src_ip_min r \<le> s_addr (ip_src_addr p) \<and> s_addr (ip_src_addr p) \<le> src_ip_max r)
   \<and> (dst_ip_inc r \<noteq> 0 \<longrightarrow> dst_ip_min r \<le> s_addr (ip_dst_addr p) \<and> s_addr (ip_dst_addr p) \<le> dst_ip_max r)
   \<and> (vlan_id_inc r \<noteq> 0 \<longrightarrow> vlan_id_min r \<le> vlanid p \<and> vlanid p \<le> vlan_id_max r)
   \<and> (cos_inc r \<noteq> 0 \<longrightarrow> cos_min r \<le> pkt_cos p \<and> pkt_cos p \<le> cos_max r)
   \<and> (tos_inc r \<noteq> 0 \<longrightarrow> tos_min r \<le> tos p \<and> tos p \<le> tos_max r)
   \<and> (pkt_size_inc r \<noteq> 0 \<longrightarrow> pkt_size_min r \<le> pktSize p \<and> pktSize p \<le> pkt_size_max r)
   \<and> (src_mac_inc r \<noteq> 0 \<longrightarrow> src_mac_min r \<le> inet_mtoh64 (eth_src_addr p)
        \<and> inet_mtoh64 (eth_src_addr p) \<le> src_mac_max r)
   \<and> (dst_mac_inc r \<noteq> 0 \<longrightarrow> dst_mac_min r \<le> inet_mtoh64 (eth_dst_addr p)
        \<and> inet_mtoh64 (eth_dst_addr p) \<le> dst_mac_max r)"

lemma step_bounds:
  "lo \<le> hi \<Longrightarrow> lo \<le> step_seq d lo hi v \<and> step_seq d lo hi v \<le> hi"
  "lo' \<le> hi' \<Longrightarrow> lo' \<le> step_else d' lo' hi' v' \<and> step_else d' lo' hi' v' \<le> hi'"
  "lo8 \<le> hi8 \<Longrightarrow> lo8 \<le> step_wide8 e lo8 hi8 v8 \<and> step_wide8 e lo8 hi8 v8 \<le> hi8"
  "lo16 \<le> hi16 \<Longrightarrow> lo16 \<le> step_wide16 e lo16 hi16 v16 \<and> step_wide16 e lo16 hi16 v16 \<le> hi16"
  using seq_field.bounded [of lo hi d v] else_field.bounded [of lo' hi' d' v']
    wide8_field.bounded [of lo8 hi8 e v8] wide16_field.bounded [of lo16 hi16 e v16]
  by (simp_all add: word_le_nat_alt)

lemma mac_below:
  assumes "w \<le> m" "m < (2 :: u64) ^ 48"
  shows "take_bit 48 w = w"
proof -
  have "w < 2 ^ 48" using assms by simp
  then show ?thesis by (simp add: word_less_nat_alt word_unat_eq_iff unsigned_take_bit_eq take_bit_nat_eq_self)
qed


lemma sample_range_ok: "range_ok sample_range"
  by (simp add: range_ok_def sample_range_def)

lemma sample_range_kind: "range_kind (sample_pkt 128)"
  by (simp add: range_kind_def sample_pkt_def proto_consts ETHER_TYPE_IPv4_def ETHER_TYPE_IPv6_def)


section \<open>Runs\<close>

definition range_run :: "range_info \<Rightarrow> nat \<Rightarrow> range_statics \<times> pkt_seq \<Rightarrow> range_statics \<times> pkt_seq" where
  "range_run r n = (\<lambda>st. snd (pktgen_range_ctor r st)) ^^ n"

lemma range_run_Suc:
  "range_run r (Suc n) st = snd (pktgen_range_ctor r (range_run r n st))"
  by (simp add: range_run_def)

lemma range_run_kind: "range_kind (snd st) \<Longrightarrow> range_kind (snd (range_run r n st))"
proof (induction n)
  case (Suc n)
  obtain s p where st: "range_run r n st = (s, p)" by force
  obtain m s' p' where "pktgen_range_ctor r (s, p) = (m, s', p')" by (metis prod_cases3)
  with Suc st show ?case by (simp add: range_run_Suc range_ctor_fields(2))
qed (simp add: range_run_def)

text \<open>A field that the constructor steps on its own runs through the iterates of its step.\<close>

lemma range_run_field:
  assumes "range_kind (snd st)"
    and "\<And>s p m s' p'. range_kind p \<Longrightarrow> pktgen_range_ctor r (s, p) = (m, s', p') \<Longrightarrow> g p' = f (g p)"
  shows "g (snd (range_run r n st)) = (f ^^ n) (g (snd st))"
proof (induction n)
  case (Suc n)
  obtain s p where st: "range_run r n st = (s, p)" by force
  obtain m s' p' where c: "pktgen_range_ctor r (s, p) = (m, s', p')" by (metis prod_cases3)
  have "range_kind p" using range_run_kind [OF assms(1), of r n] st by simp
  from assms(2) [OF this c] Suc st c show ?case by (simp add: range_run_Suc)
qed (simp add: range_run_def)

text \<open>C28 Without an overflow of 16 bits the source port runs through the arithmetic progression
  from its minimum to its maximum, again and again: packet \<open>n\<close> has term \<open>n\<close> modulo the length.\<close>

theorem range_run_sweep_sport:
  assumes "range_kind (snd st)" "src_port_inc r \<noteq> 0" "sport (snd st) = src_port_min r"
    and "src_port_min r \<le> src_port_max r" "unat (src_port_max r) + unat (src_port_inc r) < 65536"
  shows "unat (sport (snd (range_run r n st))) = unat (src_port_min r) + unat (src_port_inc r) *
    (n mod ((unat (src_port_max r) - unat (src_port_min r)) div unat (src_port_inc r) + 1))"
proof -
  have "sport (snd (range_run r n st)) =
      (step_seq (src_port_inc r) (src_port_min r) (src_port_max r) ^^ n) (sport (snd st))"
    by (rule range_run_field [OF assms(1)]) (simp add: range_ctor_fields assms(2))
  then show ?thesis
    using seq_field.sweep [of "src_port_min r" "src_port_max r" "src_port_inc r" n] assms(2-5)
    by (simp add: word_le_nat_alt unat_gt_0)
qed

text \<open>The destination address runs through its interval in the same way, from the first
  address to the last that the increment reaches and back to the first.\<close>

theorem range_run_sweep_dst_ip:
  assumes "range_kind (snd st)" "dst_ip_inc r \<noteq> 0" "s_addr (ip_dst_addr (snd st)) = dst_ip_min r"
    and "dst_ip_min r \<le> dst_ip_max r" "unat (dst_ip_max r) + unat (dst_ip_inc r) < 4294967296"
  shows "unat (s_addr (ip_dst_addr (snd (range_run r n st)))) = unat (dst_ip_min r) + unat (dst_ip_inc r) *
    (n mod ((unat (dst_ip_max r) - unat (dst_ip_min r)) div unat (dst_ip_inc r) + 1))"
proof -
  have "s_addr (ip_dst_addr (snd (range_run r n st))) =
      (step_else (dst_ip_inc r) (dst_ip_min r) (dst_ip_max r) ^^ n) (s_addr (ip_dst_addr (snd st)))"
    by (rule range_run_field [OF assms(1), where g = "\<lambda>p. s_addr (ip_dst_addr p)"])
      (simp add: range_ctor_fields assms(2))
  then show ?thesis
    using else_field.sweep [of "dst_ip_min r" "dst_ip_max r" "dst_ip_inc r" n] assms(2-5)
    by (simp add: word_le_nat_alt unat_gt_0)
qed

theorem range_run_sweep_sport_witness:
  "unat (sport (snd (range_run sample_range 25 (\<lparr>min_vlan_set = False, min_cos_set = False, min_tos_set = False\<rparr>, sample_pkt 128)))) = 1237"
  using range_run_sweep_sport [of "(\<lparr>min_vlan_set = False, min_cos_set = False, min_tos_set = False\<rparr>, sample_pkt 128)" sample_range 25] sample_range_kind
  by (simp add: sample_range_def sample_pkt_def)

theorem range_run_sweep_dst_ip_witness:
  "unat (s_addr (ip_dst_addr (snd (range_run sample_range 255 (\<lparr>min_vlan_set = False, min_cos_set = False, min_tos_set = False\<rparr>, sample_pkt 128))))) = 0xC0A80102"
  using range_run_sweep_dst_ip [of "(\<lparr>min_vlan_set = False, min_cos_set = False, min_tos_set = False\<rparr>, sample_pkt 128)" sample_range 255] sample_range_kind
  by (simp add: sample_range_def sample_pkt_def sample_ip_def)

text \<open>A port interval that ends at 65535 and does not start at 0 is left at its
  end for ever: the 16 bit sum wraps below the minimum and is moved to the maximum again.\<close>

lemma step_seq_stuck:
  assumes "hi = 65535" "0 < d" "d \<le> (lo :: u16)"
  shows "step_seq d lo hi hi = hi"
proof -
  have d: "0 < unat d" "unat d \<le> unat lo" using assms(2,3) by (simp_all add: word_less_nat_alt word_le_nat_alt)
  have "unat (hi + d) = unat d - 1"
    using d unat_less(2) [of d] by (simp add: unat_word_ariths assms(1) mod_if)
  then have "hi + d < lo" using d by (simp add: word_less_nat_alt)
  then show ?thesis by (simp add: step_seq_def Let_def)
qed

end
