(* ===== verification/Cksum.thy ===== *)
theory Cksum
  imports Inet
begin

text \<open>
  The internet checksum of \<open>lib/common/cksum.c\<close>: \<open>cksumUpdate\<close> sums the
  16 bit words of a buffer, sixteen at a time and then the rest, \<open>cksumDone\<close>
  folds the carries and complements.  The buffer is the memory from the pointer
  on; the sum is a 32 bit word that wraps.  The pseudo header sums seed the
  checksum of a transport segment.
\<close>

section \<open>The routines\<close>

text \<open>\<open>cksum += *pWd++\<close>, repeated: the state is the word offset and the sm.\<close>

primrec add_words :: "nat \<Rightarrow> mem \<Rightarrow> nat \<times> u32 \<Rightarrow> (nat \<times> u32) option" where
  "add_words 0 m st = Some st"
| "add_words (Suc n) m st = (case st of (p, c) \<Rightarrow>
     do { w \<leftarrow> ld16 p m; add_words n m (p + 2, c + ucast w) })"

primrec add_blocks :: "nat \<Rightarrow> mem \<Rightarrow> nat \<times> u32 \<Rightarrow> (nat \<times> u32) option" where
  "add_blocks 0 m st = Some st"
| "add_blocks (Suc n) m st = do { st \<leftarrow> add_words 16 m st; add_blocks n m st }"

text \<open>The size is an \<open>int32_t\<close>; the two loop counters are \<open>uint32_t\<close>, so that
  \<open>size >> 5\<close> of a negative size is a huge count.\<close>

definition cksumUpdate :: "mem \<Rightarrow> int \<Rightarrow> u32 \<Rightarrow> u32 option" where
  "cksumUpdate m sz c = do {
     st \<leftarrow> add_blocks (unat (word_of_int (sz div 32) :: u32)) m (0, c);
     (p, c) \<leftarrow> add_words (unat (word_of_int ((sz mod 32) div 2) :: u32)) m st;
     if odd sz then do { w \<leftarrow> ld16 p m; Some (c + ucast (w AND htons 0xFF00)) } else Some c }"

definition cksumDone :: "u32 \<Rightarrow> u16" where
  "cksumDone c = (let c = (c AND 0xFFFF) + drop_bit 16 c;
                      c = (c AND 0xFFFF) + drop_bit 16 c
                  in NOT (ucast c))"

definition cksum :: "mem \<Rightarrow> int \<Rightarrow> u32 \<Rightarrow> u16 option" where
  "cksum m sz c = map_option cksumDone (cksumUpdate m sz c)"

definition pseudoChecksum :: "u32 \<Rightarrow> u32 \<Rightarrow> u16 \<Rightarrow> u16 \<Rightarrow> u32 \<Rightarrow> u32" where
  "pseudoChecksum src dst pro len sm = sm + (src AND 0xFFFF) + drop_bit 16 src
     + (dst AND 0xFFFF) + drop_bit 16 dst + ucast (ntohs len) + ucast (ntohs pro)"

primrec add_addr_words :: "nat \<Rightarrow> nat \<Rightarrow> mem \<Rightarrow> mem \<Rightarrow> u32 \<Rightarrow> u32 option" where
  "add_addr_words 0 i src dst sm = Some sm"
| "add_addr_words (Suc n) i src dst sm = do {
     s \<leftarrow> ld16 (2 * i) src; d \<leftarrow> ld16 (2 * i) dst;
     add_addr_words n (i + 1) src dst (sm + ucast s + ucast d) }"

definition pseudoIPv6Checksum :: "mem \<Rightarrow> mem \<Rightarrow> u8 \<Rightarrow> u32 \<Rightarrow> u32 \<Rightarrow> u32 option" where
  "pseudoIPv6Checksum src dst next_hdr total_len sm =
     (let len = htonl total_len
      in add_addr_words 8 0 src dst
           (sm + ucast next_hdr + (len AND 0xFFFF) + drop_bit 16 len))"

section \<open>The reference sum\<close>

text \<open>The RFC 1071 sum: the little-endian words of the bytes, an odd last byte
  padded with a zero byte.\<close>

fun words_of :: "mem \<Rightarrow> u16 list" where
  "words_of (a # b # m) = mk16 a b # words_of m"
| "words_of [a] = [mk16 a 0]"
| "words_of [] = []"

definition word_sum :: "mem \<Rightarrow> nat" where
  "word_sum m = sum_list (map unat (words_of m))"

lemma word_sum_simps [simp]:
  "word_sum [] = 0" "word_sum [a] = unat a"
  "word_sum (a # b # m) = unat (mk16 a b) + word_sum m"
  by (simp_all add: word_sum_def unat_mk16)

lemma word_sum_append:
  "even (length xs) \<Longrightarrow> word_sum (xs @ ys) = word_sum xs + word_sum ys"
  by (induction xs rule: words_of.induct) simp_all

lemma word_sum_bound: "word_sum m \<le> 65535 * ((length m + 1) div 2)"
proof (induction m rule: words_of.induct)
  case (1 a b m)
  have "unat (mk16 a b) \<le> 65535" using unat_less(2) [of "mk16 a b"] by linarith
  with 1 show ?case by simp
next
  case (2 a)
  have "unat a < 256" using unat_less(1) [of a] by linarith
  then show ?case by simp
qed simp

lemma add_words_eq:
  "p + 2 * n \<le> length m \<Longrightarrow>
    add_words n m (p, c) = Some (p + 2 * n, c + word_of_nat (word_sum (take (2 * n) (drop p m))))"
proof (induction n arbitrary: p c)
  case (Suc n)
  have split: "take (2 * Suc n) (drop p m) = m ! p # m ! (p + 1) # take (2 * n) (drop (p + 2) m)"
    using Suc.prems by (simp add: Cons_nth_drop_Suc flip: take_Suc_Cons)
  have u: "(ucast (mk16 (m ! p) (m ! (p + 1))) :: u32) = word_of_nat (unat (mk16 (m ! p) (m ! (p + 1))))"
    by simp
  show ?case
    using Suc.prems Suc.IH [of "p + 2"] unfolding split
    by (simp add: ld16_def u algebra_simps)
qed simp

lemma add_words_add:
  "add_words (i + j) m st = do { st \<leftarrow> add_words i m st; add_words j m st }"
  by (induction i arbitrary: st) (auto split: prod.splits simp: bind_eq_Some_iff Option.bind_assoc)

text \<open>Sixteen words at a time is the same sum as one word at a time.\<close>

lemma add_blocks_words: "add_blocks n m st = add_words (16 * n) m st"
proof (induction n arbitrary: st)
  case (Suc n)
  have "add_words (16 * Suc n) m st = add_words (16 + 16 * n) m st" by simp
  also have "\<dots> = do { st \<leftarrow> add_words 16 m st; add_words (16 * n) m st }"
    by (rule add_words_add)
  finally show ?case using Suc by simp
qed simp

lemma low_byte: "mk16 a b AND htons 0xFF00 = mk16 a 0"
proof -
  have "htons 0xFF00 = (mask 8 :: u16)"
    by (simp add: bswap16_def mask_eq_decr_exp push_bit_eq_mult drop_bit_eq_div)
  then show ?thesis
    by (intro bit_word_eqI) (auto simp: mk16_def bit_simps dest: bit_imp_le_length)
qed

text \<open>The unrolled routine computes the reference sum modulo 2^32.  For an odd sz
  it reads one byte past the end, which has to be readable.\<close>

lemma cksumUpdate_word_sum:
  assumes "n < 2 ^ 31" and "n + n mod 2 \<le> length m"
  shows "cksumUpdate m (int n) c = Some (c + word_of_nat (word_sum (take n m)))"
proof -
  have b: "unat (word_of_int (int n div 32) :: u32) = n div 32"
  proof -
    have "word_of_int (int n div 32) = (word_of_nat (n div 32) :: u32)"
      by (metis of_int_of_nat_eq of_nat_numeral zdiv_int)
    then show ?thesis using assms(1) by (simp add: unat_of_nat)
  qed
  have w: "unat (word_of_int (int n mod 32 div 2) :: u32) = n mod 32 div 2"
  proof -
    have "word_of_int (int n mod 32 div 2) = (word_of_nat (n mod 32 div 2) :: u32)"
      by (metis of_int_of_nat_eq of_nat_numeral zdiv_int zmod_int)
    moreover have "n mod 32 div 2 < 2 ^ 32" by simp
    ultimately show ?thesis by (simp add: unat_of_nat)
  qed
  have eq: "16 * (n div 32) + n mod 32 div 2 = n div 2" by presburger
  let ?k = "n div 2"
  have bl: "do { st \<leftarrow> add_blocks (n div 32) m (0, c); add_words (n mod 32 div 2) m st }
      = Some (2 * ?k, c + word_of_nat (word_sum (take (2 * ?k) m)))"
  proof -
    have "do { st \<leftarrow> add_blocks (n div 32) m (0, c); add_words (n mod 32 div 2) m st }
        = add_words ?k m (0, c)"
      by (simp only: add_blocks_words add_words_add [symmetric] eq)
    also have "\<dots> = Some (2 * ?k, c + word_of_nat (word_sum (take (2 * ?k) m)))"
      using add_words_eq [of 0 ?k m c] assms(2) by simp
    finally show ?thesis .
  qed
  have upd: "cksumUpdate m (int n) c = do {
      (p, c) \<leftarrow> do { st \<leftarrow> add_blocks (n div 32) m (0, c); add_words (n mod 32 div 2) m st };
      if odd n then do { w \<leftarrow> ld16 p m; Some (c + ucast (w AND htons 0xFF00)) } else Some c }"
    unfolding cksumUpdate_def b w by (simp add: Option.bind_assoc)
  show ?thesis
  proof (cases "odd n")
    case False
    then have "2 * ?k = n" by simp
    with False show ?thesis unfolding upd bl by simp
  next
    case True
    then have n: "n = 2 * ?k + 1" and len: "2 * ?k + 2 \<le> length m"
      using assms(2) by (auto simp: odd_iff_mod_2_eq_one)
    have "take n m = take (2 * ?k) m @ [m ! (2 * ?k)]"
      using len by (subst n) (simp add: take_Suc_conv_app_nth)
    then have "word_sum (take n m) = word_sum (take (2 * ?k) m) + unat (m ! (2 * ?k))"
      using len by (simp add: word_sum_append)
    moreover have "(ucast (mk16 (m ! (2 * ?k)) 0) :: u32) = word_of_nat (unat (m ! (2 * ?k)))"
      by (simp add: mk16_def) (rule bit_word_eqI, auto simp: bit_simps dest: bit_imp_le_length)
    ultimately show ?thesis using True len unfolding upd bl
      by (simp add: ld16_def low_byte)
  qed
qed

section \<open>Folding\<close>

definition fold16 :: "nat \<Rightarrow> nat" where
  "fold16 n = n mod 65536 + n div 65536"

lemma fold16_mod: "fold16 n mod 65535 = n mod 65535"
proof -
  have "n = 65536 * (n div 65536) + n mod 65536" by simp
  also have "\<dots> = 65535 * (n div 65536) + fold16 n" by (simp add: fold16_def)
  finally have "n mod 65535 = (65535 * (n div 65536) + fold16 n) mod 65535" by simp
  then show ?thesis by simp
qed

lemma fold16_zero: "fold16 n = 0 \<longleftrightarrow> n = 0"
  by (auto simp: fold16_def)

lemma fold16_twice_bound:
  assumes "n < 4294967296"
  shows "fold16 (fold16 n) < 65536"
proof -
  have "fold16 n \<le> 131070"
    using assms by (simp add: fold16_def)
  note bound = this
  show ?thesis
  proof (cases "fold16 n < 65536")
    case True
    then show ?thesis by (simp add: fold16_def [of "fold16 n"])
  next
    case False
    then obtain k where k: "fold16 n = 65536 + k" by (metis le_Suc_ex not_less)
    with bound have "k < 65536" by simp
    with k bound show ?thesis by (simp add: fold16_def [of "65536 + k"])
  qed
qed

lemma unat_fold_word:
  "unat ((c AND 0xFFFF) + drop_bit 16 (c :: u32)) = fold16 (unat c)"
proof -
  have m: "(0xFFFF :: u32) = mask 16" by (simp add: mask_eq_decr_exp)
  have "unat (c AND 0xFFFF) = unat c mod 65536"
    unfolding m take_bit_eq_mask [symmetric] unsigned_take_bit_eq by (simp add: take_bit_eq_mod)
  moreover have "unat (drop_bit 16 c) = unat c div 65536"
    unfolding drop_bit_eq_div by (simp add: unat_div)
  moreover have "fold16 (unat c) < 4294967296"
    using unat_less(3) [of c] by (simp add: fold16_def)
  ultimately show ?thesis
    by (simp add: unat_word_ariths fold16_def)
qed

text \<open>The two folds leave no carry, so the truncation to 16 bits loses nothing.\<close>

lemma cksumDone_fold: "unat (NOT (cksumDone c)) = fold16 (fold16 (unat c))"
proof -
  let ?c1 = "(c AND 0xFFFF) + drop_bit 16 c"
  let ?c2 = "(?c1 AND 0xFFFF) + drop_bit 16 ?c1"
  have u: "unat ?c2 = fold16 (fold16 (unat c))" by (simp only: unat_fold_word)
  have "fold16 (fold16 (unat c)) < 65536"
    using fold16_twice_bound [OF unat_less(3)] .
  then have "unat (ucast ?c2 :: u16) = unat ?c2"
    unfolding u [symmetric] by (simp add: unsigned_ucast_eq take_bit_nat_eq_self)
  then show ?thesis unfolding cksumDone_def Let_def u by simp
qed

lemma unat_NOT16: "unat (NOT (w :: u16)) = 65535 - unat w"
  proof -
  have m: "unat (- 1 :: u16) = 65535" by (simp add: unsigned_minus_1_eq_mask mask_eq_exp_minus_1)
  have "unat (- 1 - w) = unat (- 1 :: u16) - unat w"
    using unat_less(2) [of w] by (intro unat_sub) (simp add: word_le_nat_alt m)
  moreover have "NOT w = - 1 - w" by (simp add: not_eq_complement)
  ultimately show ?thesis unfolding m by (simp only:)
qed

lemma cksumDone_unat: "unat (cksumDone c) = 65535 - fold16 (fold16 (unat c))"
proof -
  have "unat (cksumDone c) = 65535 - unat (NOT (cksumDone c))"
    using unat_NOT16 [of "NOT (cksumDone c)"] by simp
  then show ?thesis by (simp add: cksumDone_fold)
qed

lemma cksumDone_zero_iff:
  "cksumDone c = 0 \<longleftrightarrow> unat c mod 65535 = 0 \<and> unat c \<noteq> 0"
proof -
  let ?f = "fold16 (fold16 (unat c))"
  have b: "?f < 65536" using fold16_twice_bound [OF unat_less(3)] .
  have "cksumDone c = 0 \<longleftrightarrow> unat (cksumDone c) = 0" by (simp add: unat_eq_zero)
  also have "\<dots> \<longleftrightarrow> ?f = 65535" using b by (simp add: cksumDone_unat) linarith
  also have "\<dots> \<longleftrightarrow> ?f mod 65535 = 0 \<and> ?f \<noteq> 0"
  proof
    assume "?f mod 65535 = 0 \<and> ?f \<noteq> 0"
    then obtain q where "?f = 65535 * q" "q \<noteq> 0" by (auto elim!: dvdE simp: mod_eq_0_iff_dvd)
    with b show "?f = 65535" by (cases q) auto
  qed simp
  finally show ?thesis by (simp add: fold16_mod fold16_zero)
qed

section \<open>Storing the checksum makes the buffer verify\<close>

lemma word_sum_replace:
  assumes "even p" "p + 2 \<le> length m"
  shows "word_sum (take p m @ [a, b] @ drop (p + 2) m)
    = word_sum (take p m) + unat (mk16 a b) + word_sum (drop (p + 2) m)"
  using assms by (simp add: word_sum_append)

lemma word_sum_split:
  assumes "even p" "p + 2 \<le> length m"
  shows "word_sum m = word_sum (take p m) + unat (mk16 (m ! p) (m ! (p + 1))) + word_sum (drop (p + 2) m)"
proof -
  have "m = take p m @ [m ! p, m ! (p + 1)] @ drop (p + 2) m"
    using assms by (simp add: Cons_nth_drop_Suc)
  then show ?thesis using word_sum_replace [OF assms] by metis
qed

lemma cksum_word_sum:
  assumes "n < 2 ^ 31" "n + n mod 2 \<le> length m"
  shows "cksum m (int n) c = Some (cksumDone (c + word_of_nat (word_sum (take n m))))"
  using cksumUpdate_word_sum [OF assms] by (simp add: cksum_def)

lemma cksum_store_verifies:
  assumes "n \<le> 65535" "even p" "p + 2 \<le> n" "n + n mod 2 \<le> length m"
    and zero: "ld16 p m = Some 0"
    and ck: "cksum m (int n) 0 = Some k"
    and k': "k' = k \<or> k = 0 \<and> k' = 0xFFFF"
    and st: "st16 p k' m = Some m'"
  shows "cksum m' (int n) 0 = Some 0"
proof -
  let ?A = "word_sum (take p (take n m))" and ?B = "word_sum (drop (p + 2) (take n m))"
  have n31: "n < 2 ^ 31" "n + n mod 2 \<le> length m" and n_len: "n \<le> length m"
    using assms(1,4) by auto
  have len: "length m' = length m" using st by (auto simp: st16_def dest: wr_length)
  have z: "mk16 (m ! p) (m ! (p + 1)) = 0" using zero by (auto simp: ld16_def split: if_splits)
  have s: "word_sum (take n m) = ?A + ?B"
    using word_sum_split [OF assms(2), of "take n m"] assms(3) n_len z by simp
  have m': "take n m' = take p (take n m) @ le16 k' @ drop (p + 2) (take n m)"
    using st assms(3) n_len by (auto simp: st16_def wr_def put_def min_def drop_take Suc_diff_Suc split: if_splits)
  then have s': "word_sum (take n m') = ?A + unat k' + ?B"
    using assms(2,3) n_len by (simp add: word_sum_append le16_def) (metis le16_def mk16_le16 nth_Cons_0 nth_Cons_Suc add.assoc)
  have "word_sum (take n m) \<le> 65535 * ((n + 1) div 2)"
    using word_sum_bound [of "take n m"] n_len by (simp add: min_absorb2)
  moreover have "(n + 1) div 2 \<le> 32768" using assms(1) by linarith
  ultimately have bound: "?A + ?B \<le> 65535 * 32768" unfolding s
    by (meson le_trans mult_le_mono2)
  have k: "unat k = 65535 - fold16 (fold16 (?A + ?B))"
  proof -
    have "k = cksumDone (word_of_nat (?A + ?B))"
      using ck cksum_word_sum [OF n31, of 0] unfolding s by simp
    moreover have "unat (word_of_nat (?A + ?B) :: u32) = ?A + ?B"
      using bound by (intro unat_of_nat32) simp
    ultimately show ?thesis by (simp only: cksumDone_unat)
  qed
  let ?f = "fold16 (fold16 (?A + ?B))"
  have f: "?f \<le> 65535" using fold16_twice_bound [of "?A + ?B"] bound by simp
  have "(?A + ?B) mod 65535 = ?f mod 65535" by (simp only: fold16_mod)
  then have "(?A + ?B + unat k) mod 65535 = (?f + unat k) mod 65535"
    by (rule mod_add_cong [OF _ refl])
  then have "(?A + ?B + unat k) mod 65535 = 0"
    using le_add_diff_inverse [OF f] unfolding k by (simp only: mod_self)
  moreover have "unat k mod 65535 = unat k' mod 65535" using k' by auto
  ultimately have mod: "(?A + ?B + unat k') mod 65535 = 0" by (metis mod_add_right_eq)
  have nz: "?A + ?B + unat k' \<noteq> 0"
  proof
    assume 0: "?A + ?B + unat k' = 0"
    then have "?f = 0" by (simp only: fold16_zero add_is_0)
    with k have "unat k = 65535" by (simp only: diff_zero)
    with 0 k' show False by auto
  qed
  have small: "?A + ?B + unat k' < 4294967296" using bound unat_less(2) [of k'] by linarith
  have "cksum m' (int n) 0 = Some (cksumDone (word_of_nat (?A + ?B + unat k')))"
    using cksum_word_sum [of n m' 0] n31 len s' by (simp add: ac_simps)
  moreover have "cksumDone (word_of_nat (?A + ?B + unat k')) = 0"
    using mod nz unat_of_nat32 [of "?A + ?B + unat k'"] small
    by (simp only: cksumDone_zero_iff) simp
  ultimately show ?thesis by simp
qed

text \<open>Summing two buffers of even length one after the other is summing their
  concatenation: a header and its payload may be fed to \<open>cksumUpdate\<close> in pieces.\<close>

theorem cksumUpdate_append:
  assumes "even (length a)" "even (length b)" "length a + length b < 2 ^ 31"
    and "cksumUpdate a (int (length a)) c = Some c1"
  shows "cksumUpdate b (int (length b)) c1 = cksumUpdate (a @ b) (int (length a + length b)) c"
  using assms cksumUpdate_word_sum [of "length a" a c] cksumUpdate_word_sum [of "length b" b c1]
    cksumUpdate_word_sum [of "length a + length b" "a @ b" c]
  by (auto simp: word_sum_append algebra_simps)

theorem cksumUpdate_append_witness:
  "\<exists>c. cksumUpdate [1, 2] 2 0 = Some c \<and> cksumUpdate [3, 4] 2 c = cksumUpdate [1, 2, 3, 4] 4 0"
proof -
  obtain c where "cksumUpdate [1, 2] (int (length [1, 2 :: u8])) 0 = Some c"
    using cksumUpdate_word_sum [of 2 "[1, 2]" 0] by auto
  then show ?thesis using cksumUpdate_append [of "[1, 2]" "[3, 4]" 0 c] by simp
qed

text \<open>C29 The checksum routine computes the Internet checksum: the 16 bit one's complement of the
  sum of the little endian words, an odd last byte padded with zero.  Adding the checksum to the
  words gives a multiple of 65535.\<close>

theorem cksum_is_internet_checksum:
  assumes "n \<le> 65535" "n + n mod 2 \<le> length m"
  shows "\<exists>k. cksum m (int n) 0 = Some k \<and> (word_sum (take n m) + unat k) mod 65535 = 0"
proof -
  let ?w = "word_sum (take n m)"
  have "?w \<le> 65535 * ((length (take n m) + 1) div 2)" by (rule word_sum_bound)
  also have "\<dots> \<le> 65535 * ((n + 1) div 2)" by (intro mult_le_mono2 div_le_mono) simp
  also have "\<dots> \<le> 65535 * 32768"
  proof (rule mult_le_mono2)
    show "(n + 1) div 2 \<le> 32768" using assms(1) by linarith
  qed
  finally have b: "?w \<le> 65535 * 32768" .
  then have u: "unat (word_of_nat ?w :: u32) = ?w" by (intro unat_of_nat32) simp
  have "cksum m (int n) 0 = Some (cksumDone (word_of_nat ?w))"
    using cksum_word_sum [of n m 0] assms by simp
  moreover have "unat (cksumDone (word_of_nat ?w)) = 65535 - fold16 (fold16 ?w)"
    by (simp only: cksumDone_unat u)
  moreover have "(?w + (65535 - fold16 (fold16 ?w))) mod 65535 = 0"
  proof -
    have f: "fold16 (fold16 ?w) \<le> 65535" using fold16_twice_bound [of ?w] b by simp
    have "?w mod 65535 = fold16 (fold16 ?w) mod 65535" by (simp only: fold16_mod)
    then have "(?w + (65535 - fold16 (fold16 ?w))) mod 65535
        = (fold16 (fold16 ?w) + (65535 - fold16 (fold16 ?w))) mod 65535" by (rule mod_add_cong [OF _ refl])
    then show ?thesis using le_add_diff_inverse [OF f] by (simp only: mod_self)
  qed
  ultimately show ?thesis by metis
qed

theorem cksum_is_internet_checksum_witness:
  "\<exists>k. cksum [0x45, 0, 0, 0x1C, 9, 0] 5 0 = Some k
    \<and> (word_sum [0x45, 0, 0, 0x1C, 9] + unat k) mod 65535 = 0"
  using cksum_is_internet_checksum [of 5 "[0x45, 0, 0, 0x1C, 9, 0]"] by simp

section \<open>The pseudo header\<close>

lemma ucast_low_half: "(w :: u32) AND 0xFFFF = ucast (ucast w :: u16)"
proof -
  have m: "(0xFFFF :: u32) = mask 16" by (simp add: mask_eq_decr_exp)
  show ?thesis unfolding m by (intro bit_word_eqI) (auto simp: bit_simps)
qed

lemma be32_halves:
  "(ucast (htonl s) :: u16) = mk16 (be32 s ! 0) (be32 s ! 1)"
  "drop_bit 16 (htonl s) = (ucast (mk16 (be32 s ! 2) (be32 s ! 3)) :: u32)"
proof -
  have b: "be32 s ! 0 = ucast (drop_bit 24 s)" "be32 s ! 1 = ucast (drop_bit 16 s)"
    "be32 s ! 2 = ucast (drop_bit 8 s)" "be32 s ! 3 = ucast s"
    by (simp_all add: be32_def)
  show "(ucast (htonl s) :: u16) = mk16 (be32 s ! 0) (be32 s ! 1)" unfolding b
    by (rule bit_word_eqI) (auto simp: mk16_def bit_bswap32 bit_simps ac_simps dest: bit_imp_le_length)
  show "drop_bit 16 (htonl s) = (ucast (mk16 (be32 s ! 2) (be32 s ! 3)) :: u32)" unfolding b
    by (rule bit_word_eqI) (auto simp: mk16_def bit_bswap32 bit_simps ac_simps dest: bit_imp_le_length)
qed

lemma ntohs_mk16: "ntohs w = mk16 (be16 w ! 0) (be16 w ! 1)"
  unfolding be16_def by (rule bit_word_eqI) (auto simp: mk16_def bswap16_def bit_simps dest: bit_imp_le_length)

lemma ntohs_byte: "ntohs (ucast (b :: u8)) = mk16 0 b"
  by (rule bit_word_eqI) (auto simp: mk16_def bswap16_def bit_simps dest: bit_imp_le_length)

lemma word_of_unat16: "(word_of_nat (unat (w :: u16)) :: u32) = ucast w"
  by simp

lemma be_nth_split:
  "be32 s = [be32 s ! 0, be32 s ! 1, be32 s ! 2, be32 s ! 3]" "be16 w = [be16 w ! 0, be16 w ! 1]"
  by (simp_all add: be32_def be16_def)

end
