(* ===== verification/Headers.thy ===== *)
theory Headers
  imports Range Cksum
begin

text \<open>
  The packet header constructors: \<open>app/pktgen-ether.c\<close>, \<open>app/pktgen-ipv4.c\<close>,
  \<open>app/pktgen-tcp.c\<close>, \<open>app/pktgen-udp.c\<close>, \<open>app/pktgen-gtpu.c\<close>,
  \<open>app/pktgen-gre.c\<close> and \<open>app/pktgen-ipv6.c\<close>.  A constructor writes into the
  template's own buffer \<open>hdr\<close>, at the byte offset the C code holds as a
  pointer; a pointer that may be NULL is an offset option.  Lengths are formed
  in \<open>uint16_t\<close>, as in the code.
\<close>

definition on_hdr :: "(mem \<Rightarrow> mem option) \<Rightarrow> pkt_seq \<Rightarrow> pkt_seq option" where
  "on_hdr f p = map_option (\<lambda>h. p\<lparr>hdr := h\<rparr>) (f (hdr p))"

definition szof :: "layout \<Rightarrow> u16" where "szof l = word_of_nat (sizeof l)"

lemma szof_simps [simp]:
  "szof ether_hdr = 14" "szof ipHdr = 20" "szof ipv6Hdr = 40" "szof gtpuHdr = 8" "szof udpHdr = 8"
  "szof tcpHdr = 20" "szof vlan_hdr = 4" "szof mplsHdr = 4" "szof qinqHdr = 8" "szof greIp = 36"
  "szof greEther = 50" "szof tcpipv6 = 60" "szof udpipv6 = 48" "szof udpip = 28" "szof tcpip = 40"
  by (simp_all add: szof_def)

text \<open>Encapsulation is pending for packets of the generator in GTP-U mode.\<close>

definition gtpu_gen :: "glob \<Rightarrow> bool" where
  "gtpu_gen g \<longleftrightarrow> enable_gtpu g \<noteq> 0 \<and> traffic_gen_as g = IL_TRAFFIC_GEN"

section \<open>Ethernet\<close>

definition ether_addrs :: "pkt_seq \<Rightarrow> nat \<Rightarrow> mem \<Rightarrow> mem option" where
  "ether_addrs p eth m = do {
     m \<leftarrow> wr (eth + offsetof ether_hdr ''s_addr'') (eth_src_addr p) m;
     wr (eth + offsetof ether_hdr ''d_addr'') (eth_dst_addr p) m }"

definition pktgen_ether_hdr_ctor :: "port_info \<Rightarrow> pkt_seq \<Rightarrow> nat \<Rightarrow> (nat \<times> pkt_seq) option" where
  "pktgen_ether_hdr_ctor info p eth = do {
     p \<leftarrow> on_hdr (ether_addrs p eth) p;
     let flg = port_flags info;
     let ty = eth + offsetof ether_hdr ''ether_type'';
     let nxt = eth + sizeof ether_hdr;
     if has_flag flg SEND_VLAN_ID then do {
       let tci = vlanid p OR push_bit 13 (ucast (pkt_cos p));
       p \<leftarrow> on_hdr (st16 ty (htons ETHER_TYPE_VLAN)) p;
       p \<leftarrow> on_hdr (st16 (nxt + offsetof vlan_hdr ''vlan_tci'') (htons tci)) p;
       p \<leftarrow> on_hdr (st16 (nxt + offsetof vlan_hdr ''eth_proto'') (htons (ethType p))) p;
       Some (nxt + sizeof vlan_hdr, p\<lparr>ether_hdr_size := szof ether_hdr + szof vlan_hdr\<rparr>) }
     else if has_flag flg SEND_MPLS_LABEL then do {
       p \<leftarrow> on_hdr (st16 ty (htons ETHER_TYPE_MPLS_UNICAST)) p;
       let label = MPLS_SET_BOS (mpls_entry p);
       p \<leftarrow> on_hdr (st32 (nxt + offsetof mplsHdr ''label'') (htonl label)) p;
       Some (nxt + sizeof mplsHdr, p\<lparr>ether_hdr_size := szof ether_hdr + szof mplsHdr\<rparr>) }
     else if has_flag flg SEND_Q_IN_Q_IDS then do {
       p \<leftarrow> on_hdr (st16 ty (htons ETHER_TYPE_Q_IN_Q)) p;
       p \<leftarrow> on_hdr (st16 (nxt + offsetof qinqHdr ''qinq_tci'') (htons (qinq_outerid p))) p;
       p \<leftarrow> on_hdr (st16 (nxt + offsetof qinqHdr ''vlan_tpid'') (htons ETHER_TYPE_VLAN)) p;
       p \<leftarrow> on_hdr (st16 (nxt + offsetof qinqHdr ''vlan_tci'') (htons (qinq_innerid p))) p;
       p \<leftarrow> on_hdr (st16 (nxt + offsetof qinqHdr ''eth_proto'') (htons (ethType p))) p;
       Some (nxt + sizeof qinqHdr, p\<lparr>ether_hdr_size := szof ether_hdr + szof qinqHdr\<rparr>) }
     else do {
       p \<leftarrow> on_hdr (st16 ty (htons (ethType p))) p;
       Some (nxt, p\<lparr>ether_hdr_size := szof ether_hdr\<rparr>) } }"

section \<open>IPv4\<close>

definition IPv4_VL :: u8 where
  "IPv4_VL = push_bit 4 4 OR word_of_nat (sizeof ipHdr div 4)"

definition pktgen_ipv4_ctor :: "glob \<Rightarrow> pkt_seq \<Rightarrow> nat \<Rightarrow> (glob \<times> pkt_seq) option" where
  "pktgen_ipv4_ctor g p ip = do {
     let tlen = (if gtpu_gen g
           then pktSize p - (ether_hdr_size p + szof ipHdr + szof udpHdr + szof gtpuHdr)
           else pktSize p - ether_hdr_size p);
     p \<leftarrow> on_hdr (memset ip 0 (sizeof ipHdr)) p;
     p \<leftarrow> on_hdr (st8 (ip + offsetof ipHdr ''vl'') IPv4_VL) p;
     p \<leftarrow> on_hdr (st16 (ip + offsetof ipHdr ''tlen'') (htons tlen)) p;
     p \<leftarrow> on_hdr (st8 (ip + offsetof ipHdr ''ttl'') 64) p;
     p \<leftarrow> on_hdr (st8 (ip + offsetof ipHdr ''tos'') (tos p)) p;
     let g = g\<lparr>ident := ident g + 27\<rparr>;
     p \<leftarrow> on_hdr (st16 (ip + offsetof ipHdr ''ident'') (htons (ident g))) p;
     p \<leftarrow> on_hdr (st16 (ip + offsetof ipHdr ''ffrag'') 0) p;
     p \<leftarrow> on_hdr (st8 (ip + offsetof ipHdr ''proto'') (ucast (ipProto p))) p;
     p \<leftarrow> on_hdr (st32 (ip + offsetof ipHdr ''src'') (htonl (s_addr (ip_src_addr p)))) p;
     p \<leftarrow> on_hdr (st32 (ip + offsetof ipHdr ''dst'') (htonl (s_addr (ip_dst_addr p)))) p;
     ck \<leftarrow> cksum (drop ip (hdr p)) (int (sizeof ipHdr)) 0;
     p \<leftarrow> on_hdr (st16 (ip + offsetof ipHdr ''cksum'') ck) p;
     Some (g, p) }"

section \<open>TCP\<close>

definition TCP_OFFSET :: u8 where
  "TCP_OFFSET = push_bit 4 (word_of_nat (sizeof tcpHdr div 4))"

definition tcp_fields :: "pkt_seq \<Rightarrow> nat \<Rightarrow> pkt_seq \<Rightarrow> pkt_seq option" where
  "tcp_fields t tcp p = do {
     p \<leftarrow> on_hdr (st16 (tcp + offsetof tcpHdr ''sport'') (htons (sport t))) p;
     p \<leftarrow> on_hdr (st16 (tcp + offsetof tcpHdr ''dport'') (htons (dport t))) p;
     p \<leftarrow> on_hdr (st32 (tcp + offsetof tcpHdr ''seq'') (htonl DEFAULT_PKT_NUMBER)) p;
     p \<leftarrow> on_hdr (st32 (tcp + offsetof tcpHdr ''ack'') (htonl DEFAULT_ACK_NUMBER)) p;
     p \<leftarrow> on_hdr (st8 (tcp + offsetof tcpHdr ''offset'') TCP_OFFSET) p;
     p \<leftarrow> on_hdr (st8 (tcp + offsetof tcpHdr ''flags'') ACK_FLAG) p;
     p \<leftarrow> on_hdr (st16 (tcp + offsetof tcpHdr ''window'') (htons DEFAULT_WND_SIZE)) p;
     on_hdr (st16 (tcp + offsetof tcpHdr ''urgent'') 0) p }"

definition pktgen_tcp_hdr_ctor :: "pkt_seq \<Rightarrow> nat \<Rightarrow> u16 \<Rightarrow> pkt_seq option" where
  "pktgen_tcp_hdr_ctor p h ty =
    (if ty = ETHER_TYPE_IPv4 then do {
       let ip = h + offsetof tcpip ''ip''; let tcp = h + offsetof tcpip ''tcp'';
       p \<leftarrow> on_hdr (memset h 0 (sizeof tcpip)) p;
       p \<leftarrow> on_hdr (st32 (ip + offsetof ipOverlay ''src'') (htonl (s_addr (ip_src_addr p)))) p;
       p \<leftarrow> on_hdr (st32 (ip + offsetof ipOverlay ''dst'') (htonl (s_addr (ip_dst_addr p)))) p;
       let tlen = pktSize p - (ether_hdr_size p + szof ipHdr);
       p \<leftarrow> on_hdr (st16 (ip + offsetof ipOverlay ''len'') (htons tlen)) p;
       p \<leftarrow> on_hdr (st8 (ip + offsetof ipOverlay ''proto'') (ucast (ipProto p))) p;
       p \<leftarrow> tcp_fields p tcp p;
       let tlen = pktSize p - ether_hdr_size p;
       ck \<leftarrow> cksum (drop h (hdr p)) (uint tlen) 0;
       on_hdr (st16 (tcp + offsetof tcpHdr ''cksum'') ck) p }
     else do {
       let ip = h + offsetof tcpipv6 ''ip''; let tcp = h + offsetof tcpipv6 ''tcp'';
       p \<leftarrow> on_hdr (memset h 0 (sizeof tcpipv6)) p;
       p \<leftarrow> on_hdr (wr (ip + offsetof ipv6Overlay ''daddr'') (s6_addr (ip_dst_addr p))) p;
       p \<leftarrow> on_hdr (wr (ip + offsetof ipv6Overlay ''saddr'') (s6_addr (ip_src_addr p))) p;
       let tlen = szof tcpHdr + (pktSize p - ether_hdr_size p - szof ipv6Hdr - szof tcpHdr);
       p \<leftarrow> on_hdr (st32 (ip + offsetof ipv6Overlay ''tcp_length'') (htonl (ucast tlen))) p;
       p \<leftarrow> on_hdr (st8 (ip + offsetof ipv6Overlay ''next_header'') (ucast (ipProto p))) p;
       p \<leftarrow> tcp_fields p tcp p;
       let tlen = szof tcpipv6 + (pktSize p - ether_hdr_size p - szof ipv6Hdr - szof tcpHdr);
       ck \<leftarrow> cksum (drop h (hdr p)) (uint tlen) 0;
       on_hdr (st16 (tcp + offsetof tcpHdr ''cksum'') ck) p })"

section \<open>UDP\<close>

text \<open>A zero checksum is sent as all ones.\<close>

definition udp_cksum :: "nat \<Rightarrow> nat \<Rightarrow> u16 \<Rightarrow> pkt_seq \<Rightarrow> pkt_seq option" where
  "udp_cksum start field tlen p = do {
     ck \<leftarrow> cksum (drop start (hdr p)) (uint tlen) 0;
     p \<leftarrow> on_hdr (st16 field ck) p;
     ck \<leftarrow> ld16 field (hdr p);
     if ck = 0 then on_hdr (st16 field 0xFFFF) p else Some p }"

definition pktgen_udp_hdr_ctor :: "glob \<Rightarrow> pkt_seq \<Rightarrow> nat \<Rightarrow> u16 \<Rightarrow> pkt_seq option" where
  "pktgen_udp_hdr_ctor g p h ty =
    (if ty = ETHER_TYPE_IPv4 then do {
       let ip = h + offsetof udpip ''ip''; let udp = h + offsetof udpip ''udp'';
       p \<leftarrow> on_hdr (memset h 0 (sizeof udpip)) p;
       p \<leftarrow> on_hdr (st32 (ip + offsetof ipOverlay ''src'') (htonl (s_addr (ip_src_addr p)))) p;
       p \<leftarrow> on_hdr (st32 (ip + offsetof ipOverlay ''dst'') (htonl (s_addr (ip_dst_addr p)))) p;
       let tlen = (if gtpu_gen g
             then pktSize p - (ether_hdr_size p + szof ipHdr + szof ipHdr + szof udpHdr + szof gtpuHdr)
             else pktSize p - (ether_hdr_size p + szof ipHdr));
       p \<leftarrow> on_hdr (st16 (ip + offsetof ipOverlay ''len'') (htons tlen)) p;
       p \<leftarrow> on_hdr (st8 (ip + offsetof ipOverlay ''proto'') (ucast (ipProto p))) p;
       p \<leftarrow> on_hdr (st16 (udp + offsetof udpHdr ''len'') (htons tlen)) p;
       p \<leftarrow> on_hdr (st16 (udp + offsetof udpHdr ''sport'') (htons (sport p))) p;
       p \<leftarrow> on_hdr (st16 (udp + offsetof udpHdr ''dport'') (htons (dport p))) p;
       let tlen = (if gtpu_gen g
             then pktSize p - (ether_hdr_size p + szof ipHdr + szof udpHdr)
             else pktSize p - ether_hdr_size p);
       udp_cksum h (udp + offsetof udpHdr ''cksum'') tlen p }
     else do {
       let ip = h + offsetof udpipv6 ''ip''; let udp = h + offsetof udpipv6 ''udp'';
       p \<leftarrow> on_hdr (memset h 0 (sizeof udpipv6)) p;
       p \<leftarrow> on_hdr (st32 (ip + offsetof ipv6Overlay ''daddr'' + 8) (htonl (s_addr (ip_dst_addr p)))) p;
       p \<leftarrow> on_hdr (st32 (ip + offsetof ipv6Overlay ''saddr'' + 8) (htonl (s_addr (ip_src_addr p)))) p;
       let tlen = szof udpHdr + (pktSize p - ether_hdr_size p - szof ipv6Hdr - szof udpHdr);
       p \<leftarrow> on_hdr (st32 (ip + offsetof ipv6Overlay ''tcp_length'') (htonl (ucast tlen))) p;
       p \<leftarrow> on_hdr (st8 (ip + offsetof ipv6Overlay ''next_header'') (ucast (ipProto p))) p;
       p \<leftarrow> on_hdr (st16 (udp + offsetof udpHdr ''sport'') (htons (sport p))) p;
       p \<leftarrow> on_hdr (st16 (udp + offsetof udpHdr ''dport'') (htons (dport p))) p;
       let tlen = szof udpipv6 + (pktSize p - ether_hdr_size p - szof ipv6Hdr - szof udpHdr);
       udp_cksum h (udp + offsetof udpHdr ''cksum'') tlen p })"

section \<open>GTP-U\<close>

definition GTPu_VERSION :: u8 where "GTPu_VERSION = 0x20"
definition GTPu_PT_FLAG :: u8 where "GTPu_PT_FLAG = 0x10"
definition GTPu_E_FLAG :: u8 where "GTPu_E_FLAG = 0x04"
definition GTPu_S_FLAG :: u8 where "GTPu_S_FLAG = 0x02"
definition GTPu_PN_FLAG :: u8 where "GTPu_PN_FLAG = 0x01"

text \<open>The optional fields bump the stored length, which the final assignment
  overwrites.\<close>

definition gtpu_bump :: "u8 \<Rightarrow> u8 \<Rightarrow> u16 \<Rightarrow> nat \<Rightarrow> pkt_seq \<Rightarrow> pkt_seq option" where
  "gtpu_bump flgs fb n gtpu p =
    (if flgs AND fb \<noteq> 0 then do {
       l \<leftarrow> ld16 (gtpu + offsetof gtpuHdr ''tot_len'') (hdr p);
       on_hdr (st16 (gtpu + offsetof gtpuHdr ''tot_len'') (l + n)) p } else Some p)"

definition pktgen_gtpu_hdr_ctor :: "pkt_seq \<Rightarrow> nat \<Rightarrow> u16 \<Rightarrow> u8 \<Rightarrow> pkt_seq option" where
  "pktgen_gtpu_hdr_ctor p h proto flgs = do {
     let l4 = (if proto = ucast PG_IPPROTO_UDP then sizeof udpHdr else sizeof tcpHdr);
     let gtpu = h + sizeof ipHdr + l4;
     p \<leftarrow> on_hdr (memset gtpu 0 (sizeof gtpuHdr)) p;
     p \<leftarrow> on_hdr (st8 (gtpu + offsetof gtpuHdr ''version_flags'') flgs) p;
     p \<leftarrow> on_hdr (st8 (gtpu + offsetof gtpuHdr ''msg_type'') 0xff) p;
     p \<leftarrow> on_hdr (st32 (gtpu + offsetof gtpuHdr ''teid'') (htonl (gtpu_teid p))) p;
     p \<leftarrow> gtpu_bump flgs GTPu_S_FLAG 2 gtpu p;
     p \<leftarrow> gtpu_bump flgs GTPu_PN_FLAG 1 gtpu p;
     p \<leftarrow> gtpu_bump flgs GTPu_E_FLAG 1 gtpu p;
     on_hdr (st16 (gtpu + offsetof gtpuHdr ''tot_len'')
       (htons (pktSize p - (word_of_nat l4 + szof gtpuHdr + ether_hdr_size p)))) p }"

section \<open>GRE\<close>

definition GRE_SRC_ADDR :: u32 where
  "GRE_SRC_ADDR = push_bit 24 10 OR push_bit 16 10 OR push_bit 8 1 OR 1"

definition GRE_DST_ADDR :: u32 where
  "GRE_DST_ADDR = push_bit 24 10 OR push_bit 16 10 OR push_bit 8 1 OR 2"

definition gre_ip_hdr :: "glob \<Rightarrow> pkt_seq \<Rightarrow> nat \<Rightarrow> (glob \<times> pkt_seq) option" where
  "gre_ip_hdr g p ip = do {
     p \<leftarrow> on_hdr (st8 (ip + offsetof ipHdr ''vl'') IPv4_VL) p;
     p \<leftarrow> on_hdr (st8 (ip + offsetof ipHdr ''tos'') 0) p;
     p \<leftarrow> on_hdr (st16 (ip + offsetof ipHdr ''tlen'') (htons (pktSize p - ether_hdr_size p))) p;
     let g = g\<lparr>ident := ident g + 27\<rparr>;
     p \<leftarrow> on_hdr (st16 (ip + offsetof ipHdr ''ident'') (htons (ident g))) p;
     p \<leftarrow> on_hdr (st16 (ip + offsetof ipHdr ''ffrag'') 0) p;
     p \<leftarrow> on_hdr (st8 (ip + offsetof ipHdr ''ttl'') 64) p;
     p \<leftarrow> on_hdr (st8 (ip + offsetof ipHdr ''proto'') PG_IPPROTO_GRE) p;
     p \<leftarrow> on_hdr (st32 (ip + offsetof ipHdr ''src'') (htonl GRE_SRC_ADDR)) p;
     p \<leftarrow> on_hdr (st32 (ip + offsetof ipHdr ''dst'') (htonl GRE_DST_ADDR)) p;
     ck \<leftarrow> cksum (drop ip (hdr p)) (int (sizeof ipHdr)) 0;
     p \<leftarrow> on_hdr (st16 (ip + offsetof ipHdr ''cksum'') ck) p;
     Some (g, p) }"

text \<open>The bit fields: only \<open>key_present\<close> (bit 5 of the first byte) is set, so that one
  of the three extra fields is used and twelve minus four bytes are cut.\<close>

definition GRE_BITS0 :: u8 where "GRE_BITS0 = push_bit 5 1"

definition pktgen_gre_hdr_ctor :: "glob \<Rightarrow> pkt_seq \<Rightarrow> nat option \<Rightarrow> (glob \<times> nat \<times> pkt_seq) option" where
  "pktgen_gre_hdr_ctor g p gre = do {
     h \<leftarrow> gre;
     p \<leftarrow> on_hdr (memset h 0 (sizeof greIp)) p;
     (g, p) \<leftarrow> gre_ip_hdr g p (h + offsetof greIp ''ip'');
     let b = h + offsetof greIp ''gre'';
     p \<leftarrow> on_hdr (st8 (b + offsetof greHdr ''bits0'') GRE_BITS0) p;
     p \<leftarrow> on_hdr (st8 (b + offsetof greHdr ''bits1'') 0) p;
     p \<leftarrow> on_hdr (st16 (b + offsetof greHdr ''eth_type'') (htons ETHER_TYPE_IPv4)) p;
     p \<leftarrow> on_hdr (st32 (b + offsetof greHdr ''extra_fields'') (htonl (gre_key p))) p;
     let extra_count = 1; let cut = 4 * (3 - extra_count);
     Some (g, h + sizeof greIp - cut,
       p\<lparr>ether_hdr_size := ether_hdr_size p + (szof greIp - word_of_nat cut)\<rparr>) }"

definition pktgen_gre_ether_hdr_ctor :: "glob \<Rightarrow> pkt_seq \<Rightarrow> nat option \<Rightarrow> (glob \<times> nat \<times> pkt_seq) option" where
  "pktgen_gre_ether_hdr_ctor g p gre = do {
     h \<leftarrow> gre;
     p \<leftarrow> on_hdr (memset h 0 (sizeof greEther)) p;
     (g, p) \<leftarrow> gre_ip_hdr g p (h + offsetof greEther ''ip'');
     let b = h + offsetof greEther ''gre'';
     p \<leftarrow> on_hdr (st8 (b + offsetof greHdr ''bits0'') GRE_BITS0) p;
     p \<leftarrow> on_hdr (st8 (b + offsetof greHdr ''bits1'') 0) p;
     p \<leftarrow> on_hdr (st16 (b + offsetof greHdr ''eth_type'') (htons ETHER_TYPE_TRANSP_ETH_BR)) p;
     p \<leftarrow> on_hdr (st32 (b + offsetof greHdr ''extra_fields'') (htonl (gre_key p))) p;
     let extra_count = 1; let cut = 4 * (3 - extra_count); let eth = b + 2 + 2 + 4 * extra_count;
     p \<leftarrow> on_hdr (ether_addrs p eth) p;
     p \<leftarrow> on_hdr (st16 (eth + offsetof ether_hdr ''ether_type'') (htons ETHER_TYPE_IPv4)) p;
     Some (g, h + sizeof greEther - cut,
       p\<lparr>ether_hdr_size := ether_hdr_size p + (szof greEther - word_of_nat cut)\<rparr>) }"

section \<open>IPv6\<close>

text \<open>Both copies take the destination address and start at the ninth byte of
  their field.\<close>

definition pktgen_ipv6_ctor :: "pkt_seq \<Rightarrow> nat \<Rightarrow> pkt_seq option" where
  "pktgen_ipv6_ctor p ip = do {
     p \<leftarrow> on_hdr (memset ip 0 (sizeof ipv6Hdr)) p;
     p \<leftarrow> on_hdr (st32 (ip + offsetof ipv6Hdr ''ver_tc_fl'') (htonl (push_bit 28 6))) p;
     let tlen = pktSize p - (ether_hdr_size p + szof ipv6Hdr);
     p \<leftarrow> on_hdr (st16 (ip + offsetof ipv6Hdr ''payload_length'') (htons tlen)) p;
     p \<leftarrow> on_hdr (st8 (ip + offsetof ipv6Hdr ''hop_limit'') 4) p;
     p \<leftarrow> on_hdr (st8 (ip + offsetof ipv6Hdr ''next_header'') (ucast (ipProto p))) p;
     p \<leftarrow> on_hdr (wr (ip + offsetof ipv6Hdr ''daddr'' + 8) (s6_addr (ip_dst_addr p))) p;
     on_hdr (wr (ip + offsetof ipv6Hdr ''saddr'' + 8) (s6_addr (ip_dst_addr p))) p }"

section \<open>Writing a template\<close>

lemma on_hdr_wr:
  "off + length bs \<le> length (hdr p) \<Longrightarrow> on_hdr (wr off bs) p = Some (p\<lparr>hdr := put off bs (hdr p)\<rparr>)"
  by (simp add: on_hdr_def wr_def)

lemma on_hdr_st [mem_simps]:
  "off + 1 \<le> length (hdr p) \<Longrightarrow> on_hdr (st8 off b) p = Some (p\<lparr>hdr := put off [b] (hdr p)\<rparr>)"
  "off + 2 \<le> length (hdr p) \<Longrightarrow> on_hdr (st16 off w) p = Some (p\<lparr>hdr := put off (le16 w) (hdr p)\<rparr>)"
  "off + 4 \<le> length (hdr p) \<Longrightarrow> on_hdr (st32 off v) p = Some (p\<lparr>hdr := put off (le32 v) (hdr p)\<rparr>)"
  "off + n \<le> length (hdr p) \<Longrightarrow>
     on_hdr (memset off b n) p = Some (p\<lparr>hdr := put off (replicate n b) (hdr p)\<rparr>)"
  by (simp_all add: st8_def st16_def st32_def memset_def on_hdr_wr)

lemma put_put_in0:
  "length bs \<le> length blk \<Longrightarrow> off + length blk \<le> length m \<Longrightarrow>
    put off bs (put off blk m) = put off (put 0 bs blk) m"
  using put_put_in [of 0 bs blk off m] by simp

lemma put_put_in_Suc:
  "1 + length bs \<le> length blk \<Longrightarrow> off + length blk \<le> length m \<Longrightarrow>
    put (Suc off) bs (put off blk m) = put off (put (Suc 0) bs blk) m"
  "2 + length bs \<le> length blk \<Longrightarrow> off + length blk \<le> length m \<Longrightarrow>
    put (Suc (Suc off)) bs (put off blk m) = put off (put 2 bs blk) m"
  using put_put_in [of 1 bs blk off m] put_put_in [of 2 bs blk off m] by simp_all

lemma put_put_in_comm:
  "k + length bs \<le> length blk \<Longrightarrow> off + length blk \<le> length m \<Longrightarrow>
    put (k + off) bs (put off blk m) = put off (put k bs blk) m"
  using put_put_in [of k bs blk off m] by (simp add: add.commute)

lemmas block_simps = put_put_in put_put_in0 put_put_in_Suc put_put_in_comm drop_put on_hdr_st on_hdr_wr

section \<open>The IPv4 header\<close>

text \<open>The header of RFC 791 without options, byte for byte.\<close>

definition ip_header :: "u8 \<Rightarrow> u16 \<Rightarrow> u16 \<Rightarrow> u8 \<Rightarrow> u32 \<Rightarrow> u32 \<Rightarrow> u16 \<Rightarrow> u8 list" where
  "ip_header ts tlen idt proto src dst ck = [0x45, ts] @ be16 tlen @ be16 idt @ [0, 0, 64, proto]
     @ le16 ck @ be32 src @ be32 dst"

definition ipv4_tlen :: "glob \<Rightarrow> pkt_seq \<Rightarrow> u16" where
  "ipv4_tlen g p = (if gtpu_gen g then pktSize p - (36 + ether_hdr_size p)
     else pktSize p - ether_hdr_size p)"

definition ipv4_bytes :: "glob \<Rightarrow> pkt_seq \<Rightarrow> u16 \<Rightarrow> u8 list" where
  "ipv4_bytes g p ck = ip_header (tos p) (ipv4_tlen g p) (ident g + 27) (ucast (ipProto p))
     (s_addr (ip_src_addr p)) (s_addr (ip_dst_addr p)) ck"

lemma length_ip_header [simp]: "length (ip_header a b c d e f g) = 20"
  by (simp add: ip_header_def)

lemma length_ipv4_bytes [simp]: "length (ipv4_bytes g p ck) = 20"
  by (simp add: ipv4_bytes_def)

lemma replicate_20: "replicate 20 (0 :: u8) = [0,0,0,0,0,0,0,0,0,0,0,0,0,0,0,0,0,0,0,0]"
  by (simp add: numeral_eq_Suc)

lemma IPv4_VL [simp]: "IPv4_VL = 0x45"
  by (simp add: IPv4_VL_def push_bit_eq_mult)

definition ipv4_ck :: "glob \<Rightarrow> pkt_seq \<Rightarrow> u16" where
  "ipv4_ck g p = cksumDone (word_of_nat (word_sum (ipv4_bytes g p 0)))"

lemma le16_0 [simp]: "le16 0 = [0, 0]"
  by (simp add: le16_def)

lemma cksum_block:
  assumes "length blk = n" "even n" "n < 2 ^ 31"
  shows "cksum (blk @ rest) (int n) c = Some (cksumDone (c + word_of_nat (word_sum blk)))"
  using cksum_word_sum [of n "blk @ rest" c] assms by (simp add: even_iff_mod_2_eq_zero)

lemma ip_fields_block:
  "put 16 (be32 dst) (put 12 (be32 src) (put 9 [proto] (put 6 [0, 0] (put 4 (be16 idt)
    (put (Suc 0) [ts] (put 8 [64] (put 2 (be16 tlen) (put 0 [0x45] (replicate 20 0)))))))))
   = ip_header ts tlen idt proto src dst 0"
  unfolding replicate_20 by (simp add: put_def be16_def be32_def ip_header_def)

lemma ip_cksum_block: "put 10 (le16 ck) (ip_header ts tlen idt proto src dst 0) = ip_header ts tlen idt proto src dst ck"
  by (simp add: put_def be16_def be32_def le16_def ip_header_def)

lemma ipv4_ctor_result:
  assumes "ip + 20 \<le> length (hdr p)"
  shows "pktgen_ipv4_ctor g p ip =
    Some (g\<lparr>ident := ident g + 27\<rparr>, p\<lparr>hdr := put ip (ipv4_bytes g p (ipv4_ck g p)) (hdr p)\<rparr>)"
proof -
  let ?B = "ipv4_bytes g p 0"
  have ck: "cksum (?B @ drop (ip + 20) (hdr p)) 20 0 = Some (ipv4_ck g p)"
    using cksum_block [of ?B 20 "drop (ip + 20) (hdr p)" 0] by (simp add: ipv4_ck_def)
  have g: "gtpu_gen (g\<lparr>ident := x\<rparr>) = gtpu_gen g" for x by (simp add: gtpu_gen_def)
  show ?thesis
    using assms ck unfolding ipv4_bytes_def ipv4_tlen_def
    by (simp add: pktgen_ipv4_ctor_def block_simps ip_fields_block ip_cksum_block Let_def
        split: if_splits)
qed

text \<open>The stored checksum makes the header sum to zero, whatever follows it.\<close>

lemma ipv4_bytes_verify: "cksum (ipv4_bytes g p (ipv4_ck g p) @ rest) 20 0 = Some 0"
proof -
  have s: "st16 10 (ipv4_ck g p) (ipv4_bytes g p 0) = Some (ipv4_bytes g p (ipv4_ck g p))"
    by (simp add: st16_def wr_def ipv4_bytes_def ip_cksum_block)
  have z: "ld16 10 (ipv4_bytes g p 0) = Some 0"
    by (simp add: ld16_def ipv4_bytes_def ip_header_def be16_def mk16_def nth_append)
  have c: "cksum (ipv4_bytes g p 0) 20 0 = Some (ipv4_ck g p)"
    using cksum_block [of "ipv4_bytes g p 0" 20 "[]" 0] by (simp add: ipv4_ck_def)
  have "cksum (ipv4_bytes g p (ipv4_ck g p)) 20 0 = Some 0"
    using cksum_store_verifies [OF _ _ _ _ z _ disjI1 [OF refl] s, of 20] c by simp
  then show ?thesis
    using cksum_block [of "ipv4_bytes g p (ipv4_ck g p)" 20 rest 0]
      cksum_block [of "ipv4_bytes g p (ipv4_ck g p)" 20 "[]" 0] by simp
qed

section \<open>TCP and UDP over IPv4\<close>

text \<open>The twenty bytes of pseudo header that the IP header replaces later, and the
  transport headers of RFC 793 and RFC 768.\<close>

definition pseudo_hdr :: "u8 \<Rightarrow> u16 \<Rightarrow> u32 \<Rightarrow> u32 \<Rightarrow> u8 list" where
  "pseudo_hdr proto len src dst = [0,0,0,0,0,0,0,0,0,proto] @ be16 len @ be32 src @ be32 dst"

definition tcp_header :: "u16 \<Rightarrow> u16 \<Rightarrow> u16 \<Rightarrow> u8 list" where
  "tcp_header sp dp ck = be16 sp @ be16 dp @ be32 DEFAULT_PKT_NUMBER @ be32 DEFAULT_ACK_NUMBER
     @ [0x50, 0x10] @ be16 DEFAULT_WND_SIZE @ le16 ck @ [0, 0]"

definition udp_header :: "u16 \<Rightarrow> u16 \<Rightarrow> u16 \<Rightarrow> u16 \<Rightarrow> u8 list" where
  "udp_header sp dp len ck = be16 sp @ be16 dp @ be16 len @ le16 ck"

lemma length_l4 [simp]: "length (pseudo_hdr a b c d) = 20" "length (tcp_header sp dp ck) = 20"
  "length (udp_header sp dp len ck) = 8"
  by (simp_all add: pseudo_hdr_def tcp_header_def udp_header_def)

lemma TCP_OFFSET [simp]: "TCP_OFFSET = 0x50"
  by (simp add: TCP_OFFSET_def push_bit_eq_mult)

lemma ACK_FLAG [simp]: "ACK_FLAG = 0x10"
  by (simp add: ACK_FLAG_def)

lemma replicate_28: "replicate 28 (0 :: u8) = replicate 20 0 @ replicate 8 0"
  and replicate_40: "replicate 40 (0 :: u8) = replicate 20 0 @ replicate 20 0"
  and replicate_8: "replicate 8 (0 :: u8) = [0,0,0,0,0,0,0,0]"
  by (simp_all add: numeral_eq_Suc)

lemma put_app2 [simp]:
  "length a \<le> k \<Longrightarrow> put k bs (a @ b) = a @ put (k - length a) bs b"
  by (simp add: put_def)

lemma put_app1:
  "k + length bs \<le> length a \<Longrightarrow> put k bs (a @ b) = put k bs a @ b"
  by (simp add: put_def)

lemma pseudo_block:
  "put 9 [proto] (put 10 (be16 len) (put 16 (be32 dst) (put 12 (be32 src) (replicate 20 0))))
   = pseudo_hdr proto len src dst"
  unfolding replicate_20 by (simp add: put_def be16_def be32_def pseudo_hdr_def)

lemma tcp_block:
  "put 18 [0, 0] (put 14 (be16 DEFAULT_WND_SIZE) (put 13 [16] (put 12 [80] (put 8 (be32 DEFAULT_ACK_NUMBER)
    (put 4 (be32 DEFAULT_PKT_NUMBER) (put 2 (be16 dp) (put 0 (be16 sp) (replicate 20 0))))))))
   = tcp_header sp dp 0"
  unfolding replicate_20 by (simp add: put_def be16_def be32_def tcp_header_def)

lemma tcp_cksum_block: "put 16 (le16 ck) (tcp_header sp dp 0) = tcp_header sp dp ck"
  by (simp add: put_def be16_def be32_def le16_def tcp_header_def)

lemma udp_block:
  "put 2 (be16 dp) (put 0 (be16 sp) (put 4 (be16 len) (replicate 8 0))) = udp_header sp dp len 0"
  unfolding replicate_8 by (simp add: put_def be16_def udp_header_def)

lemma udp_cksum_block: "put 6 (le16 ck) (udp_header sp dp len c) = udp_header sp dp len ck"
  by (simp add: put_def be16_def le16_def udp_header_def)

definition l4_len :: "pkt_seq \<Rightarrow> u16" where
  "l4_len p = pktSize p - (ether_hdr_size p + 20)"

definition l3_len :: "pkt_seq \<Rightarrow> u16" where
  "l3_len p = pktSize p - ether_hdr_size p"

definition pseudo_of :: "pkt_seq \<Rightarrow> u16 \<Rightarrow> u8 list" where
  "pseudo_of p len = pseudo_hdr (ucast (ipProto p)) len (s_addr (ip_src_addr p)) (s_addr (ip_dst_addr p))"

text \<open>The memory that \<open>pktgen_tcp_hdr_ctor\<close> sums and the checksum it stores.\<close>

definition tcp_mem :: "pkt_seq \<Rightarrow> nat \<Rightarrow> u16 \<Rightarrow> mem" where
  "tcp_mem p h ck = pseudo_of p (l4_len p) @ tcp_header (sport p) (dport p) ck @ drop (h + 40) (hdr p)"

lemma tcp_ctor_result:
  assumes "h + 40 \<le> length (hdr p)" and "cksum (tcp_mem p h 0) (uint (l3_len p)) 0 = Some ck"
  shows "pktgen_tcp_hdr_ctor p h ETHER_TYPE_IPv4 =
    Some (p\<lparr>hdr := put h (pseudo_of p (l4_len p) @ tcp_header (sport p) (dport p) ck) (hdr p)\<rparr>)"
proof -
  have blk: "put 38 [0, 0] (put 34 (be16 DEFAULT_WND_SIZE) (put 33 [16] (put 32 [80]
      (put 28 (be32 DEFAULT_ACK_NUMBER) (put 24 (be32 DEFAULT_PKT_NUMBER)
      (put 22 (be16 dp) (put 20 (be16 sp)
      (put 9 [proto] (put 10 (be16 len) (put 16 (be32 dst) (put 12 (be32 src) (replicate 40 0))))))))))))
    = pseudo_hdr proto len src dst @ tcp_header sp dp 0" for dp sp proto len dst src
    unfolding replicate_40 by (simp add: put_app1 pseudo_block tcp_block)
  have ckb: "put 36 (le16 ck) (pseudo_hdr a b c d @ tcp_header sp dp 0)
      = pseudo_hdr a b c d @ tcp_header sp dp ck" for a b c d sp dp ck
    by (simp add: tcp_cksum_block)
  show ?thesis
    using assms unfolding pseudo_of_def tcp_mem_def l4_len_def l3_len_def
    by (simp add: pktgen_tcp_hdr_ctor_def tcp_fields_def block_simps Let_def blk ckb)
qed

lemma word_sum_pseudo:
  "pseudoChecksum (htonl s) (htonl d) (ucast (pr :: u8)) len c =
    c + word_of_nat (word_sum (pseudo_hdr pr len s d))"
proof -
  have z: "mk16 0 0 = 0" by (simp add: mk16_def)
  have split: "pseudo_hdr pr len s d = [0,0,0,0,0,0,0,0,0,pr, be16 len ! 0, be16 len ! 1,
      be32 s ! 0, be32 s ! 1, be32 s ! 2, be32 s ! 3, be32 d ! 0, be32 d ! 1, be32 d ! 2, be32 d ! 3]"
    unfolding pseudo_hdr_def by (subst (1 2) be_nth_split(1), subst be_nth_split(2)) simp
  show ?thesis
    unfolding split pseudoChecksum_def ucast_low_half be32_halves ntohs_byte
    unfolding ntohs_mk16 by (simp add: z algebra_simps)
qed

text \<open>A transport segment behind its pseudo header: the checksum field that makes
  the whole sum to zero makes the segment verify against the pseudo header.\<close>

lemma segment_verifies:
  assumes "length ps = 20" "20 \<le> n" "n \<le> 65535"
    and "n + n mod 2 \<le> 20 + length seg"
    and "cksum (ps @ seg) (int n) 0 = Some 0"
  shows "cksum seg (int (n - 20)) (word_of_nat (word_sum ps)) = Some 0"
proof -
  have n31: "n < 2 ^ 31" "n - 20 < 2 ^ 31" using assms(3) by simp_all
  have par: "n - 20 + (n - 20) mod 2 \<le> length seg"
  proof -
    obtain k where "n = 20 + k" using assms(2) le_Suc_ex by blast
    moreover have "(20 + k) mod 2 = k mod 2" by presburger
    ultimately show ?thesis using assms(4) by simp
  qed
  have t: "take n (ps @ seg) = ps @ take (n - 20) seg" using assms(1,2) by simp
  have "word_sum (take n (ps @ seg)) = word_sum ps + word_sum (take (n - 20) seg)"
    unfolding t using assms(1) by (simp add: word_sum_append)
  then have "cksumDone (word_of_nat (word_sum ps + word_sum (take (n - 20) seg))) = 0"
    using cksum_word_sum [of n "ps @ seg" 0] assms n31(1) by simp
  then show ?thesis using cksum_word_sum [OF n31(2) par] by simp
qed

lemma put_prefix:
  "length b = length a \<Longrightarrow> off + length a + length c \<le> length m \<Longrightarrow>
    put off b (put off (a @ c) m) = put off (b @ c) m"
  by (simp add: put_def add.assoc [symmetric])

text \<open>The checksum a transport constructor finds exists, and storing it verifies.\<close>

lemma tcp_mem_verifies:
  assumes "h + 40 \<le> length (hdr p)" "40 \<le> unat (l3_len p)"
    and "h + unat (l3_len p) + unat (l3_len p) mod 2 \<le> length (hdr p)"
  obtains ck where "cksum (tcp_mem p h 0) (uint (l3_len p)) 0 = Some ck"
    and "cksum (tcp_mem p h ck) (uint (l3_len p)) 0 = Some 0"
proof -
  let ?n = "unat (l3_len p)"
  have n: "?n \<le> 65535" using unat_less(2) [of "l3_len p"] by linarith
  have len: "?n + ?n mod 2 \<le> length (tcp_mem p h ck)" for ck
    using assms by (simp add: tcp_mem_def pseudo_of_def)
  obtain ck where ck: "cksum (tcp_mem p h 0) (int ?n) 0 = Some ck"
    using cksum_word_sum [of ?n "tcp_mem p h 0" 0] n len by simp
  have z: "ld16 36 (tcp_mem p h 0) = Some 0"
    by (simp add: ld16_def tcp_mem_def pseudo_of_def pseudo_hdr_def tcp_header_def be16_def be32_def
        nth_append mk16_def)
  have st: "st16 36 ck (tcp_mem p h 0) = Some (tcp_mem p h ck)"
    using assms(1)
    by (simp add: st16_def wr_def tcp_mem_def pseudo_of_def put_app1 tcp_cksum_block)
  have "cksum (tcp_mem p h ck) (int ?n) 0 = Some 0"
    by (rule cksum_store_verifies [OF n _ _ len z ck disjI1 [OF refl] st]) (use assms(2) in auto)
  with ck that show thesis by (simp only: uint_nat)
qed

lemma tcp_ipv4_ctor:
  assumes "h + 40 \<le> length (hdr p)" "40 \<le> unat (l3_len p)"
    and "h + unat (l3_len p) + unat (l3_len p) mod 2 \<le> length (hdr p)"
  shows "\<exists>p' ck. (do { p \<leftarrow> pktgen_tcp_hdr_ctor p h ETHER_TYPE_IPv4; pktgen_ipv4_ctor g p h })
      = Some (g\<lparr>ident := ident g + 27\<rparr>, p')
    \<and> p' = p\<lparr>hdr := put h (ipv4_bytes g p (ipv4_ck g p) @ tcp_header (sport p) (dport p) ck) (hdr p)\<rparr>
    \<and> cksum (drop h (hdr p')) 20 0 = Some 0
    \<and> cksum (drop (h + 20) (hdr p')) (int (unat (l3_len p) - 20))
        (pseudoChecksum (htonl (s_addr (ip_src_addr p))) (htonl (s_addr (ip_dst_addr p)))
           (ucast (ucast (ipProto p) :: u8)) (l4_len p) 0) = Some 0"
proof -
  let ?n = "unat (l3_len p)"
  obtain ck where ck: "cksum (tcp_mem p h 0) (uint (l3_len p)) 0 = Some ck"
    and ver: "cksum (tcp_mem p h ck) (uint (l3_len p)) 0 = Some 0"
    using tcp_mem_verifies [OF assms] .
  let ?T = "tcp_header (sport p) (dport p) ck"
  let ?p1 = "p\<lparr>hdr := put h (pseudo_of p (l4_len p) @ ?T) (hdr p)\<rparr>"
  let ?I = "ipv4_bytes g p (ipv4_ck g p)"
  let ?p2 = "p\<lparr>hdr := put h (?I @ ?T) (hdr p)\<rparr>"
  have same: "ipv4_bytes g ?p1 c = ipv4_bytes g p c" "ipv4_ck g ?p1 = ipv4_ck g p" for c
    by (simp_all add: ipv4_bytes_def ipv4_ck_def ipv4_tlen_def)
  have run: "do { p \<leftarrow> pktgen_tcp_hdr_ctor p h ETHER_TYPE_IPv4; pktgen_ipv4_ctor g p h }
      = Some (g\<lparr>ident := ident g + 27\<rparr>, ?p2)"
    using assms(1) tcp_ctor_result [OF assms(1) ck] ipv4_ctor_result [of h ?p1 g] same
    by (simp add: put_prefix pseudo_of_def)
  have d: "drop h (hdr ?p2) = ?I @ ?T @ drop (h + 40) (hdr p)"
    using assms(1) by (simp add: drop_put)
  have d20: "drop (h + 20) (hdr ?p2) = ?T @ drop (h + 40) (hdr p)"
  proof -
    have "drop (h + 20) (hdr ?p2) = drop 20 (drop h (hdr ?p2))" by (simp add: add.commute)
    then show ?thesis unfolding d by simp
  qed
  have 1: "cksum (drop h (hdr ?p2)) 20 0 = Some 0" unfolding d by (rule ipv4_bytes_verify)
  have "cksum (pseudo_of p (l4_len p) @ ?T @ drop (h + 40) (hdr p)) (int ?n) 0 = Some 0"
    using ver unfolding tcp_mem_def uint_nat by simp
  from segment_verifies [OF _ _ _ _ this] have
    "cksum (?T @ drop (h + 40) (hdr p)) (int (?n - 20)) (word_of_nat (word_sum (pseudo_of p (l4_len p)))) = Some 0"
    using assms unat_less(2) [of "l3_len p"] by (simp add: pseudo_of_def)
  then have 2: "cksum (drop (h + 20) (hdr ?p2)) (int (?n - 20))
        (pseudoChecksum (htonl (s_addr (ip_src_addr p))) (htonl (s_addr (ip_dst_addr p)))
           (ucast (ucast (ipProto p) :: u8)) (l4_len p) 0) = Some 0"
    unfolding d20 word_sum_pseudo pseudo_of_def by simp
  from run 1 2 show ?thesis by blast
qed

definition udp_len :: "glob \<Rightarrow> pkt_seq \<Rightarrow> u16" where
  "udp_len g p = (if gtpu_gen g then pktSize p - (56 + ether_hdr_size p)
     else pktSize p - (ether_hdr_size p + 20))"

definition udp_sum_len :: "glob \<Rightarrow> pkt_seq \<Rightarrow> u16" where
  "udp_sum_len g p = (if gtpu_gen g then pktSize p - (ether_hdr_size p + 28) else l3_len p)"

definition udp_mem :: "glob \<Rightarrow> pkt_seq \<Rightarrow> nat \<Rightarrow> u16 \<Rightarrow> mem" where
  "udp_mem g p h ck = pseudo_of p (udp_len g p)
     @ udp_header (sport p) (dport p) (udp_len g p) ck @ drop (h + 28) (hdr p)"

definition udp_ck :: "u16 \<Rightarrow> u16" where
  "udp_ck ck = (if ck = 0 then 0xFFFF else ck)"

lemma udp_cksum_eq:
  assumes "f + 2 \<le> length (hdr p)" "cksum (drop s (hdr p)) (uint t) 0 = Some ck"
  shows "udp_cksum s f t p = Some (p\<lparr>hdr := put f (le16 (udp_ck ck)) (hdr p)\<rparr>)"
proof -
  have "st16 f ck (hdr p) = Some (put f (le16 ck) (hdr p))"
    using assms(1) by (simp add: st16_def wr_def)
  from ld16_st16 [OF this] assms show ?thesis
    by (simp add: udp_cksum_def on_hdr_st udp_ck_def put_put_same)
qed

lemma udp_ctor_result:
  assumes "h + 28 \<le> length (hdr p)" and "cksum (udp_mem g p h 0) (uint (udp_sum_len g p)) 0 = Some ck"
  shows "pktgen_udp_hdr_ctor g p h ETHER_TYPE_IPv4 =
    Some (p\<lparr>hdr := put h (pseudo_of p (udp_len g p)
      @ udp_header (sport p) (dport p) (udp_len g p) (udp_ck ck)) (hdr p)\<rparr>)"
proof -
  have blk: "put 22 (be16 dp) (put 20 (be16 sp) (put 24 (be16 len')
      (put 9 [proto] (put 10 (be16 len) (put 16 (be32 dst) (put 12 (be32 src) (replicate 28 0)))))))
    = pseudo_hdr proto len src dst @ udp_header sp dp len' 0" for dp sp proto len len' dst src
    unfolding replicate_28 by (simp add: put_app1 pseudo_block udp_block)
  have ckb: "put 26 (le16 c') (pseudo_hdr a b c d @ udp_header sp dp len 0)
      = pseudo_hdr a b c d @ udp_header sp dp len c'" for a b c d sp dp len c'
    by (simp add: udp_cksum_block)
  have ehs: "ether_hdr_size p + 20 + 8 = ether_hdr_size p + 28" by simp
  show ?thesis
    using assms unfolding pseudo_of_def udp_mem_def udp_len_def udp_sum_len_def l3_len_def
    by (simp add: pktgen_udp_hdr_ctor_def block_simps Let_def blk udp_cksum_eq ckb ehs split: if_splits)
qed

lemma udp_mem_verifies:
  assumes "h + 28 \<le> length (hdr p)" "28 \<le> unat (udp_sum_len g p)"
    and "h + unat (udp_sum_len g p) + unat (udp_sum_len g p) mod 2 \<le> length (hdr p)"
  obtains ck where "cksum (udp_mem g p h 0) (uint (udp_sum_len g p)) 0 = Some ck"
    and "cksum (udp_mem g p h (udp_ck ck)) (uint (udp_sum_len g p)) 0 = Some 0"
proof -
  let ?n = "unat (udp_sum_len g p)"
  have n: "?n \<le> 65535" using unat_less(2) [of "udp_sum_len g p"] by linarith
  have len: "?n + ?n mod 2 \<le> length (udp_mem g p h ck)" for ck
    using assms by (simp add: udp_mem_def pseudo_of_def)
  obtain ck where ck: "cksum (udp_mem g p h 0) (int ?n) 0 = Some ck"
    using cksum_word_sum [of ?n "udp_mem g p h 0" 0] n len by simp
  have z: "ld16 26 (udp_mem g p h 0) = Some 0"
    by (simp add: ld16_def udp_mem_def pseudo_of_def pseudo_hdr_def udp_header_def be16_def be32_def
        nth_append mk16_def)
  have st: "st16 26 (udp_ck ck) (udp_mem g p h 0) = Some (udp_mem g p h (udp_ck ck))"
    by (simp add: st16_def wr_def udp_mem_def pseudo_of_def put_app1 udp_cksum_block)
  have k: "udp_ck ck = ck \<or> ck = 0 \<and> udp_ck ck = 0xFFFF" by (simp add: udp_ck_def)
  have "cksum (udp_mem g p h (udp_ck ck)) (int ?n) 0 = Some 0"
    by (rule cksum_store_verifies [OF n _ _ len z ck k st]) (use assms(2) in auto)
  with ck that show thesis by (simp only: uint_nat)
qed

lemma udp_ipv4_ctor:
  assumes "\<not> gtpu_gen g" "h + 28 \<le> length (hdr p)" "28 \<le> unat (l3_len p)"
    and "h + unat (l3_len p) + unat (l3_len p) mod 2 \<le> length (hdr p)"
  shows "\<exists>p' ck. (do { p \<leftarrow> pktgen_udp_hdr_ctor g p h ETHER_TYPE_IPv4; pktgen_ipv4_ctor g p h })
      = Some (g\<lparr>ident := ident g + 27\<rparr>, p')
    \<and> p' = p\<lparr>hdr := put h (ipv4_bytes g p (ipv4_ck g p)
        @ udp_header (sport p) (dport p) (l4_len p) ck) (hdr p)\<rparr>
    \<and> ck \<noteq> 0 \<and> cksum (drop h (hdr p')) 20 0 = Some 0
    \<and> cksum (drop (h + 20) (hdr p')) (int (unat (l3_len p) - 20))
        (pseudoChecksum (htonl (s_addr (ip_src_addr p))) (htonl (s_addr (ip_dst_addr p)))
           (ucast (ucast (ipProto p) :: u8)) (l4_len p) 0) = Some 0"
proof -
  let ?n = "unat (l3_len p)"
  have sl: "udp_sum_len g p = l3_len p" "udp_len g p = l4_len p"
    using assms(1) by (simp_all add: udp_sum_len_def udp_len_def l4_len_def)
  obtain ck where ck: "cksum (udp_mem g p h 0) (uint (udp_sum_len g p)) 0 = Some ck"
    and ver: "cksum (udp_mem g p h (udp_ck ck)) (uint (udp_sum_len g p)) 0 = Some 0"
    using udp_mem_verifies [of h p g] assms(2-4) unfolding sl by metis
  let ?T = "udp_header (sport p) (dport p) (l4_len p) (udp_ck ck)"
  let ?p1 = "p\<lparr>hdr := put h (pseudo_of p (l4_len p) @ ?T) (hdr p)\<rparr>"
  let ?I = "ipv4_bytes g p (ipv4_ck g p)"
  let ?p2 = "p\<lparr>hdr := put h (?I @ ?T) (hdr p)\<rparr>"
  have same: "ipv4_bytes g ?p1 c = ipv4_bytes g p c" "ipv4_ck g ?p1 = ipv4_ck g p" for c
    by (simp_all add: ipv4_bytes_def ipv4_ck_def ipv4_tlen_def)
  have run: "do { p \<leftarrow> pktgen_udp_hdr_ctor g p h ETHER_TYPE_IPv4; pktgen_ipv4_ctor g p h }
      = Some (g\<lparr>ident := ident g + 27\<rparr>, ?p2)"
    using assms(2) udp_ctor_result [OF assms(2) ck] ipv4_ctor_result [of h ?p1 g] same
    by (simp add: put_prefix pseudo_of_def sl)
  have d: "drop h (hdr ?p2) = ?I @ ?T @ drop (h + 28) (hdr p)"
    using assms(2) by (simp add: drop_put)
  have d20: "drop (h + 20) (hdr ?p2) = ?T @ drop (h + 28) (hdr p)"
  proof -
    have "drop (h + 20) (hdr ?p2) = drop 20 (drop h (hdr ?p2))" by (simp add: add.commute)
    then show ?thesis unfolding d by simp
  qed
  have 1: "cksum (drop h (hdr ?p2)) 20 0 = Some 0" unfolding d by (rule ipv4_bytes_verify)
  have "cksum (pseudo_of p (l4_len p) @ ?T @ drop (h + 28) (hdr p)) (int ?n) 0 = Some 0"
    using ver unfolding udp_mem_def uint_nat sl by simp
  from segment_verifies [OF _ _ _ _ this] have
    "cksum (?T @ drop (h + 28) (hdr p)) (int (?n - 20)) (word_of_nat (word_sum (pseudo_of p (l4_len p)))) = Some 0"
    using assms unat_less(2) [of "l3_len p"] by (simp add: pseudo_of_def)
  then have 2: "cksum (drop (h + 20) (hdr ?p2)) (int (?n - 20))
        (pseudoChecksum (htonl (s_addr (ip_src_addr p))) (htonl (s_addr (ip_dst_addr p)))
           (ucast (ucast (ipProto p) :: u8)) (l4_len p) 0) = Some 0"
    unfolding d20 word_sum_pseudo pseudo_of_def by simp
  have 3: "udp_ck ck \<noteq> 0" by (simp add: udp_ck_def)
  from run 1 2 3 show ?thesis by blast
qed

section \<open>The Ethernet header\<close>

text \<open>A write that continues a block extends it.\<close>

lemma put_extend:
  assumes "k \<le> length blk" "length blk \<le> k + length bs" "off + k + length bs \<le> length m"
  shows "put (off + k) bs (put off blk m) = put off (take k blk @ bs) m"
proof (rule nth_equalityI)
  have l: "length (put off blk m) = length m" "length (take k blk @ bs) = k + length bs"
    using assms by simp_all
  show "length (put (off + k) bs (put off blk m)) = length (put off (take k blk @ bs) m)"
    using assms by simp
  fix i assume "i < length (put (off + k) bs (put off blk m))"
  then show "put (off + k) bs (put off blk m) ! i = put off (take k blk @ bs) m ! i"
    using assms l by (auto simp: nth_put nth_append)
qed

lemma put_front:
  "off + length a + length b \<le> length m \<Longrightarrow> put off a (put (off + length a) b m) = put off (a @ b) m"
  by (simp add: put_def add.assoc)

text \<open>The EtherType and the tags, outermost first.\<close>

definition l2_tags :: "port_info \<Rightarrow> pkt_seq \<Rightarrow> u8 list" where
  "l2_tags info p =
    (if has_flag (port_flags info) SEND_VLAN_ID then
       be16 ETHER_TYPE_VLAN @ be16 (vlanid p OR push_bit 13 (ucast (pkt_cos p))) @ be16 (ethType p)
     else if has_flag (port_flags info) SEND_MPLS_LABEL then
       be16 ETHER_TYPE_MPLS_UNICAST @ be32 (MPLS_SET_BOS (mpls_entry p))
     else if has_flag (port_flags info) SEND_Q_IN_Q_IDS then
       be16 ETHER_TYPE_Q_IN_Q @ be16 (qinq_outerid p) @ be16 ETHER_TYPE_VLAN @ be16 (qinq_innerid p)
         @ be16 (ethType p)
     else be16 (ethType p))"

definition l2_hdr :: "port_info \<Rightarrow> pkt_seq \<Rightarrow> u8 list" where
  "l2_hdr info p = eth_dst_addr p @ eth_src_addr p @ l2_tags info p"

lemma l2_tags_bounds: "2 \<le> length (l2_tags info p)" "length (l2_tags info p) \<le> 10"
  by (simp_all add: l2_tags_def)

lemma ether_addrs_eq:
  assumes "length (eth_dst_addr p) = 6" "length (eth_src_addr p) = 6" "eth + 12 \<le> length m"
  shows "ether_addrs p eth m = Some (put eth (eth_dst_addr p @ eth_src_addr p) m)"
proof -
  have "put eth (eth_dst_addr p) (put (eth + 6) (eth_src_addr p) m)
      = put eth (eth_dst_addr p @ eth_src_addr p) m"
    using put_front [of eth "eth_dst_addr p" "eth_src_addr p" m] assms by simp
  then show ?thesis using assms by (simp add: ether_addrs_def wr_Some)
qed

lemma put_next:
  assumes "length blk = k" "off + k + length bs \<le> length m"
  shows "put (off + k) bs (put off blk m) = put off (blk @ bs) m"
  using put_extend [of k blk bs off m] assms by simp

lemma put_next_at:
  "x = off + length blk \<Longrightarrow> off + length blk + length bs \<le> length m \<Longrightarrow>
    put x bs (put off blk m) = put off (blk @ bs) m"
  by (simp add: put_next)

lemma on_hdr_Some: "f (hdr p) = Some h \<Longrightarrow> on_hdr f p = Some (p\<lparr>hdr := h\<rparr>)"
  by (simp add: on_hdr_def)

lemma ether_ctor_result:
  assumes len: "length (eth_dst_addr p) = 6" "length (eth_src_addr p) = 6" "eth + 22 \<le> length (hdr p)"
  shows "pktgen_ether_hdr_ctor info p eth = Some (eth + length (l2_hdr info p),
    p\<lparr>hdr := put eth (l2_hdr info p) (hdr p), ether_hdr_size := word_of_nat (length (l2_hdr info p))\<rparr>)"
proof -
  let ?A = "eth_dst_addr p @ eth_src_addr p"
  have addrs: "on_hdr (ether_addrs p eth) p = Some (p\<lparr>hdr := put eth ?A (hdr p)\<rparr>)"
    using ether_addrs_eq [of p eth "hdr p"] len by (intro on_hdr_Some) simp
  show ?thesis
    using len(3)
    by (simp add: pktgen_ether_hdr_ctor_def addrs Let_def on_hdr_st put_next_at len(1,2)
        l2_hdr_def l2_tags_def)
qed

section \<open>IPv6\<close>

lemma s6_addr_length [simp]: "length (s6_tail a) = 12 \<Longrightarrow> length (s6_addr a) = 16"
  by (simp add: s6_addr_def)

text \<open>The constructor writes eight bytes past the IPv6 header: the second half of the
  destination address lands on the ports and the following four bytes of the
  transport header that has been built before, and the source field holds the
  first half of the destination address.\<close>

definition ipv6_prefix :: "u8 \<Rightarrow> u16 \<Rightarrow> u8 list" where
  "ipv6_prefix nh len = be32 0x60000000 @ be16 len @ [nh, 4]"

lemma length_ipv6_prefix [simp]: "length (ipv6_prefix nh len) = 8"
  by (simp add: ipv6_prefix_def)

lemma ipv6_ctor_result:
  assumes "length (s6_tail (ip_dst_addr p)) = 12" "ip + 48 \<le> length (hdr p)"
  shows "pktgen_ipv6_ctor p ip = Some (p\<lparr>hdr := put ip
    (ipv6_prefix (ucast (ipProto p)) (pktSize p - (ether_hdr_size p + 40))
      @ replicate 8 0 @ s6_addr (ip_dst_addr p) @ s6_addr (ip_dst_addr p)) (hdr p)\<rparr>)"
proof -
  let ?A = "s6_addr (ip_dst_addr p)" and ?P = ipv6_prefix
  have A: "length ?A = 16" using assms(1) by simp
  have v: "(push_bit 28 6 :: u32) = 0x60000000" by (simp add: push_bit_eq_mult)
  have blk: "put 6 [nh] (put 7 [4] (put 4 (be16 len) (put 0 (be32 0x60000000) (replicate 40 0))))
      = ?P nh len @ replicate 32 0" for nh len
  proof -
    have "replicate 40 (0 :: u8) = [0,0,0,0,0,0,0,0] @ replicate 32 0" by (simp add: numeral_eq_Suc)
    then show ?thesis by (simp add: put_def be16_def be32_def ipv6_prefix_def)
  qed
  have ext: "put (ip + 32) ?A (put ip (?P nh len @ replicate 32 0) m)
      = put ip (?P nh len @ replicate 24 0 @ ?A) m"
    if "ip + 48 \<le> length m" for nh len m
    using put_extend [of 32 "?P nh len @ replicate 32 0" ?A ip m] A that by simp
  have ins: "put 16 ?A (?P nh len @ replicate 24 0 @ ?A) = ?P nh len @ replicate 8 0 @ ?A @ ?A" for nh len
  proof -
    have "replicate 24 (0 :: u8) = replicate 8 0 @ replicate 16 0" by (simp flip: replicate_add)
    then show ?thesis using A by (simp add: put_def)
  qed
  let ?len = "pktSize p - (ether_hdr_size p + 40)" and ?nh = "ucast (ipProto p)"
  let ?p0 = "p\<lparr>hdr := put ip (?P ?nh ?len @ replicate 32 0) (hdr p)\<rparr>"
  let ?p1 = "p\<lparr>hdr := put ip (?P ?nh ?len @ replicate 24 0 @ ?A) (hdr p)\<rparr>"
  have 1: "on_hdr (wr (ip + 32) ?A) ?p0 = Some ?p1"
    using assms(2) A ext [of "hdr p"] by (simp add: on_hdr_wr)
  have 2: "on_hdr (wr (ip + 16) ?A) ?p1 = Some (p\<lparr>hdr := put ip (?P ?nh ?len @ replicate 8 0 @ ?A @ ?A) (hdr p)\<rparr>)"
    using assms(2) A ins put_put_in [of 16 ?A "?P ?nh ?len @ replicate 24 0 @ ?A" ip "hdr p"]
    by (simp add: on_hdr_wr)
  show ?thesis
    using assms(2) 1 2 unfolding add.commute [of ip 32] add.commute [of ip 16]
    by (simp add: pktgen_ipv6_ctor_def Let_def on_hdr_st put_put_in put_put_in0 blk v)
qed

lemma ipv6_ctor_clobbers:
  assumes "length (s6_tail (ip_dst_addr p)) = 12" "ip + 48 \<le> length (hdr p)"
    and "pktgen_ipv6_ctor p ip = Some p'"
  shows "rd (ip + 40) 8 (hdr p') = Some (drop 8 (s6_addr (ip_dst_addr p)))"
    and "rd (ip + 8) 16 (hdr p') = Some (replicate 8 0 @ take 8 (s6_addr (ip_dst_addr p)))"
proof -
  let ?A = "s6_addr (ip_dst_addr p)"
  let ?B = "ipv6_prefix (ucast (ipProto p)) (pktSize p - (ether_hdr_size p + 40)) @ replicate 8 0 @ ?A @ ?A"
  have A: "length ?A = 16" using assms(1) by simp
  have p': "hdr p' = put ip ?B (hdr p)" using ipv6_ctor_result [OF assms(1,2)] assms(3) by simp
  have d: "drop ip (hdr p') = ?B @ drop (ip + 48) (hdr p)" and l: "length (hdr p') = length (hdr p)"
    unfolding p' using assms(2) A by (simp_all add: drop_put)
  have "take 8 (drop (ip + 40) (hdr p')) = take 8 (drop 40 (drop ip (hdr p')))" by (simp add: add.commute)
  then show "rd (ip + 40) 8 (hdr p') = Some (drop 8 ?A)"
    unfolding d using A assms(2) l by (simp add: rd_def)
  have "take 16 (drop (ip + 8) (hdr p')) = take 16 (drop 8 (drop ip (hdr p')))" by (simp add: add.commute)
  then show "rd (ip + 8) 16 (hdr p') = Some (replicate 8 0 @ take 8 ?A)"
    unfolding d using A assms(2) l by (simp add: rd_def)
qed

section \<open>GTP-U\<close>

definition gtpu_header :: "u8 \<Rightarrow> u16 \<Rightarrow> u32 \<Rightarrow> u8 list" where
  "gtpu_header flgs len teid = [flgs, 0xff] @ be16 len @ be32 teid"

lemma gtpu_ctor_result:
  assumes "h + 48 \<le> length (hdr p)" "flgs AND 7 = 0"
    and l4_def: "l4 = (if proto = 17 then 8 else 20 :: nat)"
  shows "pktgen_gtpu_hdr_ctor p h proto flgs = Some (p\<lparr>hdr :=
    put (h + 20 + l4) (gtpu_header flgs (pktSize p - (word_of_nat l4 + 8 + ether_hdr_size p)) (gtpu_teid p)) (hdr p)\<rparr>)"
proof -
  have bits: "flgs AND 2 = 0" "flgs AND 1 = 0" "flgs AND 4 = 0"
  proof -
    have "flgs AND 2 = flgs AND (7 AND 2)" "flgs AND 1 = flgs AND (7 AND 1)" "flgs AND 4 = flgs AND (7 AND 4)"
      by simp_all
    then show "flgs AND 2 = 0" "flgs AND 1 = 0" "flgs AND 4 = 0"
      unfolding and.assoc [symmetric] assms(2) by simp_all
  qed
  have blk: "put 2 (be16 len) (put 4 (be32 teid) (put (Suc 0) [255] (put 0 [f] (replicate 8 0))))
      = gtpu_header f len teid" for f len teid
    unfolding replicate_8 by (simp add: put_def be16_def be32_def gtpu_header_def)
  define b where "b = h + 20 + l4"
  have len: "b + 8 \<le> length (hdr p)" using assms(1) by (simp add: l4_def b_def)
  have b: "h + sizeof ipHdr + (if proto = ucast PG_IPPROTO_UDP then sizeof udpHdr else sizeof tcpHdr) = b"
    and l4: "(if proto = ucast PG_IPPROTO_UDP then sizeof udpHdr else sizeof tcpHdr) = l4"
    by (simp_all add: l4_def PG_IPPROTO_UDP_def b_def)
  show ?thesis
    using len unfolding pktgen_gtpu_hdr_ctor_def Let_def b unfolding l4 b_def [symmetric]
    by (simp add: gtpu_bump_def GTPu_S_FLAG_def GTPu_PN_FLAG_def GTPu_E_FLAG_def bits block_simps blk)
qed

end
