(* ===== verification/PacketCtor.thy ===== *)
theory PacketCtor
  imports Headers Samples
begin

text \<open>
  Packet construction and pacing of \<open>app/pktgen.c\<close>: the wire size and the
  transmit rate of a port, the fill pattern, the search for the template that owns
  an address, and \<open>pktgen_packet_ctor\<close>, which builds the complete packet image
  of a template.  A template pointer of the C code is an index of \<open>seq_pkt\<close>.
\<close>

section \<open>Wire size and rate\<close>

definition wire_overhead :: u64 where
  "wire_overhead = PKT_PREAMBLE_SIZE + INTER_FRAME_GAP + ucast FCS_SIZE"

text \<open>The size of a pcap packet is a 32 bit sum, the other sums have 64 bits.\<close>

definition pktgen_wire_size :: "port_info \<Rightarrow> u64 option" where
  "pktgen_wire_size info =
    (if has_flag (port_flags info) SEND_PCAP_PKTS then do {
       pc \<leftarrow> pcap info; Some (ucast (pcap_pkt_size pc + ucast wire_overhead)) }
     else if seqCnt info > 0 then
       if unat (seqCnt info) \<le> length (seq_pkt info)
       then Some (sum_list (map (\<lambda>p. ucast (pktSize p) + wire_overhead)
                    (take (unat (seqCnt info)) (seq_pkt info))) div ucast (seqCnt info))
       else None
     else if SINGLE_PKT < length (seq_pkt info)
       then Some (ucast (pktSize (seq_pkt info ! SINGLE_PKT)) + wire_overhead) else None)"

text \<open>Conversion of a \<open>double\<close> to \<open>uint64_t\<close>: truncation, undefined out of range.\<close>

definition to_u64 :: "rat \<Rightarrow> u64 option" where
  "to_u64 r = (if - 1 < r \<and> r < 2 ^ 64 then Some (word_of_int (if r < 0 then 0 else \<lfloor>r\<rfloor>)) else None)"

text \<open>\<open>fp\<close> rounds a rational to the nearest \<open>double\<close>; \<open>txcnt\<close> is the number of
  transmit queues of the port (\<open>get_port_txcnt\<close>).\<close>

definition pktgen_packet_rate :: "(rat \<Rightarrow> rat) \<Rightarrow> u64 \<Rightarrow> glob \<Rightarrow> port_info \<Rightarrow> port_info option" where
  "pktgen_packet_rate fp txcnt g info = do {
     w \<leftarrow> pktgen_wire_size info;
     let wire_size = w * 8;
     let link = ucast (link_speed info) * 1000000;
     guard (wire_size \<noteq> 0);
     pps \<leftarrow> to_u64 (fp (fp (fp (of_nat (unat (link div wire_size))) * tx_rate info) / 100));
     let cpp = (if pps > 0 then hz g div pps else hz g div 4);
     Some (info\<lparr>tx_pps := pps, tx_cycles := cpp * ucast (tx_burst info) * txcnt\<rparr>) }"

section \<open>Fill pattern\<close>

definition abc_pattern :: string where
  "abc_pattern = ''abcdefghijklmnopqrstuvwxyz012345''"

definition pktgen_fill_pattern :: "fill_t \<Rightarrow> string \<Rightarrow> mem \<Rightarrow> mem option" where
  "pktgen_fill_pattern ty user p =
    (case ty of
       USER_FILL_PATTERN \<Rightarrow>
         if USER_PATTERN_SIZE \<le> length user
         then Some (map (\<lambda>i. of_char (user ! (i mod USER_PATTERN_SIZE))) [0..<length p]) else None
     | NO_FILL_PATTERN \<Rightarrow> Some p
     | ZERO_FILL_PATTERN \<Rightarrow> Some (replicate (length p) 0)
     | ABC_FILL_PATTERN \<Rightarrow> Some (map (\<lambda>i. of_char (abc_pattern ! (i mod 32))) [0..<length p]))"

section \<open>Owners of addresses\<close>

definition first_match :: "(pkt_seq \<Rightarrow> u32) \<Rightarrow> u32 \<Rightarrow> nat list \<Rightarrow> pkt_seq list \<Rightarrow> nat option" where
  "first_match sel a idx ps = List.find (\<lambda>i. sel (ps ! i) = a) idx"

definition pktgen_find_matching_ipsrc :: "port_info \<Rightarrow> u32 \<Rightarrow> nat option" where
  "pktgen_find_matching_ipsrc info addr =
    (let a = ntohl addr
     in case first_match (\<lambda>p. s_addr (ip_src_addr p)) a [0..<unat (seqCnt info)] (seq_pkt info) of
          Some i \<Rightarrow> Some i
        | None \<Rightarrow> if a = s_addr (ip_src_addr (seq_pkt info ! SINGLE_PKT)) then Some SINGLE_PKT else None)"

definition pktgen_find_matching_ipdst :: "port_info \<Rightarrow> u32 \<Rightarrow> nat option" where
  "pktgen_find_matching_ipdst info addr =
    (let a = ntohl addr
     in case first_match (\<lambda>p. s_addr (ip_dst_addr p)) a [0..<unat (seqCnt info)] (seq_pkt info) of
          Some i \<Rightarrow> Some i
        | None \<Rightarrow> if a = s_addr (ip_dst_addr (seq_pkt info ! SINGLE_PKT)) then Some SINGLE_PKT
            else if a = s_addr (ip_dst_addr (seq_pkt info ! RANGE_PKT)) then Some RANGE_PKT else None)"

section \<open>The packet constructor\<close>

definition icmp_body :: "pkt_seq \<Rightarrow> nat \<Rightarrow> int \<Rightarrow> pkt_seq option" where
  "icmp_body p l3 ty = do {
     p \<leftarrow> on_hdr (st32 (l3 + offsetof ipOverlay ''src'') (htonl (s_addr (ip_src_addr p)))) p;
     p \<leftarrow> on_hdr (st32 (l3 + offsetof ipOverlay ''dst'') (htonl (s_addr (ip_dst_addr p)))) p;
     let tlen = pktSize p - (ether_hdr_size p + szof ipHdr);
     p \<leftarrow> on_hdr (st16 (l3 + offsetof ipOverlay ''len'') (htons tlen)) p;
     p \<leftarrow> on_hdr (st8 (l3 + offsetof ipOverlay ''proto'') (ucast (ipProto p))) p;
     let icmp = l3 + offsetof udpip ''udp'';
     p \<leftarrow> on_hdr (st8 (icmp + 1) 0) p;
     p \<leftarrow> (if ty = - 1 \<or> ty = 13 then do {
             p \<leftarrow> on_hdr (st8 icmp 13) p;
             p \<leftarrow> on_hdr (st16 (icmp + 4) 0x1234) p;
             p \<leftarrow> on_hdr (st16 (icmp + 6) 0x5678) p;
             p \<leftarrow> on_hdr (st32 (icmp + 8) 0x80004321) p;
             p \<leftarrow> on_hdr (st32 (icmp + 12) 0) p;
             on_hdr (st32 (icmp + 16) 0) p }
           else if ty = 8 then do {
             p \<leftarrow> on_hdr (st8 icmp 8) p;
             p \<leftarrow> on_hdr (st16 (icmp + 4) 0x1234) p;
             p \<leftarrow> on_hdr (st16 (icmp + 6) 0x5678) p;
             on_hdr (st32 (icmp + 8) 0) p }
           else Some p);
     p \<leftarrow> on_hdr (st16 (icmp + 2) 0) p;
     udp_cksum icmp (icmp + 2) tlen p }"

definition arp_body :: "pkt_seq \<Rightarrow> nat \<Rightarrow> pkt_seq option" where
  "arp_body p arp = do {
     p \<leftarrow> on_hdr (st16 (arp + offsetof arpPkt ''hrd'') (htons 1)) p;
     p \<leftarrow> on_hdr (st16 (arp + offsetof arpPkt ''pro'') (htons ETHER_TYPE_IPv4)) p;
     p \<leftarrow> on_hdr (st8 (arp + offsetof arpPkt ''hln'') 6) p;
     p \<leftarrow> on_hdr (st8 (arp + offsetof arpPkt ''pln'') 4) p;
     p \<leftarrow> on_hdr (st16 (arp + offsetof arpPkt ''op'') (htons 2)) p;
     p \<leftarrow> on_hdr (wr (arp + offsetof arpPkt ''sha'') (eth_src_addr p)) p;
     p \<leftarrow> on_hdr (st32 (arp + offsetof arpPkt ''spa'') (htonl (s_addr (ip_src_addr p)))) p;
     p \<leftarrow> on_hdr (wr (arp + offsetof arpPkt ''tha'') (eth_dst_addr p)) p;
     on_hdr (st32 (arp + offsetof arpPkt ''tpa'') (htonl (s_addr (ip_dst_addr p)))) p }"

text \<open>The layer 3 part, for the offset that the layer 2 constructor returned.  The
  boolean is the \<open>Unknown EtherType\<close> error of the log.\<close>

definition packet_l3 :: "glob \<Rightarrow> pkt_seq \<Rightarrow> nat \<Rightarrow> int \<Rightarrow> (bool \<times> glob \<times> pkt_seq) option" where
  "packet_l3 g p l3 ty =
    (let ok = map_option (\<lambda>(g, p). (False, g, p));
         gtpu = dport p = PG_IPPROTO_L4_GTPU_PORT
     in if ethType p = ETHER_TYPE_IPv4 then
          if ipProto p = ucast PG_IPPROTO_TCP then ok (do {
            p \<leftarrow> (if gtpu then pktgen_gtpu_hdr_ctor p l3 (ipProto p) (GTPu_VERSION OR GTPu_PT_FLAG) else Some p);
            p \<leftarrow> pktgen_tcp_hdr_ctor p l3 ETHER_TYPE_IPv4;
            pktgen_ipv4_ctor g p l3 })
          else if ipProto p = ucast PG_IPPROTO_UDP then ok (do {
            p \<leftarrow> (if gtpu then pktgen_gtpu_hdr_ctor p l3 (ipProto p) (GTPu_VERSION OR GTPu_PT_FLAG) else Some p);
            p \<leftarrow> pktgen_udp_hdr_ctor g p l3 ETHER_TYPE_IPv4;
            pktgen_ipv4_ctor g p l3 })
          else if ipProto p = ucast PG_IPPROTO_ICMP then ok (do {
            p \<leftarrow> icmp_body p l3 ty;
            pktgen_ipv4_ctor g p l3 })
          else Some (False, g, p)
        else if ethType p = ETHER_TYPE_IPv6 then
          if ipProto p = ucast PG_IPPROTO_TCP then ok (do {
            p \<leftarrow> pktgen_tcp_hdr_ctor p l3 ETHER_TYPE_IPv6;
            p \<leftarrow> pktgen_ipv6_ctor p l3; Some (g, p) })
          else if ipProto p = ucast PG_IPPROTO_UDP then ok (do {
            p \<leftarrow> pktgen_udp_hdr_ctor g p l3 ETHER_TYPE_IPv6;
            p \<leftarrow> pktgen_ipv6_ctor p l3; Some (g, p) })
          else Some (False, g, p)
        else if ethType p = ETHER_TYPE_ARP then ok (do {
            p \<leftarrow> arp_body p l3; Some (g, p) })
        else Some (True, g, p))"

definition packet_build :: "glob \<Rightarrow> port_info \<Rightarrow> pkt_seq \<Rightarrow> int \<Rightarrow> (bool \<times> glob \<times> pkt_seq) option" where
  "packet_build g info p ty = do {
     h \<leftarrow> pktgen_fill_pattern (fill_pattern_type info) (user_pattern info) (hdr p);
     let p = p\<lparr>hdr := h\<rparr>;
     let l3_hdr = None;
     (g, l3, p) \<leftarrow>
       (if has_flag (port_flags info) SEND_GRE_IPv4_HEADER then pktgen_gre_hdr_ctor g p l3_hdr
        else if has_flag (port_flags info) SEND_GRE_ETHER_HEADER then pktgen_gre_ether_hdr_ctor g p l3_hdr
        else map_option (\<lambda>(l3, p). (g, l3, p)) (pktgen_ether_hdr_ctor info p 0));
     packet_l3 g p l3 ty }"

definition pktgen_packet_ctor ::
  "glob \<Rightarrow> port_info \<Rightarrow> nat \<Rightarrow> int \<Rightarrow> (bool \<times> glob \<times> port_info) option" where
  "pktgen_packet_ctor g info seq_idx ty =
    (if seq_idx < length (seq_pkt info) then do {
       (e, g, p) \<leftarrow> packet_build g info (seq_pkt info ! seq_idx) ty;
       Some (e, g, info\<lparr>seq_pkt := (seq_pkt info)[seq_idx := p]\<rparr>) }
     else None)"

section \<open>Searches\<close>

lemma find_matching_ipsrc_sound:
  assumes "pktgen_find_matching_ipsrc info a = Some i"
  shows "s_addr (ip_src_addr (seq_pkt info ! i)) = ntohl a \<and> (i < unat (seqCnt info) \<or> i = SINGLE_PKT)"
  using assms
  by (auto simp: pktgen_find_matching_ipsrc_def first_match_def Let_def find_Some_iff
      split: option.splits if_splits)

lemma find_matching_ipsrc_None:
  "pktgen_find_matching_ipsrc info a = None \<longleftrightarrow>
    (\<forall>i < unat (seqCnt info). s_addr (ip_src_addr (seq_pkt info ! i)) \<noteq> ntohl a)
    \<and> s_addr (ip_src_addr (seq_pkt info ! SINGLE_PKT)) \<noteq> ntohl a"
  by (auto simp: pktgen_find_matching_ipsrc_def first_match_def Let_def find_None_iff
      split: option.splits) (auto simp: find_Some_iff)

lemma find_matching_ipdst_sound:
  assumes "pktgen_find_matching_ipdst info a = Some i"
  shows "s_addr (ip_dst_addr (seq_pkt info ! i)) = ntohl a
    \<and> (i < unat (seqCnt info) \<or> i = SINGLE_PKT \<or> i = RANGE_PKT)"
  using assms
  by (auto simp: pktgen_find_matching_ipdst_def first_match_def Let_def find_Some_iff
      split: option.splits if_splits)

section \<open>What a constructor may change\<close>

text \<open>Every constructor changes the buffer (not its length) and the layer 2 size of a
  template, and nothing else.  \<open>pres P m\<close>: every result of \<open>m\<close> satisfies \<open>P\<close>.\<close>

definition hdr_only :: "pkt_seq \<Rightarrow> pkt_seq \<Rightarrow> bool" where
  "hdr_only p p' \<longleftrightarrow> length (hdr p') = length (hdr p) \<and>
     p'\<lparr>hdr := [], ether_hdr_size := 0\<rparr> = p\<lparr>hdr := [], ether_hdr_size := 0\<rparr>"

definition pres :: "('a \<Rightarrow> bool) \<Rightarrow> 'a option \<Rightarrow> bool" where
  "pres P m \<longleftrightarrow> (\<forall>r. m = Some r \<longrightarrow> P r)"

lemma presD: "pres P m \<Longrightarrow> m = Some r \<Longrightarrow> P r"
  by (simp add: pres_def)

lemma pres_bind: "pres Q m \<Longrightarrow> (\<And>x. Q x \<Longrightarrow> pres P (f x)) \<Longrightarrow> pres P (Option.bind m f)"
  by (auto simp: pres_def bind_eq_Some_iff)

lemma pres_Some [intro]: "P x \<Longrightarrow> pres P (Some x)"
  by (simp add: pres_def)

lemma pres_None [intro]: "pres P None"
  by (simp add: pres_def)

lemma pres_any: "pres (\<lambda>_. True) m"
  by (simp add: pres_def)

lemma pres_if: "(b \<Longrightarrow> pres P m) \<Longrightarrow> (\<not> b \<Longrightarrow> pres P n) \<Longrightarrow> pres P (if b then m else n)"
  by simp

lemma hdr_only_refl [simp]: "hdr_only p p"
  by (simp add: hdr_only_def)

lemma hdr_only_hdr: "hdr_only p0 p \<Longrightarrow> length h = length (hdr p) \<Longrightarrow> hdr_only p0 (p\<lparr>hdr := h\<rparr>)"
  by (simp add: hdr_only_def)

lemma hdr_only_size: "hdr_only p0 p \<Longrightarrow> hdr_only p0 (p\<lparr>ether_hdr_size := e\<rparr>)"
  by (cases p, cases p0) (simp add: hdr_only_def)

lemma pres_on_hdr:
  assumes "hdr_only p0 p" and "\<And>m m'. f m = Some m' \<Longrightarrow> length m' = length m"
  shows "pres (hdr_only p0) (on_hdr f p)"
  using assms by (auto simp: pres_def on_hdr_def intro!: hdr_only_hdr)

lemma pres_stores:
  assumes "hdr_only p0 p"
  shows "pres (hdr_only p0) (on_hdr (wr off bs) p)" "pres (hdr_only p0) (on_hdr (st8 off b) p)"
    "pres (hdr_only p0) (on_hdr (st16 off w) p)" "pres (hdr_only p0) (on_hdr (st32 off v) p)"
    "pres (hdr_only p0) (on_hdr (memset off b n) p)" "pres (hdr_only p0) (on_hdr (ether_addrs q' off) p)"
  by (rule pres_on_hdr [OF assms];
      auto simp: st8_def st16_def st32_def memset_def ether_addrs_def bind_eq_Some_iff dest!: wr_length)+

text \<open>One step of a chain of stores, and the reads between them.\<close>

lemma pres_chain:
  "pres (hdr_only p0) m \<Longrightarrow> (\<And>x. hdr_only p0 x \<Longrightarrow> pres P (f x)) \<Longrightarrow> pres P (Option.bind m f)"
  by (rule pres_bind)

lemma pres_read_bind:
  "(\<And>x. pres P (f x)) \<Longrightarrow> pres P (Option.bind (cksum a b c) f)"
  "(\<And>x. pres P (g x)) \<Longrightarrow> pres P (Option.bind (ld16 i m) g)"
  by (auto intro: pres_bind [OF pres_any])

lemmas pres_rules = pres_stores pres_read_bind pres_if

lemma pres_tcp_fields [step_inv]: "hdr_only p0 p \<Longrightarrow> pres (hdr_only p0) (tcp_fields t tcp p)"
  unfolding tcp_fields_def by (intro pres_chain pres_rules) assumption+

lemma pres_udp_cksum [step_inv]: "hdr_only p0 p \<Longrightarrow> pres (hdr_only p0) (udp_cksum a b n p)"
  unfolding udp_cksum_def by (intro pres_chain pres_rules pres_Some) assumption+

lemma pres_tcp [step_inv]: "hdr_only p0 p \<Longrightarrow> pres (hdr_only p0) (pktgen_tcp_hdr_ctor p h ty)"
  unfolding pktgen_tcp_hdr_ctor_def Let_def
  by (intro pres_if; (intro pres_chain pres_rules pres_tcp_fields, assumption+))

lemma pres_udp [step_inv]: "hdr_only p0 p \<Longrightarrow> pres (hdr_only p0) (pktgen_udp_hdr_ctor g p h ty)"
  unfolding pktgen_udp_hdr_ctor_def Let_def
  by (intro pres_if; (intro pres_chain pres_rules pres_udp_cksum, assumption+))

lemma pres_gtpu [step_inv]: "hdr_only p0 p \<Longrightarrow> pres (hdr_only p0) (pktgen_gtpu_hdr_ctor p h pr fl)"
  unfolding pktgen_gtpu_hdr_ctor_def gtpu_bump_def Let_def
  by (intro pres_chain pres_rules pres_Some) assumption+

lemma pres_ipv6 [step_inv]: "hdr_only p0 p \<Longrightarrow> pres (hdr_only p0) (pktgen_ipv6_ctor p h)"
  unfolding pktgen_ipv6_ctor_def Let_def by (intro pres_chain pres_rules) assumption+

lemma pres_arp [step_inv]: "hdr_only p0 p \<Longrightarrow> pres (hdr_only p0) (arp_body p h)"
  unfolding arp_body_def by (intro pres_chain pres_rules) assumption+

lemma pres_icmp [step_inv]: "hdr_only p0 p \<Longrightarrow> pres (hdr_only p0) (icmp_body p h ty)"
  unfolding icmp_body_def Let_def
  by (intro pres_chain pres_rules pres_udp_cksum pres_Some) assumption+

definition ident_only :: "glob \<Rightarrow> glob \<Rightarrow> bool" where
  "ident_only g g' \<longleftrightarrow> (\<exists>i. g' = g\<lparr>ident := i\<rparr>)"

lemma ident_only_refl [simp]: "ident_only g g"
proof -
  have "g = g\<lparr>ident := ident g\<rparr>" by simp
  then show ?thesis unfolding ident_only_def by blast
qed

lemma pres_ipv4 [step_inv]:
  "hdr_only p0 p \<Longrightarrow> pres (\<lambda>(g', p'). ident_only g g' \<and> hdr_only p0 p') (pktgen_ipv4_ctor g p h)"
  unfolding pktgen_ipv4_ctor_def Let_def
  by (intro pres_chain pres_rules pres_Some; (assumption | auto simp: ident_only_def))

lemma pres_ether [step_inv]:
  "hdr_only p0 p \<Longrightarrow> pres (\<lambda>(l3, p'). hdr_only p0 p') (pktgen_ether_hdr_ctor info p eth)"
  unfolding pktgen_ether_hdr_ctor_def Let_def
  by (intro pres_chain pres_rules pres_Some;
      (assumption | simp only: prod.case, rule hdr_only_size, assumption))

abbreviation l3_ok :: "glob \<Rightarrow> pkt_seq \<Rightarrow> bool \<times> glob \<times> pkt_seq \<Rightarrow> bool" where
  "l3_ok g p0 \<equiv> (\<lambda>(e, g', p'). ident_only g g' \<and> hdr_only p0 p')"

lemma pres_ok:
  "pres (\<lambda>(g', p'). ident_only g g' \<and> hdr_only p0 p') m \<Longrightarrow>
    pres (l3_ok g p0) (map_option (\<lambda>(g, p). (False, g, p)) m)"
  by (auto simp: pres_def)

lemma pres_l3:
  assumes "hdr_only p0 p"
  shows "pres (l3_ok g p0) (packet_l3 g p l3 ty)"
  unfolding packet_l3_def Let_def
  by (intro pres_if pres_ok pres_chain pres_tcp pres_udp pres_gtpu pres_ipv4 pres_ipv6 pres_arp
      pres_icmp pres_Some; (assumption | rule assms | simp add: assms))

lemma fill_length:
  "pktgen_fill_pattern ty user m = Some h \<Longrightarrow> length h = length m"
  by (auto simp: pktgen_fill_pattern_def split: fill_t.splits if_splits)

lemma fill_total:
  "USER_PATTERN_SIZE \<le> length user \<Longrightarrow> \<exists>h. pktgen_fill_pattern ty user m = Some h"
  by (simp add: pktgen_fill_pattern_def split: fill_t.splits)

lemma packet_build_gre:
  assumes "has_flag (port_flags info) SEND_GRE_IPv4_HEADER \<or> has_flag (port_flags info) SEND_GRE_ETHER_HEADER"
  shows "packet_build g info p ty = None"
  using assms
  by (cases "pktgen_fill_pattern (fill_pattern_type info) (user_pattern info) (hdr p)")
    (auto simp: packet_build_def Let_def pktgen_gre_hdr_ctor_def pktgen_gre_ether_hdr_ctor_def)

lemma packet_build_frame:
  assumes "packet_build g info p ty = Some (e, g', p')"
  shows "ident_only g g'" and "hdr_only p p'"
proof -
  have no: "\<not> has_flag (port_flags info) SEND_GRE_IPv4_HEADER"
    "\<not> has_flag (port_flags info) SEND_GRE_ETHER_HEADER"
    using packet_build_gre [of info g p ty] assms by auto
  obtain h l3 p1 where h: "pktgen_fill_pattern (fill_pattern_type info) (user_pattern info) (hdr p) = Some h"
    and e: "pktgen_ether_hdr_ctor info (p\<lparr>hdr := h\<rparr>) 0 = Some (l3, p1)"
    and l: "packet_l3 g p1 l3 ty = Some (e, g', p')"
    using assms no by (auto simp: packet_build_def Let_def bind_eq_Some_iff)
  have "hdr_only p (p\<lparr>hdr := h\<rparr>)" using fill_length [OF h] by (simp add: hdr_only_hdr)
  then have "hdr_only p p1" using presD [OF pres_ether e] by auto
  then show "ident_only g g'" "hdr_only p p'" using presD [OF pres_l3 l] by auto
qed

text \<open>The constructor touches one template of the port, and of it only the packet image.\<close>

lemma packet_ctor_frame:
  assumes "pktgen_packet_ctor g info k ty = Some (e, g', info')"
  shows "ident_only g g' \<and> k < length (seq_pkt info) \<and>
    (\<exists>p'. hdr_only (seq_pkt info ! k) p' \<and> info' = info\<lparr>seq_pkt := (seq_pkt info)[k := p']\<rparr>)"
proof -
  have k: "k < length (seq_pkt info)" using assms by (simp add: pktgen_packet_ctor_def split: if_splits)
  then obtain p' where p': "packet_build g info (seq_pkt info ! k) ty = Some (e, g', p')"
    and i: "info' = info\<lparr>seq_pkt := (seq_pkt info)[k := p']\<rparr>"
    using assms by (auto simp: pktgen_packet_ctor_def bind_eq_Some_iff)
  show ?thesis using k i packet_build_frame [OF p'] by blast
qed

lemma hdr_only_wf: "hdr_only p p' \<Longrightarrow> wf_pkt sz p \<Longrightarrow> wf_pkt sz p'"
  by (cases p, cases p') (simp add: hdr_only_def wf_pkt_def)

lemma packet_ctor_wf [step_inv]:
  assumes "pktgen_packet_ctor g info k ty = Some (e, g', info')" "wf_port sz info"
  shows "wf_port sz info'"
proof -
  from packet_ctor_frame [OF assms(1)] obtain p' where k: "k < length (seq_pkt info)"
    and h: "hdr_only (seq_pkt info ! k) p'" and i: "info' = info\<lparr>seq_pkt := (seq_pkt info)[k := p']\<rparr>"
    by blast
  have "wf_pkt sz p'" using h assms(2) k hdr_only_wf by (auto simp: wf_port_def list_all_length)
  then show ?thesis using assms(2) k unfolding i
    by (auto simp: wf_port_def list_all_length nth_list_update)
qed

section \<open>The packet image\<close>

lemma l2_hdr_length:
  "wf_pkt sz p \<Longrightarrow> 14 \<le> length (l2_hdr info p) \<and> length (l2_hdr info p) \<le> 22"
  using l2_tags_bounds [of info p] by (simp add: l2_hdr_def wf_pkt_def)

lemma l2_hdr_cong [simp]: "l2_hdr info (p\<lparr>hdr := h\<rparr>) = l2_hdr info p"
  "l2_hdr info (p\<lparr>ether_hdr_size := e\<rparr>) = l2_hdr info p"
  by (simp_all add: l2_hdr_def l2_tags_def)

text \<open>Layers 2 to 4 of a template, assembled: \<open>ip_img\<close> is the IPv4 header.\<close>

definition no_gre :: "port_info \<Rightarrow> bool" where
  "no_gre info \<longleftrightarrow> \<not> has_flag (port_flags info) SEND_GRE_IPv4_HEADER
     \<and> \<not> has_flag (port_flags info) SEND_GRE_ETHER_HEADER"

lemma packet_build_l2:
  assumes "wf_pkt sz p" "22 \<le> sz" "no_gre info" "USER_PATTERN_SIZE \<le> length (user_pattern info)"
  obtains pat where "length pat = sz"
    and "pktgen_fill_pattern (fill_pattern_type info) (user_pattern info) (hdr p) = Some pat"
    and "packet_build g info p ty = packet_l3 g
      (p\<lparr>hdr := put 0 (l2_hdr info p) pat, ether_hdr_size := word_of_nat (length (l2_hdr info p))\<rparr>)
      (length (l2_hdr info p)) ty"
proof -
  obtain pat where pat: "pktgen_fill_pattern (fill_pattern_type info) (user_pattern info) (hdr p) = Some pat"
    using fill_total [OF assms(4)] by blast
  have len: "length pat = sz" using fill_length [OF pat] assms(1) by (simp add: wf_pkt_def)
  have e: "pktgen_ether_hdr_ctor info (p\<lparr>hdr := pat\<rparr>) 0 = Some (length (l2_hdr info p),
      p\<lparr>hdr := put 0 (l2_hdr info p) pat, ether_hdr_size := word_of_nat (length (l2_hdr info p))\<rparr>)"
    using ether_ctor_result [of "p\<lparr>hdr := pat\<rparr>" 0 info] assms(1,2) len by (simp add: wf_pkt_def)
  have "packet_build g info p ty = packet_l3 g
      (p\<lparr>hdr := put 0 (l2_hdr info p) pat, ether_hdr_size := word_of_nat (length (l2_hdr info p))\<rparr>)
      (length (l2_hdr info p)) ty"
    using assms(3) pat e by (simp add: packet_build_def no_gre_def)
  with len pat that show thesis by blast
qed

lemma put_at_0: "length bs \<le> length m \<Longrightarrow> put 0 bs m = bs @ drop (length bs) m"
  by (simp add: put_def)

lemma unat_sub_nat: "n \<le> unat w \<Longrightarrow> unat ((w :: u16) - word_of_nat n) = unat w - n"
  using unat_less(2) [of w] by (subst unat_sub) (simp_all add: word_le_nat_alt unat_of_nat16)

text \<open>C1 The packet that is built for an IPv4 TCP template is, byte for byte: the Ethernet header with
  the selected tags, an IPv4 header, a TCP header, and the fill pattern; nothing but the image and the
  layer 2 size of the template changes, and both the IPv4 and the TCP checksum (with its pseudo header)
  verify.\<close>

theorem packet_tcp_image:
  assumes wf: "wf_pkt sz p" and gre: "no_gre info" and up: "USER_PATTERN_SIZE \<le> length (user_pattern info)"
    and kind: "ethType p = ETHER_TYPE_IPv4" "ipProto p = ucast PG_IPPROTO_TCP" "dport p \<noteq> PG_IPPROTO_L4_GTPU_PORT"
    and L: "L = length (l2_hdr info p)"
    and sz: "L + 40 \<le> unat (pktSize p)" "unat (pktSize p) + 1 \<le> sz"
  shows "\<exists>p' ck ick pat.
      packet_build g info p ty = Some (False, g\<lparr>ident := ident g + 27\<rparr>, p')
    \<and> pktgen_fill_pattern (fill_pattern_type info) (user_pattern info) (hdr p) = Some pat
    \<and> p' = p\<lparr>hdr := l2_hdr info p
          @ ip_header (tos p) (ipv4_tlen g p') (ident g + 27) 6 (s_addr (ip_src_addr p)) (s_addr (ip_dst_addr p)) ick
          @ tcp_header (sport p) (dport p) ck @ drop (L + 40) pat, ether_hdr_size := word_of_nat L\<rparr>
    \<and> cksum (drop L (hdr p')) 20 0 = Some 0
    \<and> cksum (drop (L + 20) (hdr p')) (int (unat (pktSize p) - L - 20))
        (pseudoChecksum (htonl (s_addr (ip_src_addr p))) (htonl (s_addr (ip_dst_addr p))) 6
           (pktSize p - word_of_nat (L + 20)) 0) = Some 0"
proof -
  have Lb: "14 \<le> L" "L \<le> 22" using l2_hdr_length [OF wf, of info] L by simp_all
  have "22 \<le> sz" using Lb sz by simp
  obtain pat where pl: "length pat = sz"
    and pat: "pktgen_fill_pattern (fill_pattern_type info) (user_pattern info) (hdr p) = Some pat"
    and b: "packet_build g info p ty = packet_l3 g
      (p\<lparr>hdr := put 0 (l2_hdr info p) pat, ether_hdr_size := word_of_nat L\<rparr>) L ty"
    using packet_build_l2 [OF wf \<open>22 \<le> sz\<close> gre up] L by metis
  define p0 where "p0 = p\<lparr>hdr := put 0 (l2_hdr info p) pat, ether_hdr_size := word_of_nat L\<rparr>"
  have h0: "length (hdr p0) = sz" using pl Lb sz L by (simp add: p0_def)
  have l3: "unat (l3_len p0) = unat (pktSize p) - L"
    using sz by (simp add: l3_len_def p0_def unat_sub_nat)
  obtain p' ck where run: "do { p \<leftarrow> pktgen_tcp_hdr_ctor p0 L ETHER_TYPE_IPv4; pktgen_ipv4_ctor g p L }
      = Some (g\<lparr>ident := ident g + 27\<rparr>, p')"
    and p': "p' = p0\<lparr>hdr := put L (ipv4_bytes g p0 (ipv4_ck g p0) @ tcp_header (sport p0) (dport p0) ck) (hdr p0)\<rparr>"
    and c1: "cksum (drop L (hdr p')) 20 0 = Some 0"
    and c2: "cksum (drop (L + 20) (hdr p')) (int (unat (l3_len p0) - 20))
        (pseudoChecksum (htonl (s_addr (ip_src_addr p0))) (htonl (s_addr (ip_dst_addr p0)))
           (ucast (ucast (ipProto p0) :: u8)) (l4_len p0) 0) = Some 0"
  proof -
    have m: "(unat (pktSize p) - L) mod 2 \<le> 1" by simp
    have "L + 40 \<le> length (hdr p0)" "40 \<le> unat (l3_len p0)"
      "L + unat (l3_len p0) + unat (l3_len p0) mod 2 \<le> length (hdr p0)"
      unfolding l3 h0 using sz m by linarith+
    from tcp_ipv4_ctor [OF this] that show thesis by blast
  qed
  have build: "packet_build g info p ty = Some (False, g\<lparr>ident := ident g + 27\<rparr>, p')"
    unfolding b p0_def [symmetric] using run kind by (simp add: packet_l3_def p0_def)
  have proto: "(ucast (ipProto p) :: u8) = 6" using kind by (simp add: PG_IPPROTO_TCP_def)
  have img: "hdr p' = l2_hdr info p @ ipv4_bytes g p0 (ipv4_ck g p0) @ tcp_header (sport p) (dport p) ck @ drop (L + 40) pat"
    using put_next [of "l2_hdr info p" L 0 "ipv4_bytes g p0 (ipv4_ck g p0) @ tcp_header (sport p) (dport p) ck" pat]
      L pl sz by (simp add: p' p0_def put_at_0)
  have "l4_len p0 = pktSize p - word_of_nat (L + 20)" by (simp add: l4_len_def p0_def)
  with c2 have c2': "cksum (drop (L + 20) (hdr p')) (int (unat (pktSize p) - L - 20))
        (pseudoChecksum (htonl (s_addr (ip_src_addr p))) (htonl (s_addr (ip_dst_addr p))) 6
           (pktSize p - word_of_nat (L + 20)) 0) = Some 0"
    using l3 by (simp add: p0_def proto)
  have tl: "ipv4_tlen g p0 = ipv4_tlen g p'" by (simp add: p' ipv4_tlen_def)
  have "p' = p\<lparr>hdr := l2_hdr info p
          @ ip_header (tos p) (ipv4_tlen g p') (ident g + 27) 6 (s_addr (ip_src_addr p)) (s_addr (ip_dst_addr p)) (ipv4_ck g p0)
          @ tcp_header (sport p) (dport p) ck @ drop (L + 40) pat, ether_hdr_size := word_of_nat L\<rparr>"
    using img tl by (simp add: p' p0_def ipv4_bytes_def proto)
  then show ?thesis using build pat c1 c2' by blast
qed

lemma sample_l2: "l2_hdr sample_port (sample_pkt 128) = [2, 0, 0, 0, 0, 1, 2, 0, 0, 0, 0, 2, 8, 0]"
  by code_simp

lemma sample_build [simp]:
  "no_gre sample_port" "USER_PATTERN_SIZE \<le> length (user_pattern sample_port)"
  by (simp_all add: no_gre_def sample_port_def has_flag_def USER_PATTERN_SIZE_def)

theorem packet_tcp_image_witness:
  "\<exists>p'. packet_build sample_glob sample_port (sample_pkt 128) 0
      = Some (False, sample_glob\<lparr>ident := ident sample_glob + 27\<rparr>, p') \<and> cksum (drop 14 (hdr p')) 20 0 = Some 0"
proof -
  let ?p = "sample_pkt 128"
  have "ethType ?p = ETHER_TYPE_IPv4" "ipProto ?p = ucast PG_IPPROTO_TCP" "dport ?p \<noteq> PG_IPPROTO_L4_GTPU_PORT"
    "14 = length (l2_hdr sample_port ?p)" "14 + 40 \<le> unat (pktSize ?p)" "unat (pktSize ?p) + 1 \<le> 128"
    by (simp add: sample_pkt_def proto_consts ETHER_TYPE_IPv4_def PG_IPPROTO_L4_GTPU_PORT_def, 
        simp add: sample_pkt_def proto_consts, simp add: sample_pkt_def PG_IPPROTO_L4_GTPU_PORT_def,
        simp add: sample_l2, simp_all add: sample_pkt_def)
  from packet_tcp_image [OF wf_sample_pkt sample_build this, of sample_glob 0] show ?thesis by blast
qed

lemma proto_ne [simp]: "ucast PG_IPPROTO_UDP \<noteq> (ucast PG_IPPROTO_TCP :: u16)"
  by (simp add: PG_IPPROTO_UDP_def PG_IPPROTO_TCP_def)

text \<open>C2 The same for an IPv4 UDP template: the UDP length is the size of the segment, the UDP checksum
  verifies and is never the value 0 that means no checksum.\<close>

theorem packet_udp_image:
  assumes wf: "wf_pkt sz p" and gre: "no_gre info" and up: "USER_PATTERN_SIZE \<le> length (user_pattern info)"
    and kind: "ethType p = ETHER_TYPE_IPv4" "ipProto p = ucast PG_IPPROTO_UDP" "dport p \<noteq> PG_IPPROTO_L4_GTPU_PORT"
    and ng: "\<not> gtpu_gen g" and L: "L = length (l2_hdr info p)"
    and sz: "L + 28 \<le> unat (pktSize p)" "unat (pktSize p) + 1 \<le> sz"
  shows "\<exists>p' ck ick pat.
      packet_build g info p ty = Some (False, g\<lparr>ident := ident g + 27\<rparr>, p')
    \<and> pktgen_fill_pattern (fill_pattern_type info) (user_pattern info) (hdr p) = Some pat
    \<and> p' = p\<lparr>hdr := l2_hdr info p
          @ ip_header (tos p) (ipv4_tlen g p') (ident g + 27) 17 (s_addr (ip_src_addr p)) (s_addr (ip_dst_addr p)) ick
          @ udp_header (sport p) (dport p) (pktSize p - word_of_nat (L + 20)) ck @ drop (L + 28) pat, ether_hdr_size := word_of_nat L\<rparr>
    \<and> ck \<noteq> 0 \<and> cksum (drop L (hdr p')) 20 0 = Some 0
    \<and> cksum (drop (L + 20) (hdr p')) (int (unat (pktSize p) - L - 20))
        (pseudoChecksum (htonl (s_addr (ip_src_addr p))) (htonl (s_addr (ip_dst_addr p))) 17
           (pktSize p - word_of_nat (L + 20)) 0) = Some 0"
proof -
  have Lb: "14 \<le> L" "L \<le> 22" using l2_hdr_length [OF wf, of info] L by simp_all
  have "22 \<le> sz" using Lb sz by simp
  obtain pat where pl: "length pat = sz"
    and pat: "pktgen_fill_pattern (fill_pattern_type info) (user_pattern info) (hdr p) = Some pat"
    and b: "packet_build g info p ty = packet_l3 g
      (p\<lparr>hdr := put 0 (l2_hdr info p) pat, ether_hdr_size := word_of_nat L\<rparr>) L ty"
    using packet_build_l2 [OF wf \<open>22 \<le> sz\<close> gre up] L by metis
  define p0 where "p0 = p\<lparr>hdr := put 0 (l2_hdr info p) pat, ether_hdr_size := word_of_nat L\<rparr>"
  have h0: "length (hdr p0) = sz" using pl Lb sz L by (simp add: p0_def)
  have l3: "unat (l3_len p0) = unat (pktSize p) - L"
    using sz by (simp add: l3_len_def p0_def unat_sub_nat)
  obtain p' ck where run: "do { p \<leftarrow> pktgen_udp_hdr_ctor g p0 L ETHER_TYPE_IPv4; pktgen_ipv4_ctor g p L }
      = Some (g\<lparr>ident := ident g + 27\<rparr>, p')"
    and p': "p' = p0\<lparr>hdr := put L (ipv4_bytes g p0 (ipv4_ck g p0) @ udp_header (sport p0) (dport p0) (l4_len p0) ck) (hdr p0)\<rparr>"
    and cz: "ck \<noteq> 0" and c1: "cksum (drop L (hdr p')) 20 0 = Some 0"
    and c2: "cksum (drop (L + 20) (hdr p')) (int (unat (l3_len p0) - 20))
        (pseudoChecksum (htonl (s_addr (ip_src_addr p0))) (htonl (s_addr (ip_dst_addr p0)))
           (ucast (ucast (ipProto p0) :: u8)) (l4_len p0) 0) = Some 0"
  proof -
    have m: "(unat (pktSize p) - L) mod 2 \<le> 1" by simp
    have "L + 28 \<le> length (hdr p0)" "28 \<le> unat (l3_len p0)"
      "L + unat (l3_len p0) + unat (l3_len p0) mod 2 \<le> length (hdr p0)"
      unfolding l3 h0 using sz m by linarith+
    from udp_ipv4_ctor [OF ng this] that show thesis by blast
  qed
  have build: "packet_build g info p ty = Some (False, g\<lparr>ident := ident g + 27\<rparr>, p')"
    unfolding b p0_def [symmetric] using run kind by (simp add: packet_l3_def p0_def)
  have proto: "(ucast (ipProto p) :: u8) = 17" using kind by (simp add: PG_IPPROTO_UDP_def)
  have l4: "l4_len p0 = pktSize p - word_of_nat (L + 20)" by (simp add: l4_len_def p0_def)
  have img: "hdr p' = l2_hdr info p @ ipv4_bytes g p0 (ipv4_ck g p0) @ udp_header (sport p) (dport p) (pktSize p - word_of_nat (L + 20)) ck @ drop (L + 28) pat"
    using put_next [of "l2_hdr info p" L 0 "ipv4_bytes g p0 (ipv4_ck g p0) @ udp_header (sport p) (dport p) (pktSize p - word_of_nat (L + 20)) ck" pat]
      L pl sz by (simp add: p' l4) (simp add: p0_def put_at_0)
  from c2 l4 have c2': "cksum (drop (L + 20) (hdr p')) (int (unat (pktSize p) - L - 20))
        (pseudoChecksum (htonl (s_addr (ip_src_addr p))) (htonl (s_addr (ip_dst_addr p))) 17
           (pktSize p - word_of_nat (L + 20)) 0) = Some 0"
    using l3 by (simp add: p0_def proto)
  have tl: "ipv4_tlen g p0 = ipv4_tlen g p'" by (simp add: p' ipv4_tlen_def)
  have "p' = p\<lparr>hdr := l2_hdr info p
          @ ip_header (tos p) (ipv4_tlen g p') (ident g + 27) 17 (s_addr (ip_src_addr p)) (s_addr (ip_dst_addr p)) (ipv4_ck g p0)
          @ udp_header (sport p) (dport p) (pktSize p - word_of_nat (L + 20)) ck @ drop (L + 28) pat, ether_hdr_size := word_of_nat L\<rparr>"
    using img tl by (simp add: p' p0_def ipv4_bytes_def proto)
  then show ?thesis using build pat c1 c2' cz by blast
qed


theorem packet_udp_image_witness:
  "\<exists>p'. packet_build sample_glob sample_port (sample_pkt 128\<lparr>ipProto := 17\<rparr>) 0
      = Some (False, sample_glob\<lparr>ident := ident sample_glob + 27\<rparr>, p') \<and> cksum (drop 14 (hdr p')) 20 0 = Some 0"
proof -
  let ?p = "sample_pkt 128\<lparr>ipProto := 17\<rparr>"
  have l2: "l2_hdr sample_port ?p = l2_hdr sample_port (sample_pkt 128)"
    by (simp add: l2_hdr_def l2_tags_def)
  have wf: "wf_pkt 128 ?p" using wf_sample_pkt [of 128] by (simp add: wf_pkt_def)
  have "ethType ?p = ETHER_TYPE_IPv4" "ipProto ?p = ucast PG_IPPROTO_UDP" "dport ?p \<noteq> PG_IPPROTO_L4_GTPU_PORT"
    "\<not> gtpu_gen sample_glob"
    "14 = length (l2_hdr sample_port ?p)" "14 + 28 \<le> unat (pktSize ?p)" "unat (pktSize ?p) + 1 \<le> 128"
    by (simp add: sample_pkt_def ETHER_TYPE_IPv4_def,
        simp add: proto_consts, simp add: sample_pkt_def PG_IPPROTO_L4_GTPU_PORT_def,
        simp add: gtpu_gen_def sample_glob_def, simp add: l2 sample_l2, simp_all add: sample_pkt_def)
  from packet_udp_image [OF wf sample_build this, of 0] show ?thesis by blast
qed

end
