(* ===== verification/Atomic.thy ===== *)
theory Atomic
  imports PortData
begin

text \<open>
  The compare-and-set loops: \<open>pktgen_set_port_flags\<close>, \<open>pktgen_clr_port_flags\<close>,
  \<open>pktgen_set_q_flags\<close>, \<open>pktgen_clr_q_flags\<close> (\<open>app/pktgen.h\<close>) and
  \<open>pkt_atomic64_tx_count\<close> (\<open>app/pktgen-port-cfg.h\<close>).  Each reads a shared word,
  computes a new one and repeats until the word has not changed in between.
  The loops of several lcores interleave step by step; every execution is shown
  to have the effect of the operations taken one after the other.
\<close>

section \<open>One turn of a loop\<close>

text \<open>What a loop does with the value it has read: return without a write, or try to
  store a new value and return a result.\<close>

datatype ('v, 'r) attempt = Return 'r | Swap 'v 'r

definition set_flags_op :: "u32 \<Rightarrow> u32 \<Rightarrow> (u32, unit) attempt" where
  "set_flags_op f v = Swap (v OR f) ()"

definition clr_flags_op :: "u32 \<Rightarrow> u32 \<Rightarrow> (u32, unit) attempt" where
  "clr_flags_op f v = Swap (v AND NOT f) ()"

definition tx_count_op :: "int \<Rightarrow> u64 \<Rightarrow> (u64, u64) attempt" where
  "tx_count_op burst v =
    (if v = 0 then Return 0
     else let t = (if sint v > burst then word_of_int burst else v) in Swap (v - t) t)"

text \<open>The effect of an operation that runs alone.\<close>

definition atomically :: "('v \<Rightarrow> ('v, 'r) attempt) \<Rightarrow> 'v \<Rightarrow> 'v \<times> 'r" where
  "atomically f v = (case f v of Return r \<Rightarrow> (v, r) | Swap v' r \<Rightarrow> (v', r))"

definition pktgen_set_port_flags :: "port_info \<Rightarrow> u32 \<Rightarrow> port_info" where
  "pktgen_set_port_flags i f = i\<lparr>port_flags := fst (atomically (set_flags_op f) (port_flags i))\<rparr>"

definition pktgen_clr_port_flags :: "port_info \<Rightarrow> u32 \<Rightarrow> port_info" where
  "pktgen_clr_port_flags i f = i\<lparr>port_flags := fst (atomically (clr_flags_op f) (port_flags i))\<rparr>"

definition pktgen_set_q_flags :: "port_info \<Rightarrow> nat \<Rightarrow> u32 \<Rightarrow> port_info option" where
  "pktgen_set_q_flags i k f = (if k < length (q i) then
     Some (i\<lparr>q := (q i)[k := (q i ! k)\<lparr>qflags := fst (atomically (set_flags_op f) (qflags (q i ! k)))\<rparr>]\<rparr>)
     else None)"

definition pktgen_clr_q_flags :: "port_info \<Rightarrow> nat \<Rightarrow> u32 \<Rightarrow> port_info option" where
  "pktgen_clr_q_flags i k f = (if k < length (q i) then
     Some (i\<lparr>q := (q i)[k := (q i ! k)\<lparr>qflags := fst (atomically (clr_flags_op f) (qflags (q i ! k)))\<rparr>]\<rparr>)
     else None)"

definition pkt_atomic64_tx_count :: "u64 \<Rightarrow> int \<Rightarrow> u64 \<times> u64" where
  "pkt_atomic64_tx_count v burst = atomically (tx_count_op burst) v"

lemma set_port_flags_eq: "pktgen_set_port_flags i f = i\<lparr>port_flags := port_flags i OR f\<rparr>"
  by (simp add: pktgen_set_port_flags_def atomically_def set_flags_op_def)

lemma clr_port_flags_eq: "pktgen_clr_port_flags i f = i\<lparr>port_flags := port_flags i AND NOT f\<rparr>"
  by (simp add: pktgen_clr_port_flags_def atomically_def clr_flags_op_def)

section \<open>Interleaved loops\<close>

datatype ('v, 'r) pc = Start | Loaded 'v | Done 'r

text \<open>A state is the shared word, the position of every thread and the order in which
  operations have taken effect.\<close>

type_synonym ('v, 'r) cas_state = "'v \<times> (nat \<Rightarrow> ('v, 'r) pc) \<times> nat list"

inductive cas_step :: "(nat \<Rightarrow> 'v \<Rightarrow> ('v, 'r) attempt) \<Rightarrow> ('v, 'r) cas_state \<Rightarrow> ('v, 'r) cas_state \<Rightarrow> bool"
  for ops where
  load_return: "pcs i = Start \<Longrightarrow> ops i w = Return r \<Longrightarrow>
     cas_step ops (w, pcs, h) (w, pcs(i := Done r), h @ [i])"
| load: "pcs i = Start \<Longrightarrow> ops i w = Swap v r \<Longrightarrow>
     cas_step ops (w, pcs, h) (w, pcs(i := Loaded w), h)"
| cas_ok: "pcs i = Loaded w \<Longrightarrow> ops i w = Swap v r \<Longrightarrow>
     cas_step ops (w, pcs, h) (v, pcs(i := Done r), h @ [i])"
| cas_fail: "pcs i = Loaded v \<Longrightarrow> v \<noteq> w \<Longrightarrow>
     cas_step ops (w, pcs, h) (w, pcs(i := Start), h)"

inductive_cases cas_stepE: "cas_step ops s s'"

inductive cas_reach :: "(nat \<Rightarrow> 'v \<Rightarrow> ('v, 'r) attempt) \<Rightarrow> 'v \<Rightarrow> ('v, 'r) cas_state \<Rightarrow> bool"
  for ops w0 where
  init: "cas_reach ops w0 (w0, \<lambda>_. Start, [])"
| step: "cas_reach ops w0 s \<Longrightarrow> cas_step ops s s' \<Longrightarrow> cas_reach ops w0 s'"

text \<open>The operations of the history, one after the other: final value and results.\<close>

fun replay :: "(nat \<Rightarrow> 'v \<Rightarrow> ('v, 'r) attempt) \<Rightarrow> nat list \<Rightarrow> 'v \<Rightarrow> 'v \<times> (nat \<times> 'r) list" where
  "replay ops [] v = (v, [])"
| "replay ops (i # h) v =
    (let (v', r) = atomically (ops i) v; (w, rs) = replay ops h v' in (w, (i, r) # rs))"

lemma replay_append:
  "replay ops (h @ [i]) v = (let (w, rs) = replay ops h v; (w', r) = atomically (ops i) w in (w', rs @ [(i, r)]))"
  by (induction h arbitrary: v) (auto simp: Let_def split: prod.splits)

lemma map_fst_replay: "map fst (snd (replay ops h v)) = h"
  by (induction h arbitrary: v) (simp_all add: Let_def split_beta)

definition linear :: "(nat \<Rightarrow> 'v \<Rightarrow> ('v, 'r) attempt) \<Rightarrow> 'v \<Rightarrow> ('v, 'r) cas_state \<Rightarrow> bool" where
  "linear ops w0 = (\<lambda>(w, pcs, h). distinct h \<and> fst (replay ops h w0) = w
     \<and> (\<forall>i. i \<in> set h \<longleftrightarrow> (\<exists>r. pcs i = Done r))
     \<and> (\<forall>i r. pcs i = Done r \<longrightarrow> (i, r) \<in> set (snd (replay ops h w0)))
     \<and> (\<forall>i v. pcs i = Loaded v \<longrightarrow> (\<exists>v' r. ops i v = Swap v' r)))"

lemma linear_step [step_inv]:
  assumes "cas_step ops s s'" "linear ops w0 s"
  shows "linear ops w0 s'"
  using assms
proof (cases rule: cas_step.cases)
  case (load_return pcs i w r h)
  then show ?thesis using assms(2)
    by (auto simp: linear_def replay_append atomically_def Let_def split: prod.splits)
next
  case (load pcs i w v r h)
  then show ?thesis using assms(2) by (auto simp: linear_def)
next
  case (cas_ok pcs i w v r h)
  then show ?thesis using assms(2)
    by (auto simp: linear_def replay_append atomically_def Let_def split: prod.splits)
next
  case (cas_fail pcs i v w h)
  then show ?thesis using assms(2) by (auto simp: linear_def)
qed

lemma cas_linearizable: "cas_reach ops w0 s \<Longrightarrow> linear ops w0 s"
proof (induction rule: cas_reach.induct)
  case init
  then show ?case by (simp add: linear_def)
next
  case (step s s')
  then show ?case by (blast intro: linear_step)
qed

text \<open>A compare-and-set loop that is not disturbed ends: after at most one load and one store
  it has stored the new value of its operation and holds its result.\<close>

theorem cas_solo:
  assumes "pcs i = Start"
  shows "\<exists>s'. (cas_step ops)\<^sup>*\<^sup>* (w, pcs, h) s' \<and> fst s' = fst (atomically (ops i) w)
    \<and> fst (snd s') i = Done (snd (atomically (ops i) w))"
proof (cases "ops i w")
  case (Return r)
  have "cas_step ops (w, pcs, h) (w, pcs(i := Done r), h @ [i])"
    by (rule load_return) (use assms Return in auto)
  then show ?thesis using Return
    by (intro exI [of _ "(w, pcs(i := Done r), h @ [i])"]) (auto simp: atomically_def)
next
  case (Swap v r)
  have 1: "cas_step ops (w, pcs, h) (w, pcs(i := Loaded w), h)"
    by (rule load) (use assms Swap in auto)
  have 2: "cas_step ops (w, pcs(i := Loaded w), h) (v, (pcs(i := Loaded w))(i := Done r), h @ [i])"
    by (rule cas_ok) (use Swap in auto)
  have "(cas_step ops)\<^sup>*\<^sup>* (w, pcs, h) (v, (pcs(i := Loaded w))(i := Done r), h @ [i])"
    using 1 2 by (meson rtranclp.rtrancl_into_rtrancl rtranclp.rtrancl_refl)
  then show ?thesis using Swap
    by (intro exI [of _ "(v, (pcs(i := Loaded w))(i := Done r), h @ [i])"]) (simp add: atomically_def)
qed

theorem cas_solo_witness:
  "\<exists>s'. (cas_step (\<lambda>_. set_flags_op 4))\<^sup>*\<^sup>* (1, \<lambda>_. Start, []) s' \<and> fst s' = 5"
  using cas_solo [of "\<lambda>_. Start" 0 "\<lambda>_. set_flags_op 4" 1 "[]"]
  by (auto simp: atomically_def set_flags_op_def)

text \<open>C14 The interleaved compare-and-set loops are linearizable: in every reachable state the shared
  word is the result of the finished operations taken one after the other, each once, and every
  finished operation has the result it has in that sequence.\<close>

theorem cas_loops_linearizable:
  assumes "cas_reach ops w0 (w, pcs, h)"
  shows "distinct h \<and> fst (replay ops h w0) = w
    \<and> (\<forall>i. i \<in> set h \<longleftrightarrow> (\<exists>r. pcs i = Done r))
    \<and> (\<forall>i r. pcs i = Done r \<longrightarrow> (i, r) \<in> set (snd (replay ops h w0)))"
  using cas_linearizable [OF assms] by (simp add: linear_def)

theorem cas_loops_linearizable_witness:
  "fst (replay (\<lambda>i. if i = 0 then set_flags_op 4 else clr_flags_op 1) [0] 1) = 5"
proof -
  let ?ops = "\<lambda>i :: nat. if i = 0 then set_flags_op 4 else clr_flags_op 1"
  have 0: "cas_reach ?ops 1 (1, \<lambda>_. Start, [])" by (rule cas_reach.init)
  have 1: "cas_reach ?ops 1 (1, (\<lambda>_. Start)(0 := Loaded 1), [])"
    by (rule cas_reach.step [OF 0], rule cas_step.load [of _ _ _ _ 5 "()"]) (simp_all add: set_flags_op_def)
  have 2: "cas_reach ?ops 1 (1, (\<lambda>_. Start)(0 := Loaded 1, 1 := Loaded 1), [])"
    by (rule cas_reach.step [OF 1], rule cas_step.load [of _ _ _ _ 0 "()"]) (simp_all add: clr_flags_op_def)
  have 3: "cas_reach ?ops 1 (5, ((\<lambda>_. Start)(0 := Loaded 1, 1 := Loaded 1))(0 := Done ()), [] @ [0])"
    by (rule cas_reach.step [OF 2], rule cas_step.cas_ok [of _ _ 1]) (simp_all add: set_flags_op_def)
  from cas_loops_linearizable [OF 3] show ?thesis by simp
qed

section \<open>Transmit credit\<close>

lemma sint_small64:
  fixes v :: u64
  assumes "unat v < 2 ^ 63"
  shows "sint v = int (unat v)"
proof -
  have "int (unat v) < 2 ^ 63" using assms by (metis of_nat_less_iff of_nat_numeral of_nat_power)
  then have "uint v < 2 ^ 63" by (simp only: uint_nat)
  then have "signed_take_bit 63 (uint v) = uint v"
    by (intro signed_take_bit_int_eq_self) (use uint_ge_0 [of v] in linarith)+
  then show ?thesis by (simp add: sint_uint)
qed

lemma tx_count_conserve:
  assumes "0 \<le> burst" "burst < 2 ^ 63" "unat v < 2 ^ 63" "atomically (tx_count_op burst) v = (v', r)"
  shows "unat v' + unat r = unat v" "int (unat r) \<le> burst"
proof -
  note s = sint_small64
  have b: "unat (word_of_int burst :: u64) = nat burst"
  proof -
    obtain n where n: "burst = int n" using assms(1) nonneg_int_cases by blast
    with assms(2) have "n < 2 ^ 63" by (metis of_nat_less_iff of_nat_numeral of_nat_power)
    then show ?thesis unfolding n by (simp add: unat_of_nat)
  qed
  have "unat v' + unat r = unat v \<and> int (unat r) \<le> burst"
  proof (cases "v = 0")
    case True
    then show ?thesis using assms by (simp add: atomically_def tx_count_op_def)
  next
    case False
    show ?thesis
    proof (cases "sint v > burst")
      case True
      then have "r = word_of_int burst" "v' = v - word_of_int burst"
        using assms(4) False by (auto simp: atomically_def tx_count_op_def Let_def)
      moreover have "nat burst \<le> unat v" using True s [OF assms(3)] by linarith
      ultimately show ?thesis using b assms(1)
        by (simp add: unat_sub word_le_nat_alt)
    next
      case nb: False
      then show ?thesis using assms(1,4) False s [OF assms(3)]
        by (simp add: atomically_def tx_count_op_def Let_def)
    qed
  qed
  then show "unat v' + unat r = unat v" "int (unat r) \<le> burst" by blast+
qed

lemma replay_tx_count:
  assumes "\<And>i. ops i = tx_count_op (bursts i)" "\<And>i. 0 \<le> bursts i \<and> bursts i < 2 ^ 63"
  shows "unat v < 2 ^ 63 \<Longrightarrow> replay ops h v = (w, rs) \<Longrightarrow>
    unat w + sum_list (map (unat \<circ> snd) rs) = unat v"
proof (induction h arbitrary: v w rs)
  case (Cons i h)
  obtain v' r where a: "atomically (ops i) v = (v', r)" by force
  obtain rs' where rs: "rs = (i, r) # rs'" and rest: "replay ops h v' = (w, rs')"
    using Cons.prems(2) a by (auto simp: Let_def split: prod.splits)
  have c: "unat v' + unat r = unat v"
    using tx_count_conserve(1) [of "bursts i" v v' r] a assms Cons.prems(1) by simp
  have "unat w + sum_list (map (unat \<circ> snd) rs') = unat v'"
    using Cons.IH [OF _ rest] c Cons.prems(1) by (simp add: comp_def)
  with c rs show ?case by (simp add: comp_def)
qed simp

text \<open>C15 Whatever the interleaving of the senders of a port, the packets granted to all of them and
  the packets left over add up to the transmit count that was loaded: none is sent twice or lost.\<close>

theorem tx_count_no_overrun:
  assumes "\<And>i. ops i = tx_count_op (bursts i)" "\<And>i. 0 \<le> bursts i \<and> bursts i < 2 ^ 63"
    and "unat w0 < 2 ^ 63" "cas_reach ops w0 (w, pcs, h)"
  shows "unat w + (\<Sum>i\<leftarrow>h. case pcs i of Done r \<Rightarrow> unat r | _ \<Rightarrow> 0) = unat w0"
proof -
  have l: "linear ops w0 (w, pcs, h)" using cas_linearizable [OF assms(4)] .
  obtain rs where rs: "replay ops h w0 = (w, rs)" using l by (cases "replay ops h w0") (auto simp: linear_def)
  have fst: "map fst rs = h" using map_fst_replay [of ops h w0] rs by simp
  have d: "distinct h" using l by (simp add: linear_def)
  have val: "pcs i = Done r" if "(i, r) \<in> set rs" for i r
  proof -
    have "i \<in> set h" using that fst by (metis fst_conv image_eqI set_map)
    then obtain r' where r': "pcs i = Done r'" using l by (auto simp: linear_def)
    then have "(i, r') \<in> set rs" using l rs by (auto simp: linear_def)
    with that fst d have "r = r'" by (metis eq_key_imp_eq_value)
    with r' show ?thesis by simp
  qed
  have "(\<Sum>i\<leftarrow>h. case pcs i of Done r \<Rightarrow> unat r | _ \<Rightarrow> 0)
      = (\<Sum>x\<leftarrow>rs. case pcs (fst x) of Done r \<Rightarrow> unat r | _ \<Rightarrow> 0)"
    by (subst fst [symmetric]) (simp add: comp_def)
  also have "\<dots> = sum_list (map (unat \<circ> snd) rs)"
    by (rule arg_cong [of _ _ sum_list]) (auto simp: val)
  finally show ?thesis using replay_tx_count [OF assms(1,2,3) rs] by simp
qed

theorem tx_count_no_overrun_witness:
  "unat (3 :: u64) + (\<Sum>i\<leftarrow>[0 :: nat]. case ((\<lambda>_. Start)(0 := Done (7 :: u64))) i of Done r \<Rightarrow> unat r | _ \<Rightarrow> 0) = unat (10 :: u64)"
proof -
  let ?ops = "\<lambda>_ :: nat. tx_count_op 7"
  have 0: "cas_reach ?ops 10 (10, \<lambda>_. Start, [])" by (rule cas_reach.init)
  have op: "tx_count_op 7 10 = Swap 3 7" by (simp add: tx_count_op_def)
  have 1: "cas_reach ?ops 10 (10, (\<lambda>_. Start)(0 := Loaded 10), [])"
    by (rule cas_reach.step [OF 0], rule cas_step.load [of _ _ _ _ 3 7]) (simp_all add: op)
  have "cas_reach ?ops 10 (3, ((\<lambda>_. Start)(0 := Loaded 10))(0 := Done 7), [] @ [0])"
    by (rule cas_reach.step [OF 1], rule cas_step.cas_ok [of _ _ 10]) (simp_all add: op)
  then have "cas_reach ?ops 10 (3, (\<lambda>_. Start)(0 := Done 7), [0])" by simp
  from tx_count_no_overrun [of ?ops "\<lambda>_. 7", OF _ _ _ this] show ?thesis by simp
qed

section \<open>Flag words\<close>

text \<open>The interface of a flag word: test, set and clear, with the laws its users rely
  on.  \<open>apart\<close> is disjointness of masks.\<close>

locale flag_word =
  fixes get :: "'s \<Rightarrow> u32" and set_f :: "'s \<Rightarrow> u32 \<Rightarrow> 's" and clr_f :: "'s \<Rightarrow> u32 \<Rightarrow> 's"
  assumes get_set: "get (set_f s f) = get s OR f"
    and get_clr: "get (clr_f s f) = get s AND NOT f"
begin

lemma has_set: "f AND m \<noteq> 0 \<Longrightarrow> has_flag (get (set_f s f)) m"
proof -
  assume "f AND m \<noteq> 0"
  then obtain n where "bit (f AND m) n" by (metis bit_eqI bit_0_eq bot_apply bot_bool_def)
  then have "bit ((get s OR f) AND m) n" by (simp add: bit_simps)
  then show ?thesis by (auto simp: has_flag_def get_set)
qed

lemma not_has_clr: "m AND NOT f = 0 \<Longrightarrow> \<not> has_flag (get (clr_f s f)) m"
proof -
  assume "m AND NOT f = 0"
  moreover have "(get s AND NOT f) AND m = get s AND (m AND NOT f)" by (simp only: ac_simps)
  ultimately show ?thesis by (simp add: has_flag_def get_clr)
qed

lemma set_other: "f AND m = 0 \<Longrightarrow> has_flag (get (set_f s f)) m \<longleftrightarrow> has_flag (get s) m"
  by (simp add: has_flag_def get_set and.commute bit.conj_disj_distrib)

lemma clr_other: "f AND m = 0 \<Longrightarrow> has_flag (get (clr_f s f)) m \<longleftrightarrow> has_flag (get s) m"
proof -
  assume "f AND m = 0"
  then have "NOT f AND m = m"
    by (intro bit_word_eqI) (auto simp: bit_simps bit_eq_iff)
  then show ?thesis by (simp add: has_flag_def get_clr and.assoc)
qed

text \<open>Selecting one of a group of exclusive modes: clear the group, set the mode.\<close>

lemma select_mode:
  assumes "f AND NOT grp = 0" "f \<noteq> 0" "m AND NOT grp = 0" "m AND f = 0"
  shows "has_flag (get (set_f (clr_f s grp) f)) f" "\<not> has_flag (get (set_f (clr_f s grp) f)) m"
proof -
  show "has_flag (get (set_f (clr_f s grp) f)) f" using has_set [of f f] assms(2) by simp
  show "\<not> has_flag (get (set_f (clr_f s grp) f)) m"
    using set_other [of f m "clr_f s grp"] not_has_clr [of m grp s] assms(3,4) by (simp add: and.commute)
qed

end

interpretation port_word: flag_word port_flags pktgen_set_port_flags pktgen_clr_port_flags
  by unfold_locales (simp_all add: set_port_flags_eq clr_port_flags_eq)

end
