(* ===== verification/Pages.thy ===== *)
theory Pages
  imports Atomic Samples
begin

text \<open>
  The pages of the console (\<open>_page_display\<close> and \<open>pktgen_page_display\<close> of
  \<open>app/pktgen.c\<close>, the display commands of \<open>app/pktgen-cmds.c\<close>).  The page shown
  is selected by one group of bits in the program's flag word.  What a page prints is
  not modelled: a page is its name.
\<close>

section \<open>State\<close>

datatype page = CPU_page | PCAP_page u16 | Range_page | Config_page | Seq_page u16
  | Random_page bool u16 | Log_page bool | Latency_page | Phys_stats_page | Stats_page

text \<open>The screen: whether it is paused, the static tick counter of
  \<open>pktgen_page_display\<close> and the pages shown so far, the last one first.\<close>

record scrn =
  paused :: bool
  update_display :: u32
  shown :: "page list"

definition UPDATE_DISPLAY_TICK_INTERVAL :: u32 where "UPDATE_DISPLAY_TICK_INTERVAL = 8"
definition PCAP_PAGE_SIZE :: u32 where "PCAP_PAGE_SIZE = 25"

section \<open>Display\<close>

definition page_of :: "glob \<Rightarrow> page" where
  "page_of g =
    (if has_flag (flags g) CPU_PAGE_FLAG then CPU_page
     else if has_flag (flags g) PCAP_PAGE_FLAG then PCAP_page (portNum g)
     else if has_flag (flags g) RANGE_PAGE_FLAG then Range_page
     else if has_flag (flags g) CONFIG_PAGE_FLAG then Config_page
     else if has_flag (flags g) SEQUENCE_PAGE_FLAG then Seq_page (portNum g)
     else if has_flag (flags g) RND_BITFIELD_PAGE_FLAG
       then Random_page (has_flag (flags g) PRINT_LABELS_FLAG) (portNum g)
     else if has_flag (flags g) LOG_PAGE_FLAG then Log_page (has_flag (flags g) PRINT_LABELS_FLAG)
     else if has_flag (flags g) LATENCY_PAGE_FLAG then Latency_page
     else if has_flag (flags g) STATS_PAGE_FLAG then Phys_stats_page
     else Stats_page)"

definition set_gflags :: "glob \<Rightarrow> u32 \<Rightarrow> glob" where
  "set_gflags g f = g\<lparr>flags := flags g OR f\<rparr>"

definition clr_gflags :: "glob \<Rightarrow> u32 \<Rightarrow> glob" where
  "clr_gflags g f = g\<lparr>flags := flags g AND NOT f\<rparr>"

definition pktgen_page_display :: "glob \<Rightarrow> scrn \<Rightarrow> glob \<times> scrn" where
  "pktgen_page_display g s =
    (if paused s then (g, s)
     else
       let (g, s) = (if has_flag (flags g) UPDATE_DISPLAY_FLAG
             then (clr_gflags g UPDATE_DISPLAY_FLAG, s\<lparr>update_display := 1\<rparr>) else (g, s));
           s = s\<lparr>update_display := update_display s - 1\<rparr>
       in if update_display s = 0 then
            let s = s\<lparr>update_display := UPDATE_DISPLAY_TICK_INTERVAL, shown := page_of g # shown s\<rparr>
            in (if has_flag (flags g) PRINT_LABELS_FLAG then clr_gflags g PRINT_LABELS_FLAG else g, s)
          else (g, s))"

definition pktgen_update_display :: "glob \<Rightarrow> glob" where
  "pktgen_update_display g = set_gflags (set_gflags g PRINT_LABELS_FLAG) UPDATE_DISPLAY_FLAG"

text \<open>The screen is paused while it is cleared and resumed before the page is shown.\<close>

definition pktgen_clear_display :: "glob \<Rightarrow> scrn \<Rightarrow> glob \<times> scrn" where
  "pktgen_clear_display g s =
    (if \<not> paused s then
       let s = s\<lparr>paused := True\<rparr>; g = pktgen_update_display g; s = s\<lparr>paused := False\<rparr>
       in pktgen_page_display g s
     else (g, s))"

definition pktgen_force_update :: "glob \<Rightarrow> scrn \<Rightarrow> glob \<times> scrn" where
  "pktgen_force_update g s =
    (let g = set_gflags g UPDATE_DISPLAY_FLAG
     in if \<not> paused s then pktgen_page_display g s else (g, s))"

section \<open>Page commands\<close>

definition pktgen_set_page_size :: "u32 \<Rightarrow> glob \<Rightarrow> scrn \<Rightarrow> glob \<times> scrn" where
  "pktgen_set_page_size page_size g s =
    (if page_size > 0 \<and> page_size \<le> ucast (nb_ports g) \<and> page_size \<le> 6 then
       let g = g\<lparr>nb_ports_per_page := ucast page_size\<rparr>;
           g = g\<lparr>ending_port := ucast (ucast (starting_port g) + page_size)\<rparr>;
           g = (if unat (ending_port g) \<ge> unat (starting_port g) + unat (nb_ports g)
                then g\<lparr>ending_port := ucast (ucast (starting_port g) + nb_ports g)\<rparr> else g)
       in pktgen_clear_display g s
     else (g, s))"

definition pktgen_set_port_number :: "u32 \<Rightarrow> glob \<Rightarrow> scrn \<Rightarrow> glob \<times> scrn" where
  "pktgen_set_port_number port_number g s =
    (if port_number \<le> ucast (nb_ports g)
     then pktgen_clear_display (g\<lparr>portNum := ucast port_number\<rparr>) s
     else (g, s))"

text \<open>\<open>atoi\<close> on a string that starts with a digit; an \<open>int\<close> overflow is undefined.\<close>

definition is_digit :: "char \<Rightarrow> bool" where
  "is_digit c \<longleftrightarrow> c \<in> set ''0123456789''"

definition atoi :: "string \<Rightarrow> nat option" where
  "atoi str =
    (let n = foldl (\<lambda>n c. 10 * n + (of_char c - 48)) 0 (takeWhile is_digit str)
     in if n < 2 ^ 31 then Some n else None)"

definition next_pcap_page :: "pcap_info \<Rightarrow> pcap_info" where
  "next_pcap_page pc = pc\<lparr>pcap_pkt_idx :=
     (if pcap_pkt_idx pc + PCAP_PAGE_SIZE < pcap_pkt_count pc then pcap_pkt_idx pc + PCAP_PAGE_SIZE else 0)\<rparr>"

definition on_pcap :: "(pcap_info \<Rightarrow> pcap_info) \<Rightarrow> glob \<Rightarrow> port_info list \<Rightarrow> port_info list option" where
  "on_pcap f g ports =
    (let k = unat (portNum g)
     in if k < length ports
        then Some (ports[k := (ports ! k)\<lparr>pcap := map_option f (pcap (ports ! k))\<rparr>]) else None)"

definition show_page :: "u32 \<Rightarrow> glob \<Rightarrow> glob" where
  "show_page f g = set_gflags (clr_gflags g PAGE_MASK_BITS) f"

definition port_page :: "u16 \<Rightarrow> glob \<Rightarrow> glob" where
  "port_page start_port g =
    (let g = (if ucast (starting_port g) \<noteq> start_port \<and> start_port < nb_ports g then
           let g = g\<lparr>starting_port := ucast start_port\<rparr>;
               g = g\<lparr>ending_port := ucast (start_port + ucast (nb_ports_per_page g))\<rparr>
           in if unat (ending_port g) > unat (starting_port g) + unat (nb_ports g)
              then g\<lparr>ending_port := ucast (ucast (starting_port g) + nb_ports g)\<rparr> else g
         else g)
     in if has_flag (flags g) PAGE_MASK_BITS
        then set_gflags (clr_gflags g PAGE_MASK_BITS) PRINT_LABELS_FLAG else g)"

text \<open>The name after \<open>page\<close>: the flag of the page it selects.\<close>

definition page_names :: "(string list \<times> u32) list" where
  "page_names =
    [([''cpu''], CPU_PAGE_FLAG), ([''pcap''], PCAP_PAGE_FLAG), ([''range''], RANGE_PAGE_FLAG),
     ([''config'', ''cfg''], CONFIG_PAGE_FLAG), ([''stats''], STATS_PAGE_FLAG),
     ([''sequence'', ''seq''], SEQUENCE_PAGE_FLAG), ([''random'', ''rnd''], RND_BITFIELD_PAGE_FLAG),
     ([''log''], LOG_PAGE_FLAG), ([''latency'', ''lat''], LATENCY_PAGE_FLAG)]"

definition page_flag :: "string \<Rightarrow> u32 option" where
  "page_flag str = map_option snd (List.find (\<lambda>(ns, f). str \<in> set ns) page_names)"

definition set_page_body ::
  "string \<Rightarrow> u16 \<Rightarrow> glob \<Rightarrow> port_info list \<Rightarrow> (glob \<times> port_info list) option" where
  "set_page_body str pg g ports =
    (if str = ''next'' then
       map_option (Pair (set_gflags g PRINT_LABELS_FLAG)) (on_pcap next_pcap_page g ports)
     else case page_flag str of
       Some f \<Rightarrow>
         let g = show_page f g
         in if str = ''pcap''
            then map_option (Pair g) (on_pcap (\<lambda>pc. pc\<lparr>pcap_pkt_idx := 0\<rparr>) g ports)
            else Some (g, ports)
     | None \<Rightarrow>
         let pg = (if str = ''main'' then 0 else pg)
         in Some (port_page (pg * ucast (nb_ports_per_page g)) g, ports))"

definition pktgen_set_page ::
  "string option \<Rightarrow> glob \<Rightarrow> port_info list \<Rightarrow> scrn \<Rightarrow> (glob \<times> port_info list \<times> scrn) option" where
  "pktgen_set_page arg g ports s =
    (case arg of None \<Rightarrow> Some (g, ports, s)
     | Some str \<Rightarrow> do {
         pg \<leftarrow> (if str \<noteq> [] \<and> is_digit (hd str) then map_option (\<lambda>n. word_of_nat n :: u16) (atoi str) else Some 0);
         if str \<noteq> [] \<and> is_digit (hd str) \<and> pg > nb_ports g then Some (g, ports, s)
         else do {
           (g, ports) \<leftarrow> set_page_body str pg g ports;
           let (g, s) = pktgen_clear_display g s;
           Some (g, ports, s) } })"

section \<open>One page at a time\<close>

interpretation prog_word: flag_word flags set_gflags clr_gflags
  by unfold_locales (simp_all add: set_gflags_def clr_gflags_def)

definition page_flags :: "u32 list" where
  "page_flags = [CONFIG_PAGE_FLAG, SEQUENCE_PAGE_FLAG, RANGE_PAGE_FLAG, PCAP_PAGE_FLAG, CPU_PAGE_FLAG,
     RND_BITFIELD_PAGE_FLAG, LOG_PAGE_FLAG, LATENCY_PAGE_FLAG, STATS_PAGE_FLAG]"

text \<open>At most one flag of a list is set in a word.\<close>

definition at_most_one :: "u32 list \<Rightarrow> u32 \<Rightarrow> bool" where
  "at_most_one fs w \<longleftrightarrow> (\<forall>f \<in> set fs. \<forall>h \<in> set fs. has_flag w f \<and> has_flag w h \<longrightarrow> f = h)"

lemma has_flag_sub: "f AND NOT grp = 0 \<Longrightarrow> has_flag w f \<Longrightarrow> has_flag w grp"
proof -
  assume "f AND NOT grp = 0" and w: "has_flag w f"
  then have "f = f AND grp" by (metis bit.conj_cancel_right bit.conj_disj_distrib bit.disj_cancel_right
      bit.disj_zero_right and.right_neutral)
  then have "w AND f = (w AND grp) AND f" by (metis and.assoc and.commute)
  then show ?thesis using w by (auto simp: has_flag_def)
qed

lemma page_flag_name:
  assumes "page_flag str = Some f"
  obtains ns where "(ns, f) \<in> set page_names" "str \<in> set ns"
proof -
  obtain ns where n: "List.find (\<lambda>(ns, f). str \<in> set ns) page_names = Some (ns, f)"
    using assms by (auto simp: page_flag_def)
  then obtain i where "i < length page_names" "page_names ! i = (ns, f)" "str \<in> set ns"
    by (auto simp: find_Some_iff)
  then show ?thesis using that [of ns] by (metis nth_mem)
qed

lemma page_flag_cases: "page_flag str = Some f \<Longrightarrow> f \<in> set page_flags"
  by (elim page_flag_name) (auto simp: page_names_def page_flags_def)

lemma page_flags_apart [simp]:
  "f \<in> set page_flags \<Longrightarrow> h \<in> set page_flags \<Longrightarrow> h \<noteq> f \<Longrightarrow> h AND f = 0"
  by (auto simp: page_flags_def page_flag_defs)

lemma page_flags_facts [simp]:
  assumes "f \<in> set page_flags"
  shows "f AND NOT PAGE_MASK_BITS = 0" "f \<noteq> 0" "f AND PRINT_LABELS_FLAG = 0"
    "f AND UPDATE_DISPLAY_FLAG = 0" "PRINT_LABELS_FLAG AND f = 0" "UPDATE_DISPLAY_FLAG AND f = 0"
  using assms by (auto simp: page_flags_def page_flag_defs PAGE_MASK_BITS_def PRINT_LABELS_FLAG_def
      UPDATE_DISPLAY_FLAG_def)

text \<open>The display leaves every flag alone but its own two.\<close>

lemma page_display_flags:
  assumes "PRINT_LABELS_FLAG AND m = 0" "UPDATE_DISPLAY_FLAG AND m = 0"
  shows "has_flag (flags (fst (pktgen_page_display g s))) m \<longleftrightarrow> has_flag (flags g) m"
  using assms
  by (auto simp: pktgen_page_display_def Let_def prog_word.clr_other split: if_splits prod.splits)

lemma clear_display_flags:
  assumes "PRINT_LABELS_FLAG AND m = 0" "UPDATE_DISPLAY_FLAG AND m = 0"
  shows "has_flag (flags (fst (pktgen_clear_display g s))) m \<longleftrightarrow> has_flag (flags g) m"
  using assms
  by (simp add: pktgen_clear_display_def Let_def page_display_flags pktgen_update_display_def
      prog_word.set_other)

lemma show_page_flags:
  assumes "f \<in> set page_flags" "h \<in> set page_flags"
  shows "has_flag (flags (show_page f g)) h \<longleftrightarrow> h = f"
proof (cases "h = f")
  case True
  then show ?thesis using prog_word.has_set [of f f] assms by (simp add: show_page_def)
next
  case False
  then have "h AND f = 0" using assms by simp
  then show ?thesis using prog_word.select_mode(2) [of f PAGE_MASK_BITS h g] assms False
    by (simp add: show_page_def)
qed

lemma port_page_flags:
  "h \<in> set page_flags \<Longrightarrow> \<not> has_flag (flags (port_page k g)) h"
  using has_flag_sub [of h PAGE_MASK_BITS]
  by (auto simp: port_page_def Let_def prog_word.set_other prog_word.not_has_clr)

text \<open>What a screen that is not paused shows after a command.\<close>

lemma clear_display_shows:
  assumes "\<not> paused s"
  shows "shown (snd (pktgen_clear_display g s)) =
      page_of (set_gflags g PRINT_LABELS_FLAG) # shown s"
    "\<not> has_flag (flags (fst (pktgen_clear_display g s))) PRINT_LABELS_FLAG"
    "\<not> has_flag (flags (fst (pktgen_clear_display g s))) UPDATE_DISPLAY_FLAG"
proof -
  let ?g = "set_gflags (set_gflags g PRINT_LABELS_FLAG) UPDATE_DISPLAY_FLAG"
  have u: "has_flag (flags ?g) UPDATE_DISPLAY_FLAG"
    by (rule prog_word.has_set) (simp add: UPDATE_DISPLAY_FLAG_def)
  have p: "has_flag (flags (clr_gflags ?g UPDATE_DISPLAY_FLAG)) PRINT_LABELS_FLAG"
    by (simp add: prog_word.clr_other prog_word.set_other prog_word.has_set PRINT_LABELS_FLAG_def
        UPDATE_DISPLAY_FLAG_def)
  have r: "pktgen_clear_display g s = (clr_gflags (clr_gflags ?g UPDATE_DISPLAY_FLAG) PRINT_LABELS_FLAG,
      s\<lparr>update_display := UPDATE_DISPLAY_TICK_INTERVAL, shown := page_of (clr_gflags ?g UPDATE_DISPLAY_FLAG) # shown s, paused := False\<rparr>)"
    using u p assms
    by (cases s) (simp add: pktgen_clear_display_def pktgen_update_display_def pktgen_page_display_def Let_def)
  have eq: "has_flag (flags (clr_gflags ?g UPDATE_DISPLAY_FLAG)) h \<longleftrightarrow> has_flag (flags (set_gflags g PRINT_LABELS_FLAG)) h"
    if "h \<in> set page_flags \<or> h = PRINT_LABELS_FLAG" for h
    using that
    by (auto simp: prog_word.clr_other prog_word.set_other)
      (auto simp: prog_word.clr_other prog_word.set_other PRINT_LABELS_FLAG_def UPDATE_DISPLAY_FLAG_def)
  then have "page_of (clr_gflags ?g UPDATE_DISPLAY_FLAG) = page_of (set_gflags g PRINT_LABELS_FLAG)"
    by (simp add: page_of_def page_flags_def set_gflags_def clr_gflags_def)
  then show "shown (snd (pktgen_clear_display g s)) = page_of (set_gflags g PRINT_LABELS_FLAG) # shown s"
    by (simp add: r)
  show "\<not> has_flag (flags (fst (pktgen_clear_display g s))) PRINT_LABELS_FLAG"
    by (simp add: r prog_word.not_has_clr)
  show "\<not> has_flag (flags (fst (pktgen_clear_display g s))) UPDATE_DISPLAY_FLAG"
    by (simp add: r prog_word.clr_other prog_word.not_has_clr PRINT_LABELS_FLAG_def UPDATE_DISPLAY_FLAG_def)
qed

section \<open>Selecting a page\<close>

text \<open>The page that each flag stands for.\<close>

definition page_for :: "u32 \<Rightarrow> u16 \<Rightarrow> page" where
  "page_for f n =
    (if f = CPU_PAGE_FLAG then CPU_page else if f = PCAP_PAGE_FLAG then PCAP_page n
     else if f = RANGE_PAGE_FLAG then Range_page else if f = CONFIG_PAGE_FLAG then Config_page
     else if f = SEQUENCE_PAGE_FLAG then Seq_page n else if f = RND_BITFIELD_PAGE_FLAG then Random_page True n
     else if f = LOG_PAGE_FLAG then Log_page True else if f = LATENCY_PAGE_FLAG then Latency_page
     else if f = STATS_PAGE_FLAG then Phys_stats_page else Stats_page)"

lemma page_of_labels:
  assumes "f \<in> set page_flags"
  shows "page_of (set_gflags (show_page f g) PRINT_LABELS_FLAG) = page_for f (portNum g)"
proof -
  let ?g = "set_gflags (show_page f g) PRINT_LABELS_FLAG"
  have f: "has_flag (flags ?g) h \<longleftrightarrow> f = h" if "h \<in> set page_flags" for h
    using that show_page_flags [OF assms that] by (simp add: prog_word.set_other eq_commute [of f])
  have fs: "has_flag (flags ?g) CPU_PAGE_FLAG \<longleftrightarrow> f = CPU_PAGE_FLAG"
    "has_flag (flags ?g) PCAP_PAGE_FLAG \<longleftrightarrow> f = PCAP_PAGE_FLAG"
    "has_flag (flags ?g) RANGE_PAGE_FLAG \<longleftrightarrow> f = RANGE_PAGE_FLAG"
    "has_flag (flags ?g) CONFIG_PAGE_FLAG \<longleftrightarrow> f = CONFIG_PAGE_FLAG"
    "has_flag (flags ?g) SEQUENCE_PAGE_FLAG \<longleftrightarrow> f = SEQUENCE_PAGE_FLAG"
    "has_flag (flags ?g) RND_BITFIELD_PAGE_FLAG \<longleftrightarrow> f = RND_BITFIELD_PAGE_FLAG"
    "has_flag (flags ?g) LOG_PAGE_FLAG \<longleftrightarrow> f = LOG_PAGE_FLAG"
    "has_flag (flags ?g) LATENCY_PAGE_FLAG \<longleftrightarrow> f = LATENCY_PAGE_FLAG"
    "has_flag (flags ?g) STATS_PAGE_FLAG \<longleftrightarrow> f = STATS_PAGE_FLAG"
    by (rule f, simp add: page_flags_def)+
  have p: "has_flag (flags ?g) PRINT_LABELS_FLAG"
    by (rule prog_word.has_set) (simp add: PRINT_LABELS_FLAG_def)
  have n: "portNum ?g = portNum g" by (simp add: show_page_def set_gflags_def clr_gflags_def)
  show ?thesis by (simp only: page_of_def page_for_def n fs p)
qed



section \<open>The window of ports\<close>

definition window_ok :: "glob \<Rightarrow> bool" where
  "window_ok g \<longleftrightarrow> unat (nb_ports g) < 256 \<and> unat (starting_port g) < unat (nb_ports g)"

lemma window_gflags [simp]:
  "window_ok (set_gflags g f) = window_ok g" "window_ok (clr_gflags g f) = window_ok g"
  by (simp_all add: window_ok_def set_gflags_def clr_gflags_def)

lemma window_display [simp]: "window_ok (fst (pktgen_page_display g s)) = window_ok g"
  by (simp add: pktgen_page_display_def Let_def split: prod.splits if_splits) 

lemma window_clear [simp]: "window_ok (fst (pktgen_clear_display g s)) = window_ok g"
  by (simp add: pktgen_clear_display_def pktgen_update_display_def Let_def)

lemma unat_ucast8_16 [simp]: "unat (ucast (w :: u8) :: u16) = unat w"
  using unat_less(1) [of w] by (simp add: unsigned_ucast_eq take_bit_nat_eq_self)

lemma window_port_page: "window_ok g \<Longrightarrow> window_ok (port_page k g)"
  by (auto simp: port_page_def Let_def window_ok_def set_gflags_def clr_gflags_def word_less_nat_alt
      unsigned_ucast_eq take_bit_eq_mod)

text \<open>No page command moves the window of ports out of range: the first port it shows stays
  below the number of ports.\<close>

theorem window_set_page:
  assumes "pktgen_set_page arg g ports s = Some (g', ports', s')" "window_ok g"
  shows "window_ok g'"
proof -
  have body: "window_ok g2" if "set_page_body str pg g ports = Some (g2, p2)" for str pg g2 p2
    using that assms(2)
    by (auto simp: set_page_body_def show_page_def window_port_page Let_def split: if_splits option.splits)
  from assms show ?thesis
    by (cases arg) (auto simp: pktgen_set_page_def bind_eq_Some_iff Let_def split_beta body split: if_splits)
qed

theorem window_set_page_witness:
  "window_ok (fst (the (pktgen_set_page (Some ''1'') sample_glob [sample_port]
    \<lparr>paused = True, update_display = 3, shown = []\<rparr>)))"
proof -
  let ?r = "pktgen_set_page (Some ''1'') sample_glob [sample_port] \<lparr>paused = True, update_display = 3, shown = []\<rparr>"
  have "page_flag ''1'' = None" by (simp add: page_flag_def page_names_def)
  then have "?r \<noteq> None"
    by (simp add: pktgen_set_page_def set_page_body_def is_digit_def atoi_def Let_def split_beta)
  then obtain g' p' s' where r: "?r = Some (g', p', s')" by (metis not_None_eq prod_cases3)
  have "window_ok sample_glob" by (simp add: window_ok_def sample_glob_def)
  from window_set_page [OF r this] show ?thesis using r by simp
qed

text \<open>A page number selects the ports that start at its multiple of the page size.\<close>

lemma port_page_start:
  assumes "unat pg * unat (nb_ports_per_page g) < unat (nb_ports g)" "unat (nb_ports g) < 256"
  shows "unat (starting_port (port_page (pg * ucast (nb_ports_per_page g)) g)) = unat pg * unat (nb_ports_per_page g)"
proof -
  let ?k = "pg * ucast (nb_ports_per_page g) :: u16"
  have k: "unat ?k = unat pg * unat (nb_ports_per_page g)"
    using assms by (simp add: unat_word_ariths unsigned_ucast_eq take_bit_eq_mod)
  show ?thesis
  proof (cases "ucast (starting_port g) = ?k")
    case True
    then have "unat (starting_port g) = unat ?k"
      by (metis unat_ucast8_16)
    then show ?thesis using k True by (simp add: port_page_def Let_def set_gflags_def clr_gflags_def)
  next
    case False
    then show ?thesis using k assms
      by (simp add: port_page_def Let_def set_gflags_def clr_gflags_def word_less_nat_alt unsigned_ucast_eq take_bit_eq_mod)
  qed
qed

text \<open>The last port of the window is not held below the number of ports: the bound that is
  tested is \<open>starting_port + nb_ports\<close>.\<close>

lemma port_page_past_end:
  assumes "0 < start" "start < 256 - unat pp" "start < unat (nb_ports g)" "unat (nb_ports g) < 256"
    and "nb_ports_per_page g = pp" "unat pp \<le> unat (nb_ports g)" "unat (starting_port g) \<noteq> start"
  shows "unat (ending_port (port_page (word_of_nat start) g)) = start + unat pp"
proof -
  have s: "unat (word_of_nat start :: u16) = start" using assms by (simp add: unat_of_nat)
  have ne: "ucast (starting_port g) \<noteq> (word_of_nat start :: u16)"
    using assms(7) s by (metis unat_ucast8_16)
  have sum: "unat (word_of_nat start + ucast pp :: u16) = start + unat pp"
    using assms s by (simp add: unat_word_ariths)
  have "word_of_nat start < nb_ports g" using assms(3) s by (simp add: word_less_nat_alt)
  moreover have "unat (ucast (word_of_nat start :: u16) :: u8) = start"
    using assms s by (simp add: unsigned_ucast_eq take_bit_nat_eq_self)
  moreover have "unat (ucast (word_of_nat start + ucast pp :: u16) :: u8) = start + unat pp"
    using assms sum by (simp add: unsigned_ucast_eq take_bit_nat_eq_self)
  moreover have "unat pp \<le> unat (nb_ports g)"
    by (rule assms(6))
  ultimately show ?thesis using ne assms(5)
    by (simp add: port_page_def Let_def set_gflags_def clr_gflags_def)
qed

lemma next_pcap_page_bound:
  assumes "0 < pcap_pkt_count pc"
  shows "pcap_pkt_idx (next_pcap_page pc) < pcap_pkt_count (next_pcap_page pc)"
  using assms by (simp add: next_pcap_page_def)

end
