(* ===== verification/RndBits.thy ===== *)
theory RndBits
  imports Samples
begin

text \<open>
  Random bit fields (\<open>app/pktgen-random.c\<close>, \<open>lib/common/xorshift64star.h\<close>): a
  specification is an offset into the packet and a template of up to 32 characters, of which
  \<open>0\<close> and \<open>1\<close> force a bit, \<open>X\<close> draws it and \<open>.\<close> keeps it.  The
  template is compiled to three masks, the masks are applied to the packets before they are
  sent, and the page of the console prints the template back from the masks.  A string is the
  list of the characters before its NUL.
\<close>

section \<open>The generator\<close>

text \<open>The value returned and the new \<open>xor_state[0]\<close>.\<close>

definition xorshift64star :: "u64 \<Rightarrow> u64 \<times> u64" where
  "xorshift64star s = (let x = s XOR drop_bit 12 s; x = x XOR push_bit 25 x; x = x XOR drop_bit 27 x
     in (x * 0x2545F4914F6CDD1D, x))"

definition pktgen_default_rnd_func :: "u64 \<Rightarrow> u32 \<times> u64" where
  "pktgen_default_rnd_func s = (case xorshift64star s of (x, s) \<Rightarrow> (ucast x, s))"

text \<open>Seeding: \<open>dev\<close> is None when \<open>/dev/urandom\<close> cannot be opened, \<open>Some None\<close>
  when it gives too little and \<open>Some (Some w)\<close> when \<open>fread\<close> stores \<open>w\<close> and returns 1,
  the number of items asked for.\<close>

datatype rnd_init = No_device | Read_error | Seeded

definition pktgen_init_default_rnd :: "u64 option option \<Rightarrow> u64 \<Rightarrow> u64 \<times> rnd_init" where
  "pktgen_init_default_rnd dev s = (case dev of None \<Rightarrow> (s, No_device)
     | Some r \<Rightarrow> (let (n, s) = (case r of None \<Rightarrow> (0 :: nat, s) | Some w \<Rightarrow> (1, w))
         in if n \<noteq> 2 then (s, Read_error) else (s, Seeded)))"

section \<open>Specifications\<close>

text \<open>One character of the template: the masks for forced zeros, forced ones and random bits.\<close>

definition mask_char :: "char \<Rightarrow> u32 \<times> u32 \<times> u32 \<Rightarrow> (u32 \<times> u32 \<times> u32) option" where
  "mask_char c t = (case t of (m0, m1, mr) \<Rightarrow>
     let m0 = push_bit 1 m0; m1 = push_bit 1 m1; mr = push_bit 1 mr in
     if c = CHR ''0'' then Some (m0 + 1, m1, mr)
     else if c = CHR ''1'' then Some (m0, m1 + 1, mr)
     else if c = CHR ''.'' then Some (m0, m1, mr)
     else if c = CHR ''x'' \<or> c = CHR ''X'' then Some (m0, m1, mr + 1)
     else None)"

fun parse_mask :: "string \<Rightarrow> u32 \<times> u32 \<times> u32 \<Rightarrow> (u32 \<times> u32 \<times> u32) option" where
  "parse_mask [] t = Some t"
| "parse_mask (c # cs) t = (case mask_char c t of None \<Rightarrow> None | Some t \<Rightarrow> parse_mask cs t)"

definition pktgen_set_random_bitfield ::
    "rnd_bits \<Rightarrow> u8 \<Rightarrow> u8 \<Rightarrow> string \<Rightarrow> u32 \<times> rnd_bits" where
  "pktgen_set_random_bitfield rb idx off cs =
    (if MAX_RND_BITFIELDS \<le> unat idx then (active_specs rb, rb)
     else if length cs > 32 then (active_specs rb, rb)
     else if length cs = 0 then
       (let rb = rb\<lparr>active_specs := active_specs rb AND NOT (push_bit (unat idx) 1)\<rparr>
        in (active_specs rb, rb))
     else case parse_mask cs (0, 0, 0) of None \<Rightarrow> (active_specs rb, rb)
     | Some (mask0, mask1, maskRnd) \<Rightarrow>
       (let pad_len = 32 - length cs;
            mask0 = push_bit pad_len mask0; mask1 = push_bit pad_len mask1;
            maskRnd = push_bit pad_len maskRnd;
            rb = rb\<lparr>active_specs := active_specs rb OR push_bit (unat idx) 1,
              specs := (specs rb)[unat idx := \<lparr>offset = off, andMask = htonl (NOT (mask0 OR maskRnd)),
                orMask = htonl mask1, rndMask = htonl maskRnd\<rparr>]\<rparr>
        in (active_specs rb, rb)))"

definition zero_spec :: bf_spec where
  "zero_spec = \<lparr>offset = 0, andMask = 0, orMask = 0, rndMask = 0\<rparr>"

text \<open>\<open>rte_zmalloc_socket\<close> gives zeroed memory; then the loop over the specifications.\<close>

fun init_specs :: "nat list \<Rightarrow> rnd_bits \<Rightarrow> rnd_bits" where
  "init_specs [] rb = rb"
| "init_specs (k # ks) rb =
    (let rb = snd (pktgen_set_random_bitfield rb (word_of_nat k) 0 (replicate 32 (CHR ''?'')));
         rb = snd (pktgen_set_random_bitfield rb (word_of_nat k) 0 [])
     in init_specs ks rb)"

definition pktgen_rnd_bits_init :: "u64 option option \<Rightarrow> u64 \<Rightarrow> rnd_bits \<times> u64 \<times> rnd_init" where
  "pktgen_rnd_bits_init dev s =
    (init_specs [0..<MAX_RND_BITFIELDS]
       \<lparr>active_specs = 0, specs = replicate MAX_RND_BITFIELDS zero_spec\<rparr>,
     pktgen_init_default_rnd dev s)"

section \<open>Application to packets\<close>

definition apply_spec :: "bf_spec \<Rightarrow> mem \<Rightarrow> u64 \<Rightarrow> (mem \<times> u64) option" where
  "apply_spec sp m s = do {
     let off = unat (offset sp);
     v \<leftarrow> ld32 off m; m \<leftarrow> st32 off (v AND andMask sp) m;
     v \<leftarrow> ld32 off m; m \<leftarrow> st32 off (v OR orMask sp) m;
     if rndMask sp \<noteq> 0 then do {
       let (rnd_value, s) = pktgen_default_rnd_func s;
       v \<leftarrow> ld32 off m; m \<leftarrow> st32 off (v OR (rnd_value AND rndMask sp)) m;
       Some (m, s) }
     else Some (m, s) }"

lemma drop_bit_less: "w \<noteq> 0 \<Longrightarrow> unat (drop_bit (Suc 0) w) < unat (w :: u32)"
  by (simp add: drop_bit_Suc unat_div word_neq_0_conv [symmetric] flip: unat_gt_0)

text \<open>The inner loop, from specification \<open>k\<close> on.\<close>

function apply_specs :: "nat \<Rightarrow> u32 \<Rightarrow> bf_spec list \<Rightarrow> mem \<Rightarrow> u64 \<Rightarrow> (mem \<times> u64) option" where
  "apply_specs k active sps m s =
    (if active = 0 then Some (m, s)
     else case (if active AND 1 \<noteq> 0
                then if k < length sps then apply_spec (sps ! k) m s else None
                else Some (m, s)) of
       None \<Rightarrow> None
     | Some (m, s) \<Rightarrow> apply_specs (k + 1) (drop_bit 1 active) sps m s)"
  by pat_completeness auto

termination by (relation "measure (\<lambda>(k, active, sps, m, s). unat active)") (auto simp: drop_bit_less)

declare apply_specs.simps [simp del]

fun apply_pkts :: "rnd_bits \<Rightarrow> mem list \<Rightarrow> u64 \<Rightarrow> (mem list \<times> u64) option" where
  "apply_pkts rb [] s = Some ([], s)"
| "apply_pkts rb (m # ms) s = do {
     (m, s) \<leftarrow> apply_specs 0 (active_specs rb) (specs rb) m s;
     (ms, s) \<leftarrow> apply_pkts rb ms s;
     Some (m # ms, s) }"

text \<open>\<open>rbits\<close> is None for the NULL pointer, which selects the fields of the port.\<close>

definition pktgen_rnd_bits_apply ::
    "port_info \<Rightarrow> mem list \<Rightarrow> rnd_bits option \<Rightarrow> u64 \<Rightarrow> (mem list \<times> u64) option" where
  "pktgen_rnd_bits_apply i pkts rbits s =
    (case (case rbits of Some rb \<Rightarrow> Some rb | None \<Rightarrow> rnd_bitfields i) of
       None \<Rightarrow> None
     | Some rb \<Rightarrow> if active_specs rb = 0 then Some (pkts, s) else apply_pkts rb pkts s)"

section \<open>The page\<close>

text \<open>The 35 characters printed for a specification.\<close>

definition mask_text_char :: "bf_spec \<Rightarrow> nat \<Rightarrow> char" where
  "mask_text_char sp i = (let curr_bit = push_bit (32 - i - 1) (1 :: u32) in
     if ntohl (rndMask sp) AND curr_bit \<noteq> 0 then CHR ''X''
     else if ntohl (andMask sp) AND curr_bit = 0 then CHR ''0''
     else if ntohl (orMask sp) AND curr_bit \<noteq> 0 then CHR ''1'' else CHR ''.'')"

definition mask_text :: "bf_spec \<Rightarrow> string" where
  "mask_text sp =
     fold (\<lambda>i t. t[i + drop_bit 3 i := mask_text_char sp i]) [0..<32] (replicate 35 (CHR '' ''))"

definition pktgen_page_random_bitfields :: "rnd_bits \<Rightarrow> (nat \<times> u8 \<times> bool \<times> string) list" where
  "pktgen_page_random_bitfields rb =
     map (\<lambda>k. (k, offset (specs rb ! k), active_specs rb AND push_bit k 1 \<noteq> 0, mask_text (specs rb ! k)))
       [0..<MAX_RND_BITFIELDS]"

section \<open>Facts about the masks\<close>

text \<open>A mask of the template: bit \<open>j\<close> from the top tells whether character \<open>j\<close> satisfies
  the predicate.\<close>

definition chars_mask :: "(char \<Rightarrow> bool) \<Rightarrow> string \<Rightarrow> u32" where
  "chars_mask p cs = horner_sum of_bool 2 (map p (rev cs))"

definition mask_chars :: "char set" where
  "mask_chars = {CHR ''0'', CHR ''1'', CHR ''.'', CHR ''x'', CHR ''X''}"

abbreviation is_x :: "char \<Rightarrow> bool" where "is_x c \<equiv> c = CHR ''x'' \<or> c = CHR ''X''"

lemma chars_mask_snoc:
  "chars_mask p (cs @ [c]) = (if p c then push_bit 1 (chars_mask p cs) + 1 else push_bit 1 (chars_mask p cs))"
  by (simp add: chars_mask_def push_bit_eq_mult)

lemma parse_mask_append:
  "parse_mask (as @ bs) t = (case parse_mask as t of None \<Rightarrow> None | Some t \<Rightarrow> parse_mask bs t)"
  by (induction as arbitrary: t) (auto split: option.split)

lemma parse_mask_valid:
  assumes "set cs \<subseteq> mask_chars"
  shows "parse_mask cs (0, 0, 0) = Some (chars_mask ((=) (CHR ''0'')) cs, chars_mask ((=) (CHR ''1'')) cs,
    chars_mask is_x cs)"
  using assms
proof (induction cs rule: rev_induct)
  case Nil
  show ?case by (simp add: chars_mask_def)
next
  case (snoc c cs)
  then have "c \<in> mask_chars" by simp
  with snoc show ?case
    by (auto simp: parse_mask_append chars_mask_snoc mask_char_def mask_chars_def Let_def)
qed

lemma mask_char_None: "mask_char c t = None \<longleftrightarrow> c \<notin> mask_chars"
  by (cases t) (auto simp: mask_char_def mask_chars_def Let_def)

lemma parse_mask_invalid: "\<not> set cs \<subseteq> mask_chars \<Longrightarrow> parse_mask cs t = None"
proof (induction cs arbitrary: t)
  case (Cons c cs)
  then show ?case by (cases "c \<in> mask_chars") (auto simp: mask_char_None [THEN iffD2] split: option.split)
qed simp

lemma bit_chars_mask:
  assumes "length cs \<le> 32" "j < 32"
  shows "bit (push_bit (32 - length cs) (chars_mask p cs)) (31 - j) \<longleftrightarrow> j < length cs \<and> p (cs ! j)"
proof -
  have "31 - j - (32 - length cs) < length cs \<and> 32 - length cs \<le> 31 - j \<longleftrightarrow> j < length cs"
    using assms by auto
  moreover have "rev cs ! (31 - j - (32 - length cs)) = cs ! j" if "j < length cs"
    using assms that by (simp add: rev_nth)
  ultimately show ?thesis
    using assms by (auto simp: chars_mask_def bit_push_bit_iff bit_horner_sum_bit_word_iff)
qed

lemma bswap32_0 [simp]: "bswap32 0 = 0"
  by (simp add: bswap32_def)

lemma bswap32_eq_0 [simp]: "bswap32 w = 0 \<longleftrightarrow> w = 0"
proof
  assume "bswap32 w = 0"
  then have "bswap32 (bswap32 w) = bswap32 0" by (rule arg_cong)
  then show "w = 0" by simp
qed simp

text \<open>Bit \<open>j\<close> of the field at an offset, in the order of the wire.\<close>

definition wire_bit :: "nat \<Rightarrow> mem \<Rightarrow> nat \<Rightarrow> bool" where
  "wire_bit off m j = bit (m ! (off + j div 8)) (7 - j mod 8)"

lemma bit_mk32:
  "n < 32 \<Longrightarrow> bit (mk32 a b c d) n =
    (if n < 8 then bit a n else if n < 16 then bit b (n - 8) else if n < 24 then bit c (n - 16) else bit d (n - 24))"
  by (auto simp: mk32_def bit_simps dest: bit_imp_le_length)

lemma wire_bit_ld32:
  assumes "ld32 off m = Some v" "j < 32"
  shows "bit (ntohl v) (31 - j) = wire_bit off m j"
proof -
  have v: "v = mk32 (m ! off) (m ! (off + 1)) (m ! (off + 2)) (m ! (off + 3))"
    using assms(1) by (auto simp: ld32_def split: if_splits)
  consider "j < 8" | "8 \<le> j" "j < 16" | "16 \<le> j" "j < 24" | "24 \<le> j" using assms(2) by linarith
  then show ?thesis
  proof cases
    case 1
    then have "j div 8 = 0" "j mod 8 = j" "7 - j < 8" "\<not> 31 - j < 24" "31 - j < 32" by simp_all
    with 1 show ?thesis unfolding v wire_bit_def by (simp add: bit_bswap32 bit_mk32)
  next
    case 2
    then have "j div 8 = 1" "j mod 8 = j - 8" by (simp_all add: div_if mod_if)
    with 2 show ?thesis unfolding v wire_bit_def by (auto simp: bit_bswap32 bit_mk32)
  next
    case 3
    then have small: "j - 16 < 8" "\<not> j - 8 < 8" by linarith+
    from 3 have "j div 8 = 2" by linarith
    moreover from 3 small have "j mod 8 = j - 16" by (simp add: mod_if)
    moreover note 3 small
    ultimately show ?thesis unfolding v wire_bit_def by (auto simp: bit_bswap32 bit_mk32)
  next
    case 4
    with assms(2) have small: "j - 24 < 8" "\<not> j - 16 < 8" "\<not> j - 8 < 8" by linarith+
    from 4 assms(2) have "j div 8 = 3" by linarith
    moreover from 4 small have "j mod 8 = j - 24" by (simp add: mod_if)
    moreover note 4 assms(2) small
    ultimately show ?thesis unfolding v wire_bit_def by (auto simp: bit_bswap32 bit_mk32)
  qed
qed

lemma ntohl_AND: "ntohl (a AND b) = ntohl a AND ntohl b"
  and ntohl_OR: "ntohl (a OR b) = ntohl a OR ntohl b"
  by (rule bit_word_eqI; auto simp: bit_bswap32 bit_simps)+

text \<open>The specification that a valid template compiles to.\<close>

definition spec_of :: "u8 \<Rightarrow> string \<Rightarrow> bf_spec" where
  "spec_of off cs = (let pad = push_bit (32 - length cs);
       m0 = pad (chars_mask ((=) (CHR ''0'')) cs); m1 = pad (chars_mask ((=) (CHR ''1'')) cs);
       mr = pad (chars_mask is_x cs)
     in \<lparr>offset = off, andMask = htonl (NOT (m0 OR mr)), orMask = htonl m1, rndMask = htonl mr\<rparr>)"

definition good_mask :: "string \<Rightarrow> bool" where
  "good_mask cs \<longleftrightarrow> cs \<noteq> [] \<and> length cs \<le> 32 \<and> set cs \<subseteq> mask_chars"

lemma set_random_bitfield_good:
  assumes "unat idx < 32" "good_mask cs"
  shows "snd (pktgen_set_random_bitfield rb idx off cs) =
    rb\<lparr>active_specs := active_specs rb OR push_bit (unat idx) 1, specs := (specs rb)[unat idx := spec_of off cs]\<rparr>"
  using assms
  by (simp add: pktgen_set_random_bitfield_def good_mask_def MAX_RND_BITFIELDS_def parse_mask_valid
      spec_of_def Let_def)

lemma set_random_bitfield_rejects:
  assumes "32 \<le> unat idx \<or> 32 < length cs \<or> \<not> set cs \<subseteq> mask_chars"
  shows "pktgen_set_random_bitfield rb idx off cs = (active_specs rb, rb)"
  using assms by (cases "set cs \<subseteq> mask_chars")
    (auto simp: pktgen_set_random_bitfield_def MAX_RND_BITFIELDS_def parse_mask_invalid)

lemma spec_of_bits:
  assumes "good_mask cs" "j < 32"
  shows "bit (ntohl (andMask (spec_of off cs))) (31 - j) \<longleftrightarrow> \<not> (j < length cs \<and> (cs ! j = CHR ''0'' \<or> is_x (cs ! j)))"
    and "bit (ntohl (orMask (spec_of off cs))) (31 - j) \<longleftrightarrow> j < length cs \<and> cs ! j = CHR ''1''"
    and "bit (ntohl (rndMask (spec_of off cs))) (31 - j) \<longleftrightarrow> j < length cs \<and> is_x (cs ! j)"
  using assms by (auto simp: good_mask_def spec_of_def Let_def bit_chars_mask bit_not_iff bit_or_iff
      bit_and_iff)

lemma rnd_mask_zero:
  assumes good: "good_mask cs"
  shows "rndMask (spec_of off cs) \<noteq> 0 \<longleftrightarrow> (\<exists>c \<in> set cs. is_x c)"
proof
  let ?r = "ntohl (rndMask (spec_of off cs))"
  assume "rndMask (spec_of off cs) \<noteq> 0"
  then have "?r \<noteq> 0" by simp
  then obtain n where "bit ?r n" using bit_eq_iff [of ?r 0] by auto
  with bit_imp_le_length have n: "n < 32" "bit ?r n" by fastforce+
  with spec_of_bits(3) [OF good, of "31 - n" off] have "31 - n < length cs" "is_x (cs ! (31 - n))"
    by simp_all
  then show "\<exists>c \<in> set cs. is_x c" by (intro bexI [of _ "cs ! (31 - n)"]) simp_all
next
  let ?r = "ntohl (rndMask (spec_of off cs))"
  assume "\<exists>c \<in> set cs. is_x c"
  then obtain j where j: "j < length cs" "is_x (cs ! j)" by (metis in_set_conv_nth)
  moreover from j good have "j < 32" by (simp add: good_mask_def)
  ultimately have "bit ?r (31 - j)" by (simp only: spec_of_bits(3) [OF good])
  then have "?r \<noteq> 0" by (metis bit_0_eq bot_apply bot_bool_def)
  then show "rndMask (spec_of off cs) \<noteq> 0" by simp
qed

lemma offset_spec_of [simp]: "offset (spec_of off cs) = off"
  by (simp add: spec_of_def Let_def)

section \<open>What an application does\<close>

lemma ld32_total: "off + 4 \<le> length m \<Longrightarrow> \<exists>v. ld32 off m = Some v"
  by (simp add: ld32_def)

lemma st32_put: "off + 4 \<le> length m \<Longrightarrow> st32 off w m = Some (put off (le32 w) m)"
  by (simp add: st32_def wr_def)

lemma ld32_put: "off + 4 \<le> length m \<Longrightarrow> ld32 off (put off (le32 w) m) = Some w"
  using ld32_st32 [of off w m "put off (le32 w) m"] by (simp add: st32_put)

text \<open>A specification is one read-modify-write of the field.\<close>

definition merged :: "bf_spec \<Rightarrow> u32 \<Rightarrow> u32 \<Rightarrow> u32" where
  "merged sp x v = ((v AND andMask sp) OR orMask sp) OR (x AND rndMask sp)"

definition drawn :: "bf_spec \<Rightarrow> u64 \<Rightarrow> u64" where
  "drawn sp s = (if rndMask sp \<noteq> 0 then snd (pktgen_default_rnd_func s) else s)"

lemma apply_spec_eq:
  assumes "unat (offset sp) + 4 \<le> length m" "ld32 (unat (offset sp)) m = Some v"
  shows "apply_spec sp m s = Some (put (unat (offset sp))
    (le32 (merged sp (fst (pktgen_default_rnd_func s)) v)) m, drawn sp s)"
  using assms
  by (simp add: apply_spec_def st32_put ld32_put put_put_same merged_def drawn_def Let_def
      split: prod.split)

lemma apply_spec_total:
  assumes "unat (offset sp) + 4 \<le> length m"
  obtains m' where "apply_spec sp m s = Some (m', drawn sp s)" "length m' = length m"
    "\<forall>k < length m. k < unat (offset sp) \<or> unat (offset sp) + 4 \<le> k \<longrightarrow> m' ! k = m ! k"
proof -
  obtain v where "ld32 (unat (offset sp)) m = Some v" using ld32_total [OF assms] ..
  from apply_spec_eq [OF assms this] that show ?thesis using assms by (auto simp: nth_put)
qed

lemma bit_merged:
  assumes "good_mask cs" "j < 32"
  shows "bit (ntohl (merged (spec_of off cs) x v)) (31 - j) \<longleftrightarrow>
    (if j < length cs \<and> is_x (cs ! j) then bit (ntohl x) (31 - j)
     else if j < length cs \<and> cs ! j \<noteq> CHR ''.'' then cs ! j = CHR ''1''
     else bit (ntohl v) (31 - j))"
proof -
  have "cs ! j \<in> mask_chars" if "j < length cs" using assms(1) that by (auto simp: good_mask_def)
  with assms show ?thesis
    by (auto simp: merged_def ntohl_OR ntohl_AND bit_or_iff bit_and_iff spec_of_bits mask_chars_def)
qed

lemma apply_specs_0 [simp]: "apply_specs k 0 sps m s = Some (m, s)"
  by (subst apply_specs.simps) simp

lemma drop_push_one: "drop_bit (Suc 0) (push_bit (Suc n) (1 :: u32)) = push_bit n 1" if "Suc n < 32"
  using that by (intro bit_word_eqI) (auto simp: bit_simps)

text \<open>With one bit set in the vector the loop applies that specification.\<close>

lemma apply_specs_single:
  "n < 32 \<Longrightarrow> k + n < length sps \<Longrightarrow> apply_specs k (push_bit n 1) sps m s = apply_spec (sps ! (k + n)) m s"
proof (induction n arbitrary: k)
  case 0
  then show ?case by (subst apply_specs.simps) (auto split: option.split)
next
  case (Suc n)
  have nz: "push_bit (Suc n) (1 :: u32) \<noteq> 0"
  proof
    have "bit (push_bit (Suc n) (1 :: u32)) (Suc n)"
      unfolding bit_push_bit_iff using Suc.prems(1) by simp
    moreover assume "push_bit (Suc n) (1 :: u32) = 0"
    ultimately show False by (simp only: bit_0_eq bot_apply bot_bool_def)
  qed
  have "push_bit (Suc n) (1 :: u32) AND 1 = 0"
    by (simp add: and_one_eq flip: push_bit_Suc) (simp add: push_bit_Suc flip: even_iff_mod_2_eq_zero)
  with nz show ?case using Suc drop_push_one [of n]
    by (subst apply_specs.simps) (simp del: push_bit_Suc)
qed

lemma length_put_field [simp]: "off + 4 \<le> length m \<Longrightarrow> length (put off (le32 w) m) = length m"
  by (simp add: length_put)

lemma wire_bit_put:
  "off + 4 \<le> length m \<Longrightarrow> j < 32 \<Longrightarrow> wire_bit off (put off (le32 w) m) j = bit (ntohl w) (31 - j)"
  by (rule wire_bit_ld32 [symmetric]) (simp_all add: ld32_put)

definition one_spec :: "rnd_bits" where
  "one_spec = \<lparr>active_specs = 0, specs = replicate 32 zero_spec\<rparr>"

lemma apply_one_spec:
  assumes "unat idx < 32" "good_mask cs" "active_specs rb = 0" "length (specs rb) = 32"
  shows "pktgen_rnd_bits_apply i [m] (Some (snd (pktgen_set_random_bitfield rb idx off cs))) s =
    map_option (\<lambda>(m, s). ([m], s)) (apply_spec (spec_of off cs) m s)"
proof -
  have "push_bit (unat idx) (1 :: u32) \<noteq> 0"
  proof
    have "bit (push_bit (unat idx) (1 :: u32)) (unat idx)"
      unfolding bit_push_bit_iff using assms(1) by simp
    moreover assume "push_bit (unat idx) (1 :: u32) = 0"
    ultimately show False by (simp only: bit_0_eq bot_apply bot_bool_def)
  qed
  with assms show ?thesis
    by (cases "apply_spec (spec_of off cs) m s")
      (auto simp: set_random_bitfield_good pktgen_rnd_bits_apply_def apply_specs_single [where k = 0, simplified])
qed

text \<open>C26 A template is obeyed on the wire: after it is set on a port without other active
  specifications, the packet that is sent has, in the 32 bits at the offset, the forced bits of
  the template, a bit of the generator's next value for every \<open>X\<close>, and its own bits where
  the template has a dot or has ended; every byte outside the field is kept, and the generator
  advances only when the template draws.\<close>

theorem random_bitfield_obeyed:
  assumes "unat idx < 32" "good_mask cs" "active_specs rb = 0" "length (specs rb) = 32"
    and "unat off + 4 \<le> length m"
  shows "\<exists>m'. pktgen_rnd_bits_apply i [m] (Some (snd (pktgen_set_random_bitfield rb idx off cs))) s =
      Some ([m'], if \<exists>c \<in> set cs. c = CHR ''x'' \<or> c = CHR ''X'' then snd (pktgen_default_rnd_func s) else s)
    \<and> length m' = length m
    \<and> (\<forall>j < 32. wire_bit (unat off) m' j =
        (if j < length cs \<and> (cs ! j = CHR ''x'' \<or> cs ! j = CHR ''X'')
         then bit (ntohl (fst (pktgen_default_rnd_func s))) (31 - j)
         else if j < length cs \<and> cs ! j \<noteq> CHR ''.'' then cs ! j = CHR ''1''
         else wire_bit (unat off) m j))
    \<and> (\<forall>k < length m. k < unat off \<or> unat off + 4 \<le> k \<longrightarrow> m' ! k = m ! k)"
proof -
  let ?sp = "spec_of off cs" and ?x = "fst (pktgen_default_rnd_func s)"
  obtain v where v: "ld32 (unat off) m = Some v" using ld32_total [OF assms(5)] ..
  let ?m = "put (unat off) (le32 (merged ?sp ?x v)) m"
  have "pktgen_rnd_bits_apply i [m] (Some (snd (pktgen_set_random_bitfield rb idx off cs))) s =
      Some ([?m], drawn ?sp s)"
    using apply_spec_eq [of ?sp m v s] v assms(5) by (simp add: apply_one_spec [OF assms(1-4)])
  moreover have "drawn ?sp s = (if \<exists>c \<in> set cs. is_x c then snd (pktgen_default_rnd_func s) else s)"
    using rnd_mask_zero [OF assms(2), of off] by (simp add: drawn_def)
  moreover have "wire_bit (unat off) ?m j =
        (if j < length cs \<and> is_x (cs ! j) then bit (ntohl ?x) (31 - j)
         else if j < length cs \<and> cs ! j \<noteq> CHR ''.'' then cs ! j = CHR ''1''
         else wire_bit (unat off) m j)" if "j < 32" for j
    using that assms(5) by (auto simp: wire_bit_put bit_merged [OF assms(2) that] wire_bit_ld32 [OF v that])
  moreover have "\<forall>k < length m. k < unat off \<or> unat off + 4 \<le> k \<longrightarrow> ?m ! k = m ! k"
    using assms(5) by (auto simp: nth_put)
  ultimately show ?thesis using assms(5) by (intro exI [of _ ?m]) simp
qed

theorem random_bitfield_obeyed_witness:
  "\<exists>m'. pktgen_rnd_bits_apply sample_port [replicate 64 0]
      (Some (snd (pktgen_set_random_bitfield one_spec 3 26 ''01X1....''))) 7 =
      Some ([m'], snd (pktgen_default_rnd_func 7)) \<and> wire_bit 26 m' 3"
proof -
  have good: "good_mask ''01X1....''" by (simp add: good_mask_def mask_chars_def)
  have "\<exists>m'. pktgen_rnd_bits_apply sample_port [replicate 64 0]
      (Some (snd (pktgen_set_random_bitfield one_spec 3 26 ''01X1....''))) 7 = Some ([m'], snd (pktgen_default_rnd_func 7))
    \<and> (\<forall>j < 32. wire_bit 26 m' j = (if j < 8 \<and> is_x (''01X1....'' ! j) then bit (ntohl (fst (pktgen_default_rnd_func 7))) (31 - j)
         else if j < 8 \<and> ''01X1....'' ! j \<noteq> CHR ''.'' then ''01X1....'' ! j = CHR ''1''
         else wire_bit 26 (replicate 64 0) j))"
    using random_bitfield_obeyed [of 3 "''01X1....''" one_spec 26 "replicate 64 0" sample_port 7] good
    by (auto simp: one_spec_def)
  then show ?thesis by (auto simp: dest!: spec [of _ 3])
qed

section \<open>The template and its display\<close>

text \<open>What the page shows for a template: every character, an \<open>X\<close> for an \<open>x\<close>, dots
  after its end, and a space after every eighth character.\<close>

definition canon :: "char \<Rightarrow> char" where
  "canon c = (if c = CHR ''x'' then CHR ''X'' else c)"

definition padded :: "string \<Rightarrow> string" where
  "padded cs = map canon cs @ replicate (32 - length cs) (CHR ''.'')"

definition grouped :: "string \<Rightarrow> string" where
  "grouped t = take 8 t @ '' '' @ take 8 (drop 8 t) @ '' '' @ take 8 (drop 16 t) @ '' '' @ take 8 (drop 24 t)"

lemma and_bit_eq_0: "w AND push_bit n (1 :: u32) = 0 \<longleftrightarrow> \<not> bit w n" if "n < 32"
  using that by (simp add: and_exp_eq_0_iff_not_bit push_bit_eq_mult)

lemma mask_text_char_bits:
  assumes "j < 32"
  shows "mask_text_char sp j = (if bit (ntohl (rndMask sp)) (31 - j) then CHR ''X''
     else if \<not> bit (ntohl (andMask sp)) (31 - j) then CHR ''0''
     else if bit (ntohl (orMask sp)) (31 - j) then CHR ''1'' else CHR ''.'')"
proof -
  have "32 - j - 1 = 31 - j" "31 - j < 32" using assms by simp_all
  then show ?thesis unfolding mask_text_char_def Let_def by (simp only: and_bit_eq_0 not_not)
qed

lemma mask_text_char_eq:
  assumes good: "good_mask cs" and j: "j < 32"
  shows "mask_text_char (spec_of off cs) j = padded cs ! j"
proof (cases "j < length cs")
  case True
  then have "cs ! j \<in> mask_chars" using good by (auto simp: good_mask_def)
  with True show ?thesis
    unfolding mask_text_char_bits [OF j] spec_of_bits [OF good j]
    by (auto simp: padded_def canon_def nth_append mask_chars_def)
next
  case False
  moreover have "length cs \<le> 32" using good by (simp add: good_mask_def)
  ultimately show ?thesis
    unfolding mask_text_char_bits [OF j] spec_of_bits [OF good j] using j
    by (simp add: padded_def nth_append)
qed

lemma mask_text_grouped: "mask_text sp = grouped (map (mask_text_char sp) [0..<32])"
proof -
  have "fold (\<lambda>i t. t[i + drop_bit 3 i := f i]) [0..<32] (replicate 35 (CHR '' '')) = grouped (map f [0..<32])"
    for f by code_simp
  then show ?thesis by (simp add: mask_text_def)
qed

text \<open>C39 The page prints a template back: after a valid template is set, the row of the page
  with its index shows its offset, that it is active, and the template itself, padded with dots to
  32 characters and grouped by eights.\<close>

theorem random_page_roundtrip:
  assumes "unat idx < 32" "good_mask cs" "length (specs rb) = 32"
  shows "pktgen_page_random_bitfields (snd (pktgen_set_random_bitfield rb idx off cs)) ! unat idx =
    (unat idx, off, True, grouped (padded cs))"
proof -
  have "map (mask_text_char (spec_of off cs)) [0..<32] = padded cs"
    using assms(2) by (intro nth_equalityI) (auto simp: mask_text_char_eq padded_def good_mask_def)
  then have "mask_text (spec_of off cs) = grouped (padded cs)" by (simp add: mask_text_grouped)
  moreover have "bit (push_bit (unat idx) (1 :: u32)) (unat idx)"
    unfolding bit_push_bit_iff using assms(1) by simp
  then have "bit (active_specs rb OR push_bit (unat idx) 1) (unat idx)"
    by (simp only: bit_or_iff simp_thms)
  ultimately show ?thesis
    using assms
    by (simp add: pktgen_page_random_bitfields_def set_random_bitfield_good MAX_RND_BITFIELDS_def
        del: push_bit_of_1)
qed

theorem random_page_roundtrip_witness:
  "pktgen_page_random_bitfields (snd (pktgen_set_random_bitfield one_spec 2 14 ''0011xxxxX'')) ! 2 =
    (2, 14, True, ''0011XXXX X....... ........ ........'')"
proof -
  have "grouped (padded ''0011xxxxX'') = ''0011XXXX X....... ........ ........''"
    by (simp add: grouped_def padded_def canon_def eval_nat_numeral)
  then show ?thesis
    using random_page_roundtrip [of 2 "''0011xxxxX''" one_spec 14]
    by (simp add: good_mask_def mask_chars_def one_spec_def)
qed

section \<open>Initialisation and the generator\<close>

text \<open>The template of question marks is rejected, so the masks stay zero (the page shows forced
  zeros, although the comment says that every bit is ignored); no specification is active.\<close>

lemma question_marks_rejected: "\<not> set (replicate 32 (CHR ''?'')) \<subseteq> mask_chars"
  by (simp add: mask_chars_def)

lemma set_random_bitfield_empty:
  "active_specs rb = 0 \<Longrightarrow> snd (pktgen_set_random_bitfield rb idx off []) = rb"
  by (simp add: pktgen_set_random_bitfield_def)

lemma init_specs_id: "active_specs rb = 0 \<Longrightarrow> init_specs ks rb = rb"
  by (induction ks)
    (simp_all add: set_random_bitfield_rejects question_marks_rejected set_random_bitfield_empty Let_def
      del: set_replicate)

lemma rnd_bits_init_state:
  "fst (pktgen_rnd_bits_init dev s) = \<lparr>active_specs = 0, specs = replicate 32 zero_spec\<rparr>"
  by (simp add: pktgen_rnd_bits_init_def init_specs_id MAX_RND_BITFIELDS_def)

lemma rnd_bits_init_shows_zeros:
  "k < 32 \<Longrightarrow> mask_text (specs (fst (pktgen_rnd_bits_init dev s)) ! k) = grouped (replicate 32 (CHR ''0''))"
proof -
  have "map (mask_text_char zero_spec) [0..<32] = replicate 32 (CHR ''0'')"
    by (intro nth_equalityI) (simp_all add: mask_text_char_def zero_spec_def)
  then show "k < 32 \<Longrightarrow> ?thesis" by (simp add: rnd_bits_init_state mask_text_grouped)
qed

lemma init_never_seeded: "snd (pktgen_init_default_rnd dev s) \<noteq> Seeded"
  by (simp add: pktgen_init_default_rnd_def split: option.split)

lemma xor_drop_eq_0:
  fixes x :: u64
  assumes eq: "x = drop_bit n x" and "0 < n"
  shows "x = 0"
proof (rule ccontr)
  assume "x \<noteq> 0"
  have "unat (drop_bit n x) = unat x div 2 ^ n"
    using unat_less(4) [of x]
    by (simp only: unsigned_drop_bit_eq) (simp add: drop_bit_eq_div take_bit_nat_eq_self)
  with eq have "unat x = unat x div 2 ^ n" by simp
  moreover from \<open>x \<noteq> 0\<close> have "0 < unat x" by (simp add: unat_gt_0)
  then have "unat x div 2 ^ n < unat x" using \<open>0 < n\<close> one_less_power [of "2 :: nat" n] by (intro div_less_dividend) simp_all
  ultimately show False by simp
qed

lemma xor_push_eq_0: "x = push_bit 25 x \<Longrightarrow> x = 0" for x :: u64
proof -
  assume eq: "x = push_bit 25 x"
  then have "x = push_bit 25 (push_bit 25 (push_bit 25 x))" by metis
  also have "\<dots> = push_bit 75 x" by (simp only: push_bit_push_bit) simp
  also have "\<dots> = 0" by (rule bit_word_eqI) (simp add: bit_push_bit_iff)
  finally show ?thesis .
qed

lemma xor_eq_0: "x XOR y = 0 \<longleftrightarrow> x = y" for x :: u64
  by (simp add: bit_eq_iff bit_xor_iff)

text \<open>The generator never falls into the zero state from a seeded one, and never leaves it.\<close>

lemma xorshift_zero: "snd (xorshift64star s) = 0 \<longleftrightarrow> s = 0"
proof
  define x where "x = s XOR drop_bit 12 s"
  define y where "y = x XOR push_bit 25 x"
  assume "snd (xorshift64star s) = 0"
  then have "y XOR drop_bit 27 y = 0" by (simp add: xorshift64star_def Let_def x_def y_def)
  then have "y = 0" by (intro xor_drop_eq_0 [where n = 27]) (simp_all add: xor_eq_0)
  then have "x = 0" by (intro xor_push_eq_0) (simp add: y_def xor_eq_0)
  then show "s = 0" by (intro xor_drop_eq_0 [where n = 12]) (simp_all add: x_def xor_eq_0)
qed (simp add: xorshift64star_def)

end
