(* ===== verification/Flows.thy ===== *)
theory Flows
  imports Samples
begin

text \<open>
  The counters of the traffic tool (\<open>app/pktgen-tool.c\<close>): packets per queue and per flow, the
  rates shown for a port, the totals and losses of a test run, the duration timer, and the
  string clean-up routine.  A flow is the IP address of a subscriber; its counter is found at
  the distance from the first address.  The two counter arrays are None while they are not
  allocated; \<open>calloc\<close> is taken to succeed.  An access outside an array is None.
\<close>

section \<open>State\<close>

definition PKTGEN_TOOL_MAX_QUEUES :: nat where "PKTGEN_TOOL_MAX_QUEUES = 16"
definition Million :: u64 where "Million = 1000000"

record pid_rx_tx_cnt =
  iprev_cnt :: u64
  oprev_cnt :: u64
  imax_pkt_sec :: u64
  omax_pkt_sec :: u64
  rx_qid_cnts :: "u64 list"
  tx_qid_cnts :: "u64 list"

record sgi_stats =
  sgi_tx_cnt :: u64
  sgi_rx_cnt :: u64
  sgi_duration :: u64

record flow_state =
  pid_cnts :: "pid_rx_tx_cnt list"
  per_flow_tx_cnt :: "u64 list list option"
  per_flow_rx_cnt :: "u64 list list option"

section \<open>Counting\<close>

text \<open>\<open>++a[k]\<close>.\<close>

definition bump :: "nat \<Rightarrow> u64 list \<Rightarrow> u64 list option" where
  "bump k a = (if k < length a then Some (a[k := a ! k + 1]) else None)"

definition bump_flow :: "nat \<Rightarrow> nat \<Rightarrow> u64 list list option \<Rightarrow> u64 list list option option" where
  "bump_flow qid k t = do {
     t \<leftarrow> t;
     guard (qid < length t);
     row \<leftarrow> bump k (t ! qid);
     Some (Some (t[qid := row])) }"

definition store_packet_cnt ::
    "glob \<Rightarrow> u32 \<Rightarrow> nat \<Rightarrow> nat \<Rightarrow> bool \<Rightarrow> flow_state \<Rightarrow> (u8 \<times> flow_state) option" where
  "store_packet_cnt g network_ip pd qid is_tx s =
    (if network_ip = 0 then Some (0, s)
     else if network_ip > end_ip g \<or> network_ip < start_ip g then Some (0, s)
     else do {
       guard (pd < length (pid_cnts s));
       if \<not> is_tx then do {
         c \<leftarrow> bump qid (rx_qid_cnts (pid_cnts s ! pd));
         let s = s\<lparr>pid_cnts := (pid_cnts s)[pd := (pid_cnts s ! pd)\<lparr>rx_qid_cnts := c\<rparr>]\<rparr>;
         f \<leftarrow> bump_flow qid (unat (network_ip - start_ip g)) (per_flow_rx_cnt s);
         Some (1, s\<lparr>per_flow_rx_cnt := f\<rparr>) }
       else do {
         c \<leftarrow> bump qid (tx_qid_cnts (pid_cnts s ! pd));
         let s = s\<lparr>pid_cnts := (pid_cnts s)[pd := (pid_cnts s ! pd)\<lparr>tx_qid_cnts := c\<rparr>]\<rparr>;
         f \<leftarrow> bump_flow qid (unat (network_ip - start_ip g)) (per_flow_tx_cnt s);
         Some (1, s\<lparr>per_flow_tx_cnt := f\<rparr>) } })"

text \<open>The parameter of the function hides the global variable \<open>subs\<close>.\<close>

definition set_ip_pkt_counters :: "u64 \<Rightarrow> flow_state \<Rightarrow> flow_state" where
  "set_ip_pkt_counters n s =
    (let fresh = Some (replicate PKTGEN_TOOL_MAX_QUEUES (replicate (unat n) 0));
         s = (if per_flow_tx_cnt s = None then s\<lparr>per_flow_tx_cnt := fresh\<rparr> else s)
     in if per_flow_rx_cnt s = None then s\<lparr>per_flow_rx_cnt := fresh\<rparr> else s)"

definition delete_dynamic_pkt_cnt :: "flow_state \<Rightarrow> flow_state" where
  "delete_dynamic_pkt_cnt s = s\<lparr>per_flow_rx_cnt := None, per_flow_tx_cnt := None\<rparr>"

section \<open>Rates of a port\<close>

record pkts_info =
  per_sec :: u64
  max_per_sec :: u64
  bps :: u64
  total :: u64
  total_mb :: u64

text \<open>The three running totals over the ports.\<close>

type_synonym run_totals = "u64 \<times> u64 \<times> u64"

fun sum_queues :: "nat \<Rightarrow> u64 list \<Rightarrow> u64 option" where
  "sum_queues 0 a = Some 0"
| "sum_queues (Suc n) a = do { c \<leftarrow> sum_queues n a; guard (n < length a); Some (c + a ! n) }"

definition wire_bytes :: "glob \<Rightarrow> u64" where
  "wire_bytes g = INTER_FRAME_GAP + PKT_PREAMBLE_SIZE + ucast FCS_SIZE + tool_pkt_size g"

definition megabits :: "glob \<Rightarrow> u64 \<Rightarrow> u64" where
  "megabits g n = (n * wire_bytes g * 8) div Million"

text \<open>\<open>rx_cnt\<close> is the number of receive queues of the port.\<close>

definition get_ipkts_info ::
    "glob \<Rightarrow> nat \<Rightarrow> nat \<Rightarrow> run_totals \<Rightarrow> flow_state \<Rightarrow> (pkts_info \<times> run_totals \<times> flow_state) option" where
  "get_ipkts_info g pd nq t s = do {
     guard (pd < length (pid_cnts s));
     let c = pid_cnts s ! pd;
     curr \<leftarrow> sum_queues nq (rx_qid_cnts c);
     let ps = curr - iprev_cnt c;
     let (mx, c) = (if imax_pkt_sec c < ps then (ps, c\<lparr>imax_pkt_sec := ps\<rparr>) else (imax_pkt_sec c, c));
     let b = megabits g ps;
     let c = c\<lparr>iprev_cnt := curr\<rparr>;
     let (t1, t2, t3) = t;
     Some (\<lparr>per_sec = ps, max_per_sec = mx, bps = b, total = curr, total_mb = megabits g curr\<rparr>,
       (t1 + ps, t2 + mx, t3 + b), s\<lparr>pid_cnts := (pid_cnts s)[pd := c]\<rparr>) }"

definition get_opkts_info ::
    "glob \<Rightarrow> nat \<Rightarrow> nat \<Rightarrow> run_totals \<Rightarrow> flow_state \<Rightarrow> (pkts_info \<times> run_totals \<times> flow_state) option" where
  "get_opkts_info g pd nq t s = do {
     guard (pd < length (pid_cnts s));
     let c = pid_cnts s ! pd;
     curr \<leftarrow> sum_queues nq (tx_qid_cnts c);
     let ps = curr - oprev_cnt c;
     let (mx, c) = (if omax_pkt_sec c < ps then (ps, c\<lparr>omax_pkt_sec := ps\<rparr>) else (omax_pkt_sec c, c));
     let b = megabits g ps;
     let c = c\<lparr>oprev_cnt := curr\<rparr>;
     let (t1, t2, t3) = t;
     Some (\<lparr>per_sec = ps, max_per_sec = mx, bps = b, total = curr, total_mb = megabits g curr\<rparr>,
       (t1 + ps, t2 + mx, t3 + b), s\<lparr>pid_cnts := (pid_cnts s)[pd := c]\<rparr>) }"

section \<open>The result of a test run\<close>

record direction =
  pkts_tx :: u64
  pkts_rx :: u64
  loss :: u64
  loss_percent :: rat
  tx_rate_shown :: u64
  rx_rate_shown :: u64

definition loss_of :: "u64 \<Rightarrow> u64 \<Rightarrow> u64 \<times> rat" where
  "loss_of tx rx = (if tx \<noteq> 0 then (tx - rx, of_nat (unat (tx - rx)) / of_nat (unat tx) * 100) else (0, 0))"

text \<open>What the generator prints and logs: the uplink and the downlink table.  \<open>total\<close> is
  \<open>total_duration\<close>, \<open>nrx\<close> and \<open>ntx\<close> are the queues of port 0.\<close>

definition get_tx_rx_counts ::
    "nat \<Rightarrow> nat \<Rightarrow> u32 \<Rightarrow> sgi_stats \<Rightarrow> flow_state \<Rightarrow> (direction \<times> direction) option" where
  "get_tx_rx_counts nrx ntx total_dur sgi s = do {
     guard (1 < length (pid_cnts s));
     let c0 = pid_cnts s ! 0;
     let c1 = pid_cnts s ! 1;
     rx0 \<leftarrow> sum_queues nrx (rx_qid_cnts c0);
     tx0 \<leftarrow> sum_queues ntx (tx_qid_cnts c0);
     let rx1 = sgi_rx_cnt sgi;
     let tx1 = sgi_tx_cnt sgi;
     let tx0 = (if tx0 < rx1 then rx1 else tx0);
     let tx1 = (if tx1 < rx0 then rx0 else tx1);
     let dl = (ucast (sgi_duration sgi) :: u32);
     let dl = (if tx1 \<noteq> 0 \<and> dl = 0 then total_dur else dl);
     Some (\<lparr>pkts_tx = tx0, pkts_rx = rx1, loss = fst (loss_of tx0 rx1), loss_percent = snd (loss_of tx0 rx1),
         tx_rate_shown = (if total_dur \<noteq> 0 then tx0 div ucast total_dur else omax_pkt_sec c0),
         rx_rate_shown = (if total_dur \<noteq> 0 then tx0 div ucast total_dur else imax_pkt_sec c1)\<rparr>,
       \<lparr>pkts_tx = tx1, pkts_rx = rx0, loss = fst (loss_of tx1 rx0), loss_percent = snd (loss_of tx1 rx0),
         tx_rate_shown = (if dl \<noteq> 0 then tx1 div ucast dl else omax_pkt_sec c1),
         rx_rate_shown = (if dl \<noteq> 0 then rx0 div ucast dl else imax_pkt_sec c0)\<rparr>) }"

text \<open>The answer of the responder to a request for its totals.\<close>

definition send_stats_data :: "nat \<Rightarrow> nat \<Rightarrow> u32 \<Rightarrow> flow_state \<Rightarrow> sgi_stats option" where
  "send_stats_data nrx ntx total_dur s = do {
     guard (0 < length (pid_cnts s));
     rx \<leftarrow> sum_queues nrx (rx_qid_cnts (pid_cnts s ! 0));
     tx \<leftarrow> sum_queues ntx (tx_qid_cnts (pid_cnts s ! 0));
     Some \<lparr>sgi_tx_cnt = tx, sgi_rx_cnt = rx, sgi_duration = ucast total_dur\<rparr> }"

text \<open>The new \<open>total_duration\<close> and the alarm that is set.\<close>

definition register_for_timeout :: "u32 \<Rightarrow> u32 \<Rightarrow> u32 \<times> u32 option" where
  "register_for_timeout test_duration total_dur =
     (total_dur + test_duration, if test_duration \<noteq> 0 then Some test_duration else None)"

section \<open>Removing spaces\<close>

text \<open>The loop of \<open>remove_spaces_and_newline\<close> works in place, from index \<open>i\<close> with \<open>count\<close>
  characters kept; a buffer without a NUL is read past its end.\<close>

function rm_loop :: "nat \<Rightarrow> nat \<Rightarrow> string \<Rightarrow> string option" where
  "rm_loop i count str =
    (if length str \<le> i then None
     else if str ! i = CHR 0x00 then Some (str[count := CHR 0x00])
     else if str ! i \<noteq> CHR '' '' \<and> str ! i \<noteq> CHR 0x0A
     then rm_loop (i + 1) (count + 1) (str[count := str ! i])
     else rm_loop (i + 1) count str)"
  by pat_completeness auto
termination by (relation "measure (\<lambda>(i, count, str). length str - i)") auto

declare rm_loop.simps [simp del]

definition remove_spaces_and_newline :: "string \<Rightarrow> string option" where
  "remove_spaces_and_newline str = rm_loop 0 0 str"

section \<open>Conservation of the counters\<close>

definition cnt_ok :: "pid_rx_tx_cnt \<Rightarrow> bool" where
  "cnt_ok c \<longleftrightarrow> length (rx_qid_cnts c) = 16 \<and> length (tx_qid_cnts c) = 16"

text \<open>A table of per flow counters agrees with the queue counters of the ports.\<close>

definition table_ok :: "nat \<Rightarrow> (pid_rx_tx_cnt \<Rightarrow> u64 list) \<Rightarrow> pid_rx_tx_cnt list \<Rightarrow> u64 list list option \<Rightarrow> bool" where
  "table_ok n cnts cs t \<longleftrightarrow> (case t of None \<Rightarrow> False | Some rows \<Rightarrow>
     length rows = 16 \<and> (\<forall>k < 16. length (rows ! k) = n
       \<and> sum_list (rows ! k) = sum_list (map (\<lambda>c. cnts c ! k) cs)))"

definition flow_inv :: "nat \<Rightarrow> flow_state \<Rightarrow> bool" where
  "flow_inv n s \<longleftrightarrow> length (pid_cnts s) = 10 \<and> (\<forall>c \<in> set (pid_cnts s). cnt_ok c)
     \<and> table_ok n rx_qid_cnts (pid_cnts s) (per_flow_rx_cnt s)
     \<and> table_ok n tx_qid_cnts (pid_cnts s) (per_flow_tx_cnt s)"

lemma sum_list_bump: "k < length a \<Longrightarrow> sum_list (a[k := a ! k + 1]) = sum_list a + 1" for a :: "u64 list"
  by (induction a arbitrary: k) (auto simp: nth_Cons' algebra_simps split: nat.splits)

lemma map_update_sum:
  assumes "pd < length cs" "k < length (cnts (cs ! pd))" "cnts c = (cnts (cs ! pd))[k := cnts (cs ! pd) ! k + 1]"
  shows "sum_list (map (\<lambda>c. cnts c ! j) (cs[pd := c])) =
    sum_list (map (\<lambda>c. cnts c ! j) cs) + (if j = k then 1 else (0 :: u64))"
proof -
  let ?f = "\<lambda>c. cnts c ! j"
  have upd: "map ?f (cs[pd := c]) = (map ?f cs)[pd := ?f c]" by (simp add: map_update)
  show ?thesis
  proof (cases "j = k")
    case True
    then have "?f c = map ?f cs ! pd + 1" using assms by simp
    with True show ?thesis using assms(1) sum_list_bump [of pd "map ?f cs"] unfolding upd by simp
  next
    case False
    then have "?f c = map ?f cs ! pd" using assms by simp
    with False show ?thesis unfolding upd by (simp only: list_update_id) simp
  qed
qed

text \<open>One more packet of a flow on a queue keeps the agreement.\<close>

lemma table_ok_bump:
  assumes "table_ok n cnts cs t" "pd < length cs" "length (cnts (cs ! pd)) = 16" "qid < 16" "k < n"
    and "cnts c = (cnts (cs ! pd))[qid := cnts (cs ! pd) ! qid + 1]"
  shows "\<exists>t'. bump_flow qid k t = Some t' \<and> table_ok n cnts (cs[pd := c]) t'"
proof -
  from assms(1) obtain rows where rows: "t = Some rows" "length rows = 16"
    "\<forall>j < 16. length (rows ! j) = n \<and> sum_list (rows ! j) = sum_list (map (\<lambda>c. cnts c ! j) cs)"
    by (auto simp: table_ok_def split: option.splits)
  let ?rows = "rows[qid := (rows ! qid)[k := rows ! qid ! k + 1]]"
  have "bump_flow qid k t = Some (Some ?rows)"
    using rows assms(4,5) by (simp add: bump_flow_def bump_def)
  moreover have "table_ok n cnts (cs[pd := c]) (Some ?rows)"
  proof -
    have "length (?rows ! j) = n \<and> sum_list (?rows ! j) = sum_list (map (\<lambda>c. cnts c ! j) (cs[pd := c]))"
      if "j < 16" for j
      using that rows assms(2-5) map_update_sum [of pd cs qid cnts c j] assms(6)
      by (cases "j = qid") (simp_all add: sum_list_bump)
    then show ?thesis using rows(2) by (simp add: table_ok_def)
  qed
  ultimately show ?thesis by blast
qed

lemma table_ok_same:
  assumes "table_ok n cnts cs t" "pd < length cs" "cnts c = cnts (cs ! pd)"
  shows "table_ok n cnts (cs[pd := c]) t"
proof -
  have "map (\<lambda>c. cnts c ! j) (cs[pd := c]) = map (\<lambda>c. cnts c ! j) cs" for j
    using assms(2,3) by (intro nth_equalityI) (auto simp: nth_list_update)
  with assms(1) show ?thesis unfolding table_ok_def by presburger
qed

lemma store_conserves:
  assumes "flow_inv n s" "unat (end_ip g - start_ip g) < n" "pd < 10" "qid < 16"
  shows "\<exists>s'. store_packet_cnt g ip pd qid is_tx s =
      Some (if ip \<noteq> 0 \<and> start_ip g \<le> ip \<and> ip \<le> end_ip g then 1 else 0, s') \<and> flow_inv n s'"
proof (cases "ip \<noteq> 0 \<and> start_ip g \<le> ip \<and> ip \<le> end_ip g")
  case False
  then show ?thesis using assms(1) by (auto simp: store_packet_cnt_def)
next
  case True
  let ?c = "pid_cnts s ! pd" and ?k = "unat (ip - start_ip g)"
  from True have le: "start_ip g \<le> ip" "ip \<le> end_ip g" by simp_all
  then have "ip - start_ip g \<le> end_ip g - start_ip g"
    by (simp add: word_le_nat_alt unat_sub_if' word_le_nat_alt)
  then have k: "?k < n" using assms(2) by (simp add: word_le_nat_alt)
  have len: "length (pid_cnts s) = 10" and cnts: "\<forall>c \<in> set (pid_cnts s). cnt_ok c"
    and rx: "table_ok n rx_qid_cnts (pid_cnts s) (per_flow_rx_cnt s)"
    and tx: "table_ok n tx_qid_cnts (pid_cnts s) (per_flow_tx_cnt s)"
    using assms(1) by (auto simp: flow_inv_def)
  from cnts len assms(3) have ok: "cnt_ok ?c" by simp
  show ?thesis
  proof (cases is_tx)
    case True
    let ?c' = "?c\<lparr>tx_qid_cnts := (tx_qid_cnts ?c)[qid := tx_qid_cnts ?c ! qid + 1]\<rparr>"
    obtain t where t: "bump_flow qid ?k (per_flow_tx_cnt s) = Some t"
      "table_ok n tx_qid_cnts ((pid_cnts s)[pd := ?c']) t"
      using table_ok_bump [OF tx, of pd qid ?k ?c'] len ok assms(3,4) k by (auto simp: cnt_ok_def)
    moreover have "table_ok n rx_qid_cnts ((pid_cnts s)[pd := ?c']) (per_flow_rx_cnt s)"
      using table_ok_same [OF rx, of pd ?c'] len assms(3) by simp
    moreover have "\<forall>c \<in> set ((pid_cnts s)[pd := ?c']). cnt_ok c"
      using cnts ok set_update_subset_insert [of "pid_cnts s" pd ?c'] by (auto simp: cnt_ok_def)
    ultimately show ?thesis using True \<open>ip \<noteq> 0 \<and> _\<close> len ok assms(3,4)
      by (auto simp: store_packet_cnt_def bump_def cnt_ok_def flow_inv_def)
  next
    case False
    let ?c' = "?c\<lparr>rx_qid_cnts := (rx_qid_cnts ?c)[qid := rx_qid_cnts ?c ! qid + 1]\<rparr>"
    obtain t where t: "bump_flow qid ?k (per_flow_rx_cnt s) = Some t"
      "table_ok n rx_qid_cnts ((pid_cnts s)[pd := ?c']) t"
      using table_ok_bump [OF rx, of pd qid ?k ?c'] len ok assms(3,4) k by (auto simp: cnt_ok_def)
    moreover have "table_ok n tx_qid_cnts ((pid_cnts s)[pd := ?c']) (per_flow_tx_cnt s)"
      using table_ok_same [OF tx, of pd ?c'] len assms(3) by simp
    moreover have "\<forall>c \<in> set ((pid_cnts s)[pd := ?c']). cnt_ok c"
      using cnts ok set_update_subset_insert [of "pid_cnts s" pd ?c'] by (auto simp: cnt_ok_def)
    ultimately show ?thesis using False \<open>ip \<noteq> 0 \<and> _\<close> len ok assms(3,4)
      by (auto simp: store_packet_cnt_def bump_def cnt_ok_def flow_inv_def)
  qed
qed

text \<open>C25 No packet is lost between the counters: with the two tables allocated for every address
  from the first to the last one, counting a packet always succeeds (no access leaves an array),
  reports whether its address is one of them, and keeps, for every queue, the sum of the per flow
  counters equal to the sum of the queue counters of the ports.\<close>

theorem store_packet_cnt_conserves:
  assumes "flow_inv n s" "unat (end_ip g - start_ip g) < n" "pd < 10" "qid < 16"
  shows "\<exists>s'. store_packet_cnt g ip pd qid is_tx s =
      Some (if ip \<noteq> 0 \<and> start_ip g \<le> ip \<and> ip \<le> end_ip g then 1 else 0, s') \<and> flow_inv n s'"
  using assms by (rule store_conserves)

text \<open>Allocation establishes the invariant when nothing has been counted.\<close>

definition no_counts :: pid_rx_tx_cnt where
  "no_counts = \<lparr>iprev_cnt = 0, oprev_cnt = 0, imax_pkt_sec = 0, omax_pkt_sec = 0,
     rx_qid_cnts = replicate 16 0, tx_qid_cnts = replicate 16 0\<rparr>"

definition initial_flows :: flow_state where
  "initial_flows = \<lparr>pid_cnts = replicate 10 no_counts, per_flow_tx_cnt = None, per_flow_rx_cnt = None\<rparr>"

lemma flow_inv_initial: "flow_inv (unat n) (set_ip_pkt_counters n initial_flows)"
  by (simp add: flow_inv_def table_ok_def cnt_ok_def no_counts_def initial_flows_def Let_def
      set_ip_pkt_counters_def PKTGEN_TOOL_MAX_QUEUES_def sum_list_replicate)

definition flow_glob :: glob where
  "flow_glob = sample_glob\<lparr>start_ip := 0x0A000001, end_ip := 0x0A000003, subs := 3\<rparr>"

theorem store_packet_cnt_conserves_witness:
  "\<exists>s'. store_packet_cnt flow_glob 0x0A000003 0 1 True (set_ip_pkt_counters 3 initial_flows) = Some (1, s')
    \<and> flow_inv 3 s'"
proof -
  have "unat (end_ip flow_glob - start_ip flow_glob) < 3"
    and "0x0A000003 \<noteq> (0 :: u32) \<and> start_ip flow_glob \<le> 0x0A000003 \<and> 0x0A000003 \<le> end_ip flow_glob"
    by (simp_all add: flow_glob_def)
  then show ?thesis
    using store_packet_cnt_conserves [of 3 "set_ip_pkt_counters 3 initial_flows" flow_glob 0 1 "0x0A000003" True]
      flow_inv_initial [of 3] by simp
qed

text \<open>Allocating again changes nothing, and deleting makes the next allocation start from zero.\<close>

lemma set_ip_pkt_counters_again:
  "set_ip_pkt_counters m (set_ip_pkt_counters n s) = set_ip_pkt_counters n s"
  by (auto simp: set_ip_pkt_counters_def Let_def)

lemma set_after_delete:
  "per_flow_rx_cnt (set_ip_pkt_counters n (delete_dynamic_pkt_cnt s)) =
    Some (replicate 16 (replicate (unat n) 0))"
  by (simp add: set_ip_pkt_counters_def delete_dynamic_pkt_cnt_def PKTGEN_TOOL_MAX_QUEUES_def Let_def)

section \<open>Rates and losses\<close>

lemma sum_queues_sum: "n \<le> length a \<Longrightarrow> sum_queues n a = Some (sum_list (take n a))"
  by (induction n) (simp_all add: take_Suc_conv_app_nth)

text \<open>The rates of successive samples add up to the count, whatever the counters did in between.\<close>

lemma get_ipkts_info_telescope:
  assumes "get_ipkts_info g pd nq t s = Some (r, t', s')" "pd < length (pid_cnts s)"
  shows "iprev_cnt (pid_cnts s' ! pd) = iprev_cnt (pid_cnts s ! pd) + per_sec r \<and> total r = iprev_cnt (pid_cnts s' ! pd)
    \<and> imax_pkt_sec (pid_cnts s' ! pd) = max (imax_pkt_sec (pid_cnts s ! pd)) (per_sec r)
    \<and> max_per_sec r = imax_pkt_sec (pid_cnts s' ! pd)"
  using assms by (cases t) (auto simp: get_ipkts_info_def bind_eq_Some_iff Let_def max_def diff_eq_eq algebra_simps
      split: if_splits)



text \<open>The receive rate of the uplink is computed from the packets sent.\<close>

lemma uplink_rate_of_sent:
  "get_tx_rx_counts nrx ntx dur sgi s = Some (ul, dl) \<Longrightarrow> dur \<noteq> 0 \<Longrightarrow> rx_rate_shown ul = pkts_tx ul div ucast dur"
  by (auto simp: get_tx_rx_counts_def bind_eq_Some_iff Let_def)

section \<open>Removing spaces is a filter\<close>

definition not_space :: "char \<Rightarrow> bool" where
  "not_space c \<longleftrightarrow> c \<noteq> CHR '' '' \<and> c \<noteq> CHR 0x0A"

lemma rm_loop_filter:
  assumes "CHR 0x00 \<notin> set todo" "count \<le> length pre"
  shows "\<exists>r. rm_loop (length pre) count (pre @ todo @ CHR 0x00 # rest) = Some r
    \<and> length r = length (pre @ todo @ CHR 0x00 # rest)
    \<and> take (Suc (count + length (filter not_space todo))) r = take count pre @ filter not_space todo @ [CHR 0x00]"
  using assms
proof (induction todo arbitrary: pre count)
  case Nil
  let ?b = "pre @ CHR 0x00 # rest"
  have "rm_loop (length pre) count ?b = Some (?b[count := CHR 0x00])"
    by (subst rm_loop.simps) simp
  moreover have "take (Suc count) (?b[count := CHR 0x00]) = take count pre @ [CHR 0x00]"
    using Nil.prems(2) by (simp add: take_Suc_conv_app_nth)
  ultimately show ?case by simp
next
  case (Cons c todo)
  let ?b = "pre @ (c # todo) @ CHR 0x00 # rest"
  from Cons.prems have c: "c \<noteq> CHR 0x00" by auto
  show ?case
  proof (cases "not_space c")
    case True
    let ?pre = "(pre @ [c])[count := c]"
    have "?b[count := c] = ?pre @ todo @ CHR 0x00 # rest"
      using Cons.prems(2) by (simp add: list_update_append nth_append list_update_same_conv split: nat.split)
    then have "rm_loop (length pre) count ?b = rm_loop (length ?pre) (Suc count) (?pre @ todo @ CHR 0x00 # rest)"
      using True c by (subst rm_loop.simps) (simp add: not_space_def)
    moreover have "take (Suc count) ?pre = take count pre @ [c]"
      using Cons.prems(2) by (simp add: take_Suc_conv_app_nth)
    ultimately show ?thesis using Cons.IH [of "Suc count" ?pre] Cons.prems True by simp
  next
    case False
    then have "rm_loop (length pre) count ?b = rm_loop (length (pre @ [c])) count ((pre @ [c]) @ todo @ CHR 0x00 # rest)"
      using c by (subst rm_loop.simps) (auto simp: not_space_def)
    with False Cons.IH [of count "pre @ [c]"] Cons.prems show ?thesis by simp
  qed
qed

text \<open>Removing spaces and newlines in place is filtering: on any buffer that holds a string and
  its NUL, the loop ends inside the buffer and leaves there the string without its spaces and
  newlines, followed by a NUL.\<close>

theorem remove_spaces_is_filter:
  assumes "CHR 0x00 \<notin> set s"
  shows "\<exists>r. remove_spaces_and_newline (s @ CHR 0x00 # rest) = Some r
    \<and> length r = length s + 1 + length rest
    \<and> takeWhile (\<lambda>c. c \<noteq> CHR 0x00) r = filter (\<lambda>c. c \<noteq> CHR '' '' \<and> c \<noteq> CHR 0x0A) s"
proof -
  obtain r where r: "rm_loop 0 0 (s @ CHR 0x00 # rest) = Some r" "length r = length (s @ CHR 0x00 # rest)"
    "take (Suc (length (filter not_space s))) r = filter not_space s @ [CHR 0x00]"
    using rm_loop_filter [OF assms, of 0 "[]" rest] by auto
  then have eq: "r = filter not_space s @ CHR 0x00 # drop (Suc (length (filter not_space s))) r"
    using append_take_drop_id [of "Suc (length (filter not_space s))" r] by simp
  have "\<forall>c \<in> set (filter not_space s). c \<noteq> CHR 0x00" using assms by auto
  then have "takeWhile (\<lambda>c. c \<noteq> CHR 0x00) (filter not_space s @ CHR 0x00 # x) = filter not_space s" for x
    by (subst takeWhile_append2) auto
  then have "takeWhile (\<lambda>c. c \<noteq> CHR 0x00) r = filter not_space s" by (subst eq)
  with r show ?thesis by (auto simp: remove_spaces_and_newline_def not_space_def [abs_def])
qed

theorem remove_spaces_is_filter_witness:
  "\<exists>r. remove_spaces_and_newline (''a b '' @ CHR 0x00 # []) = Some r \<and> length r = 5
    \<and> takeWhile (\<lambda>c. c \<noteq> CHR 0x00) r = ''ab''"
  using remove_spaces_is_filter [of "''a b ''" "[]"] by (simp add: eval_nat_numeral)

end
