(* ===== verification/Capture.thy ===== *)
theory Capture
  imports Atomic Samples
begin

text \<open>
  Packet capture (\<open>app/pktgen-capture.c\<close>): received packets are appended to a memory zone, each
  behind a header with its length and its stored size, and a header of length zero ends them; when
  capturing is disabled the zone is walked and every packet is written to a file.  A pointer into
  the zone is an offset.  What the program asks the port map (receive queues, lcores, sockets) is a
  parameter.  None is an access outside the zone.
\<close>

section \<open>State\<close>

record capture =
  mz :: "mem option"
  cap_tail :: nat
  cap_end :: nat
  used :: nat
  cap_lcore :: u16
  cap_port :: u16

text \<open>\<open>RTE_MAX_LCORE\<close> and \<open>RTE_MAX_ETHPORTS\<close> are chosen by DPDK and mean that nobody captures.\<close>

record limits =
  max_lcore :: u16
  max_port :: u16

text \<open>\<open>zone\<close> is the memory that \<open>rte_memzone_reserve\<close> returned.\<close>

definition pktgen_packet_capture_init :: "limits \<Rightarrow> mem option \<Rightarrow> capture \<Rightarrow> capture" where
  "pktgen_packet_capture_init l zone cap =
     cap\<lparr>cap_lcore := max_lcore l, cap_port := max_port l, used := 0, mz := zone\<rparr>"

section \<open>Capturing\<close>

definition sizeof_cap_hdr :: nat where "sizeof_cap_hdr = 4"

definition stored_len :: "mbuf \<Rightarrow> nat" where
  "stored_len m = (unat (mdata_len m) + 1) div 2 * 2"

text \<open>The loop over the packets, on the zone and the tail.\<close>

fun capture_loop :: "nat \<Rightarrow> mbuf list \<Rightarrow> mem \<times> nat \<Rightarrow> (mem \<times> nat) option" where
  "capture_loop en [] (z, t) = Some (z, t)"
| "capture_loop en (m # ms) (z, t) =
    (if t + sizeof_cap_hdr + stored_len m > en then Some (z, t)
     else do {
       z \<leftarrow> st16 t (ucast (mpkt_len m)) z;
       z \<leftarrow> st16 (t + 2) (word_of_nat (stored_len m)) z;
       bs \<leftarrow> rd 0 (unat (mpkt_len m)) (mdata m);
       z \<leftarrow> wr (t + sizeof_cap_hdr) bs z;
       capture_loop en ms (z, t + sizeof_cap_hdr + stored_len m) })"

definition pktgen_packet_capture_bulk :: "mbuf list \<Rightarrow> capture \<Rightarrow> capture option" where
  "pktgen_packet_capture_bulk pkts cap =
    (if cap_tail cap = cap_end cap then Some cap
     else do {
       z \<leftarrow> mz cap;
       (z, t) \<leftarrow> capture_loop (cap_end cap) pkts (z, cap_tail cap);
       z \<leftarrow> st16 t 0 z;
       Some (cap\<lparr>mz := Some z, cap_tail := t, used := t\<rparr>) })"

section \<open>Writing to a file\<close>

text \<open>The packets handed to \<open>pcap_dump\<close>: length, captured length and bytes.\<close>

function dump_walk :: "mem \<Rightarrow> nat \<Rightarrow> (u16 \<times> mem) list option" where
  "dump_walk z off = (case ld16 off z of None \<Rightarrow> None
     | Some l \<Rightarrow> if l = 0 then Some []
       else (case ld16 (off + 2) z of None \<Rightarrow> None
         | Some d \<Rightarrow> (case rd (off + sizeof_cap_hdr) (unat d) z of None \<Rightarrow> None
             | Some bs \<Rightarrow> map_option (Cons (l, bs)) (dump_walk z (off + sizeof_cap_hdr + unat d)))))"
  by pat_completeness auto
termination by (relation "measure (\<lambda>(z, off). length z - off)") (auto simp: ld16_def sizeof_cap_hdr_def split: if_splits)

declare dump_walk.simps [simp del]

section \<open>Switching\<close>

text \<open>The first lcore of the port that receives from it; \<open>lids\<close> are the lcores of the port with
  the ports they receive from.\<close>

definition rx_lcore :: "u16 \<Rightarrow> (u16 \<times> u16 list) list \<Rightarrow> u16 option" where
  "rx_lcore p lids = map_option fst (List.find (\<lambda>(lid, rx). p \<in> set rx) lids)"

datatype capture_msg = No_rx_queue | No_rx_lcore | No_memory | Already_capturing | Capturing | Not_found
  | Dumped "(u16 \<times> mem) list"

definition capture_on ::
    "limits \<Rightarrow> nat \<Rightarrow> (u16 \<times> u16 list) list \<Rightarrow> (u16 \<Rightarrow> nat) \<Rightarrow> port_info \<times> capture list
      \<Rightarrow> (capture_msg option \<times> port_info \<times> capture list) option" where
  "capture_on l rxcnt lids sock = (\<lambda>(i, caps).
    if has_flag (port_flags i) CAPTURE_PKTS then Some (None, i, caps)
    else if rxcnt = 0 then Some (Some No_rx_queue, i, caps)
    else case rx_lcore (pid i) lids of None \<Rightarrow> Some (Some No_rx_lcore, i, caps)
      | Some lid \<Rightarrow>
         if sock lid < length caps then
           let cap = caps ! sock lid in
           case mz cap of None \<Rightarrow> Some (Some No_memory, i, caps)
           | Some z \<Rightarrow>
              if cap_lcore cap \<noteq> max_lcore l then Some (Some Already_capturing, i, caps)
              else do {
                let en = length z - sizeof_cap_hdr;
                z \<leftarrow> memset 0 0 sizeof_cap_hdr z;
                z \<leftarrow> memset en 0 sizeof_cap_hdr z;
                Some (Some Capturing, pktgen_set_port_flags i CAPTURE_PKTS,
                  caps[sock lid := cap\<lparr>used := 0, cap_lcore := lid, cap_port := pid i, cap_tail := 0,
                    cap_end := en, mz := Some z\<rparr>]) }
         else None)"

definition capture_off ::
    "limits \<Rightarrow> nat \<Rightarrow> port_info \<times> capture list \<Rightarrow> (capture_msg option \<times> port_info \<times> capture list) option" where
  "capture_off l rxcnt = (\<lambda>(i, caps).
    if \<not> has_flag (port_flags i) CAPTURE_PKTS then Some (None, i, caps)
    else if rxcnt = 0 then Some (Some No_rx_queue, i, caps)
    else case List.find (\<lambda>k. mz (caps ! k) \<noteq> None \<and> cap_port (caps ! k) = pid i) [0..<length caps] of
        None \<Rightarrow> Some (Some Not_found, i, caps)
      | Some k \<Rightarrow> do {
          let cap = caps ! k;
          z \<leftarrow> mz cap;
          out \<leftarrow> (if used cap > 0 then dump_walk z 0 else Some []);
          Some (Some (Dumped out), pktgen_clr_port_flags i CAPTURE_PKTS,
            caps[k := cap\<lparr>used := 0, cap_tail := 0, cap_lcore := max_lcore l, cap_port := max_port l\<rparr>]) })"

definition pktgen_set_capture ::
    "limits \<Rightarrow> nat \<Rightarrow> (u16 \<times> u16 list) list \<Rightarrow> (u16 \<Rightarrow> nat) \<Rightarrow> bool \<Rightarrow> port_info \<times> capture list
      \<Rightarrow> (capture_msg option \<times> port_info \<times> capture list) option" where
  "pktgen_set_capture l rxcnt lids sock on s =
     (if on then capture_on l rxcnt lids sock s else capture_off l rxcnt s)"

section \<open>What is in the zone\<close>

text \<open>A record of the zone, and the packets it stands for.\<close>

definition enc_rec :: "u16 \<times> mem \<Rightarrow> mem" where
  "enc_rec r = le16 (fst r) @ le16 (word_of_nat (length (snd r))) @ snd r"

definition rec_ok :: "u16 \<times> mem \<Rightarrow> bool" where
  "rec_ok r \<longleftrightarrow> fst r \<noteq> 0 \<and> length (snd r) < 65536"

definition holds :: "mem \<Rightarrow> nat \<Rightarrow> (u16 \<times> mem) list \<Rightarrow> bool" where
  "holds z t rs \<longleftrightarrow> t + 2 \<le> length z \<and> take t z = concat (map enc_rec rs) \<and> list_all rec_ok rs"

lemma length_enc_rec [simp]: "length (enc_rec r) = sizeof_cap_hdr + length (snd r)"
  by (simp add: enc_rec_def sizeof_cap_hdr_def)

lemma ld16_append: "ld16 (length as) (as @ le16 w @ bs) = Some w"
proof -
  have "le16 w = [le16 w ! 0, le16 w ! 1]" by (simp add: le16_def)
  then obtain x y where xy: "le16 w = [x, y]" "mk16 x y = w" using mk16_le16 [of w] by (metis One_nat_def)
  then show ?thesis by (simp add: ld16_def nth_append)
qed

lemma ld16_append2: "ld16 (length as + 2) (as @ le16 v @ le16 w @ bs) = Some w"
  using ld16_append [of "as @ le16 v" w bs] by simp

lemma dump_records:
  "list_all rec_ok rs \<Longrightarrow> dump_walk (as @ concat (map enc_rec rs) @ le16 0 @ bs) (length as) = Some rs"
proof (induction rs arbitrary: as)
  case Nil
  then show ?case by (subst dump_walk.simps) (simp add: ld16_append)
next
  case (Cons r rs)
  let ?n = "length (snd r)"
  have r: "fst r \<noteq> 0" "unat (word_of_nat ?n :: u16) = ?n" using Cons.prems by (simp_all add: rec_ok_def unat_of_nat16)
  let ?z = "as @ concat (map enc_rec (r # rs)) @ le16 0 @ bs"
  have z: "?z = as @ le16 (fst r) @ le16 (word_of_nat ?n) @ snd r @ concat (map enc_rec rs) @ le16 0 @ bs"
    by (simp add: enc_rec_def)
  have "ld16 (length as) ?z = Some (fst r)" "ld16 (length as + 2) ?z = Some (word_of_nat ?n)"
    unfolding z by (rule ld16_append ld16_append2)+
  moreover have "rd (length as + sizeof_cap_hdr) ?n ?z = Some (snd r)"
    unfolding z by (simp add: rd_def sizeof_cap_hdr_def)
  moreover have "dump_walk ?z (length as + sizeof_cap_hdr + ?n) = Some rs"
    using Cons.IH [of "as @ enc_rec r"] Cons.prems by (simp add: add.assoc)
  ultimately show ?case using r by (subst dump_walk.simps) simp
qed

lemma dump_holds:
  assumes "holds z t rs" "ld16 t z = Some 0"
  shows "dump_walk z 0 = Some rs"
proof -
  have "z = take t z @ take 2 (drop t z) @ drop (t + 2) z"
    by (metis append_take_drop_id drop_drop add.commute)
  moreover have "take 2 (drop t z) = le16 0"
  proof -
    have len: "t + 2 \<le> length z" "mk16 (z ! t) (z ! (t + 1)) = 0" using assms by (auto simp: holds_def ld16_def)
    then have "le16 (mk16 (z ! t) (z ! (t + 1))) = le16 0" by simp
    then have "[z ! t, z ! (t + 1)] = le16 0" by simp
    moreover have "take 2 (drop t z) = [z ! t, z ! (t + 1)]"
      using len(1) by (intro nth_equalityI) (auto simp: nth_Cons' less_2_cases_iff)
    ultimately show ?thesis by simp
  qed
  ultimately show ?thesis using assms(1) dump_records [of rs "[]" "drop (t + 2) z"] by (simp add: holds_def)
qed

section \<open>Capture keeps what it stored\<close>

text \<open>A packet in one segment, as the receiver gets it.\<close>

definition one_segment :: "mbuf \<Rightarrow> bool" where
  "one_segment m \<longleftrightarrow> mpkt_len m = ucast (mdata_len m) \<and> mdata_len m \<noteq> 0 \<and> unat (mdata_len m) < 65535
     \<and> unat (mdata_len m) \<le> length (mdata m)"

definition stored_as :: "mbuf \<Rightarrow> u16 \<times> mem \<Rightarrow> bool" where
  "stored_as m r \<longleftrightarrow> fst r = mdata_len m \<and> length (snd r) = stored_len m
     \<and> take (unat (mdata_len m)) (snd r) = take (unat (mdata_len m)) (mdata m)"

lemma stored_len_bounds: "unat (mdata_len m) \<le> stored_len m" "stored_len m \<le> unat (mdata_len m) + 1"
  by (simp_all add: stored_len_def)

lemma put_record:
  assumes "t + 4 + length bs \<le> length z"
  shows "put (t + 4) bs (put (t + 2) (le16 b) (put t (le16 a) z)) =
    take t z @ le16 a @ le16 b @ bs @ drop (t + 4 + length bs) z"
  using assms by (simp add: put_def min_def eval_nat_numeral add.commute [of t])

lemma capture_step:
  assumes "holds z t rs" "one_segment m" "t + sizeof_cap_hdr + stored_len m \<le> en" "en + sizeof_cap_hdr = length z"
  shows "\<exists>z' r. capture_loop en (m # ms) (z, t) = capture_loop en ms (z', t + sizeof_cap_hdr + stored_len m)
    \<and> holds z' (t + sizeof_cap_hdr + stored_len m) (rs @ [r]) \<and> length z' = length z \<and> stored_as m r"
proof -
  let ?n = "stored_len m" and ?d = "unat (mdata_len m)"
  have d: "?d \<le> ?n" "?n \<le> ?d + 1" "?d < 65535" "?d \<le> length (mdata m)" "mdata_len m \<noteq> 0"
    "mpkt_len m = ucast (mdata_len m)"
    using assms(2) stored_len_bounds by (simp_all add: one_segment_def)
  have l: "unat (mpkt_len m) = ?d"
    unfolding d(6) using unat_less(2) [of "mdata_len m"] by (simp add: unsigned_ucast_eq take_bit_nat_eq_self)
  have l2: "(ucast (mpkt_len m) :: u16) = mdata_len m"
    unfolding d(6) by (rule bit_word_eqI) (simp add: bit_simps)
  let ?bs = "take ?d (mdata m)"
  have lb: "length ?bs = ?d" using d by simp
  have room: "t + 4 + ?n + 4 \<le> length z" using assms(3,4) by (simp add: sizeof_cap_hdr_def)
  define z1 where "z1 = put t (le16 (mdata_len m)) z"
  define z2 where "z2 = put (t + 2) (le16 (word_of_nat ?n)) z1"
  define z3 where "z3 = put (t + 4) ?bs z2"
  have len: "length z1 = length z" "length z2 = length z" "length z3 = length z"
    using room d lb by (simp_all add: z1_def z2_def z3_def length_put)
  have step: "capture_loop en (m # ms) (z, t) = capture_loop en ms (z3, t + sizeof_cap_hdr + ?n)"
    using room len d l l2 assms(3) lb
    by (simp add: st16_def wr_def z1_def z2_def z3_def sizeof_cap_hdr_def rd_def)
  let ?r = "(mdata_len m, ?bs @ take (?n - ?d) (drop (t + 4 + ?d) z))"
  have lr: "length (snd ?r) = ?n" using lb d room by simp
  have z3: "z3 = take t z @ le16 (mdata_len m) @ le16 (word_of_nat ?n) @ ?bs @ drop (t + 4 + ?d) z"
    using put_record [of t ?bs z "word_of_nat ?n" "mdata_len m"] room d lb by (simp add: z1_def z2_def z3_def)
  have "take (t + 4 + ?n) z3 = take t z @ enc_rec ?r"
    unfolding z3 enc_rec_def lr using lb room d by simp
  moreover have "rec_ok ?r" using d lr by (simp add: rec_ok_def)
  ultimately have "holds z3 (t + sizeof_cap_hdr + ?n) (rs @ [?r])"
    using assms(1) room len by (simp add: holds_def sizeof_cap_hdr_def)
  moreover have "stored_as m ?r" using lr lb d by (simp add: stored_as_def)
  ultimately show ?thesis using step len by blast
qed

lemma capture_loop_holds:
  "holds z t rs \<Longrightarrow> t \<le> en \<Longrightarrow> en + sizeof_cap_hdr = length z \<Longrightarrow> \<forall>m \<in> set ms. one_segment m \<Longrightarrow>
    \<exists>z' t' rs' k. capture_loop en ms (z, t) = Some (z', t') \<and> holds z' t' (rs @ rs') \<and> t' \<le> en
      \<and> length z' = length z \<and> k \<le> length ms \<and> list_all2 stored_as (take k ms) rs'
      \<and> (k < length ms \<longrightarrow> en < t' + sizeof_cap_hdr + stored_len (ms ! k))"
proof (induction ms arbitrary: z t rs)
  case Nil
  then show ?case by (intro exI [of _ z] exI [of _ t] exI [of _ "[]"] exI [of _ 0]) simp
next
  case (Cons m ms)
  show ?case
  proof (cases "t + sizeof_cap_hdr + stored_len m \<le> en")
    case False
    then show ?thesis using Cons.prems
      by (intro exI [of _ z] exI [of _ t] exI [of _ "[]"] exI [of _ 0]) simp
  next
    case True
    let ?t = "t + sizeof_cap_hdr + stored_len m"
    obtain z1 r where s: "capture_loop en (m # ms) (z, t) = capture_loop en ms (z1, ?t)"
      "holds z1 ?t (rs @ [r])" "length z1 = length z" "stored_as m r"
      using capture_step [OF Cons.prems(1) _ True Cons.prems(3), of ms] Cons.prems(4) by (meson list.set_intros(1))
    from Cons.IH [OF s(2) True] s(3) Cons.prems(3,4) obtain z' t' rs' k where
      "capture_loop en ms (z1, ?t) = Some (z', t')" "holds z' t' ((rs @ [r]) @ rs')" "t' \<le> en"
      "length z' = length z1" "k \<le> length ms" "list_all2 stored_as (take k ms) rs'"
      "k < length ms \<longrightarrow> en < t' + sizeof_cap_hdr + stored_len (ms ! k)" by auto
    then show ?thesis using s
      by (intro exI [of _ z'] exI [of _ t'] exI [of _ "r # rs'"] exI [of _ "Suc k"]) simp
  qed
qed

text \<open>A capture in progress that has stored some records.\<close>

definition capturing :: "capture \<Rightarrow> (u16 \<times> mem) list \<Rightarrow> bool" where
  "capturing cap rs \<longleftrightarrow> (case mz cap of None \<Rightarrow> False | Some z \<Rightarrow>
     cap_end cap + sizeof_cap_hdr = length z \<and> cap_tail cap \<le> cap_end cap \<and> holds z (cap_tail cap) rs
     \<and> ld16 (cap_tail cap) z = Some 0 \<and> (rs = [] \<or> used cap = cap_tail cap))"

text \<open>C24 A capture is read back: appending received packets to a capture never leaves the memory
  zone; it stores a prefix of them, stops only at a packet for which no room is left, and walking the
  zone afterwards gives what was stored before and then exactly those packets, each with its length
  and its bytes.\<close>

theorem capture_roundtrip:
  assumes "capturing cap rs" "\<forall>m \<in> set pkts. one_segment m" "cap_tail cap < cap_end cap"
  shows "\<exists>cap' rs' k. pktgen_packet_capture_bulk pkts cap = Some cap' \<and> capturing cap' (rs @ rs')
    \<and> k \<le> length pkts \<and> list_all2 stored_as (take k pkts) rs'
    \<and> (k < length pkts \<longrightarrow> cap_end cap < cap_tail cap' + sizeof_cap_hdr + stored_len (pkts ! k))
    \<and> (\<exists>z. mz cap' = Some z \<and> dump_walk z 0 = Some (rs @ rs'))"
proof -
  obtain z where z: "mz cap = Some z" "cap_end cap + sizeof_cap_hdr = length z" "cap_tail cap \<le> cap_end cap"
    "holds z (cap_tail cap) rs"
    using assms(1) by (auto simp: capturing_def split: option.splits)
  from capture_loop_holds [OF z(4,3,2) assms(2)] obtain z' t' rs' k where
    loop: "capture_loop (cap_end cap) pkts (z, cap_tail cap) = Some (z', t')" "holds z' t' (rs @ rs')"
      "t' \<le> cap_end cap" "length z' = length z" "k \<le> length pkts" "list_all2 stored_as (take k pkts) rs'"
      "k < length pkts \<longrightarrow> cap_end cap < t' + sizeof_cap_hdr + stored_len (pkts ! k)" by blast
  have room: "t' + 4 \<le> length z'" using loop z by (simp add: sizeof_cap_hdr_def)
  then obtain z2 where z2: "st16 t' 0 z' = Some z2" by (simp add: st16_def wr_def)
  then have w: "wr t' (le16 0) z' = Some z2" by (simp add: st16_def)
  then have z2': "z2 = put t' (le16 0) z'" using room by (simp add: wr_def)
  have h: "holds z2 t' (rs @ rs')" using loop(2) room unfolding z2' by (simp add: holds_def take_put length_put)
  let ?cap = "cap\<lparr>mz := Some z2, cap_tail := t', used := t'\<rparr>"
  have "pktgen_packet_capture_bulk pkts cap = Some ?cap"
    using assms(3) z(1) loop(1) z2 by (simp add: pktgen_packet_capture_bulk_def)
  moreover have "capturing ?cap (rs @ rs')"
    using h ld16_st16 [OF z2] wr_length [OF w] loop z by (simp add: capturing_def)
  moreover have "dump_walk z2 0 = Some (rs @ rs')" using dump_holds [OF h ld16_st16 [OF z2]] .
  ultimately show ?thesis using loop by (intro exI [of _ ?cap] exI [of _ rs'] exI [of _ k]) simp
qed

definition sample_frame :: "nat \<Rightarrow> mbuf" where
  "sample_frame n = \<lparr>mid = 0, mdata = map word_of_nat [0..<128], mpkt_len = word_of_nat n, mdata_len = word_of_nat n,
     mrefcnt = 1, mport = 0\<rparr>"

definition empty_capture :: "capture" where
  "empty_capture = \<lparr>mz = Some (replicate 100 0), cap_tail = 0, cap_end = 96, used = 0, cap_lcore = 1, cap_port = 0\<rparr>"

lemma capturing_empty: "capturing empty_capture []"
  by (simp add: capturing_def empty_capture_def holds_def sizeof_cap_hdr_def ld16_def mk16_def)

theorem capture_roundtrip_witness:
  "\<exists>cap' rs. pktgen_packet_capture_bulk [sample_frame 60, sample_frame 60] empty_capture = Some cap'
    \<and> capturing cap' rs \<and> length rs \<le> 2"
proof -
  have "\<forall>m \<in> set [sample_frame 60, sample_frame 60]. one_segment m"
    by (simp add: one_segment_def sample_frame_def)
  moreover have "cap_tail empty_capture < cap_end empty_capture" by (simp add: empty_capture_def)
  ultimately obtain cap' rs' k where
    "pktgen_packet_capture_bulk [sample_frame 60, sample_frame 60] empty_capture = Some cap'"
    "capturing cap' ([] @ rs')" "k \<le> length [sample_frame 60, sample_frame 60]"
    "list_all2 stored_as (take k [sample_frame 60, sample_frame 60]) rs'"
    using capture_roundtrip [OF capturing_empty] by blast
  moreover from this have "length rs' \<le> 2" by (auto dest!: list_all2_lengthD)
  ultimately show ?thesis by auto
qed

text \<open>Switching capture on gives an empty capture on one lcore of the port, and switching it off
  releases it and clears the flag.\<close>

lemma capture_on_starts:
  assumes "capture_on l rxcnt lids sock (i, caps) = Some (Some Capturing, i', caps')"
  shows "\<exists>lid. rx_lcore (pid i) lids = Some lid \<and> capturing (caps' ! sock lid) []
    \<and> cap_lcore (caps' ! sock lid) = lid \<and> cap_port (caps' ! sock lid) = pid i
    \<and> i' = pktgen_set_port_flags i CAPTURE_PKTS \<and> length caps' = length caps"
proof -
  obtain lid z z1 z2 where lid: "rx_lcore (pid i) lids = Some lid" "sock lid < length caps" "mz (caps ! sock lid) = Some z"
    and ms: "memset 0 0 sizeof_cap_hdr z = Some z1" "memset (length z - sizeof_cap_hdr) 0 sizeof_cap_hdr z1 = Some z2"
    and r: "i' = pktgen_set_port_flags i CAPTURE_PKTS" "caps' = caps[sock lid := (caps ! sock lid)\<lparr>used := 0,
      cap_lcore := lid, cap_port := pid i, cap_tail := 0, cap_end := length z - sizeof_cap_hdr, mz := Some z2\<rparr>]"
    using assms by (auto simp: capture_on_def bind_eq_Some_iff Let_def split: if_splits option.splits)
  have w: "wr 0 (replicate 4 0) z = Some z1" "wr (length z - 4) (replicate 4 0) z1 = Some z2"
    using ms by (simp_all add: memset_def sizeof_cap_hdr_def)
  have len: "4 \<le> length z" "length z1 = length z" "length z2 = length z"
    using wr_in_range [OF w(1)] wr_length [OF w(1)] wr_length [OF w(2)] by simp_all
  have "z2 ! k = 0" if "k < 2" for k
    using that len by (simp add: wr_nth [OF w(2)] wr_nth [OF w(1)])
  from this [of 0] this [of 1] have "ld16 0 z2 = Some 0" using len by (simp add: ld16_def mk16_def)
  then show ?thesis using lid r len by (simp add: capturing_def holds_def sizeof_cap_hdr_def)
qed

lemma capture_off_stops:
  assumes "capture_off l rxcnt (i, caps) = Some (Some (Dumped out), i', caps')"
  shows "i' = pktgen_clr_port_flags i CAPTURE_PKTS
    \<and> (\<exists>k < length caps. cap_port (caps ! k) = pid i \<and> cap_lcore (caps' ! k) = max_lcore l
        \<and> cap_port (caps' ! k) = max_port l \<and> used (caps' ! k) = 0)"
  using assms by (fastforce simp: capture_off_def bind_eq_Some_iff Let_def find_Some_iff split: if_splits option.splits)

text \<open>A packet in two segments is copied past its place: the copy uses the length of the whole packet,
  the room is computed from the first segment.\<close>

lemma capture_overruns:
  "pktgen_packet_capture_bulk [(sample_frame 60)\<lparr>mpkt_len := 120\<rparr>] empty_capture = None"
  by (simp add: pktgen_packet_capture_bulk_def empty_capture_def sample_frame_def stored_len_def sizeof_cap_hdr_def
      st16_def wr_def rd_def length_put)

end
