(* ===== verification/Sender.thy ===== *)
theory Sender
  imports PacketCtor Pages RndBits Flows Capture
begin

text \<open>
  Transmission (\<open>app/pktgen.c\<close>, \<open>lib/common/mbuf.h\<close>): packet buffers wait in the table
  of their queue until a burst is sent; a burst is handed to the device again and again until
  the device has taken all of it.  The device and the clock are not part of the program: an
  environment says how many packets the device takes at each call and what the time stamp
  counter reads.  A burst loop that never ends, and an access outside a buffer, are None.

  The state of one port and one lcore is a \<open>world\<close>: the program's globals, the port, the
  screen, the flow counters, the generator's state, the buffers of the pools, what the device
  and the taps were given so far, in order, the buffers given back, and the packet capture of
  the lcore's socket.
\<close>

section \<open>Environment and state\<close>

record env =
  room :: "nat \<Rightarrow> nat"
  tsc :: "nat \<Rightarrow> u64"
  ipv4_cksum :: "mem \<Rightarrow> u16"
  udptcp_cksum :: "mem \<Rightarrow> mem \<Rightarrow> u16"

datatype pool = Tx_mp | Range_mp | Seq_mp | Pcap_mp | Special_mp

record world =
  wglob :: glob
  scr :: scrn
  port :: port_info
  cnts :: flow_state
  xor_state :: u64
  statics :: range_statics
  enb_cnt :: u32
  pools :: "nat \<Rightarrow> pool \<Rightarrow> mbuf list"
  first_tx :: bool
  test_dur :: u32
  total_dur :: u32
  alarm :: "u32 option"
  tx_calls :: nat
  tsc_reads :: nat
  wire :: "(nat \<times> mbuf) list"
  tapped :: "mem list"
  rx_tapped :: "mem list"
  freed :: "nat list"
  wcap :: capture

text \<open>\<open>rte_eth_tx_burst\<close>: the device takes the first packets, as many as it has room for.\<close>

definition rte_eth_tx_burst :: "env \<Rightarrow> nat \<Rightarrow> mbuf list \<Rightarrow> world \<Rightarrow> nat \<times> world" where
  "rte_eth_tx_burst e qid pkts w = (let n = min (room e (tx_calls w)) (length pkts)
     in (n, w\<lparr>tx_calls := tx_calls w + 1, wire := wire w @ map (Pair qid) (take n pkts)\<rparr>))"

definition rte_rdtsc_precise :: "env \<Rightarrow> world \<Rightarrow> u64 \<times> world" where
  "rte_rdtsc_precise e w = (tsc e (tsc_reads w), w\<lparr>tsc_reads := tsc_reads w + 1\<rparr>)"

section \<open>Buffers\<close>

definition pktmbuf_reset :: "mbuf \<Rightarrow> mbuf" where
  "pktmbuf_reset m = m\<lparr>mport := 0xff, mdata_len := ucast (mpkt_len m)\<rparr>"

text \<open>One unrolled step: \<open>rte_mbuf_refcnt_set(mbufs[idx], 1); pktmbuf_reset(mbufs[idx]); idx++\<close>.\<close>

definition reset_at :: "nat \<times> mbuf list \<Rightarrow> (nat \<times> mbuf list) option" where
  "reset_at s = (case s of (idx, ms) \<Rightarrow> if idx < length ms
     then Some (idx + 1, ms[idx := pktmbuf_reset ((ms ! idx)\<lparr>mrefcnt := 1\<rparr>)]) else None)"

primrec resets :: "nat \<Rightarrow> nat \<times> mbuf list \<Rightarrow> (nat \<times> mbuf list) option" where
  "resets 0 s = Some s"
| "resets (Suc n) s = Option.bind (reset_at s) (resets n)"

lemma resets_len:
  "resets n s = Some s' \<Longrightarrow> fst s' = fst s + n \<and> length (snd s') = length (snd s) \<and> (0 < n \<longrightarrow> fst s' \<le> length (snd s))"
proof (induction n arbitrary: s)
  case (Suc n)
  then obtain t where t: "reset_at s = Some t" "resets n t = Some s'" by (auto simp: bind_eq_Some_iff)
  then have "fst t = fst s + 1" "length (snd t) = length (snd s)" "fst s < length (snd s)"
    by (auto simp: reset_at_def split: prod.splits if_splits)
  with Suc.IH [OF t(2)] show ?case by (cases n) (use t in auto)
qed simp

text \<open>The loop of Duff's device from its test on: four steps a turn.\<close>

function duff_loop :: "nat \<Rightarrow> nat \<times> mbuf list \<Rightarrow> mbuf list option" where
  "duff_loop count s = (if fst s = count then Some (snd s)
     else case resets 4 s of None \<Rightarrow> None | Some s' \<Rightarrow> duff_loop count s')"
  by pat_completeness auto

termination by (relation "measure (\<lambda>(count, s). length (snd s) - fst s)") (auto dest!: resets_len)

declare duff_loop.simps [simp del]

definition duff_device :: "nat \<Rightarrow> mbuf list \<Rightarrow> mbuf list option" where
  "duff_device count ms = (case resets (count mod 4) (0, ms) of None \<Rightarrow> None | Some s \<Rightarrow> duff_loop count s)"

text \<open>\<open>pg_pktmbuf_alloc_bulk\<close>: all or nothing from the pool; False is a nonzero return code.\<close>

definition pg_pktmbuf_alloc_bulk :: "nat \<Rightarrow> pool \<Rightarrow> nat \<Rightarrow> world \<Rightarrow> ((mbuf list option) \<times> world) option" where
  "pg_pktmbuf_alloc_bulk qid mp count w =
    (if count \<le> length (pools w qid mp) then do {
       ms \<leftarrow> duff_device count (take count (pools w qid mp));
       Some (Some ms, w\<lparr>pools := (pools w)(qid := (pools w qid)(mp := drop count (pools w qid mp)))\<rparr>) }
     else Some (None, w))"

section \<open>Counting what is sent\<close>

definition ETH_HDR_LEN :: nat where "ETH_HDR_LEN = 14"
definition IPV4_HDR_LEN :: nat where "IPV4_HDR_LEN = 20"
definition UDP_HDR_LEN :: nat where "UDP_HDR_LEN = 8"
definition GTPU_HDR_LEN :: nat where "GTPU_HDR_LEN = 8"
definition IP_PROTO_UDP :: u8 where "IP_PROTO_UDP = 17"
definition UDP_PORT_GTPU :: u16 where "UDP_PORT_GTPU = 2152"
definition GTPU_OFFSET :: nat where "GTPU_OFFSET = 50"

lemmas hdr_lens = ETH_HDR_LEN_def IPV4_HDR_LEN_def UDP_HDR_LEN_def GTPU_HDR_LEN_def GTPU_OFFSET_def

definition pktgen_packet_type :: "mbuf \<Rightarrow> u16 option" where
  "pktgen_packet_type m = map_option ntohs (ld16 (offsetof ether_hdr ''ether_type'') (mdata m))"

text \<open>Where the IP header of the subscriber is; None is the NULL pointer.\<close>

definition sent_ip_hdr :: "glob \<Rightarrow> nat option" where
  "sent_ip_hdr g =
    (if enable_gtpu g \<noteq> 0 then
       if traffic_gen_as g = IL_TRAFFIC_GEN
       then Some (ETH_HDR_LEN + IPV4_HDR_LEN + UDP_HDR_LEN + GTPU_HDR_LEN)
       else if traffic_gen_as g = IL_TRAFFIC_RESP \<or> traffic_gen_as g = IL_TRAFFIC_RESP_AS_REF
       then Some ETH_HDR_LEN else None
     else Some ETH_HDR_LEN)"

definition pktgen_inc_tx_count :: "mbuf \<Rightarrow> nat \<Rightarrow> world \<Rightarrow> world option" where
  "pktgen_inc_tx_count m qid w = do {
     pType \<leftarrow> pktgen_packet_type m;
     if pType = ETHER_TYPE_IPv4 then do {
       ip_hdr \<leftarrow> sent_ip_hdr (wglob w);
       a \<leftarrow> ld32 (ip_hdr + offsetof ipHdr (if traffic_gen_as (wglob w) = IL_TRAFFIC_GEN then ''src'' else ''dst'')) (mdata m);
       (_, s) \<leftarrow> store_packet_cnt (wglob w) (ntohl a) (unat (pid (port w))) qid True (cnts w);
       Some (w\<lparr>cnts := s\<rparr>) }
     else Some w }"

fun inc_tx_counts :: "mbuf list \<Rightarrow> nat \<Rightarrow> world \<Rightarrow> world option" where
  "inc_tx_counts [] qid w = Some w"
| "inc_tx_counts (m # ms) qid w = do { w \<leftarrow> pktgen_inc_tx_count m qid w; inc_tx_counts ms qid w }"

section \<open>Bursts\<close>

text \<open>The loop that all senders share: prepare the packets that are left, hand them to the device,
  and treat those that it took.\<close>

partial_function (option) burst_loop ::
  "(mbuf list \<Rightarrow> world \<Rightarrow> (mbuf list \<times> world) option) \<Rightarrow> (mbuf list \<Rightarrow> world \<Rightarrow> world option)
    \<Rightarrow> env \<Rightarrow> nat \<Rightarrow> mbuf list \<Rightarrow> world \<Rightarrow> world option" where
  "burst_loop prep after e qid pkts w =
    (if pkts = [] then Some w
     else Option.bind (prep pkts w) (\<lambda>(pkts, w).
       let (ret, w) = rte_eth_tx_burst e qid pkts w in
       Option.bind (after (take ret pkts) w) (\<lambda>w.
       burst_loop prep after e qid (drop ret pkts) w)))"

definition no_prep :: "mbuf list \<Rightarrow> world \<Rightarrow> (mbuf list \<times> world) option" where
  "no_prep pkts w = Some (pkts, w)"

definition no_after :: "mbuf list \<Rightarrow> world \<Rightarrow> world option" where
  "no_after pkts w = Some w"

text \<open>A write to a tap gets the first \<open>pkt_len\<close> bytes of the packet.\<close>

definition tap_bytes :: "mbuf \<Rightarrow> mem" where
  "tap_bytes m = take (unat (mpkt_len m)) (mdata m)"

definition pktgen_do_tx_tap :: "mbuf list \<Rightarrow> world \<Rightarrow> world option" where
  "pktgen_do_tx_tap pkts w = Some (w\<lparr>tapped := tapped w @ map tap_bytes pkts\<rparr>)"

text \<open>The first packet starts the duration timer.\<close>

definition start_timer :: "world \<Rightarrow> world" where
  "start_timer w = (if first_tx w then
     (case register_for_timeout (test_dur w) (total_dur w) of
        (t, a) \<Rightarrow> w\<lparr>total_dur := t, alarm := (case a of None \<Rightarrow> alarm w | Some s \<Rightarrow> Some s), first_tx := False\<rparr>)
     else w)"

definition count_after :: "nat \<Rightarrow> mbuf list \<Rightarrow> world \<Rightarrow> world option" where
  "count_after qid pkts w = inc_tx_counts pkts qid (start_timer w)"

text \<open>Emptying the table of a queue: \<open>cnt = mtab->len; mtab->len = 0\<close>.\<close>

definition take_table :: "nat \<Rightarrow> world \<Rightarrow> (mbuf list \<times> world) option" where
  "take_table qid w = (let i = port w in
     if qid < length (q i) then Some (tx_mbufs (q i ! qid),
       w\<lparr>port := i\<lparr>q := (q i)[qid := (q i ! qid)\<lparr>tx_mbufs := []\<rparr>]\<rparr>\<rparr>) else None)"

definition send_burst_fast :: "env \<Rightarrow> nat \<Rightarrow> world \<Rightarrow> world option" where
  "send_burst_fast e qid w = do {
     (pkts, w) \<leftarrow> take_table qid w;
     if has_flag (port_flags (port w)) PROCESS_TX_TAP_PKTS
     then burst_loop no_prep pktgen_do_tx_tap e qid pkts w
     else burst_loop no_prep (count_after qid) e qid pkts w }"

definition random_prep :: "mbuf list \<Rightarrow> world \<Rightarrow> (mbuf list \<times> world) option" where
  "random_prep pkts w = do {
     (ds, s) \<leftarrow> pktgen_rnd_bits_apply (port w) (map mdata pkts) None (xor_state w);
     Some (map2 (\<lambda>m d. m\<lparr>mdata := d\<rparr>) pkts ds, w\<lparr>xor_state := s\<rparr>) }"

definition send_burst_random :: "env \<Rightarrow> nat \<Rightarrow> world \<Rightarrow> world option" where
  "send_burst_random e qid w = do {
     (pkts, w) \<leftarrow> take_table qid w;
     if has_flag (port_flags (port w)) PROCESS_TX_TAP_PKTS
     then burst_loop random_prep pktgen_do_tx_tap e qid pkts w
     else burst_loop random_prep no_after e qid pkts w }"

section \<open>Latency marks\<close>

definition LATENCY_MAGIC :: u16 where "LATENCY_MAGIC = push_bit 8 76 + 121"

text \<open>The offset of the mark: behind the headers that the single packet has, aligned to eight.
  Packets start at a multiple of eight.\<close>

definition pktgen_latency_pointer :: "port_info \<Rightarrow> nat option" where
  "pktgen_latency_pointer i = (if SINGLE_PKT < length (seq_pkt i) then
     let sp = seq_pkt i ! SINGLE_PKT;
         n = sizeof ether_hdr + (if ethType sp = ETHER_TYPE_IPv4 then sizeof ipHdr else sizeof ipv6Hdr)
           + (if ipProto sp = ucast PG_IPPROTO_UDP then sizeof udpHdr else sizeof tcpHdr)
     in Some ((n + 7) div 8 * 8) else None)"

definition st64 :: "nat \<Rightarrow> u64 \<Rightarrow> mem \<Rightarrow> mem option" where
  "st64 off v m = do { m \<leftarrow> st32 off (ucast v) m; st32 (off + 4) (ucast (drop_bit 32 v)) m }"

definition ld64 :: "nat \<Rightarrow> mem \<Rightarrow> u64 option" where
  "ld64 off m = do { lo \<leftarrow> ld32 off m; hi \<leftarrow> ld32 (off + 4) m; Some (ucast lo OR push_bit 32 (ucast hi)) }"

fun pktgen_latency_apply :: "env \<Rightarrow> mbuf list \<Rightarrow> world \<Rightarrow> (mbuf list \<times> world) option" where
  "pktgen_latency_apply e [] w = Some ([], w)"
| "pktgen_latency_apply e (m # ms) w = do {
     off \<leftarrow> pktgen_latency_pointer (port w);
     let (t, w) = rte_rdtsc_precise e w;
     d \<leftarrow> st64 off t (mdata m);
     d \<leftarrow> st16 (off + 8) LATENCY_MAGIC d;
     (ms, w) \<leftarrow> pktgen_latency_apply e ms w;
     Some (m\<lparr>mdata := d\<rparr> # ms, w) }"

definition send_burst_latency :: "env \<Rightarrow> nat \<Rightarrow> world \<Rightarrow> world option" where
  "send_burst_latency e qid w = do {
     (pkts, w) \<leftarrow> take_table qid w;
     burst_loop (pktgen_latency_apply e) no_after e qid pkts w }"

text \<open>The receiving side of the latency test.\<close>

fun recv_marks :: "env \<Rightarrow> mbuf list \<Rightarrow> world \<Rightarrow> world option" where
  "recv_marks e [] w = Some w"
| "recv_marks e (m # ms) w = do {
     off \<leftarrow> pktgen_latency_pointer (port w);
     magic \<leftarrow> ld16 (off + 8) (mdata m);
     if magic = LATENCY_MAGIC then do {
       let (t, w) = rte_rdtsc_precise e w;
       ts \<leftarrow> ld64 off (mdata m);
       let lat = t - ts;
       let i = (port w)\<lparr>avg_latency := avg_latency (port w) + lat\<rparr>;
       let i = (if lat > jitter_threshold_clks i then i\<lparr>jitter_count := jitter_count i + 1\<rparr> else i);
       recv_marks e ms (w\<lparr>port := i\<rparr>) }
     else recv_marks e ms (w\<lparr>port := (port w)\<lparr>magic_errors := magic_errors (port w) + 1\<rparr>\<rparr>) }"

definition pktgen_recv_latency :: "env \<Rightarrow> mbuf list \<Rightarrow> world \<Rightarrow> world option" where
  "pktgen_recv_latency e pkts w =
    (if has_flag (port_flags (port w)) SEND_LATENCY_PKTS then do {
       w \<leftarrow> recv_marks e pkts w;
       Some (w\<lparr>port := (port w)\<lparr>latency_nb_pkts := latency_nb_pkts (port w) + word_of_nat (length pkts)\<rparr>\<rparr>) }
     else Some w)"

section \<open>Sending\<close>

definition pktgen_send_burst :: "env \<Rightarrow> nat \<Rightarrow> world \<Rightarrow> world option" where
  "pktgen_send_burst e qid w =
    (if has_flag (port_flags (port w)) SEND_RANDOM_PKTS then send_burst_random e qid w
     else if has_flag (port_flags (port w)) SEND_LATENCY_PKTS then send_burst_latency e qid w
     else send_burst_fast e qid w)"

text \<open>The table of a queue has \<open>DEFAULT_PKT_BURST\<close> places.\<close>

definition pktgen_send_mbuf :: "env \<Rightarrow> mbuf \<Rightarrow> nat \<Rightarrow> world \<Rightarrow> world option" where
  "pktgen_send_mbuf e m qid w = do {
     let i = port w;
     guard (qid < length (q i) \<and> length (tx_mbufs (q i ! qid)) < unat DEFAULT_PKT_BURST);
     let ms = tx_mbufs (q i ! qid) @ [m];
     let w = w\<lparr>port := i\<lparr>q := (q i)[qid := (q i ! qid)\<lparr>tx_mbufs := ms\<rparr>]\<rparr>\<rparr>;
     if length ms \<ge> unat (tx_burst i) then pktgen_send_burst e qid w else Some w }"

definition pktgen_tx_flush :: "env \<Rightarrow> nat \<Rightarrow> world \<Rightarrow> world option" where
  "pktgen_tx_flush e qid w = do {
     w \<leftarrow> pktgen_send_burst e qid w;
     i \<leftarrow> pktgen_clr_q_flags (port w) qid DO_TX_FLUSH;
     Some (w\<lparr>port := i\<rparr>) }"

section \<open>Special packets\<close>

definition ETH_HW_TYPE :: u16 where "ETH_HW_TYPE = 1"

text \<open>\<open>rte_pktmbuf_alloc\<close> from the pool of special packets: None when the pool is empty.\<close>

definition alloc_special :: "nat \<Rightarrow> world \<Rightarrow> mbuf option \<times> world" where
  "alloc_special qid w = (case pools w qid Special_mp of [] \<Rightarrow> (None, w)
     | m # ms \<Rightarrow> (Some m, w\<lparr>pools := (pools w)(qid := (pools w qid)(Special_mp := ms))\<rparr>))"

definition flush_queue0 :: "world \<Rightarrow> world option" where
  "flush_queue0 w = map_option (\<lambda>i. w\<lparr>port := i\<rparr>) (pktgen_set_q_flags (port w) 0 DO_TX_FLUSH)"

definition arp_image :: "u32 \<Rightarrow> pkt_seq \<Rightarrow> mem \<Rightarrow> mem option" where
  "arp_image ty p d = do {
     let arp = sizeof ether_hdr;
     d \<leftarrow> memset (offsetof ether_hdr ''d_addr'') 0xFF 6 d;
     d \<leftarrow> wr (offsetof ether_hdr ''s_addr'') (eth_src_addr p) d;
     d \<leftarrow> st16 (offsetof ether_hdr ''ether_type'') (htons ETHER_TYPE_ARP) d;
     d \<leftarrow> memset arp 0 (sizeof arpPkt) d;
     d \<leftarrow> wr (arp + offsetof arpPkt ''sha'') (eth_src_addr p) d;
     d \<leftarrow> st32 (arp + offsetof arpPkt ''spa'') (htonl (s_addr (ip_src_addr p))) d;
     d \<leftarrow> (if ty = GRATUITOUS_ARP then do {
             d \<leftarrow> wr (arp + offsetof arpPkt ''tha'') (eth_src_addr p) d;
             st32 (arp + offsetof arpPkt ''tpa'') (htonl (s_addr (ip_src_addr p))) d }
           else do {
             d \<leftarrow> memset (arp + offsetof arpPkt ''tha'') 0 6 d;
             st32 (arp + offsetof arpPkt ''tpa'') (htonl (s_addr (ip_dst_addr p))) d });
     d \<leftarrow> st16 (arp + offsetof arpPkt ''hrd'') (htons ETH_HW_TYPE) d;
     d \<leftarrow> st16 (arp + offsetof arpPkt ''pro'') (htons ETHER_TYPE_IPv4) d;
     d \<leftarrow> st8 (arp + offsetof arpPkt ''hln'') 6 d;
     d \<leftarrow> st8 (arp + offsetof arpPkt ''pln'') 4 d;
     st16 (arp + offsetof arpPkt ''op'') (htons ARP_REQUEST) d }"

definition pktgen_send_arp :: "env \<Rightarrow> u32 \<Rightarrow> nat \<Rightarrow> world \<Rightarrow> world option" where
  "pktgen_send_arp e ty seq_idx w = do {
     guard (seq_idx < length (seq_pkt (port w)));
     let (m, w) = alloc_special 0 w;
     case m of None \<Rightarrow> Some w
     | Some m \<Rightarrow> do {
         d \<leftarrow> arp_image ty (seq_pkt (port w) ! seq_idx) (mdata m);
         w \<leftarrow> pktgen_send_mbuf e (m\<lparr>mdata := d, mpkt_len := 60, mdata_len := 60\<rparr>) 0 w;
         flush_queue0 w } }"

text \<open>The constructor of a template, in the world; its error message is dropped.\<close>

definition world_ctor :: "nat \<Rightarrow> int \<Rightarrow> world \<Rightarrow> world option" where
  "world_ctor k ty w = do {
     (err, g, i) \<leftarrow> pktgen_packet_ctor (wglob w) (port w) k ty;
     Some (w\<lparr>wglob := g, port := i\<rparr>) }"

definition pktgen_send_ping4 :: "env \<Rightarrow> nat \<Rightarrow> world \<Rightarrow> world option" where
  "pktgen_send_ping4 e seq_idx w = do {
     guard (seq_idx < length (seq_pkt (port w)) \<and> PING_PKT < length (seq_pkt (port w)));
     let (m, w) = alloc_special 0 w;
     case m of None \<Rightarrow> Some w
     | Some m \<Rightarrow> do {
         let i = port w;
         let w = w\<lparr>port := i\<lparr>seq_pkt := (seq_pkt i)[PING_PKT := seq_pkt i ! seq_idx]\<rparr>\<rparr>;
         w \<leftarrow> world_ctor PING_PKT 8 w;
         let p = seq_pkt (port w) ! PING_PKT;
         bs \<leftarrow> rd 0 (unat (pktSize p)) (hdr p);
         d \<leftarrow> wr 0 bs (mdata m);
         w \<leftarrow> pktgen_send_mbuf e (m\<lparr>mdata := d, mpkt_len := ucast (pktSize p), mdata_len := pktSize p\<rparr>) 0 w;
         flush_queue0 w } }"

text \<open>The requests of one template; the IPv6 ping is compiled out.\<close>

definition send_requests :: "env \<Rightarrow> u32 \<Rightarrow> nat \<Rightarrow> world \<Rightarrow> world option" where
  "send_requests e fl s w = do {
     w \<leftarrow> (if has_flag fl SEND_GRATUITOUS_ARP then pktgen_send_arp e GRATUITOUS_ARP s w else Some w);
     w \<leftarrow> (if has_flag fl SEND_ARP_REQUEST then pktgen_send_arp e 0 s w else Some w);
     if has_flag fl SEND_PING4_REQUEST then pktgen_send_ping4 e s w else Some w }"

text \<open>The bound \<open>seqCnt\<close> of the loop is not changed by its body.\<close>

fun send_seq_requests :: "env \<Rightarrow> u32 \<Rightarrow> nat list \<Rightarrow> world \<Rightarrow> world option" where
  "send_seq_requests e fl [] w = Some w"
| "send_seq_requests e fl (s # ss) w = do { w \<leftarrow> send_requests e fl s w; send_seq_requests e fl ss w }"

definition pktgen_send_special :: "env \<Rightarrow> u32 \<Rightarrow> world \<Rightarrow> world option" where
  "pktgen_send_special e fl w = do {
     w \<leftarrow> send_seq_requests e fl [0..<unat (seqCnt (port w))] w;
     w \<leftarrow> send_requests e fl SINGLE_PKT w;
     Some (w\<lparr>port := pktgen_clr_port_flags (port w) SEND_ARP_PING_REQUESTS\<rparr>) }"

section \<open>Encapsulation\<close>

definition encap_gtpu_hdr :: "glob \<Rightarrow> pkt_seq \<Rightarrow> mbuf \<Rightarrow> mbuf option" where
  "encap_gtpu_hdr g p m = do {
     let teid = s1u_teid (gtpu_info g) + (s_addr (ip_src_addr p) - start_ip g);
     let tpdu_len = mdata_len m - word_of_nat ETH_HDR_LEN;
     let gtpu = ETH_HDR_LEN + IPV4_HDR_LEN + UDP_HDR_LEN;
     d \<leftarrow> st8 (gtpu + offsetof gtpuHdr ''version_flags'') (GTPu_VERSION OR GTPu_PT_FLAG) (mdata m);
     d \<leftarrow> st8 (gtpu + offsetof gtpuHdr ''msg_type'') 0xff d;
     d \<leftarrow> st32 (gtpu + offsetof gtpuHdr ''teid'') (htonl teid) d;
     d \<leftarrow> st16 (gtpu + offsetof gtpuHdr ''tot_len'') (htons tpdu_len) d;
     Some (m\<lparr>mdata := d\<rparr>) }"

text \<open>The static \<open>enb_cnt\<close> walks through the base stations.\<close>

definition next_enb :: "gtpu_params \<Rightarrow> u32 \<Rightarrow> u32" where
  "next_enb i c = (let c = c + 1 in if c > no_of_ue i - 1 \<or> c > no_of_enb i - 1 then 0 else c)"

definition construct_ipv4_hdr :: "glob \<Rightarrow> u32 \<times> mbuf \<Rightarrow> (u32 \<times> mbuf) option" where
  "construct_ipv4_hdr g s = (case s of (enb, m) \<Rightarrow> do {
     let len = mdata_len m - word_of_nat ETH_HDR_LEN;
     let ip = ETH_HDR_LEN;
     d \<leftarrow> st8 (ip + offsetof ipHdr ''vl'') 0x45 (mdata m);
     d \<leftarrow> st8 (ip + offsetof ipHdr ''tos'') 0 d;
     d \<leftarrow> st16 (ip + offsetof ipHdr ''ident'') 0x1513 d;
     d \<leftarrow> st16 (ip + offsetof ipHdr ''ffrag'') 0 d;
     d \<leftarrow> st8 (ip + offsetof ipHdr ''ttl'') 64 d;
     d \<leftarrow> st8 (ip + offsetof ipHdr ''proto'') IP_PROTO_UDP d;
     d \<leftarrow> st16 (ip + offsetof ipHdr ''tlen'') (htons len) d;
     d \<leftarrow> st32 (ip + offsetof ipHdr ''src'') (htonl (enb_start_ip (gtpu_info g) + enb)) d;
     let enb = next_enb (gtpu_info g) enb;
     d \<leftarrow> st32 (ip + offsetof ipHdr ''dst'') (s1u_sgw_ip (gtpu_info g)) d;
     d \<leftarrow> st16 (ip + offsetof ipHdr ''cksum'') 0 d;
     Some (enb, m\<lparr>mdata := d\<rparr>) })"

definition construct_udp_hdr :: "mbuf \<Rightarrow> mbuf option" where
  "construct_udp_hdr m = do {
     let len = mdata_len m - word_of_nat ETH_HDR_LEN - word_of_nat IPV4_HDR_LEN;
     let udp = ETH_HDR_LEN + IPV4_HDR_LEN;
     d \<leftarrow> st16 (udp + offsetof udpHdr ''sport'') (htons UDP_PORT_GTPU) (mdata m);
     d \<leftarrow> st16 (udp + offsetof udpHdr ''dport'') (htons UDP_PORT_GTPU) d;
     d \<leftarrow> st16 (udp + offsetof udpHdr ''len'') (htons len) d;
     d \<leftarrow> st16 (udp + offsetof udpHdr ''cksum'') 0 d;
     Some (m\<lparr>mdata := d\<rparr>) }"

definition construct_ether_hdr :: "pkt_seq \<Rightarrow> mbuf \<Rightarrow> mbuf option" where
  "construct_ether_hdr p m = do {
     h \<leftarrow> rd 0 (sizeof ether_hdr) (hdr p);
     d \<leftarrow> wr 0 h (mdata m);
     Some (m\<lparr>mdata := d\<rparr>) }"

definition gtpu_encap :: "glob \<Rightarrow> pkt_seq \<Rightarrow> u32 \<times> mbuf \<Rightarrow> (u32 \<times> mbuf) option" where
  "gtpu_encap g p s = do {
     m \<leftarrow> encap_gtpu_hdr g p (snd s);
     (enb, m) \<leftarrow> construct_ipv4_hdr g (fst s, m);
     m \<leftarrow> construct_udp_hdr m;
     m \<leftarrow> construct_ether_hdr p m;
     Some (enb, m) }"

definition set_checksum :: "env \<Rightarrow> mbuf \<Rightarrow> mbuf option" where
  "set_checksum e m = do {
     let ip = ETH_HDR_LEN;
     let udp = ETH_HDR_LEN + IPV4_HDR_LEN;
     d \<leftarrow> st16 (ip + offsetof ipHdr ''cksum'') (ipv4_cksum e (drop ip (mdata m))) (mdata m);
     d \<leftarrow> st16 (udp + offsetof udpHdr ''cksum'') (udptcp_cksum e (drop ip d) (drop udp d)) d;
     Some (m\<lparr>mdata := d\<rparr>) }"

section \<open>Filling the pools\<close>

definition set_lens :: "pkt_seq \<Rightarrow> mbuf \<Rightarrow> mbuf" where
  "set_lens p m = m\<lparr>mpkt_len := ucast (pktSize p), mdata_len := pktSize p\<rparr>"

text \<open>\<open>rte_memcpy\<close> of the image of a template into a buffer.\<close>

definition copy_hdr :: "pkt_seq \<Rightarrow> mbuf \<Rightarrow> mbuf option" where
  "copy_hdr p m = do {
     bs \<leftarrow> rd 0 (unat MAX_PKT_SIZE) (hdr p);
     d \<leftarrow> wr 0 bs (mdata m);
     Some (m\<lparr>mdata := d\<rparr>) }"

definition setup_single :: "mbuf \<Rightarrow> world \<Rightarrow> (mbuf \<times> world) option" where
  "setup_single m w = do {
     w \<leftarrow> world_ctor SINGLE_PKT (- 1) w;
     let p = seq_pkt (port w) ! SINGLE_PKT;
     m \<leftarrow> copy_hdr p m;
     Some (set_lens p m, w) }"

definition setup_range :: "env \<Rightarrow> mbuf \<Rightarrow> world \<Rightarrow> (mbuf \<times> world) option" where
  "setup_range e m w = do {
     let i = port w;
     guard (RANGE_PKT < length (seq_pkt i));
     let (msg, st, p) = pktgen_range_ctor (range i) (statics w, seq_pkt i ! RANGE_PKT);
     let w = w\<lparr>statics := st, port := i\<lparr>seq_pkt := (seq_pkt i)[RANGE_PKT := p]\<rparr>\<rparr>;
     w \<leftarrow> world_ctor RANGE_PKT (- 1) w;
     let p = seq_pkt (port w) ! RANGE_PKT;
     let m = set_lens p m;
     if gtpu_gen (wglob w) then do {
       (enb, m) \<leftarrow> gtpu_encap (wglob w) p (enb_cnt w, m);
       bs \<leftarrow> rd (offsetof pkt_hdr ''u'') (unat MAX_PKT_SIZE - GTPU_OFFSET) (hdr p);
       d \<leftarrow> wr GTPU_OFFSET bs (mdata m);
       m \<leftarrow> set_checksum e (m\<lparr>mdata := d\<rparr>);
       Some (m, w\<lparr>enb_cnt := enb\<rparr>) }
     else do { m \<leftarrow> copy_hdr p m; Some (m, w) } }"

text \<open>The next position in the sequence.\<close>

definition advance_seq :: "port_info \<Rightarrow> port_info" where
  "advance_seq i = (let k = seqIdx i + 1 in i\<lparr>seqIdx := if k \<ge> seqCnt i then 0 else k\<rparr>)"

text \<open>With the GUI the loop looks for the next template that is enabled.  It never ends when
  none is.\<close>

partial_function (option) setup_seq_gui :: "mbuf \<Rightarrow> world \<Rightarrow> (mbuf \<times> world) option" where
  "setup_seq_gui m w =
    (if seqIdx (port w) < seqCnt (port w) then
       let k = unat (seqIdx (port w)); w = w\<lparr>port := advance_seq (port w)\<rparr> in
       if k < length (seq_pkt (port w)) then
         if seq_enabled (seq_pkt (port w) ! k) \<noteq> 0 then
           Option.bind (world_ctor (unat (seqIdx (port w))) (- 1) w) (\<lambda>w.
           Option.bind (copy_hdr (seq_pkt (port w) ! k) m) (\<lambda>m.
           Some (set_lens (seq_pkt (port w) ! k) m, w)))
         else setup_seq_gui m w
       else None
     else Some (m, w))"

definition setup_seq :: "mbuf \<Rightarrow> world \<Rightarrow> (mbuf \<times> world) option" where
  "setup_seq m w =
    (if is_gui_running (wglob w) then setup_seq_gui m w
     else do {
       let k = unat (seqIdx (port w));
       w \<leftarrow> world_ctor k (- 1) w;
       let p = seq_pkt (port w) ! k;
       m \<leftarrow> copy_hdr p m;
       Some (set_lens p m, w\<lparr>port := advance_seq (port w)\<rparr>) })"

definition pktgen_setup_cb :: "env \<Rightarrow> pool \<Rightarrow> mbuf \<Rightarrow> world \<Rightarrow> (mbuf \<times> world) option" where
  "pktgen_setup_cb e mp m w = (case mp of Tx_mp \<Rightarrow> setup_single m w | Range_mp \<Rightarrow> setup_range e m w
     | Seq_mp \<Rightarrow> setup_seq m w | _ \<Rightarrow> Some (m, w))"

text \<open>\<open>rte_mempool_obj_iter\<close> calls it on every buffer of the pool.\<close>

fun setup_all :: "env \<Rightarrow> pool \<Rightarrow> mbuf list \<Rightarrow> world \<Rightarrow> (mbuf list \<times> world) option" where
  "setup_all e mp [] w = Some ([], w)"
| "setup_all e mp (m # ms) w = do {
     (m, w) \<leftarrow> pktgen_setup_cb e mp m w;
     (ms, w) \<leftarrow> setup_all e mp ms w;
     Some (m # ms, w) }"

definition pktgen_setup_packets :: "env \<Rightarrow> pool \<Rightarrow> nat \<Rightarrow> world \<Rightarrow> world option" where
  "pktgen_setup_packets e mp qid w = do {
     i \<leftarrow> pktgen_clr_q_flags (port w) qid CLEAR_FAST_ALLOC_FLAG;
     let w = w\<lparr>port := i\<rparr>;
     if mp = Pcap_mp then Some w
     else do {
       (ms, w) \<leftarrow> setup_all e mp (pools w qid mp) w;
       Some (w\<lparr>pools := (pools w)(qid := (pools w qid)(mp := ms))\<rparr>) } }"

section \<open>The transmit step\<close>

text \<open>The allocation writes the table from its start, over whatever waited there.\<close>

definition set_table :: "nat \<Rightarrow> mbuf list \<Rightarrow> world \<Rightarrow> world" where
  "set_table qid ms w = w\<lparr>port := (port w)\<lparr>q := (q (port w))[qid := (q (port w) ! qid)\<lparr>tx_mbufs := ms\<rparr>]\<rparr>\<rparr>"

definition pktgen_send_pkts :: "env \<Rightarrow> nat \<Rightarrow> pool \<Rightarrow> world \<Rightarrow> world option" where
  "pktgen_send_pkts e qid mp w = do {
     guard (qid < length (q (port w)) \<and> tx_burst (port w) \<le> DEFAULT_PKT_BURST);
     let burst = tx_burst (port w);
     if has_flag (port_flags (port w)) SEND_FOREVER then do {
       (ms, w) \<leftarrow> pg_pktmbuf_alloc_bulk qid mp (unat burst) w;
       case ms of None \<Rightarrow> Some w
       | Some ms \<Rightarrow>
           let w = set_table qid ms w; i = port w;
               w = w\<lparr>port := i\<lparr>q := (q i)[qid := (q i ! qid)\<lparr>tx_cnt := tx_cnt (q i ! qid) + ucast burst\<rparr>]\<rparr>\<rparr>
           in pktgen_send_burst e qid w }
     else do {
       let (c, txCnt) = pkt_atomic64_tx_count (current_tx_count (port w)) (int (unat burst));
       let w = w\<lparr>port := (port w)\<lparr>current_tx_count := c\<rparr>\<rparr>;
       if 0 < sint txCnt then do {
         (ms, w) \<leftarrow> pg_pktmbuf_alloc_bulk qid mp (unat txCnt) w;
         case ms of None \<Rightarrow> Some w
         | Some ms \<Rightarrow> pktgen_send_burst e qid (set_table qid ms w) }
       else Some (w\<lparr>port := pktgen_clr_port_flags (port w) (SENDING_PACKETS OR SEND_FOREVER)\<rparr>) } }"

definition tx_pool :: "u32 \<Rightarrow> pool" where
  "tx_pool fl = (if has_flag fl SEND_RANGE_PKTS then Range_mp else if has_flag fl SEND_SEQ_PKTS then Seq_mp
     else if has_flag fl SEND_PCAP_PKTS then Pcap_mp else Tx_mp)"

definition pktgen_main_transmit :: "env \<Rightarrow> nat \<Rightarrow> world \<Rightarrow> world option" where
  "pktgen_main_transmit e qid w = do {
     guard (qid < length (q (port w)));
     let fl = port_flags (port w);
     w \<leftarrow> (if has_flag fl SEND_ARP_PING_REQUESTS then pktgen_send_special e fl w else Some w);
     w \<leftarrow> (if has_flag fl SENDING_PACKETS then do {
             let mp = tx_pool fl;
             w \<leftarrow> (if has_flag (qflags (q (port w) ! qid)) CLEAR_FAST_ALLOC_FLAG
                   then pktgen_setup_packets e mp qid w else Some w);
             pktgen_send_pkts e qid mp w }
           else Some w);
     if has_flag (qflags (q (port w) ! qid)) DO_TX_FLUSH then pktgen_tx_flush e qid w else Some w }"

section \<open>Duff's device\<close>

definition fresh_mbuf :: "mbuf \<Rightarrow> mbuf" where
  "fresh_mbuf m = pktmbuf_reset (m\<lparr>mrefcnt := 1\<rparr>)"

lemma resets_prefix:
  "k + n \<le> length ms \<Longrightarrow>
    resets n (k, ms) = Some (k + n, take k ms @ map fresh_mbuf (take n (drop k ms)) @ drop (k + n) ms)"
proof (induction n arbitrary: k ms)
  case (Suc n)
  let ?ms = "ms[k := fresh_mbuf (ms ! k)]"
  from Suc.prems have "resets (Suc n) (k, ms) = resets n (Suc k, ?ms)"
    by (simp add: reset_at_def fresh_mbuf_def)
  also have "\<dots> = Some (Suc k + n, take (Suc k) ?ms @ map fresh_mbuf (take n (drop (Suc k) ?ms)) @ drop (Suc k + n) ?ms)"
    using Suc.prems by (intro Suc.IH) simp
  also have "take (Suc k) ?ms = take k ms @ [fresh_mbuf (ms ! k)]"
    using Suc.prems by (simp add: take_Suc_conv_app_nth)
  also have "take (Suc n) (drop k ms) = ms ! k # take n (drop (Suc k) ms)"
    using Suc.prems by (simp flip: Cons_nth_drop_Suc)
  ultimately show ?case by simp
qed simp

lemma duff_loop_rest:
  "k + 4 * n = length ms \<Longrightarrow>
    duff_loop (length ms) (k, ms) = Some (take k ms @ map fresh_mbuf (drop k ms))"
proof (induction n arbitrary: k ms)
  case 0
  then show ?case by (subst duff_loop.simps) simp
next
  case (Suc n)
  let ?ms = "take k ms @ map fresh_mbuf (take 4 (drop k ms)) @ drop (k + 4) ms"
  have len: "length ?ms = length ms" using Suc.prems by simp
  have "duff_loop (length ms) (k, ms) = duff_loop (length ?ms) (k + 4, ?ms)"
    using Suc.prems resets_prefix [of k 4 ms] unfolding len by (subst duff_loop.simps) simp
  also have "\<dots> = Some (take (k + 4) ?ms @ map fresh_mbuf (drop (k + 4) ?ms))"
    by (rule Suc.IH) (use Suc.prems len in simp)
  also have "take (k + 4) ?ms @ map fresh_mbuf (drop (k + 4) ?ms) =
      take k ms @ map fresh_mbuf (take 4 (drop k ms) @ drop 4 (drop k ms))"
    using Suc.prems by (simp add: min_def add.commute)
  finally show ?case by (simp only: append_take_drop_id)
qed

lemma duff_device_map: "duff_device (length ms) ms = Some (map fresh_mbuf ms)"
proof -
  define k where "k = length ms mod 4"
  then have k: "k \<le> length ms" and n: "k + 4 * (length ms div 4) = length ms" by simp_all
  let ?ms = "map fresh_mbuf (take k ms) @ drop k ms"
  have "duff_device (length ms) ms = duff_loop (length ?ms) (k, ?ms)"
    using resets_prefix [of 0 k ms] k by (simp add: duff_device_def flip: k_def)
  also have "\<dots> = Some (take k ?ms @ map fresh_mbuf (drop k ?ms))"
    using n k by (intro duff_loop_rest) simp
  also have "take k ?ms @ map fresh_mbuf (drop k ?ms) = map fresh_mbuf (take k ms @ drop k ms)"
    using k by (simp only: map_append) simp
  finally show ?thesis by (simp only: append_take_drop_id)
qed

text \<open>Duff's device is a plain loop: the unrolled code of the bulk allocation, which enters
  its loop at one of four places, treats every buffer exactly once, whatever their number is.\<close>

theorem duff_device_is_map:
  "duff_device (length ms) ms = Some (map (\<lambda>m. pktmbuf_reset (m\<lparr>mrefcnt := 1\<rparr>)) ms)"
  using duff_device_map [of ms] by (simp add: fresh_mbuf_def [abs_def])

lemma alloc_bulk_eq:
  "pg_pktmbuf_alloc_bulk qid mp n w =
    (if n \<le> length (pools w qid mp) then
       Some (Some (map fresh_mbuf (take n (pools w qid mp))),
         w\<lparr>pools := (pools w)(qid := (pools w qid)(mp := drop n (pools w qid mp)))\<rparr>)
     else Some (None, w))"
proof (cases "n \<le> length (pools w qid mp)")
  case True
  then have "length (take n (pools w qid mp)) = n" by simp
  with duff_device_map [of "take n (pools w qid mp)"]
  have "duff_device n (take n (pools w qid mp)) = Some (map fresh_mbuf (take n (pools w qid mp)))"
    by metis
  with True show ?thesis by (simp add: pg_pktmbuf_alloc_bulk_def)
qed (simp add: pg_pktmbuf_alloc_bulk_def)

section \<open>A burst is delivered\<close>

text \<open>What the senders promise to the burst loop: preparing packets and treating those that the
  device took always succeeds while \<open>ok\<close> holds, keeps \<open>ok\<close> for the packets that are left, keeps
  the identity of the buffers and does not touch the queues or the device.\<close>

definition same_net :: "world \<Rightarrow> world \<Rightarrow> bool" where
  "same_net w w' \<longleftrightarrow> tx_calls w' = tx_calls w \<and> wire w' = wire w \<and> port w' = port w"

lemma same_net_refl [simp]: "same_net w w"
  by (simp add: same_net_def)

lemma same_net_trans: "same_net a b \<Longrightarrow> same_net b c \<Longrightarrow> same_net a c"
  by (simp add: same_net_def)

text \<open>The buffers that the device took, with their queues.\<close>

definition sent_ids :: "world \<Rightarrow> (nat \<times> nat) list" where
  "sent_ids w = map (\<lambda>(k, m). (k, mid m)) (wire w)"

lemma map_mid_pairs:
  "map mid ms' = map mid ms \<Longrightarrow> map (\<lambda>m. (k, mid m)) ms' = map (\<lambda>m. (k :: nat, mid m)) ms"
proof -
  assume "map mid ms' = map mid ms"
  then have "map (Pair k) (map mid ms') = map (Pair k) (map mid ms)" by (rule arg_cong)
  then show ?thesis by (simp only: list.map_comp comp_def)
qed

locale burst =
  fixes prep :: "mbuf list \<Rightarrow> world \<Rightarrow> (mbuf list \<times> world) option"
    and treat :: "mbuf list \<Rightarrow> world \<Rightarrow> world option"
    and qid :: nat
    and ok :: "mbuf list \<Rightarrow> world \<Rightarrow> bool"
  assumes prep_ok: "ok ms w \<Longrightarrow> \<exists>ms' w'. prep ms w = Some (ms', w') \<and> map mid ms' = map mid ms
      \<and> ok ms' w' \<and> same_net w w'"
    and treat_ok: "ok ms w \<Longrightarrow> n \<le> length ms \<Longrightarrow> \<exists>w'. treat (take n ms) w = Some w' \<and> ok (drop n ms) w' \<and> same_net w w'"
    and ok_net: "ok ms w \<Longrightarrow> ok ms (w\<lparr>tx_calls := c, wire := x\<rparr>)"
begin

lemma one_turn:
  assumes "ok ms w" "ms \<noteq> []"
  obtains w' n ms' where "n = min (room e (tx_calls w)) (length ms)" "map mid ms' = map mid ms"
    "burst_loop prep treat e qid ms w = burst_loop prep treat e qid (drop n ms') w'" "ok (drop n ms') w'"
    "tx_calls w' = Suc (tx_calls w)" "port w' = port w"
    "sent_ids w' = sent_ids w @ map (\<lambda>m. (qid, mid m)) (take n ms')"
proof -
  obtain ms' v where p: "prep ms w = Some (ms', v)" "map mid ms' = map mid ms" "ok ms' v" "same_net w v"
    using prep_ok [OF assms(1)] by blast
  let ?n = "min (room e (tx_calls w)) (length ms)"
  have len: "length ms' = length ms" using p(2) by (metis length_map)
  let ?v = "v\<lparr>tx_calls := tx_calls v + 1, wire := wire v @ map (Pair qid) (take ?n ms')\<rparr>"
  have "ok ms' ?v" by (rule ok_net [OF p(3)])
  then obtain w' where t: "treat (take ?n ms') ?v = Some w'" "ok (drop ?n ms') w'" "same_net ?v w'"
    using treat_ok [of ms' ?v ?n] len by auto
  have "rte_eth_tx_burst e qid ms' v = (?n, ?v)"
    using p(4) len by (simp add: rte_eth_tx_burst_def Let_def same_net_def)
  then have "burst_loop prep treat e qid ms w = burst_loop prep treat e qid (drop ?n ms') w'"
    using assms(2) p(1) t(1) by (subst burst_loop.simps) simp
  then show thesis using that [of ?n ms' w'] p t by (simp add: same_net_def sent_ids_def)
qed

text \<open>The induction is on the packets that are left and, inside, on the calls until the device has
  room again.\<close>

lemma delivers_within:
  assumes "\<forall>n. \<exists>m \<ge> n. 0 < room e m"
  shows "ok ms w \<Longrightarrow> \<exists>w'. burst_loop prep treat e qid ms w = Some w' \<and> port w' = port w
    \<and> sent_ids w' = sent_ids w @ map (\<lambda>m. (qid, mid m)) ms"
proof (induction "length ms" arbitrary: ms w rule: less_induct)
  case less
  show ?case
  proof (cases "ms = []")
    case True
    then show ?thesis by (subst burst_loop.simps) simp
  next
    case False
    obtain m where m: "tx_calls w \<le> m" "0 < room e m" using assms by blast
    have "\<exists>w'. burst_loop prep treat e qid ms w = Some w' \<and> port w' = port w
      \<and> sent_ids w' = sent_ids w @ map (\<lambda>m. (qid, mid m)) ms"
      if "ok ms w" "length ms = n0" "ms \<noteq> []" "tx_calls w + d = m" "n0 = length ms0"
        and IH: "\<And>ms w. length ms < length ms0 \<Longrightarrow> ok ms w \<Longrightarrow> \<exists>w'. burst_loop prep treat e qid ms w = Some w'
          \<and> port w' = port w \<and> sent_ids w' = sent_ids w @ map (\<lambda>m. (qid, mid m)) ms"
      for ms0 n0 d ms w
      using that(1-5)
    proof (induction d arbitrary: ms w)
      case 0
      then have room: "0 < room e (tx_calls w)" using m(2) by simp
      obtain w' n ms' where n: "n = min (room e (tx_calls w)) (length ms)" and ids: "map mid ms' = map mid ms"
        and step: "burst_loop prep treat e qid ms w = burst_loop prep treat e qid (drop n ms') w'" "ok (drop n ms') w'"
          "port w' = port w" "sent_ids w' = sent_ids w @ map (\<lambda>m. (qid, mid m)) (take n ms')"
        using one_turn [OF 0(1,3), of e] by metis
      have "length ms' = length ms" using ids by (metis length_map)
      moreover have "0 < length ms0" using 0 by (metis length_greater_0_conv)
      ultimately have "length (drop n ms') < length ms0" using 0 room n by simp
      from IH [OF this step(2)] step show ?case
        by (auto simp: map_mid_pairs [OF ids] simp flip: map_append)
    next
      case (Suc d)
      obtain w' n ms' where n: "n = min (room e (tx_calls w)) (length ms)" and ids: "map mid ms' = map mid ms"
        and step: "burst_loop prep treat e qid ms w = burst_loop prep treat e qid (drop n ms') w'" "ok (drop n ms') w'"
          "tx_calls w' = Suc (tx_calls w)" "port w' = port w"
          "sent_ids w' = sent_ids w @ map (\<lambda>m. (qid, mid m)) (take n ms')"
        using one_turn [OF Suc.prems(1,3), of e] by metis
      have len: "length ms' = length ms" using ids by (metis length_map)
      show ?case
      proof (cases "n = 0")
        case True
        then have "ok ms' w'" "length ms' = n0" "ms' \<noteq> []" "tx_calls w' + d = m"
          using step Suc.prems len by auto
        from Suc.IH [OF this Suc.prems(5)] step True show ?thesis
          by (auto simp: map_mid_pairs [OF ids])
      next
        case False
        moreover have "0 < length ms0" using Suc.prems by (metis length_greater_0_conv)
        ultimately have "length (drop n ms') < length ms0" using Suc.prems len by auto
        from IH [OF this step(2)] step show ?thesis
          by (auto simp: map_mid_pairs [OF ids] simp flip: map_append)
      qed
    qed
    from this [of ms w "length ms" "m - tx_calls w" ms] less False m(1) show ?thesis by simp
  qed
qed

end

text \<open>Without room the loop does not end.\<close>

lemma burst_loop_stuck:
  assumes "burst_loop prep treat e qid ms w = Some w'" "\<forall>n. room e n = 0"
    "\<forall>ms w ms' w'. prep ms w = Some (ms', w') \<longrightarrow> length ms' = length ms"
  shows "ms = []"
proof -
  let ?P = "\<lambda>prep (treat :: mbuf list \<Rightarrow> world \<Rightarrow> world option) e (qid :: nat) ms (w :: world) (w' :: world). (\<forall>n. room e n = 0) \<longrightarrow>
    (\<forall>ms w ms' (w' :: world). prep ms (w :: world) = Some (ms', w') \<longrightarrow> length ms' = length ms) \<longrightarrow> ms = []"
  have "?P prep treat e qid ms w w'"
  proof (rule burst_loop.raw_induct [where P = ?P, OF _ assms(1)], intro impI)
    fix loop prep treat e qid ms w y
    assume IH: "\<And>prep treat e qid ms w y. loop prep treat e qid ms w = Some y \<Longrightarrow> ?P prep treat e qid ms w y"
      and body: "(if ms = [] then Some w else prep ms w \<bind> (\<lambda>(ms, w).
          let (ret, w) = rte_eth_tx_burst e qid ms w
          in treat (take ret ms) w \<bind> loop prep treat e qid (drop ret ms))) = Some y"
      and no_room: "\<forall>n. room e n = 0"
      and len: "\<forall>ms w ms' (w' :: world). prep ms (w :: world) = Some (ms', w') \<longrightarrow> length ms' = length ms"
    show "ms = []"
    proof (rule ccontr)
      assume ne: "ms \<noteq> []"
      with body obtain ms' v where p: "prep ms w = Some (ms', v)" by (auto simp: bind_eq_Some_iff)
      moreover have "fst (rte_eth_tx_burst e qid ms' v) = 0" using no_room by (simp add: rte_eth_tx_burst_def Let_def)
      ultimately obtain x where "loop prep treat e qid ms' x = Some y"
        using body ne by (auto simp: bind_eq_Some_iff split: prod.splits)
      then have "ms' = []" using IH no_room len by blast
      with p len ne show False by (metis length_0_conv)
    qed
  qed
  with assms(2,3) show ?thesis by blast
qed

lemma burst_loop_none:
  assumes "\<forall>n. room e n = 0" "ms \<noteq> []"
    and "\<forall>ms w ms' w'. prep ms w = Some (ms', w') \<longrightarrow> length ms' = length ms"
  shows "burst_loop prep treat e qid ms w = None"
  using burst_loop_stuck [of prep treat e qid ms w] assms by (cases "burst_loop prep treat e qid ms w") auto

text \<open>The four senders keep the promise.\<close>

lemma no_prep_ok: "no_prep ms w = Some (ms, w)"
  by (simp add: no_prep_def)

interpretation tap: burst no_prep pktgen_do_tx_tap qid "\<lambda>ms w. True" for qid
  by unfold_locales (auto simp: no_prep_def pktgen_do_tx_tap_def same_net_def)

definition has_table :: "nat \<Rightarrow> world \<Rightarrow> bool" where
  "has_table n w \<longleftrightarrow> flow_inv n (cnts w) \<and> unat (end_ip (wglob w) - start_ip (wglob w)) < n
     \<and> unat (pid (port w)) < 10
     \<and> traffic_gen_as (wglob w) \<in> {IL_TRAFFIC_GEN, IL_TRAFFIC_RESP, IL_TRAFFIC_RESP_AS_REF}"

definition count_ok :: "nat \<Rightarrow> nat \<Rightarrow> mbuf list \<Rightarrow> world \<Rightarrow> bool" where
  "count_ok n qid ms w \<longleftrightarrow> has_table n w \<and> qid < 16 \<and> (\<forall>m \<in> set ms. 70 \<le> length (mdata m))"

lemma sent_ip_hdr_ok: "has_table n w \<Longrightarrow> \<exists>k. sent_ip_hdr (wglob w) = Some k \<and> k \<le> 50"
  by (auto simp: sent_ip_hdr_def has_table_def hdr_lens)

lemma inc_tx_count_ok:
  assumes "has_table n w" "qid < 16" "70 \<le> length (mdata m)"
  shows "\<exists>s. pktgen_inc_tx_count m qid w = Some (w\<lparr>cnts := s\<rparr>) \<and> has_table n (w\<lparr>cnts := s\<rparr>)"
proof -
  let ?b = "traffic_gen_as (wglob w) = IL_TRAFFIC_GEN"
  obtain t where t: "pktgen_packet_type m = Some t"
    using assms(3) by (simp add: pktgen_packet_type_def ld16_def)
  obtain k where k: "sent_ip_hdr (wglob w) = Some k" "k \<le> 50"
    using sent_ip_hdr_ok [OF assms(1)] by blast
  obtain a where a: "ld32 (k + offsetof ipHdr (if ?b then ''src'' else ''dst'')) (mdata m) = Some a"
    using k(2) assms(3) by (cases ?b) (simp_all add: ld32_def)
  obtain r s where s: "store_packet_cnt (wglob w) (ntohl a) (unat (pid (port w))) qid True (cnts w) = Some (r, s)"
    "flow_inv n s"
    using store_conserves [of n "cnts w" "wglob w" "unat (pid (port w))" qid "ntohl a" True] assms(1,2)
    by (auto simp: has_table_def)
  show ?thesis
  proof (cases "t = ETHER_TYPE_IPv4")
    case True
    then have "pktgen_inc_tx_count m qid w = Some (w\<lparr>cnts := s\<rparr>)"
      by (simp add: pktgen_inc_tx_count_def t k a s)
    with s(2) assms(1) show ?thesis by (auto simp: has_table_def)
  next
    case False
    then have "pktgen_inc_tx_count m qid w = Some (w\<lparr>cnts := cnts w\<rparr>)"
      by (simp add: pktgen_inc_tx_count_def t)
    with assms(1) show ?thesis by (intro exI [of _ "cnts w"]) simp
  qed
qed

lemma inc_tx_counts_ok:
  "has_table n w \<Longrightarrow> qid < 16 \<Longrightarrow> \<forall>m \<in> set ms. 70 \<le> length (mdata m) \<Longrightarrow>
    \<exists>s. inc_tx_counts ms qid w = Some (w\<lparr>cnts := s\<rparr>) \<and> has_table n (w\<lparr>cnts := s\<rparr>)"
proof (induction ms arbitrary: w)
  case Nil
  then show ?case by (intro exI [of _ "cnts w"]) simp
next
  case (Cons m ms)
  then obtain s where s: "pktgen_inc_tx_count m qid w = Some (w\<lparr>cnts := s\<rparr>)" "has_table n (w\<lparr>cnts := s\<rparr>)"
    using inc_tx_count_ok [of n w qid m] by auto
  from Cons.IH [OF s(2)] Cons.prems s(1) show ?case by auto
qed

lemma start_timer_same [simp]:
  "cnts (start_timer w) = cnts w" "wglob (start_timer w) = wglob w" "port (start_timer w) = port w"
  "same_net w (start_timer w)"
  by (simp_all add: start_timer_def register_for_timeout_def same_net_def)

interpretation fast: burst no_prep "count_after qid" qid "count_ok n qid" for qid n
proof
  fix ms w k
  assume ok: "count_ok n qid ms w" "k \<le> length ms"
  then have "has_table n (start_timer w)" "\<forall>m \<in> set (take k ms). 70 \<le> length (mdata m)" "qid < 16"
    by (auto simp: count_ok_def has_table_def dest: in_set_takeD)
  moreover have "\<forall>m \<in> set (drop k ms). 70 \<le> length (mdata m)"
    using ok(1) by (meson count_ok_def in_set_dropD)
  ultimately show "\<exists>w'. count_after qid (take k ms) w = Some w' \<and> count_ok n qid (drop k ms) w' \<and> same_net w w'"
    using inc_tx_counts_ok [of n "start_timer w" qid "take k ms"] ok(2)
    by (auto simp: count_after_def count_ok_def same_net_def start_timer_def register_for_timeout_def)
qed (auto simp: no_prep_def count_ok_def has_table_def)

section \<open>Latency marks are found again\<close>

lemma latency_offset:
  assumes "SINGLE_PKT < length (seq_pkt i)"
  shows "\<exists>off \<le> 80. pktgen_latency_pointer i = Some off"
  using assms by (auto simp: pktgen_latency_pointer_def Let_def)

definition marks_ok :: "mbuf list \<Rightarrow> world \<Rightarrow> bool" where
  "marks_ok ms w \<longleftrightarrow> SINGLE_PKT < length (seq_pkt (port w)) \<and> (\<forall>m \<in> set ms. 90 \<le> length (mdata m))"

lemma mark_stored:
  assumes "off + 10 \<le> length d"
  shows "\<exists>d1 d2. st64 off t d = Some d1 \<and> st16 (off + 8) LATENCY_MAGIC d1 = Some d2 \<and> length d2 = length d
    \<and> ld64 off d2 = Some t \<and> ld16 (off + 8) d2 = Some LATENCY_MAGIC"
proof -
  define d0 where "d0 = put off (le32 (ucast t)) d"
  define d1 where "d1 = put (off + 4) (le32 (ucast (drop_bit 32 t))) d0"
  define d2 where "d2 = put (off + 8) (le16 LATENCY_MAGIC) d1"
  have len: "length d0 = length d" "length d1 = length d" "length d2 = length d"
    using assms by (simp_all add: d0_def d1_def d2_def length_put)
  have st: "st64 off t d = Some d1" "st16 (off + 8) LATENCY_MAGIC d1 = Some d2"
    using assms len by (simp_all add: st64_def st32_def st16_def wr_def d0_def d1_def d2_def)
  have "ld32 off d2 = ld32 off d0" "ld32 (off + 4) d2 = ld32 (off + 4) d1"
    using assms len by (simp_all add: ld32_def d2_def d1_def nth_put)
  moreover have "ld32 off d0 = Some (ucast t)" "ld32 (off + 4) d1 = Some (ucast (drop_bit 32 t))"
    using assms len ld32_put [of off d "ucast t"] ld32_put [of "off + 4" d0 "ucast (drop_bit 32 t)"]
    by (simp_all add: d0_def d1_def)
  moreover have "ucast (ucast t :: u32) OR push_bit 32 (ucast (ucast (drop_bit 32 t) :: u32)) = t"
    by (rule bit_word_eqI) (auto simp: bit_simps)
  ultimately have "ld64 off d2 = Some t" by (simp add: ld64_def)
  moreover have "ld16 (off + 8) d2 = Some LATENCY_MAGIC" using ld16_st16 [OF st(2)] .
  ultimately show ?thesis using st len by blast
qed

text \<open>Marking keeps the promise to the burst loop.\<close>

lemma marks_ok_Cons:
  "marks_ok (m # ms) w \<longleftrightarrow> marks_ok [m] w \<and> marks_ok ms w"
  by (auto simp: marks_ok_def)

lemma latency_apply_ok:
  "marks_ok ms w \<Longrightarrow> \<exists>ms' r. pktgen_latency_apply e ms w = Some (ms', w\<lparr>tsc_reads := r\<rparr>)
    \<and> map mid ms' = map mid ms \<and> map (\<lambda>m. length (mdata m)) ms' = map (\<lambda>m. length (mdata m)) ms"
proof (induction ms arbitrary: w)
  case Nil
  then show ?case by (intro exI [of _ "[]"] exI [of _ "tsc_reads w"]) simp
next
  case (Cons m ms)
  obtain off where off: "pktgen_latency_pointer (port w) = Some off" "off \<le> 80"
    using latency_offset Cons.prems by (auto simp: marks_ok_def)
  let ?w = "w\<lparr>tsc_reads := tsc_reads w + 1\<rparr>"
  obtain d1 d2 where d: "st64 off (tsc e (tsc_reads w)) (mdata m) = Some d1"
    "st16 (off + 8) LATENCY_MAGIC d1 = Some d2" "length d2 = length (mdata m)"
    using mark_stored [of off "mdata m" "tsc e (tsc_reads w)"] off Cons.prems by (auto simp: marks_ok_def)
  have "marks_ok ms ?w" using Cons.prems by (simp add: marks_ok_def)
  from Cons.IH [OF this] obtain ms' r where ms': "pktgen_latency_apply e ms ?w = Some (ms', ?w\<lparr>tsc_reads := r\<rparr>)"
    "map mid ms' = map mid ms" "map (\<lambda>m. length (mdata m)) ms' = map (\<lambda>m. length (mdata m)) ms" by blast
  then have "pktgen_latency_apply e (m # ms) w = Some (m\<lparr>mdata := d2\<rparr> # ms', w\<lparr>tsc_reads := r\<rparr>)"
    using off d by (simp add: rte_rdtsc_precise_def)
  with ms' d show ?case by auto
qed

lemma marks_ok_same:
  assumes "marks_ok ms w" "map (\<lambda>m. length (mdata m)) ms' = map (\<lambda>m. length (mdata m)) ms" "port w' = port w"
  shows "marks_ok ms' w'"
proof -
  have "\<forall>n \<in> set (map (\<lambda>m. length (mdata m)) ms'). 90 \<le> n" using assms(1) unfolding assms(2) by (auto simp: marks_ok_def)
  then show ?thesis using assms(1,3) by (auto simp: marks_ok_def)
qed

interpretation marked: burst "pktgen_latency_apply e" no_after qid marks_ok for e qid
proof
  fix ms w assume "marks_ok ms w"
  from latency_apply_ok [OF this, of e] marks_ok_same [OF this]
  show "\<exists>ms' w'. pktgen_latency_apply e ms w = Some (ms', w') \<and> map mid ms' = map mid ms \<and> marks_ok ms' w' \<and> same_net w w'"
    by (fastforce simp: same_net_def)
qed (auto simp: no_after_def marks_ok_def dest: in_set_dropD)

section \<open>Random bits on every buffer\<close>

definition rnd_ok :: "mbuf list \<Rightarrow> world \<Rightarrow> bool" where
  "rnd_ok ms w \<longleftrightarrow> (\<exists>rb. rnd_bitfields (port w) = Some rb \<and> length (specs rb) = 32)
     \<and> (\<forall>m \<in> set ms. 259 \<le> length (mdata m))"

lemma apply_specs_total:
  "259 \<le> length m \<Longrightarrow> unat active < 2 ^ (length sps - k) \<Longrightarrow>
    \<exists>m' s'. apply_specs k active sps m s = Some (m', s') \<and> length m' = length m"
proof (induction k active sps m s rule: apply_specs.induct)
  case (1 k active sps m s)
  show ?case
  proof (cases "active = 0")
    case False
    then have k: "k < length sps" using "1.prems"(2) by (cases "k < length sps") (auto simp: unat_eq_0)
    have small: "unat (offset (sps ! k)) + 4 \<le> length m"
      using unat_less(1) [of "offset (sps ! k)"] "1.prems"(1) by linarith
    obtain m1 s1 where m1: "(if active AND 1 \<noteq> 0 then if k < length sps then apply_spec (sps ! k) m s else None
        else Some (m, s)) = Some (m1, s1)" "length m1 = length m"
    proof (cases "active AND 1 = 0")
      case True
      then show thesis using that [of m s] by simp
    next
      case False
      obtain m1 where "apply_spec (sps ! k) m s = Some (m1, drawn (sps ! k) s)" "length m1 = length m"
        using apply_spec_total [OF small, of s] by blast
      then show thesis using that False k by simp
    qed
    have "unat (drop_bit 1 active) = unat active div 2" by (simp add: drop_bit_Suc unat_div)
    moreover have "(2 :: nat) ^ (length sps - k) = 2 * 2 ^ (length sps - (k + 1))"
      using k by (simp flip: power_Suc add: Suc_diff_Suc)
    ultimately have "unat (drop_bit 1 active) < 2 ^ (length sps - (k + 1))" using "1.prems"(2) by simp
    from "1.IH" [OF False m1(1) refl _ this] m1 "1.prems"(1) obtain m' s' where
      "apply_specs (k + 1) (drop_bit 1 active) sps m1 s1 = Some (m', s')" "length m' = length m" by auto
    with False m1(1) show ?thesis by (subst apply_specs.simps) auto
  qed (use "1.prems" in simp)
qed

lemma apply_pkts_total:
  "length (specs rb) = 32 \<Longrightarrow> \<forall>d \<in> set ds. 259 \<le> length d \<Longrightarrow>
    \<exists>ds' s'. apply_pkts rb ds s = Some (ds', s') \<and> map length ds' = map length ds"
proof (induction ds arbitrary: s)
  case (Cons d ds)
  obtain d' s1 where d: "apply_specs 0 (active_specs rb) (specs rb) d s = Some (d', s1)" "length d' = length d"
    using apply_specs_total [of d "active_specs rb" "specs rb" 0 s] Cons.prems unat_less(3) [of "active_specs rb"] by auto
  moreover obtain ds' s' where "apply_pkts rb ds s1 = Some (ds', s')" "map length ds' = map length ds"
    using Cons.IH [of s1] Cons.prems by auto
  ultimately show ?case by simp
qed simp

lemma random_prep_ok:
  assumes "rnd_ok ms w"
  shows "\<exists>ms' s. random_prep ms w = Some (ms', w\<lparr>xor_state := s\<rparr>)
    \<and> map mid ms' = map mid ms \<and> map (\<lambda>m. length (mdata m)) ms' = map (\<lambda>m. length (mdata m)) ms"
proof -
  from assms obtain rb where rb: "rnd_bitfields (port w) = Some rb" "length (specs rb) = 32"
    and len: "\<forall>d \<in> set (map mdata ms). 259 \<le> length d" by (auto simp: rnd_ok_def)
  obtain ds s where ds: "pktgen_rnd_bits_apply (port w) (map mdata ms) None (xor_state w) = Some (ds, s)"
    "map length ds = map length (map mdata ms)"
  proof (cases "active_specs rb = 0")
    case True
    then show thesis using that [of "map mdata ms" "xor_state w"] rb by (simp add: pktgen_rnd_bits_apply_def)
  next
    case False
    then show thesis
      using apply_pkts_total [OF rb(2) len, of "xor_state w"] rb that by (auto simp: pktgen_rnd_bits_apply_def)
  qed
  then have "length ds = length ms" by (metis length_map)
  moreover from this have "map mid (map2 (\<lambda>m d. m\<lparr>mdata := d\<rparr>) ms ds) = map mid ms"
    "map (\<lambda>m. length (mdata m)) (map2 (\<lambda>m d. m\<lparr>mdata := d\<rparr>) ms ds) = map length ds"
    by (intro nth_equalityI; simp)+
  moreover have "map length ds = map (\<lambda>m. length (mdata m)) ms" using ds(2) by (simp add: comp_def)
  moreover have "random_prep ms w = Some (map2 (\<lambda>m d. m\<lparr>mdata := d\<rparr>) ms ds, w\<lparr>xor_state := s\<rparr>)"
    using ds(1) by (simp add: random_prep_def)
  ultimately show ?thesis by metis
qed

lemma rnd_ok_same:
  assumes "rnd_ok ms w" "map (\<lambda>m. length (mdata m)) ms' = map (\<lambda>m. length (mdata m)) ms" "port w' = port w"
  shows "rnd_ok ms' w'"
proof -
  have "\<forall>n \<in> set (map (\<lambda>m. length (mdata m)) ms'). 259 \<le> n" using assms(1) unfolding assms(2) by (auto simp: rnd_ok_def)
  then show ?thesis using assms(1,3) by (auto simp: rnd_ok_def)
qed

lemma random_prep_burst:
  "rnd_ok ms w \<Longrightarrow> \<exists>ms' w'. random_prep ms w = Some (ms', w') \<and> map mid ms' = map mid ms \<and> rnd_ok ms' w' \<and> same_net w w'"
  using random_prep_ok rnd_ok_same by (fastforce simp: same_net_def)

interpretation random: burst random_prep no_after qid rnd_ok for qid
  by unfold_locales (erule random_prep_burst, auto simp: no_after_def rnd_ok_def dest: in_set_dropD)

interpretation random_tap: burst random_prep pktgen_do_tx_tap qid rnd_ok for qid
  by unfold_locales
    (erule random_prep_burst, auto simp: pktgen_do_tx_tap_def rnd_ok_def same_net_def dest: in_set_dropD)

section \<open>What a burst does\<close>

text \<open>A queue is ready: the counters are allocated, the port is complete for the flags that are set
  and the buffers have room for every mark.\<close>

definition port_ready :: "nat \<Rightarrow> nat \<Rightarrow> world \<Rightarrow> bool" where
  "port_ready n qid w \<longleftrightarrow> has_table n w \<and> qid < 16 \<and> qid < length (q (port w))
     \<and> SINGLE_PKT < length (seq_pkt (port w))
     \<and> (has_flag (port_flags (port w)) SEND_RANDOM_PKTS \<longrightarrow>
          (\<exists>rb. rnd_bitfields (port w) = Some rb \<and> length (specs rb) = 32))"

definition large :: "mbuf list \<Rightarrow> bool" where
  "large ms \<longleftrightarrow> (\<forall>m \<in> set ms. 259 \<le> length (mdata m))"

lemma burst_delivers:
  assumes ready: "port_ready n qid w" "large (tx_mbufs (q (port w) ! qid))"
    and room: "\<forall>n. \<exists>m \<ge> n. 0 < room e m"
  shows "\<exists>w'. pktgen_send_burst e qid w = Some w'
    \<and> sent_ids w' = sent_ids w @ map (\<lambda>m. (qid, mid m)) (tx_mbufs (q (port w) ! qid))
    \<and> port w' = (port w)\<lparr>q := (q (port w))[qid := (q (port w) ! qid)\<lparr>tx_mbufs := []\<rparr>]\<rparr>"
proof -
  let ?ms = "tx_mbufs (q (port w) ! qid)"
  let ?w = "w\<lparr>port := (port w)\<lparr>q := (q (port w))[qid := (q (port w) ! qid)\<lparr>tx_mbufs := []\<rparr>]\<rparr>\<rparr>"
  have table: "take_table qid w = Some (?ms, ?w)" using ready(1) by (simp add: take_table_def port_ready_def Let_def)
  have ids: "sent_ids ?w = sent_ids w" by (simp add: sent_ids_def)
  have fl: "port_flags (port ?w) = port_flags (port w)" by simp
  have count: "count_ok n qid ?ms ?w" using ready
    by (auto simp: port_ready_def large_def count_ok_def has_table_def)
  have marks: "marks_ok ?ms ?w" using ready by (auto simp: port_ready_def large_def marks_ok_def)
  show ?thesis
  proof (cases "has_flag (port_flags (port w)) SEND_RANDOM_PKTS")
    case True
    then have "rnd_ok ?ms ?w" using ready by (auto simp: port_ready_def large_def rnd_ok_def)
    with random.delivers_within [OF room this] random_tap.delivers_within [OF room this] True show ?thesis
      by (auto simp: pktgen_send_burst_def send_burst_random_def table fl ids)
  next
    case False
    show ?thesis
    proof (cases "has_flag (port_flags (port w)) SEND_LATENCY_PKTS")
      case True
      with marked.delivers_within [OF room marks] False show ?thesis
        by (auto simp: pktgen_send_burst_def send_burst_latency_def table ids)
    next
      case nolat: False
      with fast.delivers_within [OF room count] False
        tap.delivers_within [OF room TrueI, where qid = qid and ms = ?ms and w = ?w] show ?thesis
        by (auto simp: pktgen_send_burst_def send_burst_fast_def table fl ids)
    qed
  qed
qed

text \<open>C3 Every packet of a burst is transmitted, exactly once and in order: on a device that takes
  some packets again and again, however few at a time, sending a burst ends, the device has been given
  exactly the buffers that waited in the table of the queue, in their order, and the table is empty;
  this holds for the fast, the random and the latency sender, with and without a tap.\<close>

theorem send_burst_delivers:
  assumes "port_ready n qid w" "large (tx_mbufs (q (port w) ! qid))"
    and "\<forall>n. \<exists>m \<ge> n. 0 < room e m"
  shows "\<exists>w'. pktgen_send_burst e qid w = Some w'
    \<and> sent_ids w' = sent_ids w @ map (\<lambda>m. (qid, mid m)) (tx_mbufs (q (port w) ! qid))
    \<and> tx_mbufs (q (port w') ! qid) = []"
  using burst_delivers [OF assms] assms(1) by (auto simp: port_ready_def)

text \<open>A device that takes nothing.\<close>

lemma latency_apply_length: "pktgen_latency_apply e ms w = Some (ms', w') \<Longrightarrow> length ms' = length ms"
  by (induction ms arbitrary: w ms' w') (auto simp: bind_eq_Some_iff rte_rdtsc_precise_def)

lemma apply_pkts_length: "apply_pkts rb ds s = Some (ds', s') \<Longrightarrow> length ds' = length ds"
  by (induction ds arbitrary: s ds' s') (auto simp: bind_eq_Some_iff split: prod.splits)

lemma random_prep_length: "random_prep ms w = Some (ms', w') \<Longrightarrow> length ms' = length ms"
  by (auto simp: random_prep_def pktgen_rnd_bits_apply_def bind_eq_Some_iff dest!: apply_pkts_length
      split: prod.splits option.splits if_splits)


section \<open>A sample lcore\<close>

definition sample_mbuf :: "nat \<Rightarrow> mbuf" where
  "sample_mbuf k = \<lparr>mid = k, mdata = replicate 2048 0, mpkt_len = 60, mdata_len = 60, mrefcnt = 1, mport = 0\<rparr>"

definition sample_world :: world where
  "sample_world = \<lparr>wglob = flow_glob,
     scr = \<lparr>paused = False, update_display = 8, shown = []\<rparr>,
     port = sample_port\<lparr>port_flags := SENDING_PACKETS, current_tx_count := 100,
       q := (q sample_port)[0 := (q sample_port ! 0)\<lparr>tx_mbufs := [sample_mbuf 1, sample_mbuf 2]\<rparr>]\<rparr>,
     cnts = set_ip_pkt_counters 3 initial_flows, xor_state = 1,
     statics = \<lparr>min_vlan_set = False, min_cos_set = False, min_tos_set = False\<rparr>, enb_cnt = 0,
     pools = (\<lambda>_ _. map sample_mbuf [10..<110]), first_tx = True, test_dur = 0, total_dur = 0, alarm = None,
     tx_calls = 0, tsc_reads = 0, wire = [], tapped = [], rx_tapped = [], freed = [], wcap = empty_capture\<rparr>"

text \<open>A device that takes one packet at every other call.\<close>

definition slow_device :: env where
  "slow_device = \<lparr>room = (\<lambda>n. n mod 2), tsc = word_of_nat, ipv4_cksum = (\<lambda>_. 0), udptcp_cksum = (\<lambda>_ _. 0)\<rparr>"

definition dead_device :: env where
  "dead_device = slow_device\<lparr>room := (\<lambda>_. 0)\<rparr>"

lemma slow_device_room: "\<forall>n. \<exists>m \<ge> n. 0 < room slow_device m"
proof
  fix n :: nat
  have "n \<le> 2 * n + 1" "0 < room slow_device (2 * n + 1)" by (simp_all add: slow_device_def)
  then show "\<exists>m \<ge> n. 0 < room slow_device m" by blast
qed

lemma sample_queue:
  "q (port sample_world) = (q sample_port)[0 := (q sample_port ! 0)\<lparr>tx_mbufs := [sample_mbuf 1, sample_mbuf 2]\<rparr>]"
  "length (q sample_port) = 8" "tx_mbufs (q (port sample_world) ! 0) = [sample_mbuf 1, sample_mbuf 2]"
  by (simp_all add: sample_world_def sample_port_def)

lemma sample_ready: "port_ready 3 0 sample_world"
  using flow_inv_initial [of 3] sample_queue
  by (simp add: port_ready_def has_table_def sample_world_def flow_glob_def sample_glob_def sample_port_def
      IL_TRAFFIC_GEN_def has_flag_def SEND_RANDOM_PKTS_def SENDING_PACKETS_def)

theorem send_burst_delivers_witness:
  "\<exists>w'. pktgen_send_burst slow_device 0 sample_world = Some w' \<and> sent_ids w' = [(0, 1), (0, 2)]"
proof -
  have "large (tx_mbufs (q (port sample_world) ! 0))" by (simp add: sample_queue large_def sample_mbuf_def)
  moreover have "sent_ids sample_world = []" by (simp add: sent_ids_def sample_world_def)
  ultimately show ?thesis
    using send_burst_delivers [OF sample_ready _ slow_device_room] sample_queue(3) by (auto simp: sample_mbuf_def)
qed


section \<open>What a transmit step sends\<close>

lemma large_fresh: "large ms \<Longrightarrow> large (map fresh_mbuf ms)"
  by (simp add: large_def fresh_mbuf_def pktmbuf_reset_def)

lemma mid_fresh [simp]: "mid (fresh_mbuf m) = mid m"
  by (simp add: fresh_mbuf_def pktmbuf_reset_def)

text \<open>An allocated table is sent as a whole.\<close>

lemma send_table:
  assumes "port_ready n qid w" "large ms" "\<forall>n. \<exists>m \<ge> n. 0 < room e m"
  shows "\<exists>w'. pktgen_send_burst e qid (set_table qid ms w) = Some w'
    \<and> sent_ids w' = sent_ids w @ map (\<lambda>m. (qid, mid m)) ms
    \<and> current_tx_count (port w') = current_tx_count (port w) \<and> tx_mbufs (q (port w') ! qid) = []"
proof -
  have "port_ready n qid (set_table qid ms w)" using assms(1) by (simp add: port_ready_def has_table_def set_table_def)
  moreover have t: "tx_mbufs (q (port (set_table qid ms w)) ! qid) = ms"
    using assms(1) by (simp add: set_table_def port_ready_def)
  moreover have "sent_ids (set_table qid ms w) = sent_ids w" by (simp add: sent_ids_def set_table_def)
  moreover have "current_tx_count (port (set_table qid ms w)) = current_tx_count (port w)" by (simp add: set_table_def)
  moreover have "qid < length (q (port (set_table qid ms w)))" using assms(1) by (simp add: set_table_def port_ready_def)
  ultimately show ?thesis using burst_delivers [of n qid "set_table qid ms w" e] assms(2,3) by auto
qed

lemma tx_count_result:
  assumes "0 < unat v" "unat v < 2 ^ 63" "0 < b" "b < 2 ^ 16"
  shows "\<exists>c t. pkt_atomic64_tx_count v (int b) = (c, t) \<and> 0 < sint t \<and> unat t = min b (unat v)
    \<and> unat c + unat t = unat v"
proof -
  obtain c t where ct: "pkt_atomic64_tx_count v (int b) = (c, t)" by force
  then have sum: "unat c + unat t = unat v"
    using tx_count_conserve(1) [of "int b" v c t] assms by (simp add: pkt_atomic64_tx_count_def)
  have "v \<noteq> 0" using assms(1) by auto
  have cmp: "int b < sint v \<longleftrightarrow> b < unat v" by (simp only: sint_small64 [OF assms(2)] of_nat_less_iff)
  have t: "t = (if b < unat v then word_of_nat b else v)"
    using ct \<open>v \<noteq> 0\<close> by (auto simp: pkt_atomic64_tx_count_def atomically_def tx_count_op_def Let_def cmp)
  have "unat (word_of_nat b :: u64) = b" using assms(4) by (intro unat_of_nat64) simp
  with t have unat: "unat t = min b (unat v)" by (auto simp: min_def)
  then have "unat t < 2 ^ 63" "0 < unat t" using assms by simp_all
  then have "0 < sint t" by (simp only: sint_small64 of_nat_0_less_iff)
  with ct sum unat show ?thesis by blast
qed

text \<open>C4 A counted transmission sends what it takes credit for: with enough buffers in the pool, one
  step of a port that does not send forever gives the device the first packets of the pool, as many as
  the burst size and the credit that is left allow, and takes exactly that many from the credit; a
  packet that waited in the table before the step is not among them.\<close>

theorem send_pkts_exact:
  assumes "port_ready n qid w" "\<not> has_flag (port_flags (port w)) SEND_FOREVER"
    and "0 < unat (tx_burst (port w))" "tx_burst (port w) \<le> DEFAULT_PKT_BURST"
    and "0 < unat (current_tx_count (port w))" "unat (current_tx_count (port w)) < 2 ^ 63"
    and "unat (tx_burst (port w)) \<le> length (pools w qid mp)" "large (pools w qid mp)"
    and "\<forall>n. \<exists>m \<ge> n. 0 < room e m"
  shows "\<exists>w' k. pktgen_send_pkts e qid mp w = Some w'
    \<and> k = min (unat (tx_burst (port w))) (unat (current_tx_count (port w)))
    \<and> unat (current_tx_count (port w')) + k = unat (current_tx_count (port w))
    \<and> sent_ids w' = sent_ids w @ map (\<lambda>m. (qid, mid m)) (take k (pools w qid mp))
    \<and> tx_mbufs (q (port w') ! qid) = []"
proof -
  let ?k = "min (unat (tx_burst (port w))) (unat (current_tx_count (port w)))"
  obtain c t where ct: "pkt_atomic64_tx_count (current_tx_count (port w)) (int (unat (tx_burst (port w)))) = (c, t)"
    "0 < sint t" "unat t = ?k" "unat c + unat t = unat (current_tx_count (port w))"
    using tx_count_result [OF assms(5,6,3)] unat_less(2) [of "tx_burst (port w)"] by auto
  let ?w = "w\<lparr>port := (port w)\<lparr>current_tx_count := c\<rparr>\<rparr>"
  let ?v = "?w\<lparr>pools := (pools w)(qid := (pools w qid)(mp := drop ?k (pools w qid mp)))\<rparr>"
  let ?ms = "map fresh_mbuf (take ?k (pools w qid mp))"
  have "?k \<le> length (pools ?w qid mp)" using assms(7) by simp
  then have alloc: "pg_pktmbuf_alloc_bulk qid mp ?k ?w = Some (Some ?ms, ?v)"
    by (simp add: alloc_bulk_eq)
  have ready: "port_ready n qid ?v" using assms(1) by (simp add: port_ready_def has_table_def)
  have "large (take ?k (pools w qid mp))" using assms(8) by (auto simp: large_def dest: in_set_takeD)
  from send_table [OF ready large_fresh [OF this] assms(9)] obtain w' where
    w': "pktgen_send_burst e qid (set_table qid ?ms ?v) = Some w'"
      "sent_ids w' = sent_ids ?v @ map (\<lambda>m. (qid, mid m)) ?ms"
      "current_tx_count (port w') = current_tx_count (port ?v)" "tx_mbufs (q (port w') ! qid) = []" by blast
  have "qid < length (q (port w))" using assms(1) by (simp add: port_ready_def)
  then have "pktgen_send_pkts e qid mp w = Some w'"
    using assms(2,4) ct(1,2) alloc w'(1) unfolding pktgen_send_pkts_def Let_def ct(3) [symmetric]
    by simp
  moreover have "sent_ids ?v = sent_ids w" by (simp add: sent_ids_def)
  ultimately show ?thesis using w' ct by (auto simp: comp_def)
qed

theorem send_pkts_exact_witness:
  "\<exists>w'. pktgen_send_pkts slow_device 0 Tx_mp sample_world = Some w' \<and> unat (current_tx_count (port w')) + 64 = 100
    \<and> length (sent_ids w') = 64"
proof -
  have "\<exists>w' k. pktgen_send_pkts slow_device 0 Tx_mp sample_world = Some w'
    \<and> k = min (unat (tx_burst (port sample_world))) (unat (current_tx_count (port sample_world)))
    \<and> unat (current_tx_count (port w')) + k = unat (current_tx_count (port sample_world))
    \<and> sent_ids w' = sent_ids sample_world @ map (\<lambda>m. (0, mid m)) (take k (pools sample_world 0 Tx_mp))
    \<and> tx_mbufs (q (port w') ! 0) = []"
    by (rule send_pkts_exact [OF sample_ready _ _ _ _ _ _ _ slow_device_room])
      (auto simp: sample_world_def sample_port_def has_flag_def SENDING_PACKETS_def SEND_FOREVER_def
        DEFAULT_PKT_BURST_def large_def sample_mbuf_def)
  then show ?thesis by (auto simp: sample_world_def sample_port_def sent_ids_def)
qed

text \<open>When the pool is short, the credit is taken and nothing is sent for it.\<close>

lemma credit_lost:
  assumes "qid < length (q (port w))" "\<not> has_flag (port_flags (port w)) SEND_FOREVER"
    and "0 < unat (tx_burst (port w))" "tx_burst (port w) \<le> DEFAULT_PKT_BURST"
    and "0 < unat (current_tx_count (port w))" "unat (current_tx_count (port w)) < 2 ^ 63"
    and "length (pools w qid mp) < min (unat (tx_burst (port w))) (unat (current_tx_count (port w)))"
  shows "\<exists>w'. pktgen_send_pkts e qid mp w = Some w' \<and> wire w' = wire w
    \<and> unat (current_tx_count (port w')) < unat (current_tx_count (port w))"
proof -
  obtain c t where ct: "pkt_atomic64_tx_count (current_tx_count (port w)) (int (unat (tx_burst (port w)))) = (c, t)"
    "0 < sint t" "unat t = min (unat (tx_burst (port w))) (unat (current_tx_count (port w)))"
    "unat c + unat t = unat (current_tx_count (port w))"
    using tx_count_result [OF assms(5,6,3)] unat_less(2) [of "tx_burst (port w)"] by auto
  have "pg_pktmbuf_alloc_bulk qid mp (unat t) (w\<lparr>port := (port w)\<lparr>current_tx_count := c\<rparr>\<rparr>) =
      Some (None, w\<lparr>port := (port w)\<lparr>current_tx_count := c\<rparr>\<rparr>)"
    using assms(7) unfolding ct(3) by (auto simp: alloc_bulk_eq)
  then have "pktgen_send_pkts e qid mp w = Some (w\<lparr>port := (port w)\<lparr>current_tx_count := c\<rparr>\<rparr>)"
    using assms(1,2,4) ct(1,2) by (simp add: pktgen_send_pkts_def Let_def)
  moreover have "unat c < unat (current_tx_count (port w))" using ct assms(3,5) by auto
  ultimately show ?thesis by simp
qed

text \<open>With the GUI and no enabled template the search never ends.\<close>

lemma advance_seq_bound:
  "seqIdx i < seqCnt i \<Longrightarrow> seqIdx (advance_seq i) < seqCnt (advance_seq i) \<and> seqCnt (advance_seq i) = seqCnt i
    \<and> seq_pkt (advance_seq i) = seq_pkt i"
  using word_coorder.not_eq_extremum [of "seqCnt i"] by (auto simp: advance_seq_def Let_def not_le)

lemma gui_search_spins:
  assumes "seqIdx (port w) < seqCnt (port w)" "list_all (\<lambda>p. seq_enabled p = 0) (seq_pkt (port w))"
  shows "setup_seq_gui m w = None"
proof -
  let ?P = "\<lambda>(m :: mbuf) w (r :: mbuf \<times> world). \<not> (seqIdx (port w) < seqCnt (port w)
    \<and> list_all (\<lambda>p. seq_enabled p = 0) (seq_pkt (port w)))"
  have "?P m w r" if "setup_seq_gui m w = Some r" for r
  proof (rule setup_seq_gui.raw_induct [where P = ?P, OF _ that])
    fix loop m w r
    assume IH: "\<And>m w r. loop m w = Some r \<Longrightarrow> ?P m w r"
      and body: "(if seqIdx (port w) < seqCnt (port w) then
        let k = unat (seqIdx (port w)); w = w\<lparr>port := advance_seq (port w)\<rparr>
        in if k < length (seq_pkt (port w)) then
             if seq_enabled (seq_pkt (port w) ! k) \<noteq> 0 then
               world_ctor (unat (seqIdx (port w))) (- 1) w \<bind> (\<lambda>w. copy_hdr (seq_pkt (port w) ! k) m \<bind>
                 (\<lambda>m. Some (set_lens (seq_pkt (port w) ! k) m, w)))
             else loop m w
           else None
        else Some (m, w)) = Some r"
    show "?P m w r"
    proof
      assume A: "seqIdx (port w) < seqCnt (port w) \<and> list_all (\<lambda>p. seq_enabled p = 0) (seq_pkt (port w))"
      let ?w = "w\<lparr>port := advance_seq (port w)\<rparr>"
      have "loop m ?w = Some r"
        using body A advance_seq_bound [of "port w"] by (auto simp: Let_def list_all_length split: if_splits)
      from IH [OF this] A advance_seq_bound [of "port w"] show False by auto
    qed
  qed
  with assms show ?thesis by (cases "setup_seq_gui m w") auto
qed

lemma latency_pointer_cong:
  "seq_pkt i = seq_pkt j \<Longrightarrow> pktgen_latency_pointer i = pktgen_latency_pointer j"
  by (simp only: pktgen_latency_pointer_def)

text \<open>What a receiver computes from marks that arrive unchanged.\<close>

lemma recv_marks_sum:
  "marks_ok ms w \<Longrightarrow> pktgen_latency_apply e ms w = Some (ms', w1) \<Longrightarrow> seq_pkt (port v) = seq_pkt (port w) \<Longrightarrow>
    \<exists>v'. recv_marks e ms' v = Some v' \<and> magic_errors (port v') = magic_errors (port v)
      \<and> latency_nb_pkts (port v') = latency_nb_pkts (port v)
      \<and> avg_latency (port v') = avg_latency (port v)
          + (\<Sum>k\<leftarrow>[0..<length ms]. tsc e (tsc_reads v + k) - tsc e (tsc_reads w + k))"
proof (induction ms arbitrary: w v ms')
  case Nil
  then show ?case by simp
next
  case (Cons m ms)
  obtain off where off: "pktgen_latency_pointer (port w) = Some off" "off \<le> 80"
    using latency_offset Cons.prems(1) by (auto simp: marks_ok_def)
  have offv: "pktgen_latency_pointer (port v) = Some off"
    using off(1) latency_pointer_cong [OF Cons.prems(3)] by simp
  let ?w = "w\<lparr>tsc_reads := tsc_reads w + 1\<rparr>" and ?t = "tsc e (tsc_reads w)"
  obtain d1 d2 where d: "st64 off ?t (mdata m) = Some d1" "st16 (off + 8) LATENCY_MAGIC d1 = Some d2"
    "ld64 off d2 = Some ?t" "ld16 (off + 8) d2 = Some LATENCY_MAGIC"
    using mark_stored [of off "mdata m" ?t] off Cons.prems(1) by (auto simp: marks_ok_def)
  obtain ms1 where ms1: "pktgen_latency_apply e ms ?w = Some (ms1, w1)" "ms' = m\<lparr>mdata := d2\<rparr> # ms1"
    using Cons.prems(2) off d by (auto simp: rte_rdtsc_precise_def bind_eq_Some_iff)
  let ?lat = "tsc e (tsc_reads v) - ?t"
  let ?i = "(port v)\<lparr>avg_latency := avg_latency (port v) + ?lat\<rparr>"
  let ?j = "if ?lat > jitter_threshold_clks ?i then ?i\<lparr>jitter_count := jitter_count ?i + 1\<rparr> else ?i"
  let ?v = "v\<lparr>tsc_reads := tsc_reads v + 1, port := ?j\<rparr>"
  have step: "recv_marks e ms' v = recv_marks e ms1 ?v"
    using offv d by (simp add: ms1(2) rte_rdtsc_precise_def Let_def)
  have "marks_ok ms ?w" using Cons.prems(1) by (simp add: marks_ok_def)
  moreover have "seq_pkt (port ?v) = seq_pkt (port ?w)" using Cons.prems(3) by simp
  ultimately obtain v' where v': "recv_marks e ms1 ?v = Some v'" "magic_errors (port v') = magic_errors (port ?v)"
    "latency_nb_pkts (port v') = latency_nb_pkts (port ?v)"
    "avg_latency (port v') = avg_latency (port ?v)
      + (\<Sum>k\<leftarrow>[0..<length ms]. tsc e (tsc_reads ?v + k) - tsc e (tsc_reads ?w + k))"
    using Cons.IH [OF _ ms1(1), of ?v] by blast
  have "[0..<length (m # ms)] = 0 # map Suc [0..<length ms]" by (simp add: map_Suc_upt upt_conv_Cons del: upt_Suc)
  then have "(\<Sum>k\<leftarrow>[0..<length (m # ms)]. tsc e (tsc_reads v + k) - tsc e (tsc_reads w + k)) =
      ?lat + (\<Sum>k\<leftarrow>[0..<length ms]. tsc e (tsc_reads ?v + k) - tsc e (tsc_reads ?w + k))"
    by (simp add: comp_def)
  then have "avg_latency (port v') = avg_latency (port v)
      + (\<Sum>k\<leftarrow>[0..<length (m # ms)]. tsc e (tsc_reads v + k) - tsc e (tsc_reads w + k))"
    using v'(4) by (simp only: add.assoc) simp
  moreover have "magic_errors (port v') = magic_errors (port v)" "latency_nb_pkts (port v') = latency_nb_pkts (port v)"
    using v'(2,3) by simp_all
  ultimately show ?case using v'(1) step by (intro exI [of _ v']) (simp only: simp_thms)
qed

text \<open>C37 Latency marks are found again: packets that were marked on sending and arrive unchanged
  raise no magic error, each is counted, and the accumulated latency grows by the sum of the clock
  differences between the reception and the marking of every packet.\<close>

theorem latency_roundtrip:
  assumes "SINGLE_PKT < length (seq_pkt (port w))" "\<forall>m \<in> set ms. 90 \<le> length (mdata m)"
    and "pktgen_latency_apply e ms w = Some (ms', w1)"
    and "seq_pkt (port v) = seq_pkt (port w)" "has_flag (port_flags (port v)) SEND_LATENCY_PKTS"
  shows "\<exists>v'. pktgen_recv_latency e ms' v = Some v' \<and> magic_errors (port v') = magic_errors (port v)
    \<and> latency_nb_pkts (port v') = latency_nb_pkts (port v) + word_of_nat (length ms)
    \<and> avg_latency (port v') = avg_latency (port v)
        + (\<Sum>k\<leftarrow>[0..<length ms]. tsc e (tsc_reads v + k) - tsc e (tsc_reads w + k))"
proof -
  have "marks_ok ms w" using assms(1,2) by (simp add: marks_ok_def)
  from recv_marks_sum [OF this assms(3,4)] latency_apply_length [OF assms(3)] assms(5)
  show ?thesis by (auto simp: pktgen_recv_latency_def)
qed

theorem latency_roundtrip_witness:
  "\<exists>ms' w1 v'. pktgen_latency_apply slow_device [sample_mbuf 1] sample_world = Some (ms', w1)
    \<and> pktgen_recv_latency slow_device ms' (w1\<lparr>port := (port w1)\<lparr>port_flags := SEND_LATENCY_PKTS\<rparr>\<rparr>) = Some v'
    \<and> avg_latency (port v') = 1"
proof -
  have ok: "marks_ok [sample_mbuf 1] sample_world"
    by (simp add: marks_ok_def sample_world_def sample_port_def sample_mbuf_def)
  from latency_apply_ok [OF this, of slow_device] obtain ms' r where
    a: "pktgen_latency_apply slow_device [sample_mbuf 1] sample_world = Some (ms', sample_world\<lparr>tsc_reads := r\<rparr>)" by blast
  then have r: "r = 1" by (auto simp: rte_rdtsc_precise_def bind_eq_Some_iff sample_world_def)
  let ?v = "sample_world\<lparr>tsc_reads := r, port := (port sample_world)\<lparr>port_flags := SEND_LATENCY_PKTS\<rparr>\<rparr>"
  have "\<exists>v'. pktgen_recv_latency slow_device ms' ?v = Some v' \<and> magic_errors (port v') = magic_errors (port ?v)
    \<and> latency_nb_pkts (port v') = latency_nb_pkts (port ?v) + word_of_nat (length [sample_mbuf 1])
    \<and> avg_latency (port v') = avg_latency (port ?v)
        + (\<Sum>k\<leftarrow>[0..<length [sample_mbuf 1]]. tsc slow_device (tsc_reads ?v + k) - tsc slow_device (tsc_reads sample_world + k))"
    by (rule latency_roundtrip [OF _ _ a]) (use ok in \<open>simp_all add: marks_ok_def has_flag_def SEND_LATENCY_PKTS_def\<close>)
  with a r show ?thesis by (auto simp: sample_world_def sample_port_def slow_device_def)
qed

end
