(* ===== verification/Receive.thy ===== *)
theory Receive
  imports Sender
begin

text \<open>
  Reception (\<open>app/pktgen.c\<close>, \<open>app/pktgen-arp.c\<close>, \<open>app/pktgen-ipv4.c\<close>, \<open>app/pktgen-vlan.c\<close>,
  \<open>app/pktgen-dump.c\<close>): a received packet is classified and counted, ARP requests and pings for
  an address of the port are answered in place, packets are dumped and captured on request, flows
  are counted, and a reflector sends packets back.  The packets that the device delivers are a
  parameter.  Giving a buffer back records its address in \<open>freed\<close>.  An answer is written into
  the buffer that was received, so the routines return it; what a sender writes later into a buffer
  that it was given is not seen here.
\<close>

section \<open>ARP\<close>

text \<open>Writing a field of a template of the port.\<close>

definition upd_seq :: "nat \<Rightarrow> (pkt_seq \<Rightarrow> pkt_seq) \<Rightarrow> world \<Rightarrow> world" where
  "upd_seq k f w = w\<lparr>port := (port w)\<lparr>seq_pkt := (seq_pkt (port w))[k := f (seq_pkt (port w) ! k)]\<rparr>\<rparr>"

definition clear_display :: "world \<Rightarrow> world" where
  "clear_display w = (case pktgen_clear_display (wglob w) (scr w) of (g, s) \<Rightarrow> w\<lparr>wglob := g, scr := s\<rparr>)"

fun rebuild_seq :: "nat list \<Rightarrow> world \<Rightarrow> world option" where
  "rebuild_seq [] w = Some w"
| "rebuild_seq (k # ks) w = do { w \<leftarrow> world_ctor k (- 1) w; rebuild_seq ks w }"

text \<open>The ARP header begins behind the Ethernet header and a VLAN tag.  \<open>txq\<close> is the transmit queue
  of the lcore (\<open>get_txque\<close>).\<close>

definition l3_offset :: "bool \<Rightarrow> nat" where
  "l3_offset vlan = sizeof ether_hdr + (if vlan then sizeof vlan_hdr else 0)"

definition answer_arp :: "env \<Rightarrow> mbuf \<Rightarrow> nat \<Rightarrow> nat \<Rightarrow> world \<Rightarrow> (mbuf \<times> world) option" where
  "answer_arp e m arp k w = do {
     w \<leftarrow> (if has_flag (flags (wglob w)) MAC_FROM_ARP_FLAG then do {
             sha \<leftarrow> rd (arp + offsetof arpPkt ''sha'') 6 (mdata m);
             rebuild_seq [0..<unat (seqCnt (port w))] (upd_seq k (eth_dst_addr_update (\<lambda>_. sha)) w) }
           else Some w);
     d \<leftarrow> ethAddrSwap (arp + offsetof arpPkt ''sha'') (arp + offsetof arpPkt ''tha'') (mdata m);
     d \<leftarrow> inetAddrSwap (arp + offsetof arpPkt ''tpa'') (arp + offsetof arpPkt ''spa'') d;
     d \<leftarrow> st16 (arp + offsetof arpPkt ''op'') (htons ARP_REPLY) d;
     d \<leftarrow> ethAddrSwap (offsetof ether_hdr ''d_addr'') (offsetof ether_hdr ''s_addr'') d;
     let mac = eth_src_addr (seq_pkt (port w) ! k);
     d \<leftarrow> wr (arp + offsetof arpPkt ''sha'') mac d;
     d \<leftarrow> wr (offsetof ether_hdr ''s_addr'') mac d;
     w \<leftarrow> pktgen_send_mbuf e (m\<lparr>mdata := d\<rparr>) 0 w;
     w \<leftarrow> flush_queue0 w;
     Some (m\<lparr>mdata := d\<rparr>, w) }"

definition pktgen_process_arp :: "env \<Rightarrow> nat \<Rightarrow> mbuf \<Rightarrow> bool \<Rightarrow> world \<Rightarrow> (mbuf \<times> world) option" where
  "pktgen_process_arp e txq m vlan w = do {
     let arp = l3_offset vlan;
     let d = mdata m;
     oper \<leftarrow> ld16 (arp + offsetof arpPkt ''op'') d;
     if oper = htons ARP_REQUEST then do {
       tpa \<leftarrow> ld32 (arp + offsetof arpPkt ''tpa'') d;
       spa \<leftarrow> ld32 (arp + offsetof arpPkt ''spa'') d;
       if has_flag (port_flags (port w)) PROCESS_GARP_PKTS \<and> tpa = spa then
         (case pktgen_find_matching_ipdst (port w) spa of None \<Rightarrow> Some (m, w)
          | Some k \<Rightarrow> do {
              sha \<leftarrow> rd (arp + offsetof arpPkt ''sha'') 6 d;
              let w = upd_seq k (eth_dst_addr_update (\<lambda>_. sha)) w;
              i \<leftarrow> pktgen_set_q_flags (port w) txq DO_TX_FLUSH;
              Some (m, clear_display (w\<lparr>port := i\<rparr>)) })
       else
         (case pktgen_find_matching_ipsrc (port w) tpa of None \<Rightarrow> Some (m, w)
          | Some k \<Rightarrow> answer_arp e m arp k w) }
     else if oper = htons ARP_REPLY then do {
       tpa \<leftarrow> ld32 (arp + offsetof arpPkt ''tpa'') d;
       case pktgen_find_matching_ipsrc (port w) tpa of None \<Rightarrow> Some (m, w)
       | Some k \<Rightarrow> do {
           spa \<leftarrow> ld32 (arp + offsetof arpPkt ''spa'') d;
           w \<leftarrow> (if s_addr (ip_dst_addr (seq_pkt (port w) ! k)) = ntohl spa then do {
                   sha \<leftarrow> rd (arp + offsetof arpPkt ''sha'') 6 d;
                   Some (upd_seq k (eth_dst_addr_update (\<lambda>_. sha)) w) }
                 else Some w);
           Some (m, w\<lparr>wglob := set_gflags (wglob w) PRINT_LABELS_FLAG\<rparr>) } }
     else Some (m, w) }"

section \<open>Ping\<close>

definition count_echo :: "world \<Rightarrow> world" where
  "count_echo w = w\<lparr>port := (port w)\<lparr>stats := (stats (port w))\<lparr>echo_pkts := echo_pkts (stats (port w)) + 1\<rparr>\<rparr>\<rparr>"

text \<open>The size passed to the checksum of the ICMP part does not allow for a VLAN tag.\<close>

definition icmp_size :: "mbuf \<Rightarrow> int" where
  "icmp_size m = int (unat (mdata_len m)) - int (sizeof ether_hdr) - int (sizeof ipHdr)"

definition answer_ping :: "env \<Rightarrow> mbuf \<Rightarrow> nat \<Rightarrow> world \<Rightarrow> (mbuf \<times> world) option" where
  "answer_ping e m ip w = do {
     let icmp = ip + sizeof ipHdr;
     let w = count_echo w;
     d \<leftarrow> st8 (icmp + offsetof icmpv4Hdr_echo ''type'') (word_of_int ICMP4_ECHO_REPLY) (mdata m);
     d \<leftarrow> st16 (icmp + offsetof icmpv4Hdr_echo ''cksum'') 0 d;
     c \<leftarrow> cksum (drop icmp d) (icmp_size m) 0;
     d \<leftarrow> st16 (icmp + offsetof icmpv4Hdr_echo ''cksum'') c d;
     d \<leftarrow> inetAddrSwap (ip + offsetof ipHdr ''src'') (ip + offsetof ipHdr ''dst'') d;
     idn \<leftarrow> ld16 (ip + offsetof ipHdr ''ident'') d;
     d \<leftarrow> st16 (ip + offsetof ipHdr ''ident'') (htons (ntohs idn + mdata_len m)) d;
     d \<leftarrow> st16 (ip + offsetof ipHdr ''cksum'') 0 d;
     c \<leftarrow> cksum (drop ip d) (int (sizeof ipHdr)) 0;
     d \<leftarrow> st16 (ip + offsetof ipHdr ''cksum'') c d;
     d \<leftarrow> ethAddrSwap (offsetof ether_hdr ''d_addr'') (offsetof ether_hdr ''s_addr'') d;
     w \<leftarrow> pktgen_send_mbuf e (m\<lparr>mdata := d\<rparr>) 0 w;
     w \<leftarrow> flush_queue0 w;
     Some (m\<lparr>mdata := d\<rparr>, w) }"

definition pktgen_process_ping4 :: "env \<Rightarrow> mbuf \<Rightarrow> bool \<Rightarrow> world \<Rightarrow> (mbuf \<times> world) option" where
  "pktgen_process_ping4 e m vlan w = do {
     let ip = l3_offset vlan;
     if has_flag (port_flags (port w)) ICMP_ECHO_ENABLE_FLAG then do {
       proto \<leftarrow> ld8 (ip + offsetof ipHdr ''proto'') (mdata m);
       if proto = PG_IPPROTO_ICMP then do {
         let icmp = ip + sizeof ipHdr;
         c \<leftarrow> cksum (drop icmp (mdata m)) (icmp_size m) 0;
         if c \<noteq> 0 then Some (m, w)
         else do {
           ty \<leftarrow> ld8 (icmp + offsetof icmpv4Hdr_echo ''type'') (mdata m);
           if uint ty = ICMP4_ECHO then do {
             dst \<leftarrow> ld32 (ip + offsetof ipHdr ''dst'') (mdata m);
             if ntohl dst = INADDR_BROADCAST then Some (m, w)
             else case pktgen_find_matching_ipsrc (port w) dst of None \<Rightarrow> Some (m, w)
               | Some k \<Rightarrow> answer_ping e m ip w }
           else if uint ty = ICMP4_ECHO_REPLY then Some (m, count_echo w)
           else Some (m, w) } }
       else Some (m, w) }
     else Some (m, w) }"

section \<open>VLAN\<close>

definition count_type :: "(pkt_stats \<Rightarrow> pkt_stats) \<Rightarrow> world \<Rightarrow> world" where
  "count_type f w = w\<lparr>port := (port w)\<lparr>stats := f (stats (port w))\<rparr>\<rparr>"

text \<open>\<open>pktgen_process_ping6\<close> is compiled out.\<close>

definition pktgen_process_vlan :: "env \<Rightarrow> nat \<Rightarrow> mbuf \<Rightarrow> world \<Rightarrow> (mbuf \<times> world) option" where
  "pktgen_process_vlan e txq m w = do {
     t \<leftarrow> ld16 (sizeof ether_hdr + offsetof vlan_hdr ''eth_proto'') (mdata m);
     let pType = ntohs t;
     if pType = ETHER_TYPE_ARP then
       pktgen_process_arp e txq m True (count_type (\<lambda>s. s\<lparr>arp_pkts := arp_pkts s + 1\<rparr>) w)
     else if pType = ETHER_TYPE_IPv4 then
       pktgen_process_ping4 e m True (count_type (\<lambda>s. s\<lparr>ip_pkts := ip_pkts s + 1\<rparr>) w)
     else if pType = ETHER_TYPE_IPv6 then
       Some (m, count_type (\<lambda>s. s\<lparr>ipv6_pkts := ipv6_pkts s + 1\<rparr>) w)
     else Some (m, w) }"

section \<open>Classification\<close>

text \<open>\<open>plen\<close> is an \<open>int\<close>.\<close>

definition wire_len :: "mbuf \<Rightarrow> int" where
  "wire_len m = sint (mpkt_len m + ucast FCS_SIZE)"

definition count_size :: "int \<Rightarrow> port_sizes \<Rightarrow> port_sizes" where
  "count_size plen s =
    (if plen = 64 then s\<lparr>sz_64 := sz_64 s + 1\<rparr>
     else if 64 + 1 \<le> plen \<and> plen \<le> 127 then s\<lparr>sz_65_127 := sz_65_127 s + 1\<rparr>
     else if 128 \<le> plen \<and> plen \<le> 255 then s\<lparr>sz_128_255 := sz_128_255 s + 1\<rparr>
     else if 256 \<le> plen \<and> plen \<le> 511 then s\<lparr>sz_256_511 := sz_256_511 s + 1\<rparr>
     else if 512 \<le> plen \<and> plen \<le> 1023 then s\<lparr>sz_512_1023 := sz_512_1023 s + 1\<rparr>
     else if 1024 \<le> plen \<and> plen \<le> 1518 then s\<lparr>sz_1024_1518 := sz_1024_1518 s + 1\<rparr>
     else if plen < 64 then s\<lparr>runt := runt s + 1\<rparr>
     else if 1518 + 1 \<le> plen then s\<lparr>jumbo := jumbo s + 1\<rparr>
     else s)"

text \<open>The cast to \<open>uint64_t *\<close> binds stronger than the addition, so the eight bytes that are compared
  lie at eight times the headroom from the start of the buffer.\<close>

definition RTE_PKTMBUF_HEADROOM :: nat where "RTE_PKTMBUF_HEADROOM = 128"

definition count_cast :: "mem \<Rightarrow> port_sizes \<Rightarrow> port_sizes option" where
  "count_cast d s = do {
     b \<leftarrow> ld8 0 d;
     if b = 0xFF then do {
       v \<leftarrow> ld64 (8 * RTE_PKTMBUF_HEADROOM - RTE_PKTMBUF_HEADROOM) d;
       if v AND 0xFFFFFFFFFFFF0000 = 0xFFFFFFFFFFFF0000 then Some (s\<lparr>broadcast := broadcast s + 1\<rparr>)
       else if b AND 1 \<noteq> 0 then Some (s\<lparr>multicast := multicast s + 1\<rparr>)
       else Some s }
     else Some s }"

definition process_input :: "env \<Rightarrow> nat \<Rightarrow> mbuf \<Rightarrow> u16 \<Rightarrow> world \<Rightarrow> (mbuf \<times> world) option" where
  "process_input e txq m pType w =
    (if pType = ETHER_TYPE_ARP then
       pktgen_process_arp e txq m False (count_type (\<lambda>s. s\<lparr>arp_pkts := arp_pkts s + 1\<rparr>) w)
     else if pType = ETHER_TYPE_IPv4 then
       pktgen_process_ping4 e m False (count_type (\<lambda>s. s\<lparr>ip_pkts := ip_pkts s + 1\<rparr>) w)
     else if pType = ETHER_TYPE_IPv6 then Some (m, count_type (\<lambda>s. s\<lparr>ipv6_pkts := ipv6_pkts s + 1\<rparr>) w)
     else if pType = ETHER_TYPE_VLAN then
       pktgen_process_vlan e txq m (count_type (\<lambda>s. s\<lparr>vlan_pkts := vlan_pkts s + 1\<rparr>) w)
     else Some (m, w))"

definition count_only :: "u16 \<Rightarrow> world \<Rightarrow> world" where
  "count_only pType w =
    (if pType = ETHER_TYPE_ARP then count_type (\<lambda>s. s\<lparr>arp_pkts := arp_pkts s + 1\<rparr>) w
     else if pType = ETHER_TYPE_IPv4 then count_type (\<lambda>s. s\<lparr>ip_pkts := ip_pkts s + 1\<rparr>) w
     else if pType = ETHER_TYPE_IPv6 then count_type (\<lambda>s. s\<lparr>ipv6_pkts := ipv6_pkts s + 1\<rparr>) w
     else if pType = ETHER_TYPE_VLAN then count_type (\<lambda>s. s\<lparr>vlan_pkts := vlan_pkts s + 1\<rparr>) w
     else w)"

definition pktgen_packet_classify :: "env \<Rightarrow> nat \<Rightarrow> mbuf \<Rightarrow> world \<Rightarrow> (mbuf \<times> world) option" where
  "pktgen_packet_classify e txq m w = do {
     let plen = wire_len m;
     pType \<leftarrow> pktgen_packet_type m;
     let fl = port_flags (port w);
     (m, w) \<leftarrow> (if has_flag fl (PROCESS_INPUT_PKTS OR PROCESS_RX_TAP_PKTS) then
             process_input e txq m pType
               (if has_flag fl PROCESS_RX_TAP_PKTS then w\<lparr>rx_tapped := rx_tapped w @ [tap_bytes m]\<rparr> else w)
           else Some (m, count_only pType w));
     let w = w\<lparr>port := (port w)\<lparr>sizes := count_size plen (sizes (port w))\<rparr>\<rparr>;
     s \<leftarrow> count_cast (mdata m) (sizes (port w));
     Some (m, w\<lparr>port := (port w)\<lparr>sizes := s\<rparr>\<rparr>) }"

text \<open>The two loops of the bulk routine differ in prefetching only.\<close>

fun pktgen_packet_classify_bulk :: "env \<Rightarrow> nat \<Rightarrow> mbuf list \<Rightarrow> world \<Rightarrow> (mbuf list \<times> world) option" where
  "pktgen_packet_classify_bulk e txq [] w = Some ([], w)"
| "pktgen_packet_classify_bulk e txq (m # ms) w = do {
     (m, w) \<leftarrow> pktgen_packet_classify e txq m w;
     (ms, w) \<leftarrow> pktgen_packet_classify_bulk e txq ms w;
     Some (m # ms, w) }"

section \<open>Dump\<close>

text \<open>The copy is zeroed memory of the wire length with the bytes of the packet at its start.\<close>

definition pktgen_packet_dump :: "mbuf \<Rightarrow> port_info \<Rightarrow> port_info option" where
  "pktgen_packet_dump m i = do {
     let k = unat (dump_tail i);
     guard (k < length (dump_list i));
     bs \<leftarrow> rd 0 (unat (mdata_len m)) (mdata m);
     d \<leftarrow> wr 0 bs (replicate (unat (mpkt_len m + ucast FCS_SIZE)) 0);
     Some (i\<lparr>dump_list := (dump_list i)[k := Some d], dump_tail := dump_tail i + 1\<rparr>) }"

fun dump_all :: "mbuf list \<Rightarrow> port_info \<Rightarrow> port_info option" where
  "dump_all [] i = Some i"
| "dump_all (m # ms) i = do { i \<leftarrow> pktgen_packet_dump m i; dump_all ms i }"

definition pktgen_packet_dump_bulk :: "mbuf list \<Rightarrow> port_info \<Rightarrow> port_info option" where
  "pktgen_packet_dump_bulk pkts i =
    (let n = min (int (length pkts)) (int (unat (dump_count i)));
         n = min n (int MAX_DUMP_PACKETS - int (unat (dump_tail i)))
     in if n = 0 then Some i
        else do {
          i \<leftarrow> dump_all (take (nat n) pkts) i;
          Some (i\<lparr>dump_count := dump_count i - word_of_int n\<rparr>) })"

section \<open>Reception\<close>

definition recv_ip_hdr :: "glob \<Rightarrow> nat" where
  "recv_ip_hdr g = (if enable_gtpu g \<noteq> 0 \<and> traffic_gen_as g = IL_TRAFFIC_GEN
     then ETH_HDR_LEN + IPV4_HDR_LEN + UDP_HDR_LEN + GTPU_HDR_LEN else ETH_HDR_LEN)"

text \<open>The reflector turns the packet around.\<close>

definition reflect :: "env \<Rightarrow> nat \<Rightarrow> mbuf \<Rightarrow> mbuf option" where
  "reflect e ip m = do {
     d \<leftarrow> inetAddrSwap (ip + offsetof ipHdr ''src'') (ip + offsetof ipHdr ''dst'') (mdata m);
     d \<leftarrow> ethAddrSwap (offsetof ether_hdr ''d_addr'') (offsetof ether_hdr ''s_addr'') d;
     let udp = ETH_HDR_LEN + IPV4_HDR_LEN;
     d \<leftarrow> st16 (udp + offsetof udpHdr ''cksum'') 0 d;
     d \<leftarrow> st16 (ip + offsetof ipHdr ''cksum'') 0 d;
     d \<leftarrow> st16 (udp + offsetof udpHdr ''cksum'') (udptcp_cksum e (drop ip d) (drop udp d)) d;
     d \<leftarrow> st16 (ip + offsetof ipHdr ''cksum'') (ipv4_cksum e (drop ip d)) d;
     Some (m\<lparr>mdata := d\<rparr>) }"

definition pktgen_inc_rx_and_reverse_addr :: "env \<Rightarrow> nat \<Rightarrow> mbuf \<Rightarrow> world \<Rightarrow> (mbuf \<times> world) option" where
  "pktgen_inc_rx_and_reverse_addr e qid m w = do {
     pType \<leftarrow> pktgen_packet_type m;
     if has_flag (port_flags (port w)) (PROCESS_INPUT_PKTS OR PROCESS_RX_TAP_PKTS) then Some (m, w)
     else if pType = ETHER_TYPE_IPv4 then do {
       let ip = recv_ip_hdr (wglob w);
       a \<leftarrow> ld32 (ip + offsetof ipHdr (if traffic_gen_as (wglob w) = IL_TRAFFIC_GEN then ''dst'' else ''src'')) (mdata m);
       (_, s) \<leftarrow> store_packet_cnt (wglob w) (ntohl a) (unat (pid (port w))) qid False (cnts w);
       let w = w\<lparr>cnts := s\<rparr>;
       if traffic_gen_as (wglob w) = IL_TRAFFIC_RESP_AS_REF
       then do { m \<leftarrow> reflect e ip m; Some (m, w) }
       else Some (m, w) }
     else Some (m, w) }"

fun inc_rx_all :: "env \<Rightarrow> nat \<Rightarrow> mbuf list \<Rightarrow> world \<Rightarrow> (mbuf list \<times> world) option" where
  "inc_rx_all e qid [] w = Some ([], w)"
| "inc_rx_all e qid (m # ms) w = do {
     (m, w) \<leftarrow> pktgen_inc_rx_and_reverse_addr e qid m w;
     (ms, w) \<leftarrow> inc_rx_all e qid ms w;
     Some (m # ms, w) }"

definition free_bulk :: "mbuf list \<Rightarrow> world \<Rightarrow> world" where
  "free_bulk ms w = w\<lparr>freed := freed w @ map mid ms\<rparr>"

text \<open>\<open>rx_qid\<close>, \<open>tx_qid\<close> and \<open>lid\<close> are the queues of the lcore on the port and the lcore; \<open>pkts\<close> is what
  \<open>rte_eth_rx_burst\<close> delivered.\<close>

definition pktgen_main_receive :: "env \<Rightarrow> nat \<Rightarrow> nat \<Rightarrow> u16 \<Rightarrow> mbuf list \<Rightarrow> world \<Rightarrow> world option" where
  "pktgen_main_receive e rx_qid tx_qid lid pkts w =
    (if pkts = [] then Some w
     else do {
       guard (rx_qid < length (q (port w)));
       let i = port w;
       let w = w\<lparr>port := i\<lparr>q := (q i)[rx_qid := (q i ! rx_qid)\<lparr>rx_cnt := rx_cnt (q i ! rx_qid) + word_of_nat (length pkts)\<rparr>]\<rparr>\<rparr>;
       w \<leftarrow> pktgen_recv_latency e pkts w;
       (pkts, w) \<leftarrow> pktgen_packet_classify_bulk e tx_qid pkts w;
       w \<leftarrow> (if dump_count (port w) > 0
             then map_option (\<lambda>i. w\<lparr>port := i\<rparr>) (pktgen_packet_dump_bulk pkts (port w)) else Some w);
       w \<leftarrow> (if has_flag (port_flags (port w)) CAPTURE_PKTS \<and> cap_port (wcap w) = pid (port w) \<and> cap_lcore (wcap w) = lid
             then map_option (\<lambda>c. w\<lparr>wcap := c\<rparr>) (pktgen_packet_capture_bulk pkts (wcap w)) else Some w);
       (pkts, w) \<leftarrow> inc_rx_all e rx_qid pkts w;
       if traffic_gen_as (wglob w) = IL_TRAFFIC_RESP_AS_REF then do {
         let (n, w) = rte_eth_tx_burst e tx_qid pkts w;
         w \<leftarrow> inc_tx_counts (take n pkts) tx_qid w;
         Some (if n < length pkts then free_bulk pkts w else w) }
       else Some (free_bulk pkts w) })"

end
