(* ===== verification/Conserve.thy ===== *)
theory Conserve
  imports Receive
begin

text \<open>
  What every turn of an lcore keeps: the counters of the flows agree with the counters of the
  queues, and the counters of the receiver (sizes of packets, packets of a queue) change only by the
  packets that were received, whatever the sender does in between.
\<close>

section \<open>What transmission keeps\<close>

text \<open>From \<open>w\<close> to \<open>w'\<close> the counters of the receiver are the same and the flow tables stay in
  agreement.\<close>

definition kept :: "world \<Rightarrow> world \<Rightarrow> bool" where
  "kept w w' \<longleftrightarrow> sizes (port w') = sizes (port w) \<and> map rx_cnt (q (port w')) = map rx_cnt (q (port w))
     \<and> (\<forall>n. has_table n w \<longrightarrow> has_table n w')"

lemma kept_refl [simp]: "kept w w"
  by (simp add: kept_def)

lemma kept_trans [trans]: "kept a b \<Longrightarrow> kept b c \<Longrightarrow> kept a c"
  by (simp add: kept_def)

text \<open>The fields of the globals that the flow tables depend on.\<close>

definition same_flows :: "glob \<Rightarrow> glob \<Rightarrow> bool" where
  "same_flows g g' \<longleftrightarrow> start_ip g' = start_ip g \<and> end_ip g' = end_ip g \<and> traffic_gen_as g' = traffic_gen_as g"

definition same_recv :: "port_info \<Rightarrow> port_info \<Rightarrow> bool" where
  "same_recv i i' \<longleftrightarrow> sizes i' = sizes i \<and> map rx_cnt (q i') = map rx_cnt (q i) \<and> pid i' = pid i"

lemma keptI: "same_recv (port w) (port w') \<Longrightarrow> same_flows (wglob w) (wglob w') \<Longrightarrow> cnts w' = cnts w \<Longrightarrow> kept w w'"
  by (auto simp: kept_def same_recv_def same_flows_def has_table_def)

lemma same_flows_refl [simp]: "same_flows g g"
  by (simp add: same_flows_def)

lemma same_recv_refl [simp]: "same_recv i i"
  by (simp add: same_recv_def)

lemma map_same: "f c = f (xs ! k) \<Longrightarrow> map f (xs[k := c]) = map f xs"
  by (metis list_update_id map_update)

lemma same_recv_q: "rx_cnt c = rx_cnt (q i ! k) \<Longrightarrow> same_recv i (i\<lparr>q := (q i)[k := c]\<rparr>)"
  by (simp add: same_recv_def map_same)

lemma same_recv_simps [simp]:
  "same_recv i (i\<lparr>seq_pkt := x\<rparr>)" "same_recv i (i\<lparr>port_flags := fl\<rparr>)" "same_recv i (i\<lparr>current_tx_count := c\<rparr>)"
  "same_recv i (i\<lparr>seqIdx := k\<rparr>)" "same_recv i (i\<lparr>stats := s\<rparr>)" "same_recv i (i\<lparr>magic_errors := me\<rparr>)"
  "same_recv i (i\<lparr>latency_nb_pkts := nb\<rparr>)" "same_recv i (i\<lparr>avg_latency := a\<rparr>)"
  "same_recv i (i\<lparr>avg_latency := a, jitter_count := j\<rparr>)"
  by (simp_all add: same_recv_def)

lemma q_flags_recv:
  "pktgen_set_q_flags i k f = Some i' \<Longrightarrow> same_recv i i'" "pktgen_clr_q_flags i k f = Some i' \<Longrightarrow> same_recv i i'"
  by (auto simp: pktgen_set_q_flags_def pktgen_clr_q_flags_def same_recv_q split: if_splits)

lemma flow_step:
  assumes "store_packet_cnt g ip pd qid tx s = Some (r, s')" "flow_inv n s" "unat (end_ip g - start_ip g) < n"
  shows "flow_inv n s'"
proof (cases "ip = 0 \<or> ip > end_ip g \<or> ip < start_ip g")
  case True
  then have "s' = s" using assms(1) by (auto simp: store_packet_cnt_def split: if_splits)
  with assms(2) show ?thesis by simp
next
  case False
  with assms(1) have pd: "pd < length (pid_cnts s)"
    and b: "bump qid (if tx then tx_qid_cnts (pid_cnts s ! pd) else rx_qid_cnts (pid_cnts s ! pd)) \<noteq> None"
    by (auto simp: store_packet_cnt_def bind_eq_Some_iff guard_eq_Some split: if_splits)
  then have "pd < 10" "cnt_ok (pid_cnts s ! pd)" using assms(2) by (auto simp: flow_inv_def)
  with b have "qid < 16" by (auto simp: bump_def cnt_ok_def split: if_splits)
  with store_conserves [OF assms(2,3) \<open>pd < 10\<close>, of qid ip tx] assms(1) show ?thesis by auto
qed

lemma kept_count:
  assumes "store_packet_cnt (wglob w) ip pd qid tx (cnts w) = Some (r, s)"
  shows "kept w (w\<lparr>cnts := s\<rparr>)"
  using flow_step [OF assms] by (auto simp: kept_def has_table_def)

lemma inc_tx_kept: "pktgen_inc_tx_count m qid w = Some w' \<Longrightarrow> kept w w'"
  by (auto simp: pktgen_inc_tx_count_def bind_eq_Some_iff Let_def kept_count split: if_splits)

lemma inc_txs_kept: "inc_tx_counts ms qid w = Some w' \<Longrightarrow> kept w w'"
  by (induction ms arbitrary: w) (auto simp: bind_eq_Some_iff intro: kept_trans dest: inc_tx_kept)

lemma timer_kept: "kept w (start_timer w)"
  by (auto simp: start_timer_def intro!: keptI split: prod.splits)

lemma treat_kept:
  "count_after qid ms w = Some w' \<Longrightarrow> kept w w'" "no_after ms w = Some w' \<Longrightarrow> kept w w'"
  "pktgen_do_tx_tap ms w = Some w' \<Longrightarrow> kept w w'"
  by (auto simp: count_after_def no_after_def pktgen_do_tx_tap_def intro: keptI kept_trans [OF timer_kept inc_txs_kept])

lemma latency_kept: "pktgen_latency_apply e ms w = Some (ms', w') \<Longrightarrow> kept w w'"
proof (induction ms arbitrary: w ms' w')
  case (Cons m ms)
  then obtain ms1 where "pktgen_latency_apply e ms (w\<lparr>tsc_reads := tsc_reads w + 1\<rparr>) = Some (ms1, w')"
    by (auto simp: bind_eq_Some_iff rte_rdtsc_precise_def)
  from Cons.IH [OF this] show ?case by (rule kept_trans [rotated]) (simp add: keptI)
qed simp

lemma prep_kept:
  "no_prep ms w = Some (ms', w') \<Longrightarrow> kept w w'" "random_prep ms w = Some (ms', w') \<Longrightarrow> kept w w'"
  by (auto simp: no_prep_def random_prep_def bind_eq_Some_iff intro: keptI)

lemma burst_kept:
  assumes "burst_loop prep treat e qid ms w = Some w'"
    and "\<forall>ms w ms' w'. prep ms w = Some (ms', w') \<longrightarrow> kept w w'" "\<forall>ms w w'. treat ms w = Some w' \<longrightarrow> kept w w'"
  shows "kept w w'"
proof -
  let ?P = "\<lambda>prep treat (e :: env) (qid :: nat) (ms :: mbuf list) w w'.
    (\<forall>ms w ms' w'. prep ms w = Some (ms' :: mbuf list, w') \<longrightarrow> kept w w') \<longrightarrow>
    (\<forall>(ms :: mbuf list) w w'. treat ms w = Some w' \<longrightarrow> kept w w') \<longrightarrow> kept w w'"
  have "?P prep treat e qid ms w w'"
  proof (rule burst_loop.raw_induct [where P = ?P, OF _ assms(1)], intro impI)
    fix loop prep treat e qid ms w y
    assume IH: "\<And>prep treat e qid ms w y. loop prep treat e qid ms w = Some y \<Longrightarrow> ?P prep treat e qid ms w y"
      and body: "(if ms = [] then Some w else prep ms w \<bind> (\<lambda>(ms, w).
          let (ret, w) = rte_eth_tx_burst e qid ms w
          in treat (take ret ms) w \<bind> loop prep treat e qid (drop ret ms))) = Some y"
      and p: "\<forall>ms w ms' w'. prep ms w = Some (ms', w') \<longrightarrow> kept w w'"
      and t: "\<forall>ms w w'. treat ms w = Some w' \<longrightarrow> kept w w'"
    show "kept w y"
    proof (cases "ms = []")
      case False
      with body obtain ms' v where v: "prep ms w = Some (ms', v)" by (auto simp: bind_eq_Some_iff)
      obtain n u where u: "rte_eth_tx_burst e qid ms' v = (n, u)" by (metis surj_pair)
      with v body False obtain x where x: "treat (take n ms') u = Some x" "loop prep treat e qid (drop n ms') x = Some y"
        by (auto simp: bind_eq_Some_iff)
      have "kept w v" using p v by blast
      also have "kept v u" using u by (auto simp: rte_eth_tx_burst_def Let_def intro: keptI)
      also have "kept u x" using t x(1) by blast
      also have "kept x y" using IH [OF x(2)] p t by blast
      finally show ?thesis .
    qed (use body in simp)
  qed
  with assms(2,3) show ?thesis by blast
qed

lemma take_table_kept: "take_table qid w = Some (ms, w') \<Longrightarrow> kept w w'"
  by (auto simp: take_table_def Let_def intro!: keptI same_recv_q split: if_splits)

lemmas burst_parts_kept = treat_kept prep_kept latency_kept

lemma send_burst_kept: "pktgen_send_burst e qid w = Some w' \<Longrightarrow> kept w w'"
  by (auto simp: pktgen_send_burst_def send_burst_random_def send_burst_latency_def send_burst_fast_def
      bind_eq_Some_iff dest!: take_table_kept burst_kept intro: kept_trans burst_parts_kept split: if_splits)


lemma send_mbuf_kept: "pktgen_send_mbuf e m qid w = Some w' \<Longrightarrow> kept w w'"
proof -
  assume a: "pktgen_send_mbuf e m qid w = Some w'"
  let ?w = "w\<lparr>port := (port w)\<lparr>q := (q (port w))[qid := (q (port w) ! qid)\<lparr>tx_mbufs := tx_mbufs (q (port w) ! qid) @ [m]\<rparr>]\<rparr>\<rparr>"
  have "kept w ?w" by (rule keptI) (simp_all add: same_recv_q)
  moreover have "w' = ?w \<or> pktgen_send_burst e qid ?w = Some w'"
    using a by (auto simp: pktgen_send_mbuf_def bind_eq_Some_iff Let_def split: if_splits)
  ultimately show ?thesis using kept_trans send_burst_kept by blast
qed

lemma flush_queue0_kept: "flush_queue0 w = Some w' \<Longrightarrow> kept w w'"
  by (auto simp: flush_queue0_def intro!: keptI dest: q_flags_recv)

lemma tx_flush_kept: "pktgen_tx_flush e qid w = Some w' \<Longrightarrow> kept w w'"
proof -
  assume "pktgen_tx_flush e qid w = Some w'"
  then obtain v i where v: "pktgen_send_burst e qid w = Some v"
    and i: "pktgen_clr_q_flags (port v) qid DO_TX_FLUSH = Some i" "w' = v\<lparr>port := i\<rparr>"
    by (auto simp: pktgen_tx_flush_def bind_eq_Some_iff)
  have "kept v w'" using q_flags_recv(2) [OF i(1)] i(2) by (auto intro: keptI)
  with send_burst_kept [OF v] show ?thesis by (rule kept_trans)
qed

lemma alloc_special_kept: "alloc_special qid w = (m, w') \<Longrightarrow> kept w w'"
  by (auto simp: alloc_special_def intro: keptI split: list.splits)

lemma ident_only_flows: "ident_only g g' \<Longrightarrow> same_flows g g'"
  by (auto simp: ident_only_def same_flows_def)

lemma world_ctor_kept: "world_ctor k ty w = Some w' \<Longrightarrow> kept w w'"
  by (auto simp: world_ctor_def bind_eq_Some_iff ident_only_flows intro!: keptI dest!: packet_ctor_frame)

lemma send_arp_kept: "pktgen_send_arp e ty k w = Some w' \<Longrightarrow> kept w w'"
  by (auto simp: pktgen_send_arp_def bind_eq_Some_iff dest!: alloc_special_kept send_mbuf_kept flush_queue0_kept
      intro: kept_trans split: prod.splits option.splits)

lemma kept_seq: "kept (w\<lparr>port := (port w)\<lparr>seq_pkt := s\<rparr>\<rparr>) w' \<Longrightarrow> kept w w'"
  by (erule kept_trans [rotated]) (simp add: keptI)

lemma send_ping4_kept: "pktgen_send_ping4 e k w = Some w' \<Longrightarrow> kept w w'"
  by (auto simp: pktgen_send_ping4_def bind_eq_Some_iff Let_def
      dest!: alloc_special_kept world_ctor_kept send_mbuf_kept flush_queue0_kept kept_seq
      intro: kept_trans split: prod.splits option.splits)

lemma send_requests_kept: "send_requests e fl k w = Some w' \<Longrightarrow> kept w w'"
  by (auto simp: send_requests_def bind_eq_Some_iff dest!: send_arp_kept send_ping4_kept
      intro: kept_trans split: if_splits)

lemma send_seq_requests_kept: "send_seq_requests e fl ks w = Some w' \<Longrightarrow> kept w w'"
  by (induction ks arbitrary: w) (auto simp: bind_eq_Some_iff intro: kept_trans dest: send_requests_kept)

lemma clr_flags_kept: "kept w (w\<lparr>port := pktgen_clr_port_flags (port w) fl\<rparr>)"
  by (simp add: keptI clr_port_flags_eq)

lemma send_special_kept: "pktgen_send_special e fl w = Some w' \<Longrightarrow> kept w w'"
  by (auto simp: pktgen_send_special_def bind_eq_Some_iff dest!: send_seq_requests_kept send_requests_kept
      intro: kept_trans clr_flags_kept)

lemma setup_single_kept: "setup_single m w = Some (m', w') \<Longrightarrow> kept w w'"
  by (auto simp: setup_single_def bind_eq_Some_iff Let_def dest: world_ctor_kept)

lemma kept_range: "kept (w\<lparr>statics := x, port := (port w)\<lparr>seq_pkt := s\<rparr>\<rparr>) w' \<Longrightarrow> kept w w'"
  by (erule kept_trans [rotated]) (simp add: keptI)

lemma kept_enb: "kept w w' \<Longrightarrow> kept w (w'\<lparr>enb_cnt := x\<rparr>)"
  by (erule kept_trans) (simp add: keptI)

lemma setup_range_kept: "setup_range e m w = Some (m', w') \<Longrightarrow> kept w w'"
  by (auto simp: setup_range_def bind_eq_Some_iff Let_def dest!: world_ctor_kept kept_range intro: kept_enb
      split: prod.splits if_splits)

lemma advance_seq_kept: "kept w (w\<lparr>port := advance_seq (port w)\<rparr>)"
  by (simp add: advance_seq_def Let_def keptI)

lemma setup_seq_gui_kept: "setup_seq_gui m w = Some r \<Longrightarrow> kept w (snd r)"
proof -
  assume a: "setup_seq_gui m w = Some r"
  let ?P = "\<lambda>(m :: mbuf) w (r :: mbuf \<times> world). kept w (snd r)"
  show ?thesis
  proof (rule setup_seq_gui.raw_induct [where P = ?P, OF _ a])
    fix loop m w y
    assume IH: "\<And>m w y. loop m w = Some y \<Longrightarrow> ?P m w y"
      and body: "(if seqIdx (port w) < seqCnt (port w) then
         let k = unat (seqIdx (port w)); w = w\<lparr>port := advance_seq (port w)\<rparr> in
         if k < length (seq_pkt (port w)) then
           if seq_enabled (seq_pkt (port w) ! k) \<noteq> 0 then
             Option.bind (world_ctor (unat (seqIdx (port w))) (- 1) w) (\<lambda>w.
             Option.bind (copy_hdr (seq_pkt (port w) ! k) m) (\<lambda>m.
             Some (set_lens (seq_pkt (port w) ! k) m, w)))
           else loop m w
         else None
       else Some (m, w)) = Some y"
    show "kept w (snd y)"
    proof (cases "seqIdx (port w) < seqCnt (port w)")
      case True
      let ?w = "w\<lparr>port := advance_seq (port w)\<rparr>"
      have "kept ?w (snd y)" using body True IH [of m ?w y]
        by (auto simp: Let_def bind_eq_Some_iff dest: world_ctor_kept split: if_splits)
      with advance_seq_kept show ?thesis by (rule kept_trans)
    qed (use body in auto)
  qed
qed

lemma setup_seq_kept: "setup_seq m w = Some (m', w') \<Longrightarrow> kept w w'"
  using advance_seq_kept
  by (auto simp: setup_seq_def bind_eq_Some_iff Let_def dest!: world_ctor_kept setup_seq_gui_kept
      intro: kept_trans split: if_splits)

lemma setup_cb_kept: "pktgen_setup_cb e mp m w = Some (m', w') \<Longrightarrow> kept w w'"
  by (cases mp) (auto simp: pktgen_setup_cb_def dest: setup_single_kept setup_range_kept setup_seq_kept)

lemma setup_all_kept: "setup_all e mp ms w = Some (ms', w') \<Longrightarrow> kept w w'"
proof (induction ms arbitrary: w ms' w')
  case (Cons m ms)
  then obtain m1 v ms1 where "pktgen_setup_cb e mp m w = Some (m1, v)" "setup_all e mp ms v = Some (ms1, w')"
    by (auto simp: bind_eq_Some_iff)
  with Cons.IH setup_cb_kept show ?case by (blast intro: kept_trans)
qed simp

lemma kept_pools: "kept w w' \<Longrightarrow> kept w (w'\<lparr>pools := x\<rparr>)"
  by (erule kept_trans) (simp add: keptI)

lemma kept_port: "same_recv (port w) i \<Longrightarrow> kept (w\<lparr>port := i\<rparr>) w' \<Longrightarrow> kept w w'"
  by (erule kept_trans [rotated]) (simp add: keptI)

lemma setup_packets_kept: "pktgen_setup_packets e mp qid w = Some w' \<Longrightarrow> kept w w'"
  by (auto simp: pktgen_setup_packets_def bind_eq_Some_iff Let_def dest!: q_flags_recv(2) setup_all_kept
      intro!: kept_pools intro: kept_port split: if_splits)


lemma set_table_kept: "kept w (set_table qid ms w)"
  by (simp add: set_table_def keptI same_recv_q)

lemma alloc_bulk_kept: "pg_pktmbuf_alloc_bulk qid mp n w = Some (r, w') \<Longrightarrow> kept w w'"
  by (auto simp: alloc_bulk_eq intro: keptI split: if_splits)

lemma sent_kept:
  "pktgen_send_burst e qid (set_table qid ms w) = Some w' \<Longrightarrow> kept w w'"
  "pktgen_send_burst e qid (w\<lparr>port := (port w)\<lparr>q := (q (port w))[qid := (q (port w) ! qid)\<lparr>tx_cnt := c\<rparr>]\<rparr>\<rparr>) = Some w' \<Longrightarrow> kept w w'"
proof -
  show "pktgen_send_burst e qid (set_table qid ms w) = Some w' \<Longrightarrow> kept w w'"
    by (rule kept_trans [OF set_table_kept send_burst_kept])
  show "pktgen_send_burst e qid (w\<lparr>port := (port w)\<lparr>q := (q (port w))[qid := (q (port w) ! qid)\<lparr>tx_cnt := c\<rparr>]\<rparr>\<rparr>) = Some w'
    \<Longrightarrow> kept w w'"
    by (rule kept_port [OF same_recv_q send_burst_kept]) simp_all
qed

lemma kept_credit: "kept (w\<lparr>port := (port w)\<lparr>current_tx_count := c\<rparr>\<rparr>) w' \<Longrightarrow> kept w w'"
  by (erule kept_port [rotated]) simp

lemma send_pkts_kept: "pktgen_send_pkts e qid mp w = Some w' \<Longrightarrow> kept w w'"
proof -
  assume a: "pktgen_send_pkts e qid mp w = Some w'"
  show ?thesis
  proof (cases "has_flag (port_flags (port w)) SEND_FOREVER")
    case True
    with a obtain ms v where v: "pg_pktmbuf_alloc_bulk qid mp (unat (tx_burst (port w))) w = Some (ms, v)"
      by (auto simp: pktgen_send_pkts_def bind_eq_Some_iff Let_def)
    have "kept v w'"
    proof (cases ms)
      case None
      then show ?thesis using a True v by (simp add: pktgen_send_pkts_def bind_eq_Some_iff Let_def)
    next
      case (Some ms')
      let ?v = "set_table qid ms' v"
      have "kept ?v w'" using a True v Some
        by (simp add: pktgen_send_pkts_def bind_eq_Some_iff Let_def) (blast intro: sent_kept(2))
      then show ?thesis by (rule kept_trans [OF set_table_kept])
    qed
    with alloc_bulk_kept [OF v] show ?thesis by (rule kept_trans)
  next
    case False
    obtain c t where ct: "pkt_atomic64_tx_count (current_tx_count (port w)) (int (unat (tx_burst (port w)))) = (c, t)"
      by (metis surj_pair)
    let ?w = "w\<lparr>port := (port w)\<lparr>current_tx_count := c\<rparr>\<rparr>"
    have "kept ?w w'"
    proof (cases "0 < sint t")
      case True
      with a False ct obtain ms v where v: "pg_pktmbuf_alloc_bulk qid mp (unat t) ?w = Some (ms, v)"
        by (auto simp: pktgen_send_pkts_def bind_eq_Some_iff Let_def)
      have "kept v w'" using a True False v ct
        by (cases ms) (auto simp: pktgen_send_pkts_def bind_eq_Some_iff Let_def intro: sent_kept(1))
      with alloc_bulk_kept [OF v] show ?thesis by (rule kept_trans)
    next
      case no: False
      with a False ct have "w' = ?w\<lparr>port := pktgen_clr_port_flags (port ?w) (SENDING_PACKETS OR SEND_FOREVER)\<rparr>"
        by (auto simp: pktgen_send_pkts_def bind_eq_Some_iff Let_def)
      then show ?thesis by (simp only: clr_flags_kept)
    qed
    then show ?thesis by (rule kept_credit)
  qed
qed

text \<open>One turn of the sender, whatever the flags are.\<close>

lemma transmit_kept: "pktgen_main_transmit e qid w = Some w' \<Longrightarrow> kept w w'"
  by (auto simp: pktgen_main_transmit_def bind_eq_Some_iff Let_def
      dest!: send_special_kept setup_packets_kept send_pkts_kept tx_flush_kept intro: kept_trans split: if_splits)

section \<open>What reception changes\<close>

lemma recv_marks_kept: "recv_marks e ms w = Some w' \<Longrightarrow> kept w w'"
proof (induction ms arbitrary: w)
  case (Cons m ms)
  then obtain v where v: "recv_marks e ms v = Some w'" "same_recv (port w) (port v)" "wglob v = wglob w" "cnts v = cnts w"
    by (auto simp: bind_eq_Some_iff rte_rdtsc_precise_def Let_def split: if_splits)
  then have "kept w v" by (intro keptI) simp_all
  with Cons.IH [OF v(1)] show ?case by (blast intro: kept_trans)
qed simp

lemma kept_nb: "kept w v \<Longrightarrow> kept w (v\<lparr>port := (port v)\<lparr>latency_nb_pkts := n\<rparr>\<rparr>)"
  by (erule kept_trans) (simp add: keptI)

lemma recv_latency_kept: "pktgen_recv_latency e ms w = Some w' \<Longrightarrow> kept w w'"
  by (auto simp: pktgen_recv_latency_def bind_eq_Some_iff dest: recv_marks_kept intro: kept_nb split: if_splits)

lemma upd_seq_kept: "kept w (upd_seq k f w)"
  by (simp add: upd_seq_def keptI)

lemma display_flows: "pktgen_page_display g s = (g', s') \<Longrightarrow> same_flows g g'"
  by (auto simp: pktgen_page_display_def Let_def same_flows_def set_gflags_def clr_gflags_def split: if_splits)

lemma clear_display_kept: "kept w (clear_display w)"
proof -
  obtain g s where gs: "pktgen_page_display (pktgen_update_display (wglob w)) ((scr w)\<lparr>paused := False\<rparr>) = (g, s)"
    by (metis surj_pair)
  from display_flows [OF this] have "same_flows (wglob w) g"
    by (simp add: pktgen_update_display_def same_flows_def set_gflags_def)
  then have "same_flows (wglob w) (fst (pktgen_clear_display (wglob w) (scr w)))"
    using gs by (auto simp: pktgen_clear_display_def Let_def)
  then show ?thesis by (auto simp: clear_display_def intro!: keptI split: prod.splits)
qed


lemma rebuild_kept: "rebuild_seq ks w = Some w' \<Longrightarrow> kept w w'"
  by (induction ks arbitrary: w) (auto simp: bind_eq_Some_iff intro: kept_trans dest: world_ctor_kept)

lemma kept_upd: "kept (upd_seq k f w) w' \<Longrightarrow> kept w w'"
  by (rule kept_trans [OF upd_seq_kept])

lemma answer_arp_kept: "answer_arp e m arp k w = Some (m', w') \<Longrightarrow> kept w w'"
  by (auto simp: answer_arp_def bind_eq_Some_iff Let_def dest!: rebuild_kept kept_upd send_mbuf_kept flush_queue0_kept
      intro: kept_trans split: if_splits)

text \<open>Reading keeps the state.\<close>

lemma pres_skip: "(\<And>x. pres P (f x)) \<Longrightarrow> pres P (Option.bind m f)"
  by (auto intro: pres_bind [OF pres_any])

lemma pres_option:
  "pres P a \<Longrightarrow> (\<And>k. pres P (f k)) \<Longrightarrow> pres P (case x of None \<Rightarrow> a | Some k \<Rightarrow> f k)"
  by (cases x) simp_all

lemma pres_learn:
  assumes "\<And>v. kept w v \<Longrightarrow> pres P (f v)"
  shows "pres P (Option.bind (if b then Option.bind r (\<lambda>x. Some (upd_seq k (g x) w)) else Some w) f)"
  by (cases r) (auto intro: assms upd_seq_kept pres_None)

lemma pres_garp:
  "pres (\<lambda>(m, v). kept w v) (Option.bind (pktgen_set_q_flags (port (upd_seq k f w)) txq fl)
    (\<lambda>i. Some (m, clear_display ((upd_seq k f w)\<lparr>port := i\<rparr>))))"
  unfolding pres_def
proof (clarsimp simp: bind_eq_Some_iff)
  fix i assume "pktgen_set_q_flags (port (upd_seq k f w)) txq fl = Some i"
  from q_flags_recv(1) [OF this] have "kept (upd_seq k f w) ((upd_seq k f w)\<lparr>port := i\<rparr>)" by (intro keptI) simp_all
  then show "kept w (clear_display ((upd_seq k f w)\<lparr>port := i\<rparr>))"
    by (blast intro: kept_trans upd_seq_kept clear_display_kept)
qed

lemma kept_labels: "kept w v \<Longrightarrow> kept w (v\<lparr>wglob := set_gflags (wglob v) f\<rparr>)"
  by (erule kept_trans) (auto intro!: keptI simp: set_gflags_def same_flows_def)

lemma pres_answer_arp: "pres (\<lambda>(m, v). kept w v) (answer_arp e m arp k w)"
  by (auto simp: pres_def dest: answer_arp_kept)

lemma pres_process_arp: "pres (\<lambda>(m, v). kept w v) (pktgen_process_arp e txq m vlan w)"
  unfolding pktgen_process_arp_def Let_def
  by (intro pres_if pres_garp pres_learn pres_answer_arp pres_option pres_skip pres_Some)
    (simp_all add: kept_labels)

lemma process_arp_kept: "pktgen_process_arp e txq m vlan w = Some (m', w') \<Longrightarrow> kept w w'"
  using presD [OF pres_process_arp] by fastforce

lemma stats_kept: "kept w (count_type f w)" "kept w (count_echo w)"
  by (simp_all add: count_type_def count_echo_def keptI)

lemma answer_ping_kept: "answer_ping e m ip w = Some (m', w') \<Longrightarrow> kept w w'"
  by (auto simp: answer_ping_def bind_eq_Some_iff Let_def dest!: send_mbuf_kept flush_queue0_kept
      intro: kept_trans stats_kept)

lemma pres_answer_ping: "pres (\<lambda>(m, v). kept w v) (answer_ping e m ip w)"
  by (auto simp: pres_def dest: answer_ping_kept)

lemma pres_process_ping4: "pres (\<lambda>(m, v). kept w v) (pktgen_process_ping4 e m vlan w)"
  unfolding pktgen_process_ping4_def Let_def
  by (intro pres_if pres_answer_ping pres_option pres_skip pres_Some) (simp_all add: stats_kept)

lemma process_ping4_kept: "pktgen_process_ping4 e m vlan w = Some (m', w') \<Longrightarrow> kept w w'"
  using presD [OF pres_process_ping4] by fastforce

lemmas process_kept = process_arp_kept process_ping4_kept

lemma process_vlan_kept: "pktgen_process_vlan e txq m w = Some (m', w') \<Longrightarrow> kept w w'"
  by (auto simp: pktgen_process_vlan_def bind_eq_Some_iff Let_def dest!: process_kept
      intro: kept_trans stats_kept split: if_splits)

lemma process_input_kept: "process_input e txq m t w = Some (m', w') \<Longrightarrow> kept w w'"
  by (auto simp: process_input_def dest!: process_kept process_vlan_kept intro: kept_trans stats_kept
      split: if_splits)

lemma count_only_kept: "kept w (count_only t w)"
  by (simp add: count_only_def stats_kept)

section \<open>The size counters\<close>

text \<open>The eight classes of sizes.\<close>

definition class_sum :: "port_sizes \<Rightarrow> u64" where
  "class_sum s = runt s + sz_64 s + sz_65_127 s + sz_128_255 s + sz_256_511 s + sz_512_1023 s
     + sz_1024_1518 s + jumbo s"

lemma count_size_sum: "class_sum (count_size plen s) = class_sum s + 1"
  by (simp add: count_size_def class_sum_def)

lemma count_cast_sum: "count_cast d s = Some s' \<Longrightarrow> class_sum s' = class_sum s"
  by (auto simp: count_cast_def bind_eq_Some_iff class_sum_def split: if_splits)

text \<open>From \<open>w\<close> to \<open>w'\<close>, \<open>k\<close> packets were classified.\<close>

definition classified :: "nat \<Rightarrow> world \<Rightarrow> world \<Rightarrow> bool" where
  "classified k w w' \<longleftrightarrow> class_sum (sizes (port w')) = class_sum (sizes (port w)) + word_of_nat k
     \<and> map rx_cnt (q (port w')) = map rx_cnt (q (port w)) \<and> (\<forall>n. has_table n w \<longrightarrow> has_table n w')"

lemma classified_trans: "classified j a b \<Longrightarrow> classified k b c \<Longrightarrow> classified (j + k) a c"
  by (simp add: classified_def)

lemma kept_classified: "kept w w' \<Longrightarrow> classified 0 w w'"
  by (simp add: kept_def classified_def)

lemma classify_one:
  assumes "pktgen_packet_classify e txq m w = Some (m', w')"
  shows "classified 1 w w'"
proof -
  let ?tap = "\<lambda>w. w\<lparr>rx_tapped := rx_tapped w @ [tap_bytes m]\<rparr>"
  from assms obtain v where v: "kept w v \<or> kept (?tap w) v" and w': "\<exists>s. count_cast (mdata m') (count_size (wire_len m) (sizes (port v))) = Some s
      \<and> w' = v\<lparr>port := (port v)\<lparr>sizes := s\<rparr>\<rparr>"
    by (auto simp: pktgen_packet_classify_def bind_eq_Some_iff Let_def dest: process_input_kept
        intro: count_only_kept split: if_splits)
  have "kept w (?tap w)" by (simp add: keptI)
  with v have "kept w v" by (blast intro: kept_trans)
  then show ?thesis using w' by (auto simp: classified_def kept_def has_table_def count_size_sum dest!: count_cast_sum)
qed

lemma classify_bulk: "pktgen_packet_classify_bulk e txq ms w = Some (ms', w') \<Longrightarrow>
    classified (length ms) w w' \<and> length ms' = length ms"
proof (induction ms arbitrary: w ms' w')
  case Nil
  then show ?case by (simp add: kept_classified)
next
  case (Cons m ms)
  then obtain m1 v ms1 where v: "pktgen_packet_classify e txq m w = Some (m1, v)"
    and r: "pktgen_packet_classify_bulk e txq ms v = Some (ms1, w')" "ms' = m1 # ms1"
    by (auto simp: bind_eq_Some_iff)
  from classify_one [OF v] Cons.IH [OF r(1)] r(2) show ?case
    using classified_trans [of 1 w v "length ms" w'] by simp
qed

lemma dump_recv: "dump_all ms i = Some i' \<Longrightarrow> same_recv i i'"
proof (induction ms arbitrary: i)
  case (Cons m ms)
  then obtain i1 where i1: "pktgen_packet_dump m i = Some i1" "dump_all ms i1 = Some i'" by (auto simp: bind_eq_Some_iff)
  from i1(1) have "same_recv i i1" by (auto simp: pktgen_packet_dump_def bind_eq_Some_iff Let_def same_recv_def)
  with Cons.IH [OF i1(2)] show ?case by (simp add: same_recv_def)
qed simp

lemma dump_kept: "pktgen_packet_dump_bulk ms (port w) = Some i \<Longrightarrow> kept w (w\<lparr>port := i\<rparr>)"
  by (rule keptI) (auto simp: pktgen_packet_dump_bulk_def Let_def bind_eq_Some_iff same_recv_def
      dest!: dump_recv split: if_splits)

lemma inc_rx_kept: "pktgen_inc_rx_and_reverse_addr e qid m w = Some (m', w') \<Longrightarrow> kept w w'"
  by (auto simp: pktgen_inc_rx_and_reverse_addr_def bind_eq_Some_iff Let_def kept_count split: if_splits)

lemma inc_rxs_kept: "inc_rx_all e qid ms w = Some (ms', w') \<Longrightarrow> kept w w'"
proof (induction ms arbitrary: w ms' w')
  case (Cons m ms)
  then obtain m1 v ms1 where "pktgen_inc_rx_and_reverse_addr e qid m w = Some (m1, v)" "inc_rx_all e qid ms v = Some (ms1, w')"
    by (auto simp: bind_eq_Some_iff)
  with Cons.IH inc_rx_kept show ?case by (blast intro: kept_trans)
qed simp

lemma free_kept: "kept w (free_bulk ms w)"
  by (simp add: free_bulk_def keptI)

lemma tx_burst_kept: "rte_eth_tx_burst e qid ms w = (n, w') \<Longrightarrow> kept w w'"
  by (auto simp: rte_eth_tx_burst_def Let_def intro: keptI)

section \<open>One turn of the receiver\<close>

text \<open>The steps of a turn, after the packets that \<open>w0\<close> has not seen yet.\<close>

lemma classified_kept: "classified k w0 w \<Longrightarrow> kept w w' \<Longrightarrow> classified k w0 w'"
  using classified_trans [OF _ kept_classified] by fastforce

lemma pres_latency: "pres (\<lambda>v. kept w v) (pktgen_recv_latency e ms w)"
  by (auto simp: pres_def dest: recv_latency_kept)

lemma pres_classify: "kept w0 w \<Longrightarrow> pres (\<lambda>r. classified (length ms) w0 (snd r)) (pktgen_packet_classify_bulk e tx ms w)"
  using classified_trans [OF kept_classified [of w0 w]] by (auto simp: pres_def dest!: classify_bulk)

lemma pres_dump:
  "classified k w0 w \<Longrightarrow> pres (classified k w0)
    (if b then map_option (\<lambda>i. w\<lparr>port := i\<rparr>) (pktgen_packet_dump_bulk ms (port w)) else Some w)"
  by (auto simp: pres_def intro: classified_kept dump_kept)

lemma pres_capture:
  "classified k w0 w \<Longrightarrow> pres (classified k w0) (if b then map_option (\<lambda>c. w\<lparr>wcap := c\<rparr>) x else Some w)"
  by (auto simp: pres_def intro!: keptI elim!: classified_kept)

lemma pres_inc_rx: "classified k w0 w \<Longrightarrow> pres (\<lambda>r. classified k w0 (snd r)) (inc_rx_all e qid ms w)"
  by (auto simp: pres_def intro: classified_kept inc_rxs_kept)

lemma pres_send_back:
  assumes "classified k w0 w"
  shows "pres (classified k w0) (Option.bind (inc_tx_counts ms' qid (snd (rte_eth_tx_burst e qid ms w)))
    (\<lambda>w. Some (if b then free_bulk ms w else w)))"
proof -
  obtain n v where v: "rte_eth_tx_burst e qid ms w = (n, v)" by (metis surj_pair)
  from classified_kept [OF assms tx_burst_kept [OF v]] v show ?thesis
    by (auto simp: pres_def bind_eq_Some_iff dest!: inc_txs_kept intro: classified_kept free_kept)
qed

lemma receive_classified:
  assumes "pktgen_main_receive e rx tx lid pkts w = Some w'" "pkts \<noteq> []"
  shows "classified (length pkts) (w\<lparr>port := (port w)\<lparr>q := (q (port w))
    [rx := (q (port w) ! rx)\<lparr>rx_cnt := rx_cnt (q (port w) ! rx) + word_of_nat (length pkts)\<rparr>]\<rparr>\<rparr>) w'"
    (is "classified _ ?w _")
proof -
  have "pres (classified (length pkts) ?w) (pktgen_main_receive e rx tx lid pkts w)"
    unfolding pktgen_main_receive_def Let_def case_prod_beta
    apply (simp only: assms(2) if_False)
    apply (rule pres_bind [OF pres_any])
    apply (rule pres_bind [OF pres_latency])
    apply (rule pres_bind [OF pres_classify], assumption)
    apply (rule pres_bind [OF pres_dump], assumption)
    apply (rule pres_bind [OF pres_capture], assumption)
    apply (rule pres_bind [OF pres_inc_rx], assumption)
    by (intro pres_if pres_send_back pres_Some; (erule classified_kept [OF _ free_kept])?; assumption)
  with assms(1) show ?thesis by (auto simp: pres_def)
qed

lemma receive_counted:
  assumes "pktgen_main_receive e rx tx lid pkts w = Some w'"
  shows "class_sum (sizes (port w')) = class_sum (sizes (port w)) + word_of_nat (length pkts)
    \<and> map rx_cnt (q (port w')) = (map rx_cnt (q (port w)))[rx := rx_cnt (q (port w) ! rx) + word_of_nat (length pkts)]
    \<and> (\<forall>n. has_table n w \<longrightarrow> has_table n w')"
proof (cases "pkts = []")
  case True
  then have "w' = w" using assms by (simp add: pktgen_main_receive_def)
  then show ?thesis using True by (simp add: map_same flip: map_update)
next
  case False
  have "has_table n (w\<lparr>port := (port w)\<lparr>q := x\<rparr>\<rparr>) = has_table n w" for n x by (simp add: has_table_def)
  with receive_classified [OF assms False] show ?thesis by (simp add: classified_def map_update)
qed

section \<open>Any sequence of turns\<close>

text \<open>The turns of the main loops on one port: sending on a queue, and receiving packets on a queue,
  with the queue for answers and the lcore.\<close>

datatype turn = Tx_turn nat | Rx_turn nat nat u16 "mbuf list"

fun run_turn :: "env \<Rightarrow> turn \<Rightarrow> world \<Rightarrow> world option" where
  "run_turn e (Tx_turn qid) w = pktgen_main_transmit e qid w"
| "run_turn e (Rx_turn rx tx lid pkts) w = pktgen_main_receive e rx tx lid pkts w"

fun run_turns :: "env \<Rightarrow> turn list \<Rightarrow> world \<Rightarrow> world option" where
  "run_turns e [] w = Some w"
| "run_turns e (t # ts) w = do { w \<leftarrow> run_turn e t w; run_turns e ts w }"

fun packets_in :: "turn list \<Rightarrow> nat" where
  "packets_in [] = 0"
| "packets_in (Tx_turn qid # ts) = packets_in ts"
| "packets_in (Rx_turn rx tx lid pkts # ts) = length pkts + packets_in ts"

lemma turns_run:
  "run_turns e ts w = Some w' \<Longrightarrow> class_sum (sizes (port w')) = class_sum (sizes (port w)) + word_of_nat (packets_in ts)
    \<and> (\<forall>n. has_table n w \<longrightarrow> has_table n w')"
proof (induction ts arbitrary: w rule: packets_in.induct)
  case (2 qid ts)
  then obtain v where v: "pktgen_main_transmit e qid w = Some v" "run_turns e ts v = Some w'" by (auto simp: bind_eq_Some_iff)
  from transmit_kept [OF v(1)] "2.IH" [OF v(2)] show ?case by (simp add: kept_def)
next
  case (3 rx tx lid pkts ts)
  then obtain v where v: "pktgen_main_receive e rx tx lid pkts w = Some v" "run_turns e ts v = Some w'" by (auto simp: bind_eq_Some_iff)
  from receive_counted [OF v(1)] "3.IH" [OF v(2)] show ?case by simp
qed simp

text \<open>C5 Counters agree over the whole run of an lcore: whatever sequence of sending and receiving
  turns is made on a port (fast, random or latency bursts, ARP and ping requests and answers, dump,
  capture, reflector), for every queue the counters per flow still add up to the counter of the queue,
  and the eight counters of packet sizes together have grown by exactly the number of packets
  received: each packet is counted in one class, and sending never touches them.\<close>

theorem turns_conserve_counters:
  assumes "run_turns e ts w = Some w'" "has_table n w"
  shows "flow_inv n (cnts w') \<and> class_sum (sizes (port w')) = class_sum (sizes (port w)) + word_of_nat (packets_in ts)"
  using turns_run [OF assms(1)] assms(2) by (auto simp: has_table_def)

definition idle_world :: world where
  "idle_world = sample_world\<lparr>port := sample_port\<rparr>"

text \<open>An IPv4 packet for 10.0.0.2.\<close>

definition flow_mbuf :: mbuf where
  "flow_mbuf = (sample_mbuf 7)\<lparr>mdata := replicate 12 0 @ [8, 0] @ replicate 16 0 @ [10, 0, 0, 2] @ replicate 2000 0\<rparr>"

lemma flow_mbuf_fields:
  "pktgen_packet_type flow_mbuf = Some ETHER_TYPE_IPv4" "ld32 30 (mdata flow_mbuf) = Some 0x0200000A"
  "ld8 0 (mdata flow_mbuf) = Some 0" "wire_len flow_mbuf = 64"
  by code_simp+

lemma idle_table: "has_table 3 idle_world"
  using sample_ready by (simp add: port_ready_def has_table_def idle_world_def sample_port_def sample_world_def)

lemma idle_run: "\<exists>w'. run_turns slow_device [Rx_turn 0 0 1 [flow_mbuf], Tx_turn 0] idle_world = Some w'"
proof -
  have g: "traffic_gen_as flow_glob = IL_TRAFFIC_GEN" "recv_ip_hdr flow_glob = 14"
    by (simp_all add: flow_glob_def sample_glob_def recv_ip_hdr_def ETH_HDR_LEN_def)
  have ip: "ntohl 0x0200000A = 0x0A000002" "IL_TRAFFIC_GEN \<noteq> IL_TRAFFIC_RESP_AS_REF"
    "ETHER_TYPE_IPv4 \<noteq> ETHER_TYPE_ARP" by code_simp+
  obtain s where s: "store_packet_cnt flow_glob 0x0A000002 0 0 False (set_ip_pkt_counters 3 initial_flows) = Some (1, s)"
    using store_conserves [of 3 "set_ip_pkt_counters 3 initial_flows" flow_glob 0 0 "0x0A000002" False] flow_inv_initial [of 3]
    by (auto simp: flow_glob_def)
  show ?thesis
    by (simp add: pktgen_main_receive_def pktgen_recv_latency_def pktgen_packet_classify_def flow_mbuf_fields g ip s Let_def
        count_only_def count_type_def count_cast_def idle_world_def sample_world_def sample_port_def has_flag_def
        pktgen_inc_rx_and_reverse_addr_def pktgen_main_transmit_def free_bulk_def)
qed

text \<open>Over the two turns the packet for 10.0.0.2 is counted once.\<close>

theorem turns_conserve_counters_witness:
  "\<exists>w'. run_turns slow_device [Rx_turn 0 0 1 [flow_mbuf], Tx_turn 0] idle_world = Some w'
    \<and> flow_inv 3 (cnts w') \<and> class_sum (sizes (port w')) = 1"
proof -
  have "class_sum (sizes (port idle_world)) = 0"
    by (simp add: class_sum_def idle_world_def sample_port_def zero_port_sizes_def)
  with idle_run turns_conserve_counters [OF _ idle_table] show ?thesis by fastforce
qed

end
