(* ===== verification/Answers.thy ===== *)
theory Answers
  imports Receive
begin

text \<open>
  What the receiver does with packets for the port (\<open>pktgen_process_arp\<close>,
  \<open>pktgen_process_ping4\<close>, \<open>pktgen_packet_dump_bulk\<close>): the byte image of the answers to an ARP
  request and to a ping, and the packets that a dump keeps.
\<close>

section \<open>Fields of a packet that is written as a sequence of blocks\<close>

lemma rd_skip: "length a \<le> k \<Longrightarrow> rd k n (a @ b) = rd (k - length a) n b"
  by (auto simp: rd_def)

lemma rd_here: "length a = n \<Longrightarrow> rd 0 n (a @ b) = Some a"
  by (simp add: rd_def)

lemma wr_skip: "length a \<le> k \<Longrightarrow> wr k bs (a @ b) = map_option ((@) a) (wr (k - length a) bs b)"
  by (auto simp: wr_def put_def)

lemma wr_here: "length a = length bs \<Longrightarrow> wr 0 bs (a @ b) = Some (bs @ b)"
  by (simp add: wr_def put_def)

lemma ld_skip:
  assumes "length a \<le> k"
  shows "ld8 k (a @ b) = ld8 (k - length a) b" "ld16 k (a @ b) = ld16 (k - length a) b"
    "ld32 k (a @ b) = ld32 (k - length a) b"
proof -
  obtain j where "k = length a + j" using assms le_Suc_ex by blast
  then show "ld8 k (a @ b) = ld8 (k - length a) b" "ld16 k (a @ b) = ld16 (k - length a) b"
    "ld32 k (a @ b) = ld32 (k - length a) b"
    by (auto simp: ld8_def ld16_def ld32_def nth_append)
qed

lemma mk16_be: "mk16 (ucast (drop_bit 8 w)) (ucast w) = htons w"
  using mk16_le16 [of "htons w"] by (simp add: be16_def)

lemma mk32_be: "mk32 (ucast (drop_bit 24 w)) (ucast (drop_bit 16 w)) (ucast (drop_bit 8 w)) (ucast w) = htonl w"
  using mk32_le32 [of "htonl w"] by (simp add: be32_def)

lemma ld_here:
  "ld16 0 (be16 v @ b) = Some (htons v)" "ld32 0 (be32 x @ b) = Some (htonl x)" "ld8 0 (c # b) = Some c"
  by (simp_all add: ld8_def ld16_def ld32_def be16_def be32_def mk16_be mk32_be)

lemma ld16_le16: "ld16 0 (le16 v @ b) = Some v" "ld16 0 (0 # 0 # b) = Some 0"
  by (simp add: ld16_def nth_append) (simp add: ld16_def mk16_def)

lemma wr_zeros: "wr 0 (le16 c) (0 # 0 # b) = Some (le16 c @ b)"
  by (simp add: wr_def put_def)

lemma cons_skip:
  assumes "1 \<le> k"
  shows "ld8 k (c # b) = ld8 (k - 1) b" "ld16 k (c # b) = ld16 (k - 1) b" "ld32 k (c # b) = ld32 (k - 1) b"
    "wr k bs (c # b) = map_option ((#) c) (wr (k - 1) bs b)"
proof -
  have "(@) [c] = (#) c" by (rule ext) simp
  then show "ld8 k (c # b) = ld8 (k - 1) b" "ld16 k (c # b) = ld16 (k - 1) b" "ld32 k (c # b) = ld32 (k - 1) b"
    "wr k bs (c # b) = map_option ((#) c) (wr (k - 1) bs b)"
    using ld_skip [of "[c]" k b] wr_skip [of "[c]" k bs b] assms by simp_all
qed

lemmas block_simps = rd_skip rd_here wr_skip wr_here ld_skip ld_here ld16_le16 wr_zeros cons_skip st8_def st16_def st32_def

lemma map_option_bind: "Option.bind (map_option g x) f = Option.bind x (\<lambda>y. f (g y))"
  by (cases x) simp_all

lemma uint16Swap_behind:
  "uint16Swap (length a + d) (length a + s) (a @ b) = map_option ((@) a) (uint16Swap d s b)"
  by (cases "ld16 d b"; cases "ld16 s b"; cases "wr d (le16 (the (ld16 s b))) b")
    (simp_all add: uint16Swap_def ld_skip st16_def wr_skip map_option_bind)

lemma ethAddrSwap_skip:
  assumes "length a \<le> d" "length a \<le> s"
  shows "ethAddrSwap d s (a @ b) = map_option ((@) a) (ethAddrSwap (d - length a) (s - length a) b)"
proof -
  obtain d' s' where ds: "d = length a + d'" "s = length a + s'" using assms le_Suc_ex by metis
  have step: "uint16Swap (length a + d' + k) (length a + s' + k) (a @ m) =
      map_option ((@) a) (uint16Swap (d' + k) (s' + k) m)" for k m
    using uint16Swap_behind [of a "d' + k" "s' + k" m] by (simp only: add.assoc)
  show ?thesis unfolding ds ethAddrSwap_def
    by (cases "uint16Swap d' s' b"; cases "uint16Swap (d' + 2) (s' + 2) (the (uint16Swap d' s' b))")
      (simp_all only: uint16Swap_behind step map_option_bind option.map bind.simps option.sel diff_add_inverse)
qed

lemma uint16Swap_blocks:
  assumes "length p = d" "s = d + 2 + length x"
  shows "uint16Swap d s (p @ [a0, a1] @ x @ [b0, b1] @ r) = Some (p @ [b0, b1] @ x @ [a0, a1] @ r)"
proof -
  have "uint16Swap 0 (2 + length x) ([a0, a1] @ x @ [b0, b1] @ r) = Some ([b0, b1] @ x @ [a0, a1] @ r)"
    by (simp add: uint16Swap_def ld16_def st16_def wr_def put_def nth_append)
  with assms uint16Swap_behind [of p 0 "2 + length x"] show ?thesis by (simp add: add.assoc)
qed

lemma six: "length a = 6 \<Longrightarrow> \<exists>a0 a1 a2 a3 a4 a5. a = [a0, a1, a2, a3, a4, a5]"
  by (auto simp: numeral_eq_Suc length_Suc_conv)

lemma ethAddrSwap_here:
  assumes "length a = 6" "length b = 6" "k = 6 + length x"
  shows "ethAddrSwap 0 k (a @ x @ b @ y) = Some (b @ x @ a @ y)"
proof -
  obtain a0 a1 a2 a3 a4 a5 where a: "a = [a0, a1, a2, a3, a4, a5]" using six [OF assms(1)] by blast
  obtain b0 b1 b2 b3 b4 b5 where b: "b = [b0, b1, b2, b3, b4, b5]" using six [OF assms(2)] by blast
  show ?thesis unfolding a b assms(3) ethAddrSwap_def
    using uint16Swap_blocks [of "[]" 0 "6 + length x" "[a2, a3, a4, a5] @ x" a0 a1 b0 b1 "[b2, b3, b4, b5] @ y"]
      uint16Swap_blocks [of "[b0, b1]" 2 "8 + length x" "[a4, a5] @ x @ [a0, a1]" a2 a3 b2 b3 "[b4, b5] @ y"]
      uint16Swap_blocks [of "[b0, b1, b2, b3]" 4 "10 + length x" "x @ [a0, a1, a2, a3]" a4 a5 b4 b5 y]
    by (simp add: add.commute del: add_2_eq_Suc')
qed

text \<open>Swapping two addresses that lie in later blocks.\<close>

lemma inetAddrSwap_skip:
  assumes "length a \<le> d" "length a \<le> s"
  shows "inetAddrSwap d s (a @ b) = map_option ((@) a) (inetAddrSwap (d - length a) (s - length a) b)"
  using assms by (cases "ld32 (d - length a) b"; cases "ld32 (s - length a) b";
      cases "wr (d - length a) (le32 (the (ld32 (s - length a) b))) b")
    (simp_all add: inetAddrSwap_def ld_skip st32_def wr_skip map_option_bind)

lemma inetAddrSwap_here:
  assumes "k = 4 + length x"
  shows "inetAddrSwap k 0 (be32 u @ x @ be32 v @ y) = Some (be32 v @ x @ be32 u @ y)"
    and "inetAddrSwap 0 k (be32 u @ x @ be32 v @ y) = Some (be32 v @ x @ be32 u @ y)"
  by (simp_all add: inetAddrSwap_def block_simps assms)

lemmas swap_simps = ethAddrSwap_skip ethAddrSwap_here inetAddrSwap_skip inetAddrSwap_here

section \<open>ARP\<close>

text \<open>An ARP packet: \<open>tags\<close> is everything between the Ethernet addresses and the operation.\<close>

definition arp_packet ::
  "u8 list \<Rightarrow> u8 list \<Rightarrow> u8 list \<Rightarrow> u16 \<Rightarrow> u8 list \<Rightarrow> u32 \<Rightarrow> u8 list \<Rightarrow> u32 \<Rightarrow> u8 list \<Rightarrow> mem" where
  "arp_packet dst src tags op sha sip tha tip rest =
    dst @ src @ tags @ be16 op @ sha @ be32 sip @ tha @ be32 tip @ rest"

lemma answer_arp_image:
  assumes "length dst = 6" "length src = 6" "length tags = a - 6" "length sha = 6" "length tha = 6" "length mac = 6"
    and "a = 14 \<or> a = 18" "mdata m = arp_packet dst src tags ARP_REQUEST sha sip tha tip rest"
  shows "(do {
     d \<leftarrow> ethAddrSwap (a + offsetof arpPkt ''sha'') (a + offsetof arpPkt ''tha'') (mdata m);
     d \<leftarrow> inetAddrSwap (a + offsetof arpPkt ''tpa'') (a + offsetof arpPkt ''spa'') d;
     d \<leftarrow> st16 (a + offsetof arpPkt ''op'') (htons ARP_REPLY) d;
     d \<leftarrow> ethAddrSwap (offsetof ether_hdr ''d_addr'') (offsetof ether_hdr ''s_addr'') d;
     d \<leftarrow> wr (a + offsetof arpPkt ''sha'') mac d;
     wr (offsetof ether_hdr ''s_addr'') mac d }) =
    Some (arp_packet src mac tags ARP_REPLY mac tip sha sip rest)"
  using assms(7)
proof
  have e: "ethAddrSwap 0 6 (dst @ src @ y) = Some (src @ dst @ y)" for y
    using ethAddrSwap_here [of dst src 6 "[]" y] assms by simp
  show ?thesis if "a = 14" using assms(1-6,8) that
    by (simp add: arp_packet_def swap_simps block_simps e)
  show ?thesis if "a = 18" using assms(1-6,8) that
    by (simp add: arp_packet_def swap_simps block_simps e)
qed

text \<open>A packet that waits in queue 0 for the next flush.\<close>

definition room_in_queue0 :: "world \<Rightarrow> bool" where
  "room_in_queue0 w \<longleftrightarrow> 0 < length (q (port w)) \<and> tx_burst (port w) \<le> 64
     \<and> Suc (length (tx_mbufs (q (port w) ! 0))) < unat (tx_burst (port w))"

definition waits_in_queue0 :: "mbuf \<Rightarrow> world \<Rightarrow> world \<Rightarrow> bool" where
  "waits_in_queue0 m w w' \<longleftrightarrow> tx_mbufs (q (port w') ! 0) = tx_mbufs (q (port w) ! 0) @ [m]
     \<and> has_flag (qflags (q (port w') ! 0)) DO_TX_FLUSH \<and> wire w' = wire w"

lemma answer_waits:
  assumes "room_in_queue0 w"
  shows "\<exists>w'. Option.bind (pktgen_send_mbuf e m 0 w) flush_queue0 = Some w' \<and> waits_in_queue0 m w w'"
proof -
  have "unat (tx_burst (port w)) \<le> 64" using assms by (simp add: room_in_queue0_def word_le_nat_alt)
  then have "length (tx_mbufs (q (port w) ! 0)) < unat DEFAULT_PKT_BURST"
    using assms by (simp add: room_in_queue0_def DEFAULT_PKT_BURST_def)
  moreover have "has_flag (x OR DO_TX_FLUSH) DO_TX_FLUSH" for x
    by (simp add: has_flag_def DO_TX_FLUSH_def bit.conj_disj_distrib2)
  ultimately show ?thesis using assms
    by (auto simp: pktgen_send_mbuf_def flush_queue0_def pktgen_set_q_flags_def room_in_queue0_def waits_in_queue0_def
        atomically_def set_flags_op_def Let_def)
qed

text \<open>C6 An ARP request for an address of the port is answered: with or without a VLAN tag, the
  packet that was received becomes the reply, byte for byte: it goes back to the sender's Ethernet
  address, from the port's own, the operation is a reply, the sender fields hold the port's Ethernet
  address and the address that was asked for, the target fields those of the requester, and nothing
  else changes; it is put at the end of the table of queue 0, which is marked to be flushed.\<close>

theorem arp_request_answered:
  assumes "mdata m = arp_packet dst src tags ARP_REQUEST sha sip tha tip rest"
    and "length dst = 6" "length src = 6" "length tags = (if vlan then 12 else 8)" "length sha = 6" "length tha = 6"
    and "pktgen_find_matching_ipsrc (port w) (htonl tip) = Some k" "length (eth_src_addr (seq_pkt (port w) ! k)) = 6"
    and "\<not> (has_flag (port_flags (port w)) PROCESS_GARP_PKTS \<and> tip = sip)"
    and "\<not> has_flag (flags (wglob w)) MAC_FROM_ARP_FLAG" "room_in_queue0 w"
  shows "let mac = eth_src_addr (seq_pkt (port w) ! k); m' = m\<lparr>mdata := arp_packet src mac tags ARP_REPLY mac tip sha sip rest\<rparr>
    in \<exists>w'. pktgen_process_arp e txq m vlan w = Some (m', w') \<and> waits_in_queue0 m' w w'"
proof -
  let ?a = "l3_offset vlan" and ?mac = "eth_src_addr (seq_pkt (port w) ! k)"
  let ?m = "m\<lparr>mdata := arp_packet src ?mac tags ARP_REPLY ?mac tip sha sip rest\<rparr>"
  have a: "?a = 14 \<or> ?a = 18" "length tags = ?a - 6" using assms(4) by (simp_all add: l3_offset_def)
  note image = answer_arp_image [OF assms(2,3) a(2) assms(5,6,8) a(1) assms(1)]
  obtain w' where w': "Option.bind (pktgen_send_mbuf e ?m 0 w) flush_queue0 = Some w'" "waits_in_queue0 ?m w w'"
    using answer_waits [OF assms(11), of e ?m] by blast
  have "answer_arp e m ?a k w = Some (?m, w')"
    using arg_cong [OF image, where f = "\<lambda>x. Option.bind x (\<lambda>d. do {
      w \<leftarrow> pktgen_send_mbuf e (m\<lparr>mdata := d\<rparr>) 0 w; w \<leftarrow> flush_queue0 w; Some (m\<lparr>mdata := d\<rparr>, w) })"] w'(1) assms(10)
    by (auto simp: answer_arp_def bind_eq_Some_iff Let_def)
  moreover have "ld16 (?a + 6) (mdata m) = Some (htons ARP_REQUEST)" "ld32 (?a + 24) (mdata m) = Some (htonl tip)"
    "ld32 (?a + 14) (mdata m) = Some (htonl sip)"
    using assms(1-6) by (auto simp: arp_packet_def block_simps l3_offset_def)
  moreover have "htonl tip = htonl sip \<longleftrightarrow> tip = sip" by (metis bswap32_bswap32)
  ultimately have "pktgen_process_arp e txq m vlan w = Some (?m, w')"
    using assms(7,9) by (auto simp: pktgen_process_arp_def)
  with w'(2) show ?thesis by (simp add: Let_def)
qed

section \<open>Ping\<close>

text \<open>The IPv4 header and the ICMP part of a ping; \<open>ipa\<close> is everything before the identification,
  \<open>ipb\<close> the fragment field and the time to live.\<close>

definition ip_bytes :: "u8 list \<Rightarrow> u16 \<Rightarrow> u8 list \<Rightarrow> u16 \<Rightarrow> u32 \<Rightarrow> u32 \<Rightarrow> u8 list" where
  "ip_bytes ipa idn ipb ck s d = ipa @ be16 idn @ ipb @ [PG_IPPROTO_ICMP] @ le16 ck @ be32 s @ be32 d"

definition icmp_bytes :: "u8 \<Rightarrow> u8 \<Rightarrow> u16 \<Rightarrow> u8 list \<Rightarrow> u8 list" where
  "icmp_bytes ty code ck body = [ty, code] @ le16 ck @ body"

definition ping_packet :: "u8 list \<Rightarrow> u8 list \<Rightarrow> u8 list \<Rightarrow> u8 list \<Rightarrow> u8 list \<Rightarrow> u8 list \<Rightarrow> mem" where
  "ping_packet dst src et ip icmp rest = dst @ src @ et @ ip @ icmp @ rest"

lemma length_ping_parts:
  "length ipa = 4 \<Longrightarrow> length ipb = 3 \<Longrightarrow> length (ip_bytes ipa idn ipb ck s d) = 20"
  "length (icmp_bytes ty code ck body) = 4 + length body"
  by (simp_all add: ip_bytes_def icmp_bytes_def le16_def)

text \<open>A checksum that is computed over a zero field and stored in it verifies.\<close>

lemma icmp_cksum:
  assumes "length body \<le> 65000" "length body mod 2 \<le> length rest"
  shows "\<exists>c. cksum (icmp_bytes ty code 0 body @ rest) (int (4 + length body)) 0 = Some c
    \<and> cksum (icmp_bytes ty code c body @ rest) (int (4 + length body)) 0 = Some 0"
proof -
  let ?m = "icmp_bytes ty code 0 body @ rest" and ?n = "4 + length body"
  have n: "?n < 2 ^ 31" "?n + ?n mod 2 \<le> length ?m" using assms by (auto simp: length_ping_parts mod_add_eq simp flip: mod_add_left_eq)
  obtain c where c: "cksum ?m (int ?n) 0 = Some c" using cksum_word_sum [OF n] by blast
  have z: "ld16 2 ?m = Some 0" by (simp add: icmp_bytes_def le16_def ld16_def mk16_def)
  have st: "st16 2 c ?m = Some (icmp_bytes ty code c body @ rest)"
    by (simp add: icmp_bytes_def st16_def wr_def put_def le16_def)
  from cksum_store_verifies [OF _ _ _ n(2) z c _ st] assms c show ?thesis by auto
qed

lemma ip_cksum:
  assumes "length ipa = 4" "length ipb = 3"
  shows "\<exists>c. cksum (ip_bytes ipa idn ipb 0 s d @ rest) 20 0 = Some c
    \<and> cksum (ip_bytes ipa idn ipb c s d @ rest) 20 0 = Some 0"
proof -
  let ?m = "ip_bytes ipa idn ipb 0 s d @ rest"
  have n: "(20 :: nat) < 2 ^ 31" "20 + 20 mod 2 \<le> length ?m" using assms by (simp_all add: length_ping_parts)
  obtain c where c: "cksum ?m (int 20) 0 = Some c" using cksum_word_sum [OF n] by blast
  have z: "ld16 10 ?m = Some 0" using assms by (simp add: ip_bytes_def block_simps)
  have st: "st16 10 c ?m = Some (ip_bytes ipa idn ipb c s d @ rest)"
    using assms by (simp add: ip_bytes_def block_simps)
  from cksum_store_verifies [OF _ _ _ n(2) z c _ st] c show ?thesis by auto
qed

text \<open>The stores that make the answer, and the reads before them.\<close>

definition ping_lengths :: "u8 list \<Rightarrow> u8 list \<Rightarrow> u8 list \<Rightarrow> u8 list \<Rightarrow> u8 list \<Rightarrow> bool" where
  "ping_lengths dst src et ipa ipb \<longleftrightarrow>
    length dst = 6 \<and> length src = 6 \<and> length et = 2 \<and> length ipa = 4 \<and> length ipb = 3"

lemmas ping_defs = ping_lengths_def ping_packet_def ip_bytes_def icmp_bytes_def

lemma ip_stores:
  assumes "ping_lengths dst src et ipa ipb"
  shows "inetAddrSwap 26 30 (ping_packet dst src et (ip_bytes ipa idn ipb ck s d) icmp rest)
      = Some (ping_packet dst src et (ip_bytes ipa idn ipb ck d s) icmp rest)"
    and "st16 18 (htons v) (ping_packet dst src et (ip_bytes ipa idn ipb ck s d) icmp rest)
      = Some (ping_packet dst src et (ip_bytes ipa v ipb ck s d) icmp rest)"
    and "st16 24 c (ping_packet dst src et (ip_bytes ipa idn ipb ck s d) icmp rest)
      = Some (ping_packet dst src et (ip_bytes ipa idn ipb c s d) icmp rest)"
    and "ethAddrSwap 0 6 (ping_packet dst src et ip icmp rest) = Some (ping_packet src dst et ip icmp rest)"
  using assms ethAddrSwap_here [of dst src 6 "[]"] inetAddrSwap_here(2) [of 4 "[]" s d]
    inetAddrSwap_skip [of "[PG_IPPROTO_ICMP]" 3 7 "le16 ck @ be32 s @ be32 d @ icmp @ rest"]
  by (simp_all add: ping_defs block_simps inetAddrSwap_skip)

lemma icmp_stores:
  assumes "ping_lengths dst src et ipa ipb"
  shows "st8 34 t (ping_packet dst src et (ip_bytes ipa idn ipb ck s d) (icmp_bytes ty code c body) rest)
      = Some (ping_packet dst src et (ip_bytes ipa idn ipb ck s d) (icmp_bytes t code c body) rest)"
    and "st16 36 c' (ping_packet dst src et (ip_bytes ipa idn ipb ck s d) (icmp_bytes ty code c body) rest)
      = Some (ping_packet dst src et (ip_bytes ipa idn ipb ck s d) (icmp_bytes ty code c' body) rest)"
  using assms wr_here [of "[ty]" "[t]"] by (simp_all add: ping_defs block_simps)

lemma ping_reads:
  assumes "ping_lengths dst src et ipa ipb"
    and "p = ping_packet dst src et (ip_bytes ipa idn ipb ck s d) (icmp_bytes ty code c body) rest"
  shows "ld8 23 p = Some PG_IPPROTO_ICMP" "ld8 34 p = Some ty" "ld32 30 p = Some (htonl d)"
    "ld16 18 p = Some (htons idn)" "drop 34 p = icmp_bytes ty code c body @ rest"
    "drop 14 p = ip_bytes ipa idn ipb ck s d @ icmp_bytes ty code c body @ rest"
  using assms(1) unfolding assms(2) by (simp_all add: ping_defs block_simps)

text \<open>C7 A ping for an address of the port is answered: an echo request without a tag whose ICMP
  checksum verifies becomes the reply in place, byte for byte: Ethernet and IP addresses are
  exchanged, the type is an echo reply, the code and the data are those of the request, the
  identification is increased by the length of the packet, and both the IP and the ICMP checksum of
  the reply verify; it is put at the end of the table of queue 0, which is marked to be flushed.\<close>

theorem ping_answered:
  assumes "ping_lengths dst src et ipa ipb"
    and "mdata m = ping_packet dst src et (ip_bytes ipa idn ipb ck s d) (icmp_bytes 8 code ick body) rest"
    and "unat (mdata_len m) = 38 + length body" "length body \<le> 65000" "length body mod 2 \<le> length rest"
    and "cksum (icmp_bytes 8 code ick body @ rest) (int (4 + length body)) 0 = Some 0"
    and "has_flag (port_flags (port w)) ICMP_ECHO_ENABLE_FLAG" "d \<noteq> INADDR_BROADCAST"
    and "pktgen_find_matching_ipsrc (port w) (htonl d) = Some k" "room_in_queue0 w"
  shows "\<exists>c1 c2 w'. let ip = ip_bytes ipa (idn + mdata_len m) ipb c1 d s; icmp = icmp_bytes 0 code c2 body;
        m' = m\<lparr>mdata := ping_packet src dst et ip icmp rest\<rparr> in
      pktgen_process_ping4 e m False w = Some (m', w') \<and> waits_in_queue0 m' w w'
      \<and> cksum (ip @ icmp @ rest) 20 0 = Some 0 \<and> cksum (icmp @ rest) (int (4 + length body)) 0 = Some 0"
proof -
  let ?n = "int (4 + length body)" and ?idn = "idn + mdata_len m"
  have sz: "icmp_size m = ?n" using assms(3) by (simp add: icmp_size_def)
  have l: "length ipa = 4" "length ipb = 3" using assms(1) by (simp_all add: ping_lengths_def)
  obtain c2 where c2: "cksum (icmp_bytes 0 code 0 body @ rest) ?n 0 = Some c2"
    "cksum (icmp_bytes 0 code c2 body @ rest) ?n 0 = Some 0" using icmp_cksum [OF assms(4,5)] by blast
  let ?icmp = "icmp_bytes 0 code c2 body"
  obtain c1 where c1: "cksum (ip_bytes ipa ?idn ipb 0 d s @ ?icmp @ rest) 20 0 = Some c1"
    "cksum (ip_bytes ipa ?idn ipb c1 d s @ ?icmp @ rest) 20 0 = Some 0" using ip_cksum [OF l] by blast
  let ?m = "m\<lparr>mdata := ping_packet src dst et (ip_bytes ipa ?idn ipb c1 d s) ?icmp rest\<rparr>"
  have room: "room_in_queue0 (count_echo w)" using assms(10) by (simp add: room_in_queue0_def count_echo_def)
  obtain w' where w': "Option.bind (pktgen_send_mbuf e ?m 0 (count_echo w)) flush_queue0 = Some w'"
    "waits_in_queue0 ?m (count_echo w) w'" using answer_waits [OF room, of e ?m] by blast
  note reads = ping_reads [OF assms(1) refl] and stores = ip_stores [OF assms(1)] icmp_stores [OF assms(1)]
  have "answer_ping e m 14 w = Some (?m, w')"
    using w'(1) c1 c2 by (auto simp: answer_ping_def assms(2) reads stores sz ICMP4_ECHO_REPLY_def bind_eq_Some_iff)
  moreover have "ntohl (htonl d) \<noteq> INADDR_BROADCAST" using assms(8) by simp
  ultimately have "pktgen_process_ping4 e m False w = Some (?m, w')"
    using assms(2,6,7,9) ping_reads [OF assms(1,2)]
    by (simp add: pktgen_process_ping4_def l3_offset_def sz ICMP4_ECHO_def)
  moreover have "waits_in_queue0 ?m w w'" using w'(2) by (simp add: waits_in_queue0_def count_echo_def)
  ultimately show ?thesis using c1(2) c2(2) by (intro exI [of _ c1] exI [of _ c2] exI [of _ w']) (simp add: Let_def)
qed

section \<open>Dump\<close>

text \<open>What the dump keeps of a packet: its bytes, and zeros for the rest of its wire length.\<close>

definition dump_copy :: "mbuf \<Rightarrow> mem" where
  "dump_copy m = take (unat (mdata_len m)) (mdata m) @ replicate (unat (mpkt_len m) + 4 - unat (mdata_len m)) 0"

definition dumpable :: "mbuf \<Rightarrow> bool" where
  "dumpable m \<longleftrightarrow> unat (mdata_len m) \<le> length (mdata m) \<and> unat (mdata_len m) \<le> unat (mpkt_len m) \<and> mpkt_len m \<le> 0xFFFF"

lemma dump_one:
  assumes "dumpable m" "unat (dump_tail i) < length (dump_list i)"
  shows "pktgen_packet_dump m i =
    Some (i\<lparr>dump_list := (dump_list i)[unat (dump_tail i) := Some (dump_copy m)], dump_tail := dump_tail i + 1\<rparr>)"
proof -
  have "unat (mpkt_len m) \<le> 65535" using assms(1) by (simp add: dumpable_def word_le_nat_alt)
  then have "unat (mpkt_len m + 4) = unat (mpkt_len m) + 4" by (subst unat_add_lt) simp_all
  then show ?thesis using assms
    by (simp add: pktgen_packet_dump_def dumpable_def rd_def wr_def put_def dump_copy_def FCS_SIZE_def Let_def)
qed

lemma dump_run:
  "unat (dump_tail i) + length ms \<le> length (dump_list i) \<Longrightarrow> length (dump_list i) \<le> 32 \<Longrightarrow> \<forall>m \<in> set ms. dumpable m \<Longrightarrow>
    dump_all ms i = Some (i\<lparr>dump_list := take (unat (dump_tail i)) (dump_list i) @ map (Some \<circ> dump_copy) ms
        @ drop (unat (dump_tail i) + length ms) (dump_list i), dump_tail := dump_tail i + word_of_nat (length ms)\<rparr>)"
proof (induction ms arbitrary: i)
  case (Cons m ms)
  let ?t = "unat (dump_tail i)"
  let ?i = "i\<lparr>dump_list := (dump_list i)[?t := Some (dump_copy m)], dump_tail := dump_tail i + 1\<rparr>"
  have t: "unat (dump_tail i + 1) = ?t + 1" using Cons.prems(1,2) by (subst unat_add_lt) simp_all
  have "dump_all (m # ms) i = dump_all ms ?i" using dump_one [of m i] Cons.prems by simp
  also have "\<dots> = Some (?i\<lparr>dump_list := take (?t + 1) (dump_list ?i) @ map (Some \<circ> dump_copy) ms
        @ drop (?t + 1 + length ms) (dump_list ?i), dump_tail := dump_tail i + 1 + word_of_nat (length ms)\<rparr>)"
    using Cons.IH [of ?i] Cons.prems t by simp
  finally show ?case using Cons.prems(1) by (simp add: take_Suc_conv_app_nth add.assoc)
qed simp

lemma set_take_ball: "\<forall>x \<in> set xs. P x \<Longrightarrow> \<forall>x \<in> set (take n xs). P x"
  by (blast dest: in_set_takeD)

lemma dump_number: "t \<le> 32 \<Longrightarrow> min (min (int l) (int c)) (32 - int t) = int (min l (min c (32 - t)))"
  by auto

text \<open>C8 A dump keeps what was asked for: of the packets received, the first ones are kept, in order
  and behind those already kept, as many as are still asked for and as fit into the 32 places; each is
  kept with its bytes, padded with zeros to its wire length; the tail moves by their number, the count
  of packets still asked for goes down by it, the other places stay as they were, and nothing else of
  the port changes.\<close>

theorem dump_bulk_keeps:
  assumes "length (dump_list i) = 32" "unat (dump_tail i) \<le> 32" "\<forall>m \<in> set pkts. dumpable m"
  shows "let t = unat (dump_tail i); n = min (length pkts) (min (unat (dump_count i)) (32 - t)) in
    pktgen_packet_dump_bulk pkts i = Some (i\<lparr>
      dump_list := take t (dump_list i) @ map (Some \<circ> dump_copy) (take n pkts) @ drop (t + n) (dump_list i),
      dump_tail := dump_tail i + word_of_nat n, dump_count := dump_count i - word_of_nat n\<rparr>)"
proof -
  define t n where "t = unat (dump_tail i)" and "n = min (length pkts) (min (unat (dump_count i)) (32 - t))"
  have k: "min (min (int (length pkts)) (int (unat (dump_count i)))) (32 - int t) = int n"
    unfolding n_def by (rule dump_number) (use assms(2) in \<open>simp only: t_def\<close>)
  have "t \<le> 32" using assms(2) by (simp only: t_def)
  then have n: "length (take n pkts) = n" "t + n \<le> 32" by (auto simp: n_def)
  have "dump_all (take n pkts) i = Some (i\<lparr>dump_list := take t (dump_list i) @ map (Some \<circ> dump_copy) (take n pkts)
      @ drop (t + n) (dump_list i), dump_tail := dump_tail i + word_of_nat n\<rparr>)"
  proof -
    have "unat (dump_tail i) + length (take n pkts) \<le> length (dump_list i)" "length (dump_list i) \<le> 32"
      using n assms(1) by (simp_all only: t_def order_refl)
    from dump_run [OF this set_take_ball [OF assms(3)]] show ?thesis by (simp only: n(1) t_def)
  qed
  then have "pktgen_packet_dump_bulk pkts i = Some (i\<lparr>
      dump_list := take t (dump_list i) @ map (Some \<circ> dump_copy) (take n pkts) @ drop (t + n) (dump_list i),
      dump_tail := dump_tail i + word_of_nat n, dump_count := dump_count i - word_of_nat n\<rparr>)"
    using k by (cases "n = 0") (simp_all add: pktgen_packet_dump_bulk_def MAX_DUMP_PACKETS_def Let_def flip: t_def)
  then show ?thesis by (simp only: Let_def n_def t_def)
qed

section \<open>A sample\<close>

definition arp_mbuf :: mbuf where
  "arp_mbuf = (sample_mbuf 9)\<lparr>mdata := arp_packet [255, 255, 255, 255, 255, 255] [2, 0, 0, 0, 0, 7] [8, 6, 0, 1, 8, 0, 6, 4]
     ARP_REQUEST [2, 0, 0, 0, 0, 7] 0xC0A80009 [0, 0, 0, 0, 0, 0] 0xC0A80001 (replicate 2000 0)\<rparr>"

lemma sample_find: "pktgen_find_matching_ipsrc (port sample_world) (htonl 0xC0A80001) = Some SINGLE_PKT"
  by (simp add: pktgen_find_matching_ipsrc_def first_match_def sample_world_def sample_port_def sample_pkt_def sample_ip_def
      SINGLE_PKT_def)

lemma sample_room: "room_in_queue0 sample_world"
  by (simp add: room_in_queue0_def sample_world_def sample_port_def)

theorem arp_request_answered_witness:
  "\<exists>m' w'. pktgen_process_arp slow_device 0 arp_mbuf False sample_world = Some (m', w') \<and> waits_in_queue0 m' sample_world w'
    \<and> mdata m' = arp_packet [2, 0, 0, 0, 0, 7] [2, 0, 0, 0, 0, 2] [8, 6, 0, 1, 8, 0, 6, 4]
     ARP_REPLY [2, 0, 0, 0, 0, 2] 0xC0A80001 [2, 0, 0, 0, 0, 7] 0xC0A80009 (replicate 2000 0)"
proof -
  have mac: "eth_src_addr (seq_pkt (port sample_world) ! SINGLE_PKT) = [2, 0, 0, 0, 0, 2]"
    by (simp add: sample_world_def sample_port_def sample_pkt_def SINGLE_PKT_def)
  show ?thesis
    using arp_request_answered [where m = arp_mbuf and dst = "[255, 255, 255, 255, 255, 255]"
        and src = "[2, 0, 0, 0, 0, 7]" and tags = "[8, 6, 0, 1, 8, 0, 6, 4]" and sha = "[2, 0, 0, 0, 0, 7]"
        and sip = "0xC0A80009" and tha = "[0, 0, 0, 0, 0, 0]" and tip = "0xC0A80001" and rest = "replicate 2000 0"
        and vlan = False and w = sample_world and k = SINGLE_PKT and e = slow_device and txq = 0] sample_find sample_room mac
    by (auto simp: Let_def arp_mbuf_def sample_world_def flow_glob_def sample_glob_def has_flag_def)
qed

definition echo_world :: world where
  "echo_world = sample_world\<lparr>port := (port sample_world)\<lparr>port_flags := ICMP_ECHO_ENABLE_FLAG\<rparr>\<rparr>"

definition ping_mbuf :: mbuf where
  "ping_mbuf = (sample_mbuf 9)\<lparr>mdata := ping_packet [2, 0, 0, 0, 0, 2] [2, 0, 0, 0, 0, 7] [8, 0]
     (ip_bytes [69, 0, 0, 28] 5 [0, 0, 64] 0 0xC0A80009 0xC0A80001) (icmp_bytes 8 0 65011 [1, 2, 3]) (replicate 9 0),
     mdata_len := 41, mpkt_len := 41\<rparr>"

lemma ping_mbuf_cksum:
  "cksum (icmp_bytes 8 0 65011 [1, 2, 3] @ replicate 9 0) 7 0 = Some 0"
  by code_simp

theorem ping_answered_witness:
  "\<exists>c1 c2 m' w'. pktgen_process_ping4 slow_device ping_mbuf False echo_world = Some (m', w')
    \<and> waits_in_queue0 m' echo_world w'
    \<and> mdata m' = ping_packet [2, 0, 0, 0, 0, 7] [2, 0, 0, 0, 0, 2] [8, 0]
      (ip_bytes [69, 0, 0, 28] 46 [0, 0, 64] c1 0xC0A80001 0xC0A80009)
      (icmp_bytes 0 0 c2 [1, 2, 3]) (replicate 9 0)"
proof -
  have "pktgen_find_matching_ipsrc (port echo_world) (htonl 0xC0A80001) = Some SINGLE_PKT"
    by (simp add: pktgen_find_matching_ipsrc_def first_match_def echo_world_def sample_world_def sample_port_def
        sample_pkt_def sample_ip_def SINGLE_PKT_def)
  moreover have "room_in_queue0 echo_world" using sample_room by (simp add: echo_world_def room_in_queue0_def)
  ultimately show ?thesis
    using ping_answered [where m = ping_mbuf and dst = "[2, 0, 0, 0, 0, 2]" and src = "[2, 0, 0, 0, 0, 7]"
        and et = "[8, 0]" and ipa = "[69, 0, 0, 28]" and ipb = "[0, 0, 64]" and idn = 5 and ck = 0
        and s = "0xC0A80009" and d = "0xC0A80001" and code = 0 and ick = 65011
        and body = "[1, 2, 3]" and rest = "replicate 9 0" and w = echo_world and k = SINGLE_PKT
        and e = slow_device] ping_mbuf_cksum
    by (auto simp: ping_mbuf_def ping_lengths_def echo_world_def has_flag_def ICMP_ECHO_ENABLE_FLAG_def
        INADDR_BROADCAST_def Let_def) blast
qed

definition dump_port :: port_info where
  "dump_port = sample_port\<lparr>dump_tail := 30, dump_count := 5\<rparr>"

text \<open>Two of three packets fit.\<close>

theorem dump_bulk_keeps_witness:
  "pktgen_packet_dump_bulk (map sample_mbuf [1, 2, 3]) dump_port = Some (dump_port\<lparr>
     dump_list := replicate 30 None @ replicate 2 (Some (replicate 64 0)), dump_tail := 32, dump_count := 3\<rparr>)"
proof -
  have len: "length (dump_list dump_port) = 32" "unat (dump_tail dump_port) \<le> 32" "unat (dump_tail dump_port) = 30"
    "unat (dump_count dump_port) = 5" "dump_list dump_port = replicate 32 None"
    by (simp_all add: dump_port_def sample_port_def)
  have ok: "\<forall>m \<in> set (map sample_mbuf [1, 2, 3]). dumpable m"
    by (simp add: dumpable_def sample_mbuf_def)
  have copy: "dump_copy (sample_mbuf k) = replicate 64 0" for k
    by (simp add: dump_copy_def sample_mbuf_def flip: replicate_add)
  show ?thesis using dump_bulk_keeps [OF len(1,2) ok] unfolding len
    by (simp add: Let_def copy numeral_2_eq_2) (simp add: dump_port_def)
qed

end
