(* ===== verification/GapBuf.thy ===== *)
theory GapBuf
  imports Prelude
begin

text \<open>
  The gap buffer of the command line (lib/cli/cli_gapbuf.h and cli_gapbuf.c):
  one allocation that holds the text before the cursor, a gap, and the text
  behind it, so that typing and deleting at the cursor move no bytes.

  The allocation is a list of cells; a cell that malloc or realloc left
  unwritten is \<open>None\<close>, and reading it, or a cell outside the list, is undefined
  behaviour and the whole operation \<open>None\<close>, as is the panic when realloc
  fails.  The pointers \<open>ebuf\<close>, \<open>point\<close>, \<open>gap\<close> and \<open>egap\<close> are offsets from the
  start of the allocation (so that moving the allocation leaves them alone);
  they may be any integer, only an access through them is checked.  What the
  allocator grants is the parameter \<open>alloc\<close>.

  After the operations: the layout of a well-formed buffer, the text with a
  cursor it stands for, and one lemma per operation that says which layout it
  leaves.  The properties compose these over any sequence of edits.
\<close>

section \<open>Memory with unwritten cells\<close>

type_synonym cells = "char option list"

definition NUL :: char where "NUL = CHR 0x00"

definition mread :: "int \<Rightarrow> cells \<Rightarrow> char option" where
  "mread i m = (if 0 \<le> i \<and> i < int (length m) then m ! nat i else None)"

definition mwrite :: "int \<Rightarrow> char \<Rightarrow> cells \<Rightarrow> cells option" where
  "mwrite i c m = (if 0 \<le> i \<and> i < int (length m) then Some (m[nat i := Some c]) else None)"

text \<open>\<open>mcopy d s n src dst\<close>: n cells from offset s of one object to offset d of another.\<close>

definition mcopy :: "int \<Rightarrow> int \<Rightarrow> int \<Rightarrow> cells \<Rightarrow> cells \<Rightarrow> cells option" where
  "mcopy d s n src dst =
     (if 0 \<le> d \<and> 0 \<le> s \<and> 0 \<le> n \<and> d + n \<le> int (length dst) \<and> s + n \<le> int (length src)
      then Some (take (nat d) dst @ take (nat n) (drop (nat s) src) @ drop (nat (d + n)) dst)
      else None)"

definition memmove :: "int \<Rightarrow> int \<Rightarrow> int \<Rightarrow> cells \<Rightarrow> cells option" where
  "memmove d s n m = mcopy d s n m m"

definition mfill :: "char \<Rightarrow> int \<Rightarrow> cells \<Rightarrow> cells option" where
  "mfill c n m = mcopy 0 0 n (replicate (nat n) (Some c)) m"

definition realloc :: "nat \<Rightarrow> cells \<Rightarrow> cells" where
  "realloc n m = take n m @ replicate (n - length m) None"

text \<open>The length of a C string that starts an object, if it is terminated there.\<close>

definition strlen :: "cells \<Rightarrow> nat option" where
  "strlen m = (let n = length (takeWhile (\<lambda>c. c \<noteq> None \<and> c \<noteq> Some NUL) m)
     in if n < length m \<and> m ! n = Some NUL then Some n else None)"

definition c_str :: "string \<Rightarrow> cells" where
  "c_str s = map Some s @ [Some NUL]"

text \<open>A pointer difference stored in an \<open>int\<close>, and one returned as \<open>uint32_t\<close>.\<close>

definition c_int :: "int \<Rightarrow> int" where "c_int x = sint (word_of_int x :: u32)"
definition c_u32 :: "int \<Rightarrow> u32" where "c_u32 x = word_of_int x"

section \<open>The buffer and its operations\<close>

record gapbuf =
  buf :: cells
  ebuf :: int
  point :: int
  gap :: int
  egap :: int

definition GB_DEFAULT_GAP_SIZE :: nat where "GB_DEFAULT_GAP_SIZE = 8"

definition gb_buf_size :: "gapbuf \<Rightarrow> u32" where
  "gb_buf_size gb = c_u32 (ebuf gb)"

definition gb_gap_size :: "gapbuf \<Rightarrow> u32" where
  "gb_gap_size gb = c_u32 (egap gb - gap gb)"

definition gb_data_size :: "gapbuf \<Rightarrow> u32" where
  "gb_data_size gb = c_u32 (ebuf gb - (egap gb - gap gb))"

definition gb_point_at_start :: "gapbuf \<Rightarrow> bool" where
  "gb_point_at_start gb \<longleftrightarrow> point gb = 0"

definition gb_point_at_end :: "gapbuf \<Rightarrow> bool" where
  "gb_point_at_end gb \<longleftrightarrow> ebuf gb = point gb"

definition gb_point_at_gap :: "gapbuf \<Rightarrow> bool" where
  "gb_point_at_gap gb \<longleftrightarrow> gap gb = point gb"

definition gb_set_point :: "int \<Rightarrow> gapbuf \<Rightarrow> gapbuf" where
  "gb_set_point idx gb =
     (if idx = -1 then gb\<lparr>point := ebuf gb\<rparr>
      else if idx > gap gb then gb\<lparr>point := idx + (egap gb - gap gb)\<rparr>
      else gb\<lparr>point := idx\<rparr>)"

definition gb_point_offset :: "gapbuf \<Rightarrow> int" where
  "gb_point_offset gb =
     (if point gb > egap gb then c_int (point gb - (egap gb - gap gb)) else c_int (point gb))"

definition gb_eof :: "gapbuf \<Rightarrow> bool" where
  "gb_eof gb \<longleftrightarrow> (if point gb = gap gb then egap gb = ebuf gb else point gb = ebuf gb)"

text \<open>Creating, emptying and reading out a buffer.\<close>

definition gb_reset_buf :: "gapbuf \<Rightarrow> gapbuf option" where
  "gb_reset_buf gb =
     (let sz = c_int (uint (gb_buf_size gb)) in
      do { m \<leftarrow> mfill CHR '' '' sz (buf gb);
           Some (gb\<lparr>buf := m, point := 0, gap := 0, egap := sz, ebuf := sz\<rparr>) })"

definition gb_init_buf :: "(nat \<Rightarrow> bool) \<Rightarrow> nat \<Rightarrow> gapbuf \<Rightarrow> (gapbuf \<times> int) option" where
  "gb_init_buf alloc sz gb =
     (if alloc sz
      then do { gb \<leftarrow> gb_reset_buf (gb\<lparr>buf := replicate sz None, ebuf := int sz\<rparr>);
                Some (gb, 0) }
      else Some (gb\<lparr>buf := []\<rparr>, -1))"

text \<open>\<open>Some None\<close> is the NULL that gb_create returns when malloc of the
  structure (five pointers) fails; it does not look at the result of gb_init_buf.\<close>

definition gb_create :: "(nat \<Rightarrow> bool) \<Rightarrow> gapbuf option option" where
  "gb_create alloc =
     (if alloc 40
      then do { (gb, ret) \<leftarrow> gb_init_buf alloc GB_DEFAULT_GAP_SIZE
                  \<lparr>buf = [], ebuf = 0, point = 0, gap = 0, egap = 0\<rparr>;
                Some (Some gb) }
      else Some None)"

definition gb_copy_to_buf :: "gapbuf \<Rightarrow> cells \<Rightarrow> u32 \<Rightarrow> (cells \<times> u32) option" where
  "gb_copy_to_buf gb dst sz =
     (let sz = min sz (gb_data_size gb) in
      do { (dst, tcnt) \<leftarrow>
             (if sz \<noteq> 0
              then let cnt = c_u32 (gap gb); cnt2 = c_u32 (ebuf gb - egap gb) in
                do { dst \<leftarrow> mcopy 0 0 (uint cnt) (buf gb) dst;
                     dst \<leftarrow> mcopy (uint cnt) (egap gb) (uint cnt2) (buf gb) dst;
                     Some (dst, cnt + cnt2) }
              else Some (dst, 0));
           dst \<leftarrow> mwrite (uint tcnt) NUL dst;
           Some (dst, tcnt) })"

text \<open>Moving the gap, and making room.\<close>

definition gb_move_gap_to_point :: "gapbuf \<Rightarrow> gapbuf option" where
  "gb_move_gap_to_point gb =
     (if point gb = gap gb then Some gb
      else if point gb = egap gb then Some (gb\<lparr>point := gap gb\<rparr>)
      else if point gb < gap gb
      then let cnt = c_int (gap gb - point gb) in
           do { m \<leftarrow> memmove (egap gb - cnt) (point gb) cnt (buf gb);
                Some (gb\<lparr>buf := m, egap := egap gb - cnt, gap := point gb\<rparr>) }
      else if point gb > egap gb
      then let cnt = c_int (point gb - egap gb) in
           do { m \<leftarrow> memmove (gap gb) (egap gb) cnt (buf gb);
                Some (gb\<lparr>buf := m, gap := gap gb + cnt, egap := point gb,
                         point := gap gb + cnt\<rparr>) }
      else let cnt = c_int (point gb - gap gb) in
           do { m \<leftarrow> memmove (gap gb) (egap gb) cnt (buf gb);
                Some (gb\<lparr>buf := m, egap := egap gb + cnt, gap := gap gb + cnt,
                         point := gap gb + cnt\<rparr>) })"

definition gb_expand_buf :: "(nat \<Rightarrow> bool) \<Rightarrow> u32 \<Rightarrow> gapbuf \<Rightarrow> gapbuf option" where
  "gb_expand_buf alloc extra gb =
     (if ebuf gb + uint extra > uint (gb_buf_size gb)
      then let extra = c_u32 (ebuf gb + uint extra + int GB_DEFAULT_GAP_SIZE) in
           if alloc (unat extra) then Some (gb\<lparr>buf := realloc (unat extra) (buf gb)\<rparr>) else None
      else Some gb)"

definition gb_expand_gap :: "(nat \<Rightarrow> bool) \<Rightarrow> u32 \<Rightarrow> gapbuf \<Rightarrow> gapbuf option" where
  "gb_expand_gap alloc sz gb =
     (if sz > gb_gap_size gb
      then let sz = sz + of_nat GB_DEFAULT_GAP_SIZE in
           do { gb \<leftarrow> gb_expand_buf alloc sz gb;
                m \<leftarrow> memmove (egap gb + uint sz) (egap gb) (ebuf gb - egap gb) (buf gb);
                Some (gb\<lparr>buf := m, egap := egap gb + uint sz, ebuf := ebuf gb + uint sz\<rparr>) }
      else Some gb)"

text \<open>Characters at and around the point.\<close>

definition gb_get :: "gapbuf \<Rightarrow> (char \<times> gapbuf) option" where
  "gb_get gb =
     (let gb = (if point gb = gap gb then gb\<lparr>point := egap gb\<rparr> else gb) in
      do { c \<leftarrow> mread (point gb) (buf gb); Some (c, gb) })"

definition gb_get_prev :: "gapbuf \<Rightarrow> (char \<times> gapbuf) option" where
  "gb_get_prev gb =
     (let gb = (if point gb = egap gb then gb\<lparr>point := gap gb\<rparr> else gb) in
      if point gb = 0
      then (if point gb = gap gb then Some (NUL, gb)
            else do { c \<leftarrow> mread (point gb) (buf gb); Some (c, gb) })
      else do { c \<leftarrow> mread (point gb - 1) (buf gb); Some (c, gb) })"

definition gb_get_next :: "gapbuf \<Rightarrow> (char \<times> gapbuf) option" where
  "gb_get_next gb =
     (let gb = (if point gb = gap gb then gb\<lparr>point := egap gb\<rparr> else gb) in
      if point gb = ebuf gb
      then do { c \<leftarrow> mread (point gb) (buf gb); Some (c, gb) }
      else do { c \<leftarrow> mread (point gb + 1) (buf gb); Some (c, gb) })"

definition gb_put :: "(nat \<Rightarrow> bool) \<Rightarrow> char \<Rightarrow> gapbuf \<Rightarrow> gapbuf option" where
  "gb_put alloc c gb =
     (let gb = (if point gb = gap gb then gb\<lparr>point := egap gb\<rparr> else gb) in
      do { gb \<leftarrow> (if point gb = ebuf gb
                   then do { gb \<leftarrow> gb_expand_buf alloc 1 gb; Some (gb\<lparr>ebuf := ebuf gb + 1\<rparr>) }
                   else Some gb);
           m \<leftarrow> mwrite (point gb) c (buf gb);
           Some (gb\<lparr>buf := m\<rparr>) })"

definition gb_getc :: "gapbuf \<Rightarrow> (char \<times> gapbuf) option" where
  "gb_getc gb =
     (if point gb = gap gb
      then do { c \<leftarrow> mread (egap gb) (buf gb); Some (c, gb\<lparr>point := egap gb + 1\<rparr>) }
      else do { c \<leftarrow> mread (point gb) (buf gb); Some (c, gb\<lparr>point := point gb + 1\<rparr>) })"

definition gb_getc_prev :: "gapbuf \<Rightarrow> (char \<times> gapbuf) option" where
  "gb_getc_prev gb =
     (let gb = (if point gb = egap gb then gb\<lparr>point := gap gb\<rparr> else gb);
          gb = gb\<lparr>point := point gb - 1\<rparr> in
      do { c \<leftarrow> mread (point gb) (buf gb); Some (c, gb) })"

definition gb_putc :: "(nat \<Rightarrow> bool) \<Rightarrow> char \<Rightarrow> gapbuf \<Rightarrow> gapbuf option" where
  "gb_putc alloc c gb =
     do { gb \<leftarrow> gb_move_gap_to_point gb;
          gb \<leftarrow> (if point gb = ebuf gb
                  then do { gb \<leftarrow> gb_expand_buf alloc 1 gb; Some (gb\<lparr>ebuf := ebuf gb + 1\<rparr>) }
                  else Some gb);
          m \<leftarrow> mwrite (gap gb) c (buf gb);
          Some (gb\<lparr>buf := m, gap := gap gb + 1, point := point gb + 1\<rparr>) }"

text \<open>Editing at the point.\<close>

definition gb_insert :: "(nat \<Rightarrow> bool) \<Rightarrow> char \<Rightarrow> gapbuf \<Rightarrow> gapbuf option" where
  "gb_insert alloc c gb =
     do { gb \<leftarrow> (if point gb \<noteq> gap gb then gb_move_gap_to_point gb else Some gb);
          gb \<leftarrow> (if gap gb = egap gb then gb_expand_gap alloc 1 gb else Some gb);
          gb_putc alloc c gb }"

definition gb_del :: "int \<Rightarrow> gapbuf \<Rightarrow> gapbuf option" where
  "gb_del cnt gb =
     do { gb \<leftarrow> (if point gb \<noteq> gap gb then gb_move_gap_to_point gb else Some gb);
          Some (gb\<lparr>egap := egap gb + cnt\<rparr>) }"

text \<open>The loop of gb_str_insert, which runs \<open>sz\<close> times.\<close>

primrec put_bytes :: "(nat \<Rightarrow> bool) \<Rightarrow> cells \<Rightarrow> nat \<Rightarrow> int \<Rightarrow> gapbuf \<Rightarrow> gapbuf option" where
  "put_bytes alloc str 0 i gb = Some gb"
| "put_bytes alloc str (Suc n) i gb =
     do { c \<leftarrow> mread i str; gb \<leftarrow> gb_putc alloc c gb; put_bytes alloc str n (i + 1) gb }"

definition gb_str_insert ::
  "(nat \<Rightarrow> bool) \<Rightarrow> cells \<Rightarrow> u32 \<Rightarrow> gapbuf \<Rightarrow> (u32 \<times> gapbuf) option" where
  "gb_str_insert alloc str sz gb =
     do { sz \<leftarrow> (if sz = 0 then map_option of_nat (strlen str) else Some sz);
          if sz = 0 then Some (0, gb)
          else do { gb \<leftarrow> gb_move_gap_to_point gb;
                    gb \<leftarrow> (if sz > gb_gap_size gb then gb_expand_gap alloc sz gb else Some gb);
                    gb \<leftarrow> put_bytes alloc str (unat sz) 0 gb;
                    Some (sz, gb) } }"

definition gb_left_data_size :: "gapbuf \<Rightarrow> u32" where
  "gb_left_data_size gb = c_u32 (gap gb)"

definition gb_right_data_size :: "gapbuf \<Rightarrow> u32" where
  "gb_right_data_size gb = (if gb_eof gb then 0 else c_u32 (ebuf gb - egap gb))"

definition gb_move_right :: "gapbuf \<Rightarrow> gapbuf" where
  "gb_move_right gb =
     (let gb = (if point gb = gap gb then gb\<lparr>point := egap gb\<rparr> else gb) in
      gb\<lparr>point := (if point gb + 1 > ebuf gb then ebuf gb else point gb + 1)\<rparr>)"

definition gb_move_left :: "gapbuf \<Rightarrow> gapbuf" where
  "gb_move_left gb =
     (let gb = (if point gb = egap gb then gb\<lparr>point := gap gb\<rparr> else gb) in
      gb\<lparr>point := (if point gb - 1 < 0 then 0 else point gb - 1)\<rparr>)"


section \<open>Layout and meaning of a well-formed buffer\<close>

text \<open>A text with a cursor: what stands before it and what behind.\<close>

type_synonym zipper = "string \<times> string"

definition lay :: "string \<Rightarrow> cells \<Rightarrow> string \<Rightarrow> cells \<Rightarrow> gapbuf \<Rightarrow> bool" where
  "lay b g a s gb \<longleftrightarrow> buf gb = map Some b @ g @ map Some a @ s
     \<and> gap gb = int (length b) \<and> egap gb = int (length b + length g)
     \<and> ebuf gb = int (length b + length g + length a)"

definition point_ok :: "gapbuf \<Rightarrow> bool" where
  "point_ok gb \<longleftrightarrow> 0 \<le> point gb \<and> point gb \<le> gap gb \<or> egap gb \<le> point gb \<and> point gb \<le> ebuf gb"

definition written :: "cells \<Rightarrow> bool" where
  "written m \<longleftrightarrow> list_all (\<lambda>c. c \<noteq> None) m"

definition left_cells :: "gapbuf \<Rightarrow> cells" where
  "left_cells gb = take (nat (gap gb)) (buf gb)"

definition right_cells :: "gapbuf \<Rightarrow> cells" where
  "right_cells gb = take (nat (ebuf gb - egap gb)) (drop (nat (egap gb)) (buf gb))"

definition wf_gapbuf :: "gapbuf \<Rightarrow> bool" where
  "wf_gapbuf gb \<longleftrightarrow> 0 \<le> gap gb \<and> gap gb \<le> egap gb \<and> egap gb \<le> ebuf gb
     \<and> ebuf gb \<le> int (length (buf gb)) \<and> int (length (buf gb)) < 2 ^ 31
     \<and> point_ok gb \<and> written (left_cells gb) \<and> written (right_cells gb)"

definition cursor :: "gapbuf \<Rightarrow> zipper" where
  "cursor gb =
     (let t = map the (left_cells gb @ right_cells gb);
          p = nat (if point gb \<le> gap gb then point gb else point gb - (egap gb - gap gb))
      in (take p t, drop p t))"

definition text_of :: "gapbuf \<Rightarrow> string" where
  "text_of gb = fst (cursor gb) @ snd (cursor gb)"

lemma map_Some_the: "written m \<Longrightarrow> map Some (map the m) = m"
  by (induction m) (auto simp: written_def)

lemma written_map [simp]: "written (map Some s)"
  by (simp add: written_def list_all_iff)

lemma map_the_Some [simp]: "map (the \<circ> Some) s = s"
  by (induction s) auto

lemma lay_cells:
  assumes "lay b g a s gb"
  shows "left_cells gb = map Some b" "right_cells gb = map Some a"
  using assms by (simp_all add: lay_def left_cells_def right_cells_def)

lemma lay_cursor:
  assumes "lay b g a s gb"
  shows "cursor gb = (let p = nat (if point gb \<le> gap gb then point gb
            else point gb - (egap gb - gap gb)) in (take p (b @ a), drop p (b @ a)))"
  using assms by (simp add: cursor_def lay_cells Let_def)

lemma lay_text:
  "lay b g a s gb \<Longrightarrow> text_of gb = b @ a"
  by (simp only: text_of_def lay_cursor Let_def fst_conv snd_conv append_take_drop_id)

lemma wf_layE:
  assumes "wf_gapbuf gb"
  obtains b g a s where "lay b g a s gb"
proof -
  have "0 \<le> gap gb" "0 \<le> egap gb" "0 \<le> ebuf gb" using assms by (auto simp: wf_gapbuf_def)
  then obtain i j k where off: "gap gb = int i" "egap gb = int j" "ebuf gb = int k"
    by (metis zero_le_imp_eq_int)
  have ord: "i \<le> j" "j \<le> k" "k \<le> length (buf gb)"
    using assms by (simp_all add: wf_gapbuf_def off)
  have cells: "left_cells gb = take i (buf gb)" "right_cells gb = take (k - j) (drop j (buf gb))"
    using ord by (simp_all add: left_cells_def right_cells_def off flip: of_nat_diff)
  have "drop j m = take (k - j) (drop j m) @ drop k m"
       "drop i m = take (j - i) (drop i m) @ drop j m" for m :: cells
    using ord append_take_drop_id [of "k - j" "drop j m"] append_take_drop_id [of "j - i" "drop i m"]
    by simp_all
  then have "buf gb = take i (buf gb) @ take (j - i) (drop i (buf gb))
      @ take (k - j) (drop j (buf gb)) @ drop k (buf gb)"
    by (metis append_take_drop_id)
  then have "lay (map the (left_cells gb)) (take (j - i) (drop i (buf gb)))
      (map the (right_cells gb)) (drop k (buf gb)) gb"
    using assms ord
    by (simp add: lay_def cells off map_Some_the wf_gapbuf_def del: map_map)
  then show ?thesis by (rule that)
qed

lemma lay_wf:
  assumes "lay b g a s gb"
  shows "wf_gapbuf gb \<longleftrightarrow> int (length (buf gb)) < 2 ^ 31 \<and> point_ok gb"
  using assms by (auto simp: wf_gapbuf_def lay_cells) (simp_all add: lay_def)

lemma c_int_small: "- (2 ^ 31) \<le> x \<Longrightarrow> x < 2 ^ 31 \<Longrightarrow> c_int x = x"
  by (simp add: c_int_def signed_of_int signed_take_bit_int_eq_self)

lemma c_u32_small: "0 \<le> x \<Longrightarrow> x < 2 ^ 32 \<Longrightarrow> uint (c_u32 x) = x"
  by (simp add: c_u32_def uint_word_of_int)

lemma unat_c_u32: "k < 2 ^ 32 \<Longrightarrow> unat (c_u32 (int k)) = k"
  by (simp add: c_u32_def unat_of_nat32)

lemma lay_length: "lay b g a s gb \<Longrightarrow>
    length (buf gb) = length b + length g + length a + length s"
  by (simp add: lay_def)


section \<open>Each operation on its layout\<close>

text \<open>The three moves of gb_move_gap_to_point bring a well-formed buffer to the
  layout in which the gap stands at the cursor.\<close>

lemma move_left_cells:
  "memmove (int (length p + length g)) (int (length p)) (int (length q)) (p @ q @ g @ t)
     = Some (p @ take (length g) (q @ g) @ q @ t)"
  by (simp add: memmove_def mcopy_def nat_add_distrib nat_int_add)

lemma move_right_cells:
  "memmove (int (length p)) (int (length p + length g)) (int (length q)) (p @ g @ q @ t)
     = Some (p @ q @ drop (length q) (g @ q) @ t)"
  by (simp add: memmove_def mcopy_def nat_add_distrib nat_int_add)

lemma lay_point:
  assumes "lay b g a s gb" "point_ok gb"
  obtains (left) b1 b2 where "b = b1 @ b2" "point gb = int (length b1)" "cursor gb = (b1, b2 @ a)"
  | (right) a1 a2 where "a = a1 @ a2" "point gb = egap gb + int (length a1)"
      "point gb \<noteq> gap gb" "cursor gb = (b @ a1, a2)"
proof (cases "point gb \<le> gap gb")
  case True
  with assms have "0 \<le> point gb" "point gb \<le> int (length b)" by (auto simp: point_ok_def lay_def)
  then obtain p where p: "point gb = int p" "p \<le> length b" by (metis zero_le_imp_eq_int of_nat_le_iff)
  have "cursor gb = (take p b, drop p b @ a)"
    using True p by (simp add: lay_cursor [OF assms(1)] Let_def)
  with p show ?thesis using left [of "take p b" "drop p b"] by (simp add: min_absorb2)
next
  case False
  with assms have "egap gb \<le> point gb" "point gb - egap gb \<le> int (length a)"
    by (auto simp: point_ok_def lay_def)
  then obtain q where q: "point gb = egap gb + int q" "q \<le> length a"
    by (metis zle_iff_zadd add_diff_cancel_left' of_nat_le_iff)
  have "nat (point gb - (egap gb - gap gb)) = length b + q"
    using q assms by (simp add: lay_def nat_add_distrib nat_int_add)
  with False q have "cursor gb = (b @ take q a, drop q a)"
    by (simp add: lay_cursor [OF assms(1)] Let_def)
  with False q show ?thesis using right [of "take q a" "drop q a"] by (simp add: min_absorb2)
qed

lemma gap_to_point:
  assumes "lay b g a s gb" "wf_gapbuf gb"
  obtains gb' g' where "gb_move_gap_to_point gb = Some gb'"
    "lay (fst (cursor gb)) g' (snd (cursor gb)) s gb'" "point gb' = gap gb'" "length g' = length g"
proof -
  have bound: "int (length b + length g + length a + length s) < 2 ^ 31" and "point_ok gb"
    using assms lay_length [OF assms(1)] by (simp_all add: wf_gapbuf_def)
  from assms(1) \<open>point_ok gb\<close> show ?thesis
  proof (cases rule: lay_point)
    case (left b1 b2)
    show ?thesis
    proof (cases "b2 = []")
      case True
      then show ?thesis using left assms(1)
        by (intro that [of gb g]) (simp_all add: gb_move_gap_to_point_def lay_def)
    next
      case False
      then have "int (length b2) + int (length g) \<noteq> 0" by (simp add: add_nonneg_eq_0_iff)
      then have "gb_move_gap_to_point gb = Some (gb\<lparr>buf := map Some b1
          @ take (length g) (map Some b2 @ g) @ map Some b2 @ map Some a @ s,
          egap := int (length b1 + length g), gap := int (length b1)\<rparr>)"
        using left assms(1) bound
          move_left_cells [of "map Some b1" g "map Some b2" "map Some a @ s"]
        by (auto simp: gb_move_gap_to_point_def lay_def Let_def c_int_small)
      then show ?thesis using left assms(1)
        by (intro that [of _ "take (length g) (map Some b2 @ g)"]) (auto simp: lay_def)
    qed
  next
    case (right a1 a2)
    show ?thesis
    proof (cases "a1 = []")
      case True
      then have "gb_move_gap_to_point gb = Some (gb\<lparr>point := gap gb\<rparr>)"
        using right by (simp add: gb_move_gap_to_point_def)
      then show ?thesis using right assms(1) True
        by (intro that [of "gb\<lparr>point := gap gb\<rparr>" g]) (simp_all add: lay_def)
    next
      case False
      then have "int (length a1) + int (length g) \<noteq> 0" by (simp add: add_nonneg_eq_0_iff)
      then have "gb_move_gap_to_point gb = Some (gb\<lparr>buf := map Some b @ map Some a1
          @ drop (length a1) (g @ map Some a1) @ map Some a2 @ s,
          gap := int (length b + length a1), egap := int (length b + length g + length a1),
          point := int (length b + length a1)\<rparr>)"
        using right assms(1) bound
          move_right_cells [of "map Some b" g "map Some a1" "map Some a2 @ s"]
        by (auto simp: gb_move_gap_to_point_def lay_def Let_def c_int_small)
      then show ?thesis using right assms(1)
        by (intro that [of _ "drop (length a1) (g @ map Some a1)"]) (auto simp: lay_def)
    qed
  qed
qed


text \<open>A buffer whose gap stands at its cursor.\<close>

definition at_gap :: "string \<Rightarrow> cells \<Rightarrow> string \<Rightarrow> cells \<Rightarrow> gapbuf \<Rightarrow> bool" where
  "at_gap b g a s gb \<longleftrightarrow> lay b g a s gb \<and> point gb = gap gb"

lemma at_gap_lay: "at_gap b g a s gb \<Longrightarrow> lay b g a s gb"
  by (simp add: at_gap_def)

lemma at_gap_cursor:
  "at_gap b g a s gb \<Longrightarrow> cursor gb = (b, a)"
  by (simp add: lay_cursor [OF at_gap_lay]) (simp add: at_gap_def lay_def)

lemma at_gap_wf:
  "at_gap b g a s gb \<Longrightarrow> length (buf gb) < 2 ^ 31 \<Longrightarrow> wf_gapbuf gb"
  by (simp add: lay_wf [OF at_gap_lay] point_ok_def) (simp add: at_gap_def lay_def)

lemma at_gap_moved:
  "at_gap b g a s gb \<Longrightarrow> gb_move_gap_to_point gb = Some gb"
  by (simp add: at_gap_def gb_move_gap_to_point_def)

lemma to_gap:
  assumes "wf_gapbuf gb"
  obtains gb' g s where "gb_move_gap_to_point gb = Some gb'"
    "at_gap (fst (cursor gb)) g (snd (cursor gb)) s gb'" "length (buf gb') = length (buf gb)"
proof -
  obtain b g a s where L: "lay b g a s gb" using assms by (rule wf_layE)
  obtain gb' g' where M: "gb_move_gap_to_point gb = Some gb'"
    "lay (fst (cursor gb)) g' (snd (cursor gb)) s gb'" "point gb' = gap gb'" "length g' = length g"
    using gap_to_point [OF L assms] .
  have "length (fst (cursor gb)) + length (snd (cursor gb)) = length b + length a"
    using lay_text [OF L] by (metis length_append text_of_def)
  then have "length (buf gb') = length (buf gb)"
    using lay_length [OF L] lay_length [OF M(2)] M(4) by simp
  with M show ?thesis using that by (simp add: at_gap_def)
qed

lemma move_tail_cells:
  assumes "n \<le> length t"
  shows "memmove (int (length p + n)) (int (length p)) (int (length q)) (p @ q @ t)
     = Some (p @ take n (q @ t) @ q @ drop n t)"
  using assms by (simp add: memmove_def mcopy_def nat_add_distrib nat_int_add)

lemma realloc_parts:
  obtains t' where "realloc (length p + k) (p @ t) = p @ t'" "length t' = k"
  by (rule that [of "take k t @ replicate (k - length t) None"]) (simp_all add: realloc_def)

lemma move_gap_ebuf: "gb_move_gap_to_point gb = Some gb' \<Longrightarrow> ebuf gb' = ebuf gb"
  by (auto simp: gb_move_gap_to_point_def Let_def bind_eq_Some_conv split: if_splits)

lemma expand_gap_grows:
  assumes "at_gap b g a s gb" "length (buf gb) + unat n + 16 < 2 ^ 31" "\<And>k. alloc k"
  obtains gb' g' s' where "gb_expand_gap alloc n gb = Some gb'" "at_gap b g' a s' gb'"
    "unat n \<le> length g'" "length (buf gb') \<le> length (buf gb) + unat n + 16"
    "gb' = gb \<or> ebuf gb' = ebuf gb + int (unat n) + 8 \<and> int (length (buf gb')) = ebuf gb' + 8"
proof (cases "n > gb_gap_size gb")
  case False
  then have "unat n \<le> length g"
    using assms by (simp add: at_gap_def lay_def gb_gap_size_def word_le_nat_alt not_less
        c_u32_def unat_of_nat32)
  with False assms show ?thesis
    by (intro that [of gb g s]) (simp_all add: gb_expand_gap_def)
next
  case True
  let ?N = "unat n + 8" and ?p = "map Some b @ g"
  from assms have L: "buf gb = ?p @ map Some a @ s" "gap gb = int (length b)" "point gb = gap gb"
      "egap gb = int (length ?p)" "ebuf gb = int (length ?p + length a)"
      "length (buf gb) = length ?p + length a + length s"
    by (simp_all add: at_gap_def lay_def)
  have "unat n + 8 < 2 ^ LENGTH(32)" using assms(2) by simp
  then have N: "unat (n + of_nat GB_DEFAULT_GAP_SIZE) = ?N"
    using unat_add_lem [of n 8] by (simp add: GB_DEFAULT_GAP_SIZE_def)
  then have N': "uint (n + of_nat GB_DEFAULT_GAP_SIZE) = int ?N"
    by (metis uint_nat)
  have K: "ebuf gb + int ?N + int GB_DEFAULT_GAP_SIZE = int (length ?p + length a + unat n + 16)"
    using L(5) by (simp add: GB_DEFAULT_GAP_SIZE_def)
  have E: "uint (gb_buf_size gb) = ebuf gb"
    using assms(2) L by (simp add: gb_buf_size_def c_u32_small)
  have E': "unat (c_u32 (ebuf gb + int ?N + int GB_DEFAULT_GAP_SIZE)) = length ?p + length a + unat n + 16"
    unfolding K by (rule unat_c_u32) (use assms(2) L(6) in simp)
  have B: "gb_expand_buf alloc (n + of_nat GB_DEFAULT_GAP_SIZE) gb
      = Some (gb\<lparr>buf := realloc (length ?p + length a + unat n + 16) (buf gb)\<rparr>)"
    using E E' assms(3) L(5) N' by (simp add: gb_expand_buf_def Let_def del: of_nat_add)
  obtain t where t: "length t = unat n + 16" and
    "realloc (length ?p + length a + unat n + 16) (buf gb) = ?p @ map Some a @ t"
    using realloc_parts [of "?p @ map Some a" "unat n + 16" s] by (auto simp: L add.assoc)
  note grown = this(2)
  obtain u where u: "take ?N (map Some a @ t) = u" "length u = ?N" using t by simp
  have A: "gb_expand_gap alloc n gb = Some (gb\<lparr>
      buf := ?p @ u @ map Some a @ drop ?N t,
      egap := int (length ?p + ?N), ebuf := int (length ?p + length a + ?N)\<rparr>)"
    using True B [unfolded grown] u(1) move_tail_cells [of ?N t ?p "map Some a"] t L N'
    by (simp add: gb_expand_gap_def Let_def algebra_simps)
  show ?thesis
    by (rule that [OF A, of "g @ u" "drop ?N t"])
       (use L t u(2) in \<open>simp_all add: at_gap_def lay_def\<close>)
qed

lemma expand_gap_room:
  assumes "at_gap b g a s gb" "length (buf gb) + unat n + 16 < 2 ^ 31" "\<And>k. alloc k"
  obtains gb' g' s' where "gb_expand_gap alloc n gb = Some gb'" "at_gap b g' a s' gb'"
    "unat n \<le> length g'" "length (buf gb') \<le> length (buf gb) + unat n + 16"
  by (rule expand_gap_grows [OF assms]) (rule that)

lemma putc_at_gap:
  assumes "at_gap b g a s gb" "g \<noteq> []"
  obtains gb' where "gb_putc alloc c gb = Some gb'" "at_gap (b @ [c]) (tl g) a s gb'"
    "length (buf gb') = length (buf gb)"
proof -
  have "point gb \<noteq> ebuf gb" using assms by (auto simp: at_gap_def lay_def add_nonneg_eq_0_iff)
  moreover have "(map Some b @ g @ map Some a @ s)[length b := Some c]
      = map Some (b @ [c]) @ tl g @ map Some a @ s"
    using assms(2) by (cases g) (simp_all add: list_update_append)
  ultimately show ?thesis using assms
    by (intro that [of "gb\<lparr>buf := map Some (b @ [c]) @ tl g @ map Some a @ s,
          gap := gap gb + 1, point := point gb + 1\<rparr>"])
       (auto simp: gb_putc_def at_gap_moved mwrite_def at_gap_def lay_def Suc_le_eq of_nat_diff)
qed

lemma insert_grows:
  assumes "wf_gapbuf gb" "length (buf gb) + 17 < 2 ^ 31" "\<And>k. alloc k"
  obtains gb' g s where "gb_insert alloc c gb = Some gb'"
    "at_gap (fst (cursor gb) @ [c]) g (snd (cursor gb)) s gb'"
    "length (buf gb') \<le> length (buf gb) + 17"
    "ebuf gb' = ebuf gb \<and> length (buf gb') = length (buf gb)
     \<or> ebuf gb' = int (length (text_of gb)) + 9 \<and> int (length (buf gb')) = ebuf gb' + 8"
proof -
  obtain gb1 g s where 1: "gb_move_gap_to_point gb = Some gb1"
    "at_gap (fst (cursor gb)) g (snd (cursor gb)) s gb1" "length (buf gb1) = length (buf gb)"
    using to_gap [OF assms(1)] .
  have e1: "ebuf gb1 = ebuf gb" using 1(1) by (rule move_gap_ebuf)
  have step: "gb_insert alloc c gb
      = do { gb \<leftarrow> (if gap gb1 = egap gb1 then gb_expand_gap alloc 1 gb1 else Some gb1);
             gb_putc alloc c gb }"
    using 1 at_gap_moved by (auto simp: gb_insert_def gb_move_gap_to_point_def)
  obtain gb2 g2 s2 where 2: "(if gap gb1 = egap gb1 then gb_expand_gap alloc 1 gb1 else Some gb1) = Some gb2"
    "at_gap (fst (cursor gb)) g2 (snd (cursor gb)) s2 gb2" "g2 \<noteq> []" "length (buf gb2) \<le> length (buf gb) + 17"
    "ebuf gb2 = ebuf gb \<and> length (buf gb2) = length (buf gb)
     \<or> ebuf gb2 = int (length (text_of gb)) + 9 \<and> int (length (buf gb2)) = ebuf gb2 + 8"
  proof (cases "gap gb1 = egap gb1")
    case True
    have "g = []" using 1(2) True by (auto simp: at_gap_def lay_def)
    then have full: "ebuf gb1 = int (length (text_of gb))"
      using 1(2) by (simp add: at_gap_def lay_def text_of_def)
    have room: "length (buf gb1) + unat (1 :: u32) + 16 < 2 ^ 31" using assms(2) 1(3) by simp
    obtain gb2 g2 s2 where "gb_expand_gap alloc 1 gb1 = Some gb2"
      "at_gap (fst (cursor gb)) g2 (snd (cursor gb)) s2 gb2" "unat (1 :: u32) \<le> length g2"
      "length (buf gb2) \<le> length (buf gb1) + unat (1 :: u32) + 16"
      "gb2 = gb1 \<or> ebuf gb2 = ebuf gb1 + int (unat (1 :: u32)) + 8
        \<and> int (length (buf gb2)) = ebuf gb2 + 8"
      by (rule expand_gap_grows [OF 1(2) room assms(3)])
    then show ?thesis using True full e1 1(3) by (intro that [of gb2 g2 s2]) auto
  next
    case False
    then have "g \<noteq> []" using 1(2) by (auto simp: at_gap_def lay_def)
    with False 1 e1 show ?thesis by (intro that) auto
  qed
  obtain gb3 where "gb_putc alloc c gb2 = Some gb3"
    "at_gap (fst (cursor gb) @ [c]) (tl g2) (snd (cursor gb)) s2 gb3"
    "length (buf gb3) = length (buf gb2)"
    using putc_at_gap [OF 2(2,3)] .
  moreover have "ebuf gb3 = ebuf gb2"
    using calculation(2) 2(2,3) by (cases g2) (simp_all add: at_gap_def lay_def)
  ultimately show ?thesis using 2 step by (intro that [of gb3 "tl g2" s2]) simp_all
qed

lemma insert_cursor:
  assumes "wf_gapbuf gb" "length (buf gb) + 17 < 2 ^ 31" "\<And>k. alloc k"
  obtains gb' g s where "gb_insert alloc c gb = Some gb'"
    "at_gap (fst (cursor gb) @ [c]) g (snd (cursor gb)) s gb'"
    "length (buf gb') \<le> length (buf gb) + 17"
  by (rule insert_grows [OF assms]) (rule that)

lemma put_bytes_at_gap:
  assumes "at_gap b g a s gb" "length str \<le> length g"
  obtains gb' where "put_bytes alloc (map Some pre @ map Some str @ rest) (length str)
      (int (length pre)) gb = Some gb'"
    "at_gap (b @ str) (drop (length str) g) a s gb'" "length (buf gb') = length (buf gb)"
  using assms
proof (induction str arbitrary: b g gb pre thesis)
  case Nil
  then show ?case by simp
next
  case (Cons c str)
  have "g \<noteq> []" using Cons.prems(3) by auto
  with Cons.prems(2) obtain gb1 where 1: "gb_putc alloc c gb = Some gb1"
    "at_gap (b @ [c]) (tl g) a s gb1" "length (buf gb1) = length (buf gb)" by (rule putc_at_gap)
  have "mread (int (length pre)) (map Some pre @ map Some (c # str) @ rest) = Some c"
    by (simp add: mread_def nth_append)
  moreover have "length str \<le> length (tl g)" using Cons.prems(3) by simp
  then obtain gb2 where "put_bytes alloc (map Some (pre @ [c]) @ map Some str @ rest) (length str)
      (int (length (pre @ [c]))) gb1 = Some gb2"
    "at_gap ((b @ [c]) @ str) (drop (length str) (tl g)) a s gb2" "length (buf gb2) = length (buf gb1)"
    using Cons.IH [OF _ 1(2), of "pre @ [c]"] by blast
  ultimately show ?case using 1 by (intro Cons.prems(1) [of gb2]) (simp_all add: drop_Suc ac_simps)
qed


lemma del_cursor:
  assumes "wf_gapbuf gb" "cursor gb = (b, a)" "n \<le> length a"
  obtains gb' g s where "gb_del (int n) gb = Some gb'" "at_gap b g (drop n a) s gb'"
    "length (buf gb') = length (buf gb)"
proof -
  obtain gb1 g s where 1: "gb_move_gap_to_point gb = Some gb1" "at_gap b g a s gb1"
    "length (buf gb1) = length (buf gb)"
    using to_gap [OF assms(1)] assms(2) by auto
  have "map Some a = map Some (take n a) @ map Some (drop n a)"
    by (metis append_take_drop_id map_append)
  then have "at_gap b (g @ map Some (take n a)) (drop n a) s (gb1\<lparr>egap := egap gb1 + int n\<rparr>)"
    using 1(2) assms(3) by (simp add: at_gap_def lay_def min_absorb2)
  moreover have "gb_del (int n) gb = Some (gb1\<lparr>egap := egap gb1 + int n\<rparr>)"
    using 1(1) by (auto simp: gb_del_def gb_move_gap_to_point_def)
  ultimately show ?thesis using 1(3) by (intro that [of "gb1\<lparr>egap := egap gb1 + int n\<rparr>"]) simp_all
qed

text \<open>gb_str_insert of the n first characters of a string, or of all of it when
  the count is zero.\<close>

lemma str_insert_cursor:
  assumes "wf_gapbuf gb" "length (buf gb) + length str + 16 < 2 ^ 31" "\<And>k. alloc k"
    "strlen (map Some str @ rest) = Some (length str) \<and> n = 0 \<or> n = of_nat (length str)"
    "str \<noteq> []"
  obtains gb' g s where
    "gb_str_insert alloc (map Some str @ rest) n gb = Some (of_nat (length str), gb')"
    "at_gap (fst (cursor gb) @ str) g (snd (cursor gb)) s gb'"
    "length (buf gb') \<le> length (buf gb) + length str + 16"
proof -
  let ?n = "of_nat (length str) :: u32"
  have n: "unat ?n = length str" using assms(2) by (simp add: unat_of_nat32)
  with assms(5) have "?n \<noteq> 0" by auto
  obtain gb1 g s where 1: "gb_move_gap_to_point gb = Some gb1"
    "at_gap (fst (cursor gb)) g (snd (cursor gb)) s gb1" "length (buf gb1) = length (buf gb)"
    using to_gap [OF assms(1)] .
  obtain gb2 g2 s2 where 2: "gb_expand_gap alloc ?n gb1 = Some gb2"
    "at_gap (fst (cursor gb)) g2 (snd (cursor gb)) s2 gb2" "length str \<le> length g2"
    "length (buf gb2) \<le> length (buf gb) + length str + 16"
    using expand_gap_room [OF 1(2), of ?n alloc] assms(2,3) 1(3) n by auto
  have "(if ?n > gb_gap_size gb1 then gb_expand_gap alloc ?n gb1 else Some gb1) = Some gb2"
    using 2(1) by (simp add: gb_expand_gap_def split: if_splits)
  moreover obtain gb3 where "put_bytes alloc (map Some str @ rest) (length str) 0 gb2 = Some gb3"
    "at_gap (fst (cursor gb) @ str) (drop (length str) g2) (snd (cursor gb)) s2 gb3"
    "length (buf gb3) = length (buf gb2)"
    using put_bytes_at_gap [OF 2(2,3), of alloc "[]"] by auto
  ultimately show ?thesis using assms(4) 1 2 n \<open>?n \<noteq> 0\<close>
    by (intro that [of gb3]) (auto simp: gb_str_insert_def)
qed


text \<open>Moving the point leaves the layout alone.\<close>

lemma lay_point_upd [simp]: "lay b g a s (gb\<lparr>point := p\<rparr>) = lay b g a s gb"
  by (simp add: lay_def)

lemma cursor_in_left:
  assumes "lay (b1 @ b2) g a s gb"
  shows "cursor (gb\<lparr>point := int (length b1)\<rparr>) = (b1, b2 @ a)"
  using assms lay_cursor [of "b1 @ b2" g a s "gb\<lparr>point := int (length b1)\<rparr>"]
  by (simp add: lay_def)

lemma cursor_in_right:
  assumes "lay b g (a1 @ a2) s gb"
  shows "cursor (gb\<lparr>point := egap gb + int (length a1)\<rparr>) = (b @ a1, a2)"
proof -
  have "int (length g) + int (length a1) \<le> 0 \<longleftrightarrow> g = [] \<and> a1 = []"
    by (cases g; cases a1) auto
  then show ?thesis
    using assms lay_cursor [of b g "a1 @ a2" s "gb\<lparr>point := egap gb + int (length a1)\<rparr>"]
    by (auto simp: lay_def nat_add_distrib nat_int_add Let_def)
qed

definition moved :: "gapbuf \<Rightarrow> gapbuf \<Rightarrow> zipper \<Rightarrow> bool" where
  "moved gb gb' z \<longleftrightarrow> wf_gapbuf gb' \<and> cursor gb' = z \<and> (\<exists>p. gb' = gb\<lparr>point := p\<rparr>)"

lemma moved_left:
  assumes "lay (b1 @ b2) g a s gb" "wf_gapbuf gb"
  shows "moved gb (gb\<lparr>point := int (length b1)\<rparr>) (b1, b2 @ a)"
proof -
  have "point_ok (gb\<lparr>point := int (length b1)\<rparr>)" using assms(1) by (simp add: point_ok_def lay_def)
  then show ?thesis using assms cursor_in_left [OF assms(1)] lay_wf [OF assms(1)]
    lay_wf [of "b1 @ b2" g a s "gb\<lparr>point := int (length b1)\<rparr>"] by (auto simp: moved_def)
qed

lemma moved_right:
  assumes "lay b g (a1 @ a2) s gb" "wf_gapbuf gb"
  shows "moved gb (gb\<lparr>point := egap gb + int (length a1)\<rparr>) (b @ a1, a2)"
proof -
  have "point_ok (gb\<lparr>point := egap gb + int (length a1)\<rparr>)"
    using assms(1) by (simp add: point_ok_def lay_def)
  then show ?thesis using assms cursor_in_right [OF assms(1)] lay_wf [OF assms(1)]
    lay_wf [of b g "a1 @ a2" s "gb\<lparr>point := egap gb + int (length a1)\<rparr>"]
    by (auto simp: moved_def)
qed

text \<open>A well-formed buffer has its point among the cells of one side.\<close>

lemma wf_pointE:
  assumes "wf_gapbuf gb"
  obtains (left) b1 b2 g a s where "lay (b1 @ b2) g a s gb" "point gb = int (length b1)"
      "cursor gb = (b1, b2 @ a)"
  | (right) b g a1 a2 s where "lay b g (a1 @ a2) s gb" "point gb = egap gb + int (length a1)"
      "point gb \<noteq> gap gb" "cursor gb = (b @ a1, a2)"
proof -
  obtain b g a s where L: "lay b g a s gb" using assms by (rule wf_layE)
  have "point_ok gb" using assms by (simp add: wf_gapbuf_def)
  with L show ?thesis
  proof (cases rule: lay_point)
    case (left b1 b2) with L show ?thesis using that(1) by blast
  next
    case (right a1 a2) with L show ?thesis using that(2) by blast
  qed
qed

text \<open>After the test that several operations start with, the point is in the
  right part (before a character is read) or in the left part (before one is
  read backwards).\<close>

definition skip_gap :: "gapbuf \<Rightarrow> gapbuf" where
  "skip_gap gb = (if point gb = gap gb then gb\<lparr>point := egap gb\<rparr> else gb)"

definition skip_back :: "gapbuf \<Rightarrow> gapbuf" where
  "skip_back gb = (if point gb = egap gb then gb\<lparr>point := gap gb\<rparr> else gb)"

lemma skip_gap_cases:
  assumes "wf_gapbuf gb"
  obtains (left) b1 c b2 g a s where "lay (b1 @ c # b2) g a s gb"
      "skip_gap gb = gb\<lparr>point := int (length b1)\<rparr>" "cursor gb = (b1, c # b2 @ a)"
  | (right) b g a1 a2 s where "lay b g (a1 @ a2) s gb"
      "skip_gap gb = gb\<lparr>point := egap gb + int (length a1)\<rparr>" "cursor gb = (b @ a1, a2)"
  using assms
proof (cases rule: wf_pointE)
  case L: (left b1 b2 g a s)
  show ?thesis
  proof (cases b2)
    case Nil
    with L have "skip_gap gb = gb\<lparr>point := egap gb + int (length ([] :: string))\<rparr>"
      by (simp add: skip_gap_def lay_def)
    with L Nil show ?thesis using right [of b1 g "[]" a s] by simp
  next
    case (Cons c b2')
    with L have "skip_gap gb = gb\<lparr>point := int (length b1)\<rparr>" by (simp add: skip_gap_def lay_def)
    with L Cons show ?thesis using left [of b1 c b2' g a s] by simp
  qed
next
  case R: (right b g a1 a2 s)
  then have "skip_gap gb = gb\<lparr>point := egap gb + int (length a1)\<rparr>" by (simp add: skip_gap_def)
  with R show ?thesis using right by blast
qed

lemma skip_back_cases:
  assumes "wf_gapbuf gb"
  obtains (left) b1 b2 g a s where "lay (b1 @ b2) g a s gb"
      "skip_back gb = gb\<lparr>point := int (length b1)\<rparr>" "cursor gb = (b1, b2 @ a)"
  | (right) b g a1 c a2 s where "lay b g (a1 @ c # a2) s gb"
      "skip_back gb = gb\<lparr>point := egap gb + int (length a1) + 1\<rparr>"
      "cursor gb = (b @ a1 @ [c], a2)"
  using assms
proof (cases rule: wf_pointE)
  case L: (left b1 b2 g a s)
  then have "skip_back gb = gb\<lparr>point := int (length b1)\<rparr>" by (auto simp: skip_back_def lay_def add_nonneg_eq_0_iff)
  with L show ?thesis using left by blast
next
  case R: (right b g a1 a2 s)
  show ?thesis
  proof (cases a1 rule: rev_cases)
    case Nil
    with R have "skip_back gb = gb\<lparr>point := int (length b)\<rparr>" by (simp add: skip_back_def lay_def)
    with R Nil show ?thesis using left [of b "[]" g a2 s] by simp
  next
    case (snoc a1' c)
    with R have "skip_back gb = gb\<lparr>point := egap gb + int (length a1') + 1\<rparr>"
      by (simp add: skip_back_def)
    with R snoc show ?thesis using right [of b g a1' c a2 s] by simp
  qed
qed

lemma lay_reads:
  "lay (b1 @ c # b2) g a s gb \<Longrightarrow> mread (int (length b1)) (buf gb) = Some c"
  "lay b g (a1 @ c # a2) s gb \<Longrightarrow> mread (egap gb + int (length a1)) (buf gb) = Some c"
  by (simp_all add: lay_def mread_def nth_append nat_add_distrib nat_int_add)

lemma skip_gap_here:
  assumes "wf_gapbuf gb" "cursor gb = (b, c # a)"
  shows "mread (point (skip_gap gb)) (buf gb) = Some c"
    "moved gb (skip_gap gb) (b, c # a)"
    "moved gb (skip_gap gb\<lparr>point := point (skip_gap gb) + 1\<rparr>) (b @ [c], a)"
    "point (skip_gap gb) < ebuf gb"
proof -
  have "mread (point (skip_gap gb)) (buf gb) = Some c \<and> moved gb (skip_gap gb) (b, c # a)
      \<and> moved gb (skip_gap gb\<lparr>point := point (skip_gap gb) + 1\<rparr>) (b @ [c], a)
      \<and> point (skip_gap gb) < ebuf gb"
    using assms(1)
  proof (cases rule: skip_gap_cases)
    case (left b1 d b2 g a' s)
    then show ?thesis using assms lay_reads(1) [OF left(1)] moved_left [of b1 "d # b2" g a' s gb]
        moved_left [of "b1 @ [d]" b2 g a' s gb] by (simp add: add.commute) (simp add: lay_def)
  next
    case (right b' g a1 a2 s)
    then have "a2 = c # a" "b = b' @ a1" using assms(2) by simp_all
    then show ?thesis using assms right lay_reads(2) [of b' g a1 c a s gb]
        moved_right [of b' g a1 a2 s gb] moved_right [of b' g "a1 @ [c]" a s gb]
      by (simp add: ac_simps) (simp add: lay_def)
  qed
  then show "mread (point (skip_gap gb)) (buf gb) = Some c" "moved gb (skip_gap gb) (b, c # a)"
    "moved gb (skip_gap gb\<lparr>point := point (skip_gap gb) + 1\<rparr>) (b @ [c], a)"
    "point (skip_gap gb) < ebuf gb" by simp_all
qed

lemma skip_gap_end:
  assumes "wf_gapbuf gb" "cursor gb = (b, [])"
  shows "point (skip_gap gb) = ebuf gb" "moved gb (skip_gap gb) (b, [])"
proof -
  have "point (skip_gap gb) = ebuf gb \<and> moved gb (skip_gap gb) (b, [])"
    using assms(1)
  proof (cases rule: skip_gap_cases)
    case (right b' g a1 a2 s)
    then show ?thesis using assms moved_right [of b' g a1 "[]" s gb] by simp (simp add: lay_def)
  qed (use assms(2) in simp)
  then show "point (skip_gap gb) = ebuf gb" "moved gb (skip_gap gb) (b, [])" by simp_all
qed

lemma skip_back_here:
  assumes "wf_gapbuf gb" "cursor gb = (b @ [c], a)"
  shows "mread (point (skip_back gb) - 1) (buf gb) = Some c"
    "moved gb (skip_back gb) (b @ [c], a)"
    "moved gb (skip_back gb\<lparr>point := point (skip_back gb) - 1\<rparr>) (b, c # a)"
    "0 < point (skip_back gb)"
proof -
  have "mread (point (skip_back gb) - 1) (buf gb) = Some c \<and> moved gb (skip_back gb) (b @ [c], a)
      \<and> moved gb (skip_back gb\<lparr>point := point (skip_back gb) - 1\<rparr>) (b, c # a)
      \<and> 0 < point (skip_back gb)"
    using assms(1)
  proof (cases rule: skip_back_cases)
    case (left b1 b2 g a' s)
    then have "b1 = b @ [c]" using assms(2) by simp
    then show ?thesis using assms left lay_reads(1) [of b c b2 g a' s gb]
        moved_left [of b "c # b2" g a' s gb] moved_left [of b1 b2 g a' s gb] by simp
  next
    case (right b' g a1 d a2 s)
    then have "d = c" "b = b' @ a1" using assms(2) by simp_all
    then show ?thesis using assms right lay_reads(2) [of b' g a1 c a s gb]
        moved_right [of b' g a1 "c # a" s gb] moved_right [of b' g "a1 @ [c]" a s gb]
      by (simp add: ac_simps) (simp add: lay_def)
  qed
  then show "mread (point (skip_back gb) - 1) (buf gb) = Some c" "moved gb (skip_back gb) (b @ [c], a)"
    "moved gb (skip_back gb\<lparr>point := point (skip_back gb) - 1\<rparr>) (b, c # a)"
    "0 < point (skip_back gb)" by simp_all
qed

lemma skip_back_start:
  assumes "wf_gapbuf gb" "cursor gb = ([], a)"
  shows "point (skip_back gb) = 0" "moved gb (skip_back gb) ([], a)"
proof -
  have "point (skip_back gb) = 0 \<and> moved gb (skip_back gb) ([], a)"
    using assms(1)
  proof (cases rule: skip_back_cases)
    case (left b1 b2 g a' s)
    then show ?thesis using assms moved_left [of "[]" b2 g a' s gb] by simp
  qed (use assms(2) in simp)
  then show "point (skip_back gb) = 0" "moved gb (skip_back gb) ([], a)" by simp_all
qed


section \<open>What each operation does to the text and the cursor\<close>

lemma moved_wf: "moved gb gb' z \<Longrightarrow> wf_gapbuf gb'"
  and moved_cursor: "moved gb gb' z \<Longrightarrow> cursor gb' = z"
  and moved_buf: "moved gb gb' z \<Longrightarrow> buf gb' = buf gb"
  by (auto simp: moved_def)

lemma gb_get_eq: "gb_get gb = map_option (\<lambda>c. (c, skip_gap gb)) (mread (point (skip_gap gb)) (buf gb))"
  by (cases "mread (point (skip_gap gb)) (buf gb)") (auto simp: gb_get_def skip_gap_def Let_def)

lemma get_cursor:
  assumes "wf_gapbuf gb" "cursor gb = (b, c # a)"
  obtains gb' where "gb_get gb = Some (c, gb')" "moved gb gb' (b, c # a)"
  using skip_gap_here [OF assms] by (simp add: gb_get_eq)

lemma getc_cursor:
  assumes "wf_gapbuf gb" "cursor gb = (b, c # a)"
  obtains gb' where "gb_getc gb = Some (c, gb')" "moved gb gb' (b @ [c], a)"
  using skip_gap_here [OF assms]
  by (cases "point gb = gap gb") (auto simp: gb_getc_def skip_gap_def)

lemma getc_prev_cursor:
  assumes "wf_gapbuf gb" "cursor gb = (b @ [c], a)"
  obtains gb' where "gb_getc_prev gb = Some (c, gb')" "moved gb gb' (b, c # a)"
  using skip_back_here [OF assms]
  by (cases "point gb = egap gb") (auto simp: gb_getc_prev_def skip_back_def)

lemma get_prev_cursor:
  assumes "wf_gapbuf gb" "cursor gb = (b @ [c], a)"
  obtains gb' where "gb_get_prev gb = Some (c, gb')" "moved gb gb' (b @ [c], a)"
  using skip_back_here [OF assms]
  by (cases "point gb = egap gb") (auto simp: gb_get_prev_def skip_back_def Let_def)

lemma gb_move_right_eq: "gb_move_right gb =
    (if ebuf gb < point (skip_gap gb) + 1 then skip_gap gb\<lparr>point := ebuf gb\<rparr>
     else skip_gap gb\<lparr>point := point (skip_gap gb) + 1\<rparr>)"
  by (simp add: gb_move_right_def skip_gap_def Let_def)

lemma gb_move_left_eq: "gb_move_left gb =
    (if point (skip_back gb) - 1 < 0 then skip_back gb\<lparr>point := 0\<rparr>
     else skip_back gb\<lparr>point := point (skip_back gb) - 1\<rparr>)"
  by (simp add: gb_move_left_def skip_back_def Let_def)

lemma point_same: "point gb = p \<Longrightarrow> gb\<lparr>point := p\<rparr> = gb"
  by auto

lemma move_right_cursor:
  assumes "wf_gapbuf gb" "cursor gb = (b, a)"
  shows "moved gb (gb_move_right gb) (case a of [] \<Rightarrow> (b, []) | c # a' \<Rightarrow> (b @ [c], a'))"
proof (cases a)
  case Nil
  then show ?thesis using assms skip_gap_end [of gb b]
    by (simp add: gb_move_right_eq point_same)
next
  case (Cons c a')
  then show ?thesis using assms skip_gap_here [of gb b c a']
    by (simp add: gb_move_right_eq)
qed

lemma move_left_cursor:
  assumes "wf_gapbuf gb" "cursor gb = (b, a)"
  shows "moved gb (gb_move_left gb) (if b = [] then ([], a) else (butlast b, last b # a))"
proof (cases b rule: rev_cases)
  case Nil
  then show ?thesis using assms skip_back_start [of gb a]
    by (simp add: gb_move_left_eq point_same)
next
  case (snoc b' c)
  then show ?thesis using assms skip_back_here [of gb b' c a]
    by (simp add: gb_move_left_eq)
qed

lemma set_point_cursor:
  assumes "wf_gapbuf gb" "i \<le> length (text_of gb)"
  shows "moved gb (gb_set_point (int i) gb) (take i (text_of gb), drop i (text_of gb))"
proof -
  obtain b g a s where L: "lay b g a s gb" using assms(1) by (rule wf_layE)
  show ?thesis
  proof (cases "i \<le> length b")
    case True
    have "gb_set_point (int i) gb = gb\<lparr>point := int (length (take i b))\<rparr>"
      using L True by (simp add: gb_set_point_def lay_def)
    then show ?thesis using moved_left [of "take i b" "drop i b" g a s gb] L True assms(1)
      by (simp add: lay_text)
  next
    case False
    have "gb_set_point (int i) gb = gb\<lparr>point := egap gb + int (length (take (i - length b) a))\<rparr>"
      using L False assms(2) by (simp add: gb_set_point_def lay_text) (simp add: lay_def)
    then show ?thesis
      using moved_right [of b g "take (i - length b) a" "drop (i - length b) a" s gb] L False assms(1)
      by (simp add: lay_text)
  qed
qed

lemma set_end_cursor:
  assumes "wf_gapbuf gb"
  shows "moved gb (gb_set_point (-1) gb) (text_of gb, [])"
proof -
  obtain b g a s where L: "lay b g a s gb" using assms by (rule wf_layE)
  have "gb_set_point (-1) gb = gb\<lparr>point := egap gb + int (length a)\<rparr>"
    using L by (simp add: gb_set_point_def lay_def)
  then show ?thesis using moved_right [of b g a "[]" s gb] L assms by (simp add: lay_text)
qed

lemma eof_cursor:
  assumes "wf_gapbuf gb"
  shows "gb_eof gb \<longleftrightarrow> snd (cursor gb) = []"
  using assms
proof (cases rule: wf_pointE)
  case (left b1 b2 g a s)
  then show ?thesis
    by (cases "b2 = []") (auto simp: gb_eof_def lay_def add_nonneg_eq_0_iff)
next
  case (right b g a1 a2 s)
  then show ?thesis by (auto simp: gb_eof_def lay_def)
qed

lemma data_size_cursor:
  assumes "wf_gapbuf gb"
  shows "unat (gb_data_size gb) = length (text_of gb)"
proof -
  obtain b g a s where L: "lay b g a s gb" using assms by (rule wf_layE)
  moreover have "length (buf gb) < 2 ^ 31" using assms by (simp add: wf_gapbuf_def)
  ultimately show ?thesis using unat_c_u32 [of "length b + length a"]
    by (simp add: gb_data_size_def lay_text lay_length) (simp add: lay_def)
qed


lemma reset_cursor:
  assumes "wf_gapbuf gb"
  obtains gb' g s where "gb_reset_buf gb = Some gb'" "at_gap [] g [] s gb'"
    "length (buf gb') = length (buf gb)"
proof -
  have size: "0 \<le> ebuf gb" "ebuf gb \<le> int (length (buf gb))" "length (buf gb) < 2 ^ 31"
    using assms by (auto simp: wf_gapbuf_def)
  then have c: "c_int (uint (gb_buf_size gb)) = ebuf gb"
    by (simp add: gb_buf_size_def c_u32_small c_int_small)
  let ?m = "replicate (nat (ebuf gb)) (Some CHR '' '') @ drop (nat (ebuf gb)) (buf gb)"
  have "gb_reset_buf gb = Some (gb\<lparr>buf := ?m, point := 0, gap := 0, egap := ebuf gb, ebuf := ebuf gb\<rparr>)"
    using c size by (simp add: gb_reset_buf_def mfill_def mcopy_def Let_def)
  then show ?thesis
    by (rule that [of _ "replicate (nat (ebuf gb)) (Some CHR '' '')" "drop (nat (ebuf gb)) (buf gb)"])
       (use size in \<open>simp_all add: at_gap_def lay_def\<close>)
qed

lemma create_ok:
  assumes "alloc 40" "alloc 8"
  obtains gb g s where "gb_create alloc = Some (Some gb)" "at_gap [] g [] s gb" "length (buf gb) = 8"
proof -
  let ?gb = "\<lparr>buf = replicate 8 (Some CHR '' ''), ebuf = 8, point = 0, gap = 0, egap = 8\<rparr>"
  have "gb_create alloc = Some (Some ?gb)"
    using assms by (simp add: gb_create_def gb_init_buf_def GB_DEFAULT_GAP_SIZE_def gb_reset_buf_def
        gb_buf_size_def c_u32_small c_int_small mfill_def mcopy_def Let_def)
  then show ?thesis
    by (rule that [of _ "replicate 8 (Some CHR '' '')" "[]"]) (simp_all add: at_gap_def lay_def)
qed

text \<open>Reading the text out: all of it, whatever size is asked for, if it is not 0.\<close>

lemma copy_text:
  assumes "wf_gapbuf gb" "0 < n \<or> text_of gb = []" "length (text_of gb) < length dst"
  shows "gb_copy_to_buf gb dst n = Some (map Some (text_of gb) @ Some NUL
      # drop (Suc (length (text_of gb))) dst, of_nat (length (text_of gb)))"
proof -
  obtain b g a s where L: "lay b g a s gb" using assms(1) by (rule wf_layE)
  have size: "length (buf gb) < 2 ^ 31" using assms(1) by (simp add: wf_gapbuf_def)
  have T: "text_of gb = b @ a" using L by (rule lay_text)
  have D: "gb_data_size gb = of_nat (length b + length a)"
    using L by (simp add: gb_data_size_def lay_def c_u32_def)
  have cnt: "uint (c_u32 (gap gb)) = int (length b)"
    "uint (c_u32 (ebuf gb - egap gb)) = int (length a)"
    "uint (c_u32 (gap gb) + c_u32 (ebuf gb - egap gb)) = int (length b + length a)"
    "c_u32 (gap gb) + c_u32 (ebuf gb - egap gb) = of_nat (length b + length a)"
  proof -
    have e: "ebuf gb - egap gb = int (length a)" "gap gb = int (length b)"
      using L by (simp_all add: lay_def)
    have len: "length b + length a < 2 ^ 31" using size lay_length [OF L] by simp
    show "uint (c_u32 (gap gb)) = int (length b)" "uint (c_u32 (ebuf gb - egap gb)) = int (length a)"
      using len by (simp_all add: e c_u32_small)
    show sum: "c_u32 (gap gb) + c_u32 (ebuf gb - egap gb) = of_nat (length b + length a)"
      by (simp add: e c_u32_def)
    show "uint (c_u32 (gap gb) + c_u32 (ebuf gb - egap gb)) = int (length b + length a)"
      unfolding sum using c_u32_small [of "int (length b + length a)"] len
      by (simp add: c_u32_def)
  qed
  show ?thesis
  proof (cases "b @ a = []")
    case True
    then show ?thesis using assms D T
      by (cases dst) (auto simp: gb_copy_to_buf_def mwrite_def)
  next
    case False
    have nz: "of_nat (length b + length a) \<noteq> (0 :: u32)"
      using cnt(3,4) False by (metis add_is_0 append_is_Nil_conv length_0_conv of_nat_0_eq_iff
          uint_0_eq)
    then have "min n (gb_data_size gb) \<noteq> 0" using assms(2) D T False by (auto simp: min_def)
    moreover have "mcopy 0 0 (int (length b)) (buf gb) dst = Some (map Some b @ drop (length b) dst)"
      using L assms(3) T by (simp add: mcopy_def lay_def)
    moreover have "mcopy (int (length b)) (egap gb) (int (length a)) (buf gb)
          (map Some b @ drop (length b) dst)
        = Some (map Some b @ map Some a @ drop (length b + length a) dst)"
      using L assms(3) T by (simp add: mcopy_def lay_def nat_add_distrib nat_int_add add.commute)
    moreover obtain d ds where "drop (length b + length a) dst = d # ds"
      using assms(3) T by (metis Cons_nth_drop_Suc length_append)
    then have "mwrite (int (length b + length a)) NUL (map Some b @ map Some a
          @ drop (length b + length a) dst)
        = Some (map Some (b @ a) @ Some NUL # drop (Suc (length (b @ a))) dst)"
      using assms(3) T by (simp add: mwrite_def nat_int_add list_update_append drop_Suc flip: drop_tl)
        (simp add: drop_tl)
    ultimately show ?thesis unfolding gb_copy_to_buf_def Let_def using cnt T by simp
  qed
qed


section \<open>Sequences of edits, and the editor they implement\<close>

text \<open>The operations a client calls.  \<open>Copy\<close> reads the text into an array one
  byte longer than it, as the callers do; a step returns the characters it read.\<close>

datatype edit = Ins char | Str string | Del nat | Lft | Rgt | Pnt int
  | Get | Get_Prev | Getc | Getc_Prev | Reset | Copy

fun gb_edit :: "(nat \<Rightarrow> bool) \<Rightarrow> edit \<Rightarrow> gapbuf \<Rightarrow> (string \<times> gapbuf) option" where
  "gb_edit alloc (Ins c) gb = do { gb \<leftarrow> gb_insert alloc c gb; Some ([], gb) }"
| "gb_edit alloc (Str s) gb = do { (n, gb) \<leftarrow> gb_str_insert alloc (c_str s) 0 gb; Some ([], gb) }"
| "gb_edit alloc (Del n) gb = do { gb \<leftarrow> gb_del (int n) gb; Some ([], gb) }"
| "gb_edit alloc Lft gb = Some ([], gb_move_left gb)"
| "gb_edit alloc Rgt gb = Some ([], gb_move_right gb)"
| "gb_edit alloc (Pnt i) gb = Some ([], gb_set_point i gb)"
| "gb_edit alloc Get gb = do { (c, gb) \<leftarrow> gb_get gb; Some ([c], gb) }"
| "gb_edit alloc Get_Prev gb = do { (c, gb) \<leftarrow> gb_get_prev gb; Some ([c], gb) }"
| "gb_edit alloc Getc gb = do { (c, gb) \<leftarrow> gb_getc gb; Some ([c], gb) }"
| "gb_edit alloc Getc_Prev gb = do { (c, gb) \<leftarrow> gb_getc_prev gb; Some ([c], gb) }"
| "gb_edit alloc Reset gb = do { gb \<leftarrow> gb_reset_buf gb; Some ([], gb) }"
| "gb_edit alloc Copy gb =
     do { (dst, n) \<leftarrow> gb_copy_to_buf gb (replicate (Suc (unat (gb_data_size gb))) None)
            (gb_data_size gb);
          Some (map the (take (unat n) dst), gb) }"

text \<open>What they mean for a text with a cursor; \<open>None\<close> where the caller must not
  use them: deleting more than there is, a point outside the text, reading a
  character that is not there.\<close>

fun spec_edit :: "edit \<Rightarrow> zipper \<Rightarrow> (string \<times> zipper) option" where
  "spec_edit (Ins c) (b, a) = Some ([], b @ [c], a)"
| "spec_edit (Str s) (b, a) = (if NUL \<in> set s then None else Some ([], b @ s, a))"
| "spec_edit (Del n) (b, a) = (if n \<le> length a then Some ([], b, drop n a) else None)"
| "spec_edit Lft (b, a) = Some ([], if b = [] then ([], a) else (butlast b, last b # a))"
| "spec_edit Rgt (b, a) = Some ([], case a of [] \<Rightarrow> (b, []) | c # a' \<Rightarrow> (b @ [c], a'))"
| "spec_edit (Pnt i) (b, a) =
     (if i = -1 then Some ([], b @ a, [])
      else if 0 \<le> i \<and> i \<le> int (length (b @ a))
      then Some ([], take (nat i) (b @ a), drop (nat i) (b @ a)) else None)"
| "spec_edit Get (b, a) = (case a of [] \<Rightarrow> None | c # a' \<Rightarrow> Some ([c], b, a))"
| "spec_edit Get_Prev (b, a) = (if b = [] then None else Some ([last b], b, a))"
| "spec_edit Getc (b, a) = (case a of [] \<Rightarrow> None | c # a' \<Rightarrow> Some ([c], b @ [c], a'))"
| "spec_edit Getc_Prev (b, a) = (if b = [] then None else Some ([last b], butlast b, last b # a))"
| "spec_edit Reset (b, a) = Some ([], [], [])"
| "spec_edit Copy (b, a) = Some (b @ a, b, a)"

fun edit_cost :: "edit \<Rightarrow> nat" where
  "edit_cost (Ins c) = 17"
| "edit_cost (Str s) = length s + 16"
| "edit_cost _ = 0"

fun run_edits :: "(edit \<Rightarrow> 'b \<Rightarrow> (string \<times> 'b) option) \<Rightarrow> edit list \<Rightarrow> 'b
    \<Rightarrow> (string \<times> 'b) option" where
  "run_edits step [] b = Some ([], b)"
| "run_edits step (e # es) b =
     do { (o1, b) \<leftarrow> step e b; (o2, b) \<leftarrow> run_edits step es b; Some (o1 @ o2, b) }"

definition room :: "nat \<Rightarrow> gapbuf \<Rightarrow> bool" where
  "room k gb \<longleftrightarrow> wf_gapbuf gb \<and> length (buf gb) + k < 2 ^ 31"

text \<open>The interface between the command line and its buffer: any structure
  whose single steps agree with the text and the cursor they stand for, as long
  as there is room, agrees with it over a whole session.\<close>

locale text_editor =
  fixes good :: "nat \<Rightarrow> 'b \<Rightarrow> bool"
    and content :: "'b \<Rightarrow> zipper"
    and step :: "edit \<Rightarrow> 'b \<Rightarrow> (string \<times> 'b) option"
  assumes step_ok: "good (edit_cost e + k) b \<Longrightarrow> spec_edit e (content b) = Some (out, z)
    \<Longrightarrow> \<exists>b'. step e b = Some (out, b') \<and> good k b' \<and> content b' = z"
begin

lemma run_ok:
  assumes "good (sum_list (map edit_cost es) + k) b"
    "run_edits spec_edit es (content b) = Some (out, z)"
  shows "\<exists>b'. run_edits step es b = Some (out, b') \<and> good k b' \<and> content b' = z"
  using assms
proof (induction es arbitrary: b out)
  case Nil
  then show ?case by simp
next
  case (Cons e es)
  obtain o1 z1 o2 where S: "spec_edit e (content b) = Some (o1, z1)"
    "run_edits spec_edit es z1 = Some (o2, z)" "out = o1 @ o2"
    using Cons.prems(2) by (auto simp: bind_eq_Some_conv)
  obtain b1 where 1: "step e b = Some (o1, b1)" "good (sum_list (map edit_cost es) + k) b1"
    "content b1 = z1"
    using step_ok [OF _ S(1), of "sum_list (map edit_cost es) + k"] Cons.prems(1)
    by (auto simp: add.assoc)
  with S Cons.IH [of b1 o2] show ?case by auto
qed

text \<open>A line typed into an empty buffer reads back as it was typed.\<close>

lemma typed_line:
  assumes "good (17 * length s + k) b" "content b = ([], [])"
  shows "\<exists>b'. run_edits step (map Ins s @ [Copy]) b = Some (s, b') \<and> good k b'
    \<and> content b' = (s, [])"
proof -
  have "run_edits spec_edit (map Ins t @ [Copy]) (u, []) = Some (u @ t, u @ t, [])" for t u
    by (induction t arbitrary: u) auto
  moreover have "sum_list (map edit_cost (map Ins s @ [Copy])) = 17 * length s"
    by (induction s) auto
  ultimately show ?thesis using run_ok [of "map Ins s @ [Copy]" k b s "(s, [])"] assms by simp
qed

end

lemma at_gap_room:
  "at_gap b g a s gb \<Longrightarrow> length (buf gb) + k < 2 ^ 31 \<Longrightarrow> room k gb \<and> cursor gb = (b, a)"
  by (auto simp: room_def at_gap_cursor intro: at_gap_wf)

lemma moved_room:
  "moved gb gb' z \<Longrightarrow> room k gb \<Longrightarrow> room k gb' \<and> cursor gb' = z"
  by (auto simp: room_def moved_def)

lemma strlen_c_str: "NUL \<notin> set s \<Longrightarrow> strlen (c_str s) = Some (length s)"
proof -
  assume "NUL \<notin> set s"
  then have "takeWhile (\<lambda>c. c \<noteq> None \<and> c \<noteq> Some NUL) (c_str s) = map Some s"
    by (induction s) (auto simp: c_str_def)
  then show ?thesis by (simp add: strlen_def c_str_def nth_append)
qed

lemma edit_ok:
  assumes "room (edit_cost e + k) gb" "spec_edit e (cursor gb) = Some (out, z)"
  shows "\<exists>gb'. gb_edit (\<lambda>_. True) e gb = Some (out, gb') \<and> room k gb' \<and> cursor gb' = z"
proof -
  obtain b a where C: "cursor gb = (b, a)" by (cases "cursor gb")
  have W: "wf_gapbuf gb" "length (buf gb) + edit_cost e + k < 2 ^ 31" "room k gb"
    using assms(1) by (simp_all add: room_def)
  show ?thesis
  proof (cases e)
    case (Ins c)
    obtain gb' g s where "gb_insert (\<lambda>_. True) c gb = Some gb'" "at_gap (b @ [c]) g a s gb'"
      "length (buf gb') \<le> length (buf gb) + 17"
      using insert_cursor [of gb "\<lambda>_. True" c] W C Ins by auto
    then show ?thesis using assms(2) C W Ins at_gap_room [of "b @ [c]" g a s gb' k] by auto
  next
    case (Str t)
    then have t: "NUL \<notin> set t" "z = (b @ t, a)" "out = []" using assms(2) C by (auto split: if_splits)
    show ?thesis
    proof (cases "t = []")
      case True
      then show ?thesis using t C W Str strlen_c_str [of t] by (simp add: gb_str_insert_def)
    next
      case False
      then obtain gb' g s where "gb_str_insert (\<lambda>_. True) (c_str t) 0 gb = Some (of_nat (length t), gb')"
        "at_gap (b @ t) g a s gb'" "length (buf gb') \<le> length (buf gb) + length t + 16"
        using str_insert_cursor [of gb t "\<lambda>_. True" "[Some NUL]" 0] strlen_c_str [of t] t W C Str
        by (auto simp: c_str_def)
      then show ?thesis using t C W Str at_gap_room [of "b @ t" g a s gb' k] by auto
    qed
  next
    case (Del n)
    then have n: "n \<le> length a" "z = (b, drop n a)" "out = []"
      using assms(2) C by (auto split: if_splits)
    obtain gb' g s where "gb_del (int n) gb = Some gb'" "at_gap b g (drop n a) s gb'"
      "length (buf gb') = length (buf gb)"
      using del_cursor [OF W(1) C n(1)] .
    then show ?thesis using n W Del at_gap_room [of b g "drop n a" s gb' k] by auto
  next
    case Lft
    then show ?thesis
      using assms(2) C W move_left_cursor [OF W(1) C] moved_room [OF _ W(3)] by auto
  next
    case Rgt
    then show ?thesis
      using assms(2) C W move_right_cursor [OF W(1) C] moved_room [OF _ W(3)] by auto
  next
    case (Pnt i)
    have T: "text_of gb = b @ a" using C by (simp add: text_of_def)
    show ?thesis
    proof (cases "i = -1")
      case True
      then show ?thesis using Pnt assms(2) C T set_end_cursor [OF W(1)] moved_room [OF _ W(3)] by auto
    next
      case False
      then have i: "0 \<le> i" "i \<le> int (length (b @ a))"
        "z = (take (nat i) (b @ a), drop (nat i) (b @ a))" "out = []"
        using Pnt assms(2) C by (simp_all split: if_splits)
      have "nat i \<le> length (text_of gb)" unfolding T using i(2) by (rule nat_le_iff [THEN iffD2])
      moreover have "int (nat i) = i" using i(1) by simp
      ultimately have "moved gb (gb_set_point i gb) z"
        using set_point_cursor [OF W(1), of "nat i"] T i(3) by (simp only:)
      then show ?thesis using Pnt i moved_room [OF _ W(3)] by simp
    qed
  next
    case Get
    then obtain c a' where "a = c # a'" using assms(2) C by (auto split: list.splits)
    moreover from calculation obtain gb' where "gb_get gb = Some (c, gb')" "moved gb gb' (b, c # a')"
      using get_cursor [OF W(1), of b c a'] C by auto
    ultimately show ?thesis using Get assms(2) C moved_room [OF _ W(3)] by auto
  next
    case Get_Prev
    then obtain b' c where "b = b' @ [c]" using assms(2) C by (cases b rule: rev_cases) auto
    moreover from calculation obtain gb' where "gb_get_prev gb = Some (c, gb')" "moved gb gb' (b' @ [c], a)"
      using get_prev_cursor [OF W(1), of b' c a] C by auto
    ultimately show ?thesis using Get_Prev assms(2) C moved_room [OF _ W(3)] by auto
  next
    case Getc
    then obtain c a' where "a = c # a'" using assms(2) C by (auto split: list.splits)
    moreover from calculation obtain gb' where "gb_getc gb = Some (c, gb')" "moved gb gb' (b @ [c], a')"
      using getc_cursor [OF W(1), of b c a'] C by auto
    ultimately show ?thesis using Getc assms(2) C moved_room [OF _ W(3)] by auto
  next
    case Getc_Prev
    then obtain b' c where "b = b' @ [c]" using assms(2) C by (cases b rule: rev_cases) auto
    moreover from calculation obtain gb' where "gb_getc_prev gb = Some (c, gb')" "moved gb gb' (b', c # a)"
      using getc_prev_cursor [OF W(1), of b' c a] C by auto
    ultimately show ?thesis using Getc_Prev assms(2) C moved_room [OF _ W(3)] by auto
  next
    case Reset
    obtain gb' g s where "gb_reset_buf gb = Some gb'" "at_gap [] g [] s gb'"
      "length (buf gb') = length (buf gb)"
      using reset_cursor [OF W(1)] .
    then show ?thesis using Reset assms(2) C W at_gap_room [of "[]" g "[]" s gb' k] by auto
  next
    case Copy
    have T: "text_of gb = b @ a" using C by (simp add: text_of_def)
    have n: "unat (gb_data_size gb) = length (b @ a)" using data_size_cursor [OF W(1)] T by simp
    then have "0 < gb_data_size gb \<or> text_of gb = []" using T by (auto simp: word_gt_0)
    moreover have "gb_data_size gb = of_nat (length (b @ a))"
      unfolding n [symmetric] by simp
    ultimately have "gb_copy_to_buf gb (replicate (Suc (length (b @ a))) None) (gb_data_size gb)
        = Some (map Some (b @ a) @ [Some NUL], gb_data_size gb)"
      using copy_text [OF W(1), of "gb_data_size gb" "replicate (Suc (length (b @ a))) None"] T
      by simp
    then show ?thesis using Copy assms(2) C n W(3) by (auto simp: Let_def)
  qed
qed

interpretation gap_editor: text_editor room cursor "gb_edit (\<lambda>_. True)"
  by unfold_locales (rule edit_ok)

text \<open>Every operation keeps the buffer well-formed, whatever the allocator
  grants: a refused allocation stops the program, it never returns a bad buffer.\<close>

lemma bind_granted:
  assumes "m \<bind> f = Some r" "\<And>x. m = Some x \<Longrightarrow> m' = Some x" "\<And>x. f x = Some r \<Longrightarrow> f' x = Some r"
  shows "m' \<bind> f' = Some r"
  using assms by (cases m) auto

lemma expand_buf_granted:
  "gb_expand_buf alloc n gb = Some gb' \<Longrightarrow> gb_expand_buf (\<lambda>_. True) n gb = Some gb'"
  by (auto simp: gb_expand_buf_def Let_def split: if_splits)

lemma expand_gap_granted:
  "gb_expand_gap alloc n gb = Some gb' \<Longrightarrow> gb_expand_gap (\<lambda>_. True) n gb = Some gb'"
  by (auto simp: gb_expand_gap_def Let_def bind_eq_Some_conv dest: expand_buf_granted
      split: if_splits)

lemma putc_granted:
  "gb_putc alloc c gb = Some gb' \<Longrightarrow> gb_putc (\<lambda>_. True) c gb = Some gb'"
  by (auto simp: gb_putc_def bind_eq_Some_conv dest: expand_buf_granted split: if_splits)

lemma put_bytes_granted:
  "put_bytes alloc str n i gb = Some gb' \<Longrightarrow> put_bytes (\<lambda>_. True) str n i gb = Some gb'"
  by (induction n arbitrary: i gb) (auto simp: bind_eq_Some_conv dest: putc_granted)

lemma insert_granted:
  "gb_insert alloc c gb = Some gb' \<Longrightarrow> gb_insert (\<lambda>_. True) c gb = Some gb'"
  by (auto simp: gb_insert_def bind_eq_Some_conv dest: putc_granted expand_gap_granted
      split: if_splits)

lemma str_insert_granted:
  "gb_str_insert alloc str n gb = Some r \<Longrightarrow> gb_str_insert (\<lambda>_. True) str n gb = Some r"
  unfolding gb_str_insert_def
  by (erule bind_granted, assumption)
     (auto elim!: bind_granted dest: put_bytes_granted expand_gap_granted split: if_splits)

lemma edit_granted:
  "gb_edit alloc e gb = Some r \<Longrightarrow> gb_edit (\<lambda>_. True) e gb = Some r"
  by (cases e) (auto simp: bind_eq_Some_conv dest: insert_granted str_insert_granted)


text \<open>Which edits a state allows: no more may be deleted than stands behind the
  cursor, a point must lie in the text, and the reads that advance need a
  character.  The plain reads are allowed at the ends too, where they return
  whatever cell they find, or nothing.\<close>

fun allowed :: "edit \<Rightarrow> zipper \<Rightarrow> bool" where
  "allowed (Del n) (b, a) \<longleftrightarrow> n \<le> length a"
| "allowed (Pnt i) (b, a) \<longleftrightarrow> -1 \<le> i \<and> i \<le> int (length (b @ a))"
| "allowed Getc (b, a) \<longleftrightarrow> a \<noteq> []"
| "allowed Getc_Prev (b, a) \<longleftrightarrow> b \<noteq> []"
| "allowed _ _ \<longleftrightarrow> True"

fun allowed_run :: "(nat \<Rightarrow> bool) \<Rightarrow> edit list \<Rightarrow> gapbuf \<Rightarrow> bool" where
  "allowed_run alloc [] gb \<longleftrightarrow> True"
| "allowed_run alloc (e # es) gb \<longleftrightarrow> allowed e (cursor gb)
     \<and> (case gb_edit alloc e gb of None \<Rightarrow> True | Some (out, gb') \<Rightarrow> allowed_run alloc es gb')"

lemma edit_keeps:
  assumes "room (edit_cost e + k) gb" "allowed e (cursor gb)" "gb_edit alloc e gb = Some (out, gb')"
  shows "room k gb'"
proof -
  have R: "gb_edit (\<lambda>_. True) e gb = Some (out, gb')" using assms(3) by (rule edit_granted)
  obtain b a where C: "cursor gb = (b, a)" by (cases "cursor gb")
  have W: "wf_gapbuf gb" "room k gb" using assms(1) by (simp_all add: room_def)
  show ?thesis
  proof (cases "spec_edit e (cursor gb)")
    case (Some r)
    then show ?thesis using edit_ok [OF assms(1), of "fst r" "snd r"] R by simp
  next
    case None
    then consider (get) "e = Get" "a = []" | (prev) "e = Get_Prev" "b = []"
      | (str) t where "e = Str t" "NUL \<in> set t"
      using assms(2) C by (cases e) (auto split: if_splits list.splits)
    then show ?thesis
    proof cases
      case get
      then show ?thesis using R C W skip_gap_end [of gb b] moved_room
        by (auto simp: gb_get_eq bind_eq_Some_conv)
    next
      case prev
      then have "gb' = skip_back gb"
        using R by (auto simp: gb_get_prev_def skip_back_def Let_def bind_eq_Some_conv split: if_splits)
      then show ?thesis using prev C W skip_back_start [of gb a] moved_room by auto
    next
      case (str t)
      then obtain u v where t: "t = u @ NUL # v" "NUL \<notin> set u" by (meson split_list_first)
      let ?rest = "Some NUL # map Some v @ [Some NUL]"
      have eq: "c_str t = map Some u @ ?rest" by (simp add: t c_str_def)
      have "takeWhile (\<lambda>c. c \<noteq> None \<and> c \<noteq> Some NUL) (c_str t) = map Some u"
        unfolding eq using t(2) by (induction u) auto
      then have len: "strlen (c_str t) = Some (length u)" by (simp add: strlen_def eq nth_append)
      show ?thesis
      proof (cases "u = []")
        case True
        then show ?thesis using str R len W by (auto simp: gb_str_insert_def)
      next
        case False
        have bound: "length (buf gb) + length u + 16 + k < 2 ^ 31"
          using assms(1) str(1) by (simp add: t room_def)
        obtain gb2 g s where "gb_str_insert (\<lambda>_. True) (c_str t) 0 gb = Some (of_nat (length u), gb2)"
          "at_gap (b @ u) g a s gb2" "length (buf gb2) \<le> length (buf gb) + length u + 16"
          using str_insert_cursor [of gb u "\<lambda>_. True" ?rest 0, folded eq] False W(1) len C bound
          by auto
        then show ?thesis using str R C assms(1) at_gap_room [of "b @ u" g a s gb2 k]
          by (auto simp: t room_def)
      qed
    qed
  qed
qed

section \<open>Properties\<close>

text \<open>C11 (type). The gap buffer keeps its shape.  From any well-formed buffer
  (the gap lies inside the allocation, the point outside the gap, every cell of
  the text has been written) and with any allocator, a sequence of edits in which
  each is one the state allows leaves a well-formed buffer whenever it returns,
  however far the buffer had to grow; the sizes are bounded so that they fit an
  \<open>int\<close>.\<close>

theorem edits_keep_gap_buffer:
  assumes "wf_gapbuf gb" "length (buf gb) + sum_list (map edit_cost es) < 2 ^ 31"
    "allowed_run alloc es gb" "run_edits (gb_edit alloc) es gb = Some (out, gb')"
  shows "wf_gapbuf gb'"
proof -
  have "room (sum_list (map edit_cost es)) gb" using assms(1,2) by (simp add: room_def)
  then have "room 0 gb'" using assms(3,4)
  proof (induction es arbitrary: gb out)
    case Nil
    then show ?case by simp
  next
    case (Cons e es)
    then obtain o1 gb1 o2 where "gb_edit alloc e gb = Some (o1, gb1)"
      "run_edits (gb_edit alloc) es gb1 = Some (o2, gb')" by (auto simp: bind_eq_Some_conv)
    then show ?case using Cons.IH [of gb1 o2] Cons.prems edit_keeps [of e _ gb alloc o1 gb1] by simp
  qed
  then show ?thesis by (simp add: room_def)
qed

text \<open>C10 (refinement). The gap buffer implements a text with a cursor.  Typing,
  inserting strings, deleting, moving, reading and copying out, in any order in
  which the specification has an answer, return the same characters as the
  specification on the pair of the text before and behind the cursor and leave
  the buffer standing for the same pair; no access leaves the allocation or
  reads a cell that was never written.\<close>

theorem gap_buffer_refines_text:
  assumes "wf_gapbuf gb" "length (buf gb) + sum_list (map edit_cost es) < 2 ^ 31"
    "run_edits spec_edit es (cursor gb) = Some (out, z)"
  shows "\<exists>gb'. run_edits (gb_edit (\<lambda>_. True)) es gb = Some (out, gb') \<and> wf_gapbuf gb' \<and> cursor gb' = z"
  using gap_editor.run_ok [of es 0 gb out z] assms by (auto simp: room_def)

definition new_gapbuf :: gapbuf where
  "new_gapbuf = \<lparr>buf = replicate 8 (Some CHR '' ''), ebuf = 8, point = 0, gap = 0, egap = 8\<rparr>"

lemma new_gapbuf:
  "gb_create (\<lambda>_. True) = Some (Some new_gapbuf)" "wf_gapbuf new_gapbuf" "cursor new_gapbuf = ([], [])"
proof -
  show "gb_create (\<lambda>_. True) = Some (Some new_gapbuf)"
    by (simp add: gb_create_def gb_init_buf_def GB_DEFAULT_GAP_SIZE_def gb_reset_buf_def
        gb_buf_size_def c_u32_small c_int_small mfill_def mcopy_def Let_def new_gapbuf_def)
  have "at_gap [] (replicate 8 (Some CHR '' '')) [] [] new_gapbuf"
    by (simp add: at_gap_def lay_def new_gapbuf_def)
  then show "wf_gapbuf new_gapbuf" "cursor new_gapbuf = ([], [])"
    using at_gap_room [of "[]" _ "[]" "[]" new_gapbuf 0] by (auto simp: room_def new_gapbuf_def)
qed

definition sample_edits :: "edit list" where
  "sample_edits = [Str ''set 0 rate'', Lft, Lft, Lft, Lft, Getc_Prev, Del 5, Str ''count 12345'',
     Getc_Prev, Rgt, Pnt 0, Getc, Ins CHR ''x'', Pnt (-1), Get_Prev, Copy]"

theorem gap_buffer_refines_text_witness:
  "\<exists>gb'. run_edits (gb_edit (\<lambda>_. True)) sample_edits new_gapbuf
       = Some ('' 5s5sxet 0count 12345'', gb') \<and> wf_gapbuf gb'
     \<and> cursor gb' = (''sxet 0count 12345'', [])"
proof -
  have "run_edits spec_edit sample_edits (cursor new_gapbuf)
      = Some ('' 5s5sxet 0count 12345'', ''sxet 0count 12345'', [])"
    by (simp add: new_gapbuf sample_edits_def NUL_def)
  moreover have "length (buf new_gapbuf) + sum_list (map edit_cost sample_edits) < 2 ^ 31"
    by (simp add: new_gapbuf_def sample_edits_def)
  ultimately show ?thesis by (intro gap_buffer_refines_text new_gapbuf(2))
qed

definition growing_edits :: "edit list" where
  "growing_edits = [Get_Prev, Str ''ab'', Lft, Getc, Ins CHR ''c'', Lft, Del 1, Str ''0123456789'']"

theorem edits_keep_gap_buffer_witness:
  "\<exists>out gb'. run_edits (gb_edit (\<lambda>n. n \<le> 64)) growing_edits new_gapbuf = Some (out, gb')
     \<and> wf_gapbuf gb' \<and> ebuf gb' = 26"
proof -
  let ?run = "run_edits (gb_edit (\<lambda>n. n \<le> 64)) growing_edits new_gapbuf"
  have "map_option (ebuf \<circ> snd) ?run = Some 26" by code_simp
  then obtain out gb' where run: "?run = Some (out, gb')" "ebuf gb' = 26" by auto
  moreover have "allowed_run (\<lambda>n. n \<le> 64) growing_edits new_gapbuf" by code_simp
  moreover have "length (buf new_gapbuf) + sum_list (map edit_cost growing_edits) < 2 ^ 31"
    by (simp add: new_gapbuf_def growing_edits_def)
  ultimately show ?thesis using edits_keep_gap_buffer [OF new_gapbuf(2)] by blast
qed

section \<open>What the interface does not promise\<close>

text \<open>gb_point_offset compares with \<open>>\<close> where the point may be equal to the end
  of the gap: after gb_set_point(gb, -1) behind typed text it counts the gap.\<close>

lemma end_offset_counts_gap:
  "map_option (\<lambda>(out, gb). (gb_point_offset gb, cursor gb))
     (run_edits (gb_edit (\<lambda>_. True)) [Str ''ab'', Pnt (-1)] new_gapbuf) = Some (8, ''ab'', [])"
  by code_simp

text \<open>gb_copy_to_buf copies the whole text whatever size it is given: with room
  for one byte and a size of 1 it writes outside the destination.\<close>

lemma copy_ignores_size:
  "map_option (\<lambda>(out, gb). gb_copy_to_buf gb [None, None] 1)
     (run_edits (gb_edit (\<lambda>_. True)) [Str ''abc''] new_gapbuf) = Some None"
  by code_simp

text \<open>gb_putc alone does not make room: with the gap full and text behind the
  cursor it overwrites that text and leaves the gap with a negative size.\<close>

lemma putc_full_gap:
  "map_option (\<lambda>(out, gb). map_option (\<lambda>gb. (gap gb, egap gb, wf_gapbuf gb))
       (gb_putc (\<lambda>_. True) CHR ''x'' gb))
     (run_edits (gb_edit (\<lambda>_. True)) [Str ''abcdefgh'', Lft] new_gapbuf)
   = Some (Some (8, 7, False))"
  by code_simp

end
