(* ===== verification/History.thy ===== *)
theory History
  imports Prelude
begin

text \<open>
  The command history (lib/cli/cli_history.c): a fixed number of entries that
  move between two circular queues, the lines kept (\<open>hd_hist\<close>, oldest first) and
  the free ones, and the entry that the arrow keys stand on.

  An entry is named by its number in \<open>entries\<close>, all entries ever allocated; an
  entry is the line it points to or NULL.  A queue is the list of its entries.
  What the C code would do with the head of an empty queue taken for an entry,
  with a NULL line, or with an entry that is in the other queue is \<open>None\<close>.

  The lemmas show when the entries are conserved and that browsing and adding
  lines is what a bounded list of lines would do; the last section shows what
  deleting and resizing do to the entries.
\<close>

section \<open>State and operations\<close>

text \<open>\<open>curr_hist\<close> may be NULL, an entry, or (after a reset of an empty history) the
  queue head itself, which no later use may take for an entry.\<close>

datatype hist_ptr = Null | Head | Entry nat

record hist =
  entries :: "string option list"
  hist_mem :: "nat option"
  hd_hist :: "nat list"
  free_hist :: "nat list"
  curr_hist :: hist_ptr
  nb_hist :: u32

definition hist_line :: "nat \<Rightarrow> hist \<Rightarrow> string option" where
  "hist_line h s = (if h < length (entries s) then entries s ! h else None)"

definition set_line :: "nat \<Rightarrow> string option \<Rightarrow> hist \<Rightarrow> hist" where
  "set_line h l s = s\<lparr>entries := (entries s)[h := l]\<rparr>"

definition cli_hist_alloc :: "hist \<Rightarrow> nat option \<times> hist" where
  "cli_hist_alloc s =
     (case free_hist s of [] \<Rightarrow> (None, s) | h # hs \<Rightarrow> (Some h, s\<lparr>free_hist := hs\<rparr>))"

definition cli_hist_free :: "nat \<Rightarrow> hist \<Rightarrow> hist" where
  "cli_hist_free h s = (set_line h None s)\<lparr>free_hist := free_hist s @ [h]\<rparr>"

text \<open>\<open>dup\<close> is strdup, which may return NULL; \<open>line\<close> is NULL when it is \<open>None\<close>.\<close>

definition cli_history_add ::
  "(string \<Rightarrow> string option) \<Rightarrow> string option \<Rightarrow> hist \<Rightarrow> hist option" where
  "cli_history_add dup line s =
     (if hist_mem s = None \<or> line = None then Some s
      else do {
        same \<leftarrow> (if hd_hist s \<noteq> []
                  then map_option (\<lambda>l. Some l = line) (hist_line (last (hd_hist s)) s)
                  else Some False);
        if same then Some s
        else do {
          (h, s) \<leftarrow> (case cli_hist_alloc s of
              (Some h, s) \<Rightarrow> Some (h, s)
            | (None, s) \<Rightarrow> (case hd_hist s of [] \<Rightarrow> None
                            | h # hs \<Rightarrow> Some (h, s\<lparr>hd_hist := hs\<rparr>)));
          Some ((set_line h (Option.bind line dup) s)\<lparr>hd_hist := hd_hist s @ [h]\<rparr>) } })"

definition cli_history_del :: "hist \<Rightarrow> hist" where
  "cli_history_del s =
     (if hist_mem s = None \<or> hd_hist s = [] then s else s\<lparr>hd_hist := butlast (hd_hist s)\<rparr>)"

text \<open>The line pointers that the queries return: \<open>None\<close> is NULL.\<close>

definition cli_history_line :: "int \<Rightarrow> hist \<Rightarrow> string option" where
  "cli_history_line lineno s =
     (if hist_mem s = None then None
      else if 0 \<le> lineno \<and> lineno < int (length (hd_hist s))
      then hist_line (hd_hist s ! nat lineno) s else None)"

text \<open>The neighbours of an entry in a queue it is in.\<close>

fun succ_in :: "nat \<Rightarrow> nat list \<Rightarrow> nat option" where
  "succ_in h (x # y # xs) = (if x = h then Some y else succ_in h (y # xs))"
| "succ_in h _ = None"

definition pred_in :: "nat \<Rightarrow> nat list \<Rightarrow> nat option" where
  "pred_in h xs = succ_in h (rev xs)"

text \<open>The result of the arrow keys: \<open>Some (line, state)\<close>, where the line may be NULL.\<close>

definition cli_history_prev :: "hist \<Rightarrow> (string option \<times> hist) option" where
  "cli_history_prev s =
     (if hist_mem s = None \<or> hd_hist s = [] then Some (None, s)
      else case curr_hist s of
        Null \<Rightarrow> Some (hist_line (last (hd_hist s)) s, s\<lparr>curr_hist := Entry (last (hd_hist s))\<rparr>)
      | Head \<Rightarrow> None
      | Entry c \<Rightarrow>
          if c = hd (hd_hist s) then Some (hist_line c s, s)
          else do { h \<leftarrow> pred_in c (hd_hist s);
                    Some (hist_line h s, s\<lparr>curr_hist := Entry h\<rparr>) })"

definition cli_history_next :: "hist \<Rightarrow> (string option \<times> hist) option" where
  "cli_history_next s =
     (if hist_mem s = None \<or> hd_hist s = [] then Some (None, s)
      else case curr_hist s of
        Null \<Rightarrow> Some (None, s)
      | Head \<Rightarrow> None
      | Entry c \<Rightarrow>
          if c = last (hd_hist s) then Some (Some [], s)
          else do { h \<leftarrow> succ_in c (hd_hist s);
                    Some (hist_line h s, s\<lparr>curr_hist := Entry h\<rparr>) })"

text \<open>The loop of cli_history_clear, on the entries still in the queue.\<close>

primrec free_all :: "nat list \<Rightarrow> hist \<Rightarrow> hist" where
  "free_all [] s = s"
| "free_all (h # hs) s = free_all hs (cli_hist_free h (s\<lparr>hd_hist := hs\<rparr>))"

definition cli_history_clear :: "hist \<Rightarrow> hist" where
  "cli_history_clear s = (if hist_mem s = None then s else free_all (hd_hist s) s)"

definition cli_history_delete :: "hist \<Rightarrow> hist" where
  "cli_history_delete s = (cli_history_clear s)\<lparr>hd_hist := [], hist_mem := None, nb_hist := 0\<rparr>"

text \<open>\<open>granted\<close> says whether malloc succeeds; the new entries are zeroed.\<close>

definition cli_set_history :: "bool \<Rightarrow> u32 \<Rightarrow> hist \<Rightarrow> hist \<times> int" where
  "cli_set_history granted nb s =
     (if nb = 0 then (cli_history_delete s, 0)
      else if hist_mem s \<noteq> None \<and> nb = nb_hist s then (s, 0)
      else let s = (if hist_mem s \<noteq> None then cli_history_delete s else s);
               s = s\<lparr>nb_hist := nb\<rparr>; base = length (entries s) in
           if granted
           then (s\<lparr>entries := entries s @ replicate (unat nb) None, hist_mem := Some base,
                   free_hist := free_hist s @ [base ..< base + unat nb]\<rparr>, 0)
           else (s, -1))"

definition cli_history_reset :: "hist \<Rightarrow> hist" where
  "cli_history_reset s =
     s\<lparr>curr_hist := (case hd_hist s of [] \<Rightarrow> Head | h # hs \<Rightarrow> Entry h)\<rparr>"

text \<open>The lines that cli_history_dump prints, numbered from 0; printing a NULL
  line is undefined.\<close>

definition cli_history_dump :: "hist \<Rightarrow> (nat \<times> string) list option" where
  "cli_history_dump s =
     (if hist_mem s = None \<or> hd_hist s = [] then Some []
      else map_option (\<lambda>ls. zip [0 ..< length ls] ls)
             (those (map (\<lambda>h. hist_line h s) (hd_hist s))))"

definition empty_hist :: hist where
  "empty_hist = \<lparr>entries = [], hist_mem = None, hd_hist = [], free_hist = [],
     curr_hist = Null, nb_hist = 0\<rparr>"


section \<open>The lines kept, and browsing them\<close>

text \<open>The specification: at most \<open>cap\<close> lines, no line twice in a row; and a
  position among them, none before the first arrow key.\<close>

type_synonym browse = "string list \<times> nat option"

definition add_line :: "nat \<Rightarrow> string \<Rightarrow> string list \<Rightarrow> string list" where
  "add_line cap l ls =
     (if ls \<noteq> [] \<and> last ls = l then ls
      else if length ls < cap then ls @ [l] else tl ls @ [l])"

datatype hist_key = Enter string | Up | Down

fun browse_key :: "nat \<Rightarrow> hist_key \<Rightarrow> browse \<Rightarrow> string option \<times> browse" where
  "browse_key cap (Enter l) (ls, p) = (None, add_line cap l ls, None)"
| "browse_key cap Up (ls, p) =
     (if ls = [] then (None, ls, p)
      else let i = (case p of None \<Rightarrow> length ls - 1 | Some i \<Rightarrow> i - 1) in (Some (ls ! i), ls, Some i))"
| "browse_key cap Down (ls, p) =
     (case p of None \<Rightarrow> (None, ls, p)
      | Some i \<Rightarrow> if i = length ls - 1 then (Some [], ls, p)
                  else (Some (ls ! Suc i), ls, Some (Suc i)))"

text \<open>The keys on the history: a line entered is added (cli_execute) and
  \<open>curr_hist\<close> cleared (key_return).\<close>

fun press :: "hist_key \<Rightarrow> hist \<Rightarrow> (string option \<times> hist) option" where
  "press (Enter l) s =
     do { s \<leftarrow> cli_history_add Some (Some l) s; Some (None, s\<lparr>curr_hist := Null\<rparr>) }"
| "press Up s = cli_history_prev s"
| "press Down s = cli_history_next s"

fun hist_run :: "hist_key list \<Rightarrow> hist \<Rightarrow> (string option list \<times> hist) option" where
  "hist_run [] s = Some ([], s)"
| "hist_run (k # ks) s =
     do { (l, s) \<leftarrow> press k s; (ls, s) \<leftarrow> hist_run ks s; Some (l # ls, s) }"

fun browse_run :: "nat \<Rightarrow> hist_key list \<Rightarrow> browse \<Rightarrow> string option list \<times> browse" where
  "browse_run cap [] b = ([], b)"
| "browse_run cap (k # ks) b =
     (let (l, b) = browse_key cap k b; (ls, b) = browse_run cap ks b in (l # ls, b))"

text \<open>The invariant: every entry is in exactly one queue, and the kept ones have lines.\<close>

definition hist_ok :: "nat \<Rightarrow> hist \<Rightarrow> bool" where
  "hist_ok cap s \<longleftrightarrow> hist_mem s \<noteq> None \<and> 0 < cap
     \<and> distinct (hd_hist s @ free_hist s) \<and> length (hd_hist s @ free_hist s) = cap
     \<and> (\<forall>h \<in> set (hd_hist s @ free_hist s). h < length (entries s))
     \<and> (\<forall>h \<in> set (hd_hist s). entries s ! h \<noteq> None)"

definition lines_of :: "hist \<Rightarrow> string list" where
  "lines_of s = map (\<lambda>h. the (entries s ! h)) (hd_hist s)"

definition stands :: "hist \<Rightarrow> nat option \<Rightarrow> bool" where
  "stands s p \<longleftrightarrow> (case p of None \<Rightarrow> curr_hist s = Null
     | Some i \<Rightarrow> i < length (hd_hist s) \<and> curr_hist s = Entry (hd_hist s ! i))"

definition hist_rel :: "nat \<Rightarrow> hist \<Rightarrow> browse \<Rightarrow> bool" where
  "hist_rel cap s b \<longleftrightarrow> hist_ok cap s \<and> lines_of s = fst b \<and> stands s (snd b)"

lemma succ_in_nth:
  "distinct xs \<Longrightarrow> Suc i < length xs \<Longrightarrow> succ_in (xs ! i) xs = Some (xs ! Suc i)"
proof (induction xs arbitrary: i)
  case Nil
  then show ?case by simp
next
  case (Cons x xs)
  then obtain y ys where xs: "xs = y # ys" by (cases xs) auto
  show ?case
  proof (cases i)
    case 0
    then show ?thesis by (simp add: xs)
  next
    case (Suc j)
    then have "x \<noteq> xs ! j" using Cons.prems by auto
    then have "succ_in ((x # xs) ! i) (x # xs) = succ_in (xs ! j) xs" by (simp add: xs Suc)
    with Cons.IH [of j] Cons.prems show ?thesis by (simp add: Suc)
  qed
qed

lemma pred_in_nth:
  assumes "distinct xs" "0 < i" "i < length xs"
  shows "pred_in (xs ! i) xs = Some (xs ! (i - 1))"
  using succ_in_nth [of "rev xs" "length xs - Suc i"] assms
  by (simp add: pred_in_def rev_nth Suc_diff_Suc)

lemma kept_line:
  assumes "hist_ok cap s" "i < length (hd_hist s)"
  shows "hist_line (hd_hist s ! i) s = Some (lines_of s ! i)"
proof -
  have "hd_hist s ! i \<in> set (hd_hist s)" using assms(2) by simp
  then show ?thesis using assms by (auto simp: hist_ok_def hist_line_def lines_of_def)
qed

lemma length_lines [simp]: "length (lines_of s) = length (hd_hist s)"
  by (simp add: lines_of_def)

lemma lines_same [simp]: "lines_of (s\<lparr>curr_hist := c\<rparr>) = lines_of s"
  "hist_ok cap (s\<lparr>curr_hist := c\<rparr>) = hist_ok cap s"
  by (simp_all add: lines_of_def hist_ok_def)

lemma hist_relD:
  assumes "hist_rel cap s (ls, p)"
  shows "hist_ok cap s" "ls = lines_of s" "stands s p" "hist_mem s \<noteq> None" "distinct (hd_hist s)"
  using assms by (auto simp: hist_rel_def hist_ok_def)

lemma stands_at:
  assumes "hist_rel cap s b" "i < length (hd_hist s)"
  shows "hist_rel cap (s\<lparr>curr_hist := Entry (hd_hist s ! i)\<rparr>) (fst b, Some i)"
  using assms by (simp add: hist_rel_def stands_def)

lemma prev_browses:
  assumes "hist_rel cap s (ls, p)"
  obtains s' where "cli_history_prev s = Some (fst (browse_key cap Up (ls, p)), s')"
    "hist_rel cap s' (snd (browse_key cap Up (ls, p)))"
proof -
  note R = hist_relD [OF assms]
  let ?n = "length (hd_hist s)"
  show ?thesis
  proof (cases "hd_hist s = []")
    case True
    then have "ls = []" using R(2) by (simp add: lines_of_def)
    then show ?thesis using that [of s] assms True by (simp add: cli_history_prev_def)
  next
    case nonempty: False
    define i where "i = (case p of None \<Rightarrow> ?n - 1 | Some i \<Rightarrow> i - 1)"
    have ls: "ls \<noteq> []" "length ls = ?n" using nonempty R(2) by (auto simp: lines_of_def)
    have spec: "browse_key cap Up (ls, p) = (Some (ls ! i), ls, Some i)"
      using ls by (cases p) (simp_all add: i_def Let_def)
    have "i < ?n" using nonempty R(3) by (auto simp: i_def stands_def split: option.splits)
    note at = kept_line [OF R(1) this] stands_at [OF assms this]
    have "cli_history_prev s = Some (Some (ls ! i), s\<lparr>curr_hist := Entry (hd_hist s ! i)\<rparr>)"
    proof (cases p)
      case None
      then show ?thesis using R nonempty at(1)
        by (simp add: cli_history_prev_def stands_def i_def last_conv_nth)
    next
      case (Some j)
      then have j: "j < ?n" "curr_hist s = Entry (hd_hist s ! j)" "i = j - 1"
        using R(3) by (simp_all add: stands_def i_def)
      have "hd_hist s ! j = hd (hd_hist s) \<longleftrightarrow> j = 0"
        using R(5) j(1) nonempty by (auto simp: hd_conv_nth nth_eq_iff_index_eq)
      then show ?thesis using R(2,4) nonempty at(1) j pred_in_nth [OF R(5), of j]
        by (cases "j = 0") (auto simp: cli_history_prev_def hd_conv_nth)
    qed
    with at(2) spec show ?thesis using that by simp
  qed
qed

lemma next_browses:
  assumes "hist_rel cap s (ls, p)"
  obtains s' where "cli_history_next s = Some (fst (browse_key cap Down (ls, p)), s')"
    "hist_rel cap s' (snd (browse_key cap Down (ls, p)))"
proof -
  note R = hist_relD [OF assms]
  let ?n = "length (hd_hist s)"
  show ?thesis
  proof (cases p)
    case None
    then show ?thesis using that [of s] assms R(3) by (simp add: cli_history_next_def stands_def)
  next
    case (Some i)
    then have i: "i < ?n" "curr_hist s = Entry (hd_hist s ! i)" using R(3) by (simp_all add: stands_def)
    then have nonempty: "hd_hist s \<noteq> []" by auto
    have final: "hd_hist s ! i = last (hd_hist s) \<longleftrightarrow> i = ?n - 1"
      using R(5) i(1) nonempty by (auto simp: last_conv_nth nth_eq_iff_index_eq)
    have ls: "length ls = ?n" using R(2) by simp
    show ?thesis
    proof (cases "i = ?n - 1")
      case True
      then have "cli_history_next s = Some (Some [], s)"
        using R(4) nonempty i final by (simp add: cli_history_next_def)
      then show ?thesis using that [of s] assms True Some ls by simp
    next
      case False
      then have "Suc i < ?n" using i(1) by simp
      note at = kept_line [OF R(1) this] stands_at [OF assms this]
      have "cli_history_next s = Some (Some (ls ! Suc i), s\<lparr>curr_hist := Entry (hd_hist s ! Suc i)\<rparr>)"
        using R(2,4) nonempty i final False at(1) succ_in_nth [OF R(5) \<open>Suc i < ?n\<close>]
        by (simp add: cli_history_next_def)
      then show ?thesis using that at(2) Some ls False by simp
    qed
  qed
qed

lemma reuse_entry:
  assumes "hist_ok cap s" "distinct (hs @ h # fs)" "set (hs @ h # fs) = set (hd_hist s @ free_hist s)"
    "set hs \<subseteq> set (hd_hist s)"
  shows "hist_ok cap (s\<lparr>entries := (entries s)[h := Some l], hd_hist := hs @ [h], free_hist := fs\<rparr>)"
    "lines_of (s\<lparr>entries := (entries s)[h := Some l], hd_hist := hs @ [h], free_hist := fs\<rparr>)
       = map (\<lambda>h. the (entries s ! h)) hs @ [l]"
proof -
  have "length (hs @ h # fs) = length (hd_hist s @ free_hist s)"
    using assms(1-3) by (metis hist_ok_def distinct_card)
  moreover have "h < length (entries s)" "h \<notin> set hs"
    using assms(1-3) by (auto simp: hist_ok_def)
  ultimately show
    "hist_ok cap (s\<lparr>entries := (entries s)[h := Some l], hd_hist := hs @ [h], free_hist := fs\<rparr>)"
    "lines_of (s\<lparr>entries := (entries s)[h := Some l], hd_hist := hs @ [h], free_hist := fs\<rparr>)
       = map (\<lambda>h. the (entries s ! h)) hs @ [l]"
    using assms by (auto simp: hist_ok_def lines_of_def nth_list_update)
qed

lemma add_adds:
  assumes "hist_ok cap s"
  obtains s' where "cli_history_add Some (Some l) s = Some s'" "hist_ok cap s'"
    "lines_of s' = add_line cap l (lines_of s)"
proof (cases "lines_of s \<noteq> [] \<and> last (lines_of s) = l")
  case True
  then have "hd_hist s \<noteq> []" by (auto simp: lines_of_def)
  moreover have "hist_line (last (hd_hist s)) s = Some l"
    using True calculation kept_line [OF assms, of "length (hd_hist s) - 1"]
    by (simp add: last_conv_nth lines_of_def)
  ultimately show ?thesis using that [of s] True assms by (simp add: cli_history_add_def add_line_def)
next
  case False
  obtain m where hm: "hist_mem s = Some m" using assms by (auto simp: hist_ok_def)
  have mem: "hist_mem s \<noteq> None" "length (hd_hist s) + length (free_hist s) = cap" "0 < cap"
    "distinct (hd_hist s @ free_hist s)"
    using assms by (auto simp: hist_ok_def)
  have same: "(if hd_hist s \<noteq> [] then map_option (\<lambda>k. Some k = Some l) (hist_line (last (hd_hist s)) s)
      else Some False) = Some False"
    using False kept_line [OF assms, of "length (hd_hist s) - 1"]
    by (auto simp: last_conv_nth lines_of_def)
  have step: "cli_history_add Some (Some l) s = do {
      (h, s) \<leftarrow> (case cli_hist_alloc s of (Some h, s) \<Rightarrow> Some (h, s)
        | (None, s) \<Rightarrow> (case hd_hist s of [] \<Rightarrow> None | h # hs \<Rightarrow> Some (h, s\<lparr>hd_hist := hs\<rparr>)));
      Some ((set_line h (Some l) s)\<lparr>hd_hist := hd_hist s @ [h]\<rparr>) }"
    unfolding cli_history_add_def same using hm by simp
  show ?thesis
  proof (cases "free_hist s")
    case (Cons f fs)
    let ?s = "s\<lparr>entries := (entries s)[f := Some l], hd_hist := hd_hist s @ [f], free_hist := fs\<rparr>"
    have "cli_history_add Some (Some l) s = Some ?s"
      using step Cons by (simp add: cli_hist_alloc_def set_line_def)
    moreover have "hist_ok cap ?s" "lines_of ?s = lines_of s @ [l]"
      using reuse_entry [OF assms, of "hd_hist s" f fs] mem(4) Cons by (auto simp: lines_of_def)
    ultimately show ?thesis using that [of ?s] False Cons mem(2) by (auto simp: add_line_def)
  next
    case Nil
    then obtain h hs where H: "hd_hist s = h # hs" using mem(2,3) by (cases "hd_hist s") auto
    let ?s = "s\<lparr>entries := (entries s)[h := Some l], hd_hist := hs @ [h], free_hist := []\<rparr>"
    have "cli_history_add Some (Some l) s = Some ?s"
      using step Nil H by (simp add: cli_hist_alloc_def set_line_def)
    moreover have "hist_ok cap ?s" "lines_of ?s = tl (lines_of s) @ [l]"
      using reuse_entry [OF assms, of hs h "[]"] mem(4) Nil H by (auto simp: lines_of_def)
    ultimately show ?thesis using that [of ?s] False Nil H mem(2) by (auto simp: add_line_def)
  qed
qed

lemma run_browses:
  assumes "hist_rel cap s b"
  shows "\<exists>s'. hist_run ks s = Some (fst (browse_run cap ks b), s')
    \<and> hist_rel cap s' (snd (browse_run cap ks b))"
  using assms
proof (induction ks arbitrary: s b)
  case Nil
  then show ?case by simp
next
  case (Cons k ks)
  obtain ls p where b: "b = (ls, p)" by (cases b)
  obtain s1 where "press k s = Some (fst (browse_key cap k b), s1)"
    "hist_rel cap s1 (snd (browse_key cap k b))"
  proof (cases k)
    case (Enter l)
    obtain s1 where "cli_history_add Some (Some l) s = Some s1" "hist_ok cap s1"
      "lines_of s1 = add_line cap l ls"
      using add_adds [of cap s l] Cons.prems b by (auto simp: hist_rel_def)
    then show ?thesis using that [of "s1\<lparr>curr_hist := Null\<rparr>"] Enter b
      by (simp add: hist_rel_def stands_def)
  next
    case Up
    then show ?thesis using prev_browses [of cap s ls p] Cons.prems b that by auto
  next
    case Down
    then show ?thesis using next_browses [of cap s ls p] Cons.prems b that by auto
  qed
  with Cons.IH [of s1 "snd (browse_key cap k b)"] show ?case
    by (auto simp: case_prod_unfold Let_def)
qed

lemma set_history_rel:
  assumes "nb \<noteq> 0"
  shows "hist_rel (unat nb) (fst (cli_set_history True nb empty_hist)) ([], None)"
  using assms by (simp add: cli_set_history_def empty_hist_def hist_rel_def hist_ok_def
      lines_of_def stands_def Let_def unat_gt_0)

section \<open>Properties\<close>



section \<open>Deleting and resizing\<close>

text \<open>cli_history_del takes the newest entry out of its queue but does not free
  it; cli_execute does so after every alias.  With \<open>nb\<close> entries, \<open>nb\<close> aliases use
  them up, and the next line that is added takes the head of the queue for an entry.\<close>

lemma del_loses_entry:
  assumes "hist_mem s \<noteq> None" "hd_hist s \<noteq> []"
  shows "length (hd_hist (cli_history_del s)) + length (free_hist (cli_history_del s))
     = length (hd_hist s) + length (free_hist s) - 1"
  using assms by (cases "hd_hist s" rule: rev_cases) (auto simp: cli_history_del_def)

definition alias_line :: "string \<Rightarrow> hist \<Rightarrow> hist option" where
  "alias_line l s = map_option cli_history_del (cli_history_add Some (Some l) s)"

lemma aliases_use_up_history:
  "alias_line ''c'' (the (alias_line ''b'' (the (alias_line ''a''
     (fst (cli_set_history True 2 empty_hist)))))) = None"
  by code_simp

text \<open>A smaller history set later keeps the old entries in the free queue: set to
  3 and then to 2, it keeps 5 lines.\<close>

lemma resize_adds_up:
  "map_option (\<lambda>(out, s). (nb_hist s, lines_of s))
     (hist_run [Enter ''a'', Enter ''b'', Enter ''c'', Enter ''d'', Enter ''e'', Enter ''f'']
        (fst (cli_set_history True 2 (fst (cli_set_history True 3 empty_hist)))))
   = Some (2, [''b'', ''c'', ''d'', ''e'', ''f''])"
  by code_simp

text \<open>The comment of cli_history_reset says the current entry becomes the last; it
  becomes the first.\<close>

lemma reset_goes_first:
  "hd_hist s = h # hs \<Longrightarrow> curr_hist (cli_history_reset s) = Entry h"
  by (simp add: cli_history_reset_def)

text \<open>A cleared history gives every entry back.\<close>

lemma free_all_keeps:
  assumes "distinct (hs @ free_hist s)" "hd_hist s = hs"
  shows "hd_hist (free_all hs s) = []" "free_hist (free_all hs s) = free_hist s @ hs"
    "hist_mem (free_all hs s) = hist_mem s" "length (entries (free_all hs s)) = length (entries s)"
  using assms by (induction hs arbitrary: s) (auto simp: cli_hist_free_def set_line_def)

lemma clear_keeps_entries:
  assumes "hist_ok cap s"
  shows "hist_ok cap (cli_history_clear s)" "lines_of (cli_history_clear s) = []"
  using assms free_all_keeps [of "hd_hist s" s]
  by (auto simp: hist_ok_def cli_history_clear_def lines_of_def)

end
