(* ===== verification/LineEdit.thy ===== *)
theory LineEdit
  imports GapBuf History
begin

text \<open>
  Line editing (lib/cli/cli_vt100.c, cli_input.c, cli_input.h, cli_scrn.h): the
  recogniser of key sequences, the handler of every key and the display of the
  line, on the gap buffer and the history.

  The state \<open>cli\<close> has the fields of the command line that these functions use and
  the text written to the screen.  What they call elsewhere is the record
  \<open>cli_calls\<close>: the allocator, strdup, the prompt function, and the functions that
  run a command line and complete it.  Undefined behaviour is \<open>None\<close>.
\<close>

section \<open>Recognising keys\<close>

datatype vt100_state = VT100_INIT | VT100_ESCAPE | VT100_ESCAPE_CSI

record cli_vt100 =
  bufpos :: int
  vt_buf :: string
  vt_state :: vt100_state

definition VT100_BUF_SIZE :: nat where "VT100_BUF_SIZE = 8"
definition VT100_INITIALIZE :: int where "VT100_INITIALIZE = -1"
definition VT100_DONE :: int where "VT100_DONE = -1"
definition VT100_CONTINUE :: int where "VT100_CONTINUE = -2"
definition vt100_escape :: char where "vt100_escape = CHR 0x1B"
definition vt100_open_square :: char where "vt100_open_square = CHR 0x5B"
definition vt100_del :: char where "vt100_del = CHR 0x7F"

definition ESC :: "string \<Rightarrow> string" where "ESC s = vt100_escape # s"

definition vt100_up_arr :: string where "vt100_up_arr = ESC ''[A''"
definition vt100_down_arr :: string where "vt100_down_arr = ESC ''[B''"
definition vt100_right_arr :: string where "vt100_right_arr = ESC ''[C''"
definition vt100_left_arr :: string where "vt100_left_arr = ESC ''[D''"
definition vt100_suppr :: string where "vt100_suppr = ESC ''[3~''"
definition vt100_tab :: string where "vt100_tab = [CHR 0x09]"
definition vt100_word_left :: string where "vt100_word_left = ESC ''b''"
definition vt100_word_right :: string where "vt100_word_right = ESC ''f''"
definition vt100_clear_right :: string where "vt100_clear_right = ESC ''[0K''"
definition vt100_clear_line :: string where "vt100_clear_line = ESC ''[2K''"
definition vt100_clear_screen :: string where "vt100_clear_screen = ESC ''[2J''"

text \<open>The keys, in the order of the enumeration and of the command table.\<close>

datatype vt100_key = INVALID_KEY | UP_ARR | DOWN_ARR | RIGHT_ARR | LEFT_ARR | BKSPACE | RETURN
  | CTRL_A | CTRL_E | CTRL_K | CTRL_Y | CTRL_C | CTRL_F | CTRL_B | SUPPR | TAB | CTRL_D | CTRL_L
  | RETURN2 | META_BKSPACE | WLEFT | WRIGHT | CTRL_W | CTRL_P | CTRL_N | META_D | CTRL_X

definition vt100_cmd_list :: "(string \<times> vt100_key) list" where
  "vt100_cmd_list = [
     (''Invalid'', INVALID_KEY), (vt100_up_arr, UP_ARR), (vt100_down_arr, DOWN_ARR),
     (vt100_right_arr, RIGHT_ARR), (vt100_left_arr, LEFT_ARR), ([CHR 0x7F], BKSPACE),
     ([CHR 0x0A], RETURN), ([CHR 0x01], CTRL_A), ([CHR 0x05], CTRL_E), ([CHR 0x0B], CTRL_K),
     ([CHR 0x19], CTRL_Y), ([CHR 0x03], CTRL_C), ([CHR 0x06], CTRL_F), ([CHR 0x02], CTRL_B),
     (vt100_suppr, SUPPR), (vt100_tab, TAB), ([CHR 0x04], CTRL_D), ([CHR 0x0C], CTRL_L),
     ([CHR 0x0D], RETURN2), (ESC [CHR 0x7F], META_BKSPACE), (vt100_word_left, WLEFT),
     (vt100_word_right, WRIGHT), ([CHR 0x17], CTRL_W), ([CHR 0x10], CTRL_P), ([CHR 0x0E], CTRL_N),
     (ESC ''d'', META_D), ([CHR 0x18], CTRL_X)]"

fun find_cmd :: "string \<Rightarrow> (string \<times> vt100_key) list \<Rightarrow> int \<Rightarrow> int" where
  "find_cmd b [] i = VT100_DONE"
| "find_cmd b ((s, k) # cs) i =
     (let cmdlen = min (length s) VT100_BUF_SIZE in
      if length b = cmdlen \<and> take cmdlen b = take cmdlen s then i else find_cmd b cs (i + 1))"

definition vt100_find_cmd :: "string \<Rightarrow> nat \<Rightarrow> int" where
  "vt100_find_cmd b sz = find_cmd (take sz b) vt100_cmd_list 0"

definition char_code :: "char \<Rightarrow> nat" where "char_code c = of_char c"

text \<open>One byte through the parser: the index of a key, VT100_DONE for a byte that is
  no key, VT100_CONTINUE inside a sequence.  A byte stored outside \<open>vt_buf\<close> would be \<open>None\<close>.\<close>

definition vt100_parse_input :: "char \<Rightarrow> cli_vt100 \<Rightarrow> (int \<times> cli_vt100) option" where
  "vt100_parse_input c vt =
     (let vt = (if bufpos vt = VT100_INITIALIZE \<or> bufpos vt \<ge> int VT100_BUF_SIZE
                then vt\<lparr>vt_state := VT100_INIT, bufpos := 0\<rparr> else vt) in
      if 0 \<le> bufpos vt \<and> bufpos vt < int (length (vt_buf vt))
      then let sz = nat (bufpos vt) + 1;
               vt = vt\<lparr>vt_buf := (vt_buf vt)[nat (bufpos vt) := c], bufpos := bufpos vt + 1\<rparr>;
               found = Some (vt100_find_cmd (vt_buf vt) sz, vt\<lparr>bufpos := VT100_INITIALIZE\<rparr>)
           in case vt_state vt of
             VT100_INIT \<Rightarrow>
               if c = vt100_escape then Some (VT100_CONTINUE, vt\<lparr>vt_state := VT100_ESCAPE\<rparr>) else found
           | VT100_ESCAPE \<Rightarrow>
               if c = vt100_open_square then Some (VT100_CONTINUE, vt\<lparr>vt_state := VT100_ESCAPE_CSI\<rparr>)
               else if char_code CHR ''0'' \<le> char_code c \<and> char_code c \<le> char_code vt100_del then found
               else Some (VT100_CONTINUE, vt)
           | VT100_ESCAPE_CSI \<Rightarrow>
               if char_code CHR ''@'' \<le> char_code c \<and> char_code c \<le> char_code CHR ''~'' then found
               else Some (VT100_CONTINUE, vt)
      else None)"

text \<open>calloc zeroes the structure; VT100_INIT is the constant 0.\<close>

definition vt100_setup :: cli_vt100 where
  "vt100_setup = \<lparr>bufpos = -1, vt_buf = replicate VT100_BUF_SIZE NUL, vt_state = VT100_INIT\<rparr>"

section \<open>State, flags and output\<close>

text \<open>The kill buffer: NULL, a string, or a pointer that has been freed.\<close>

datatype kill_ptr = No_Kill | Killed string | Dangling

record cli =
  cli_gb :: gapbuf
  cli_vt :: cli_vt100
  cli_hist :: hist
  kill :: kill_ptr
  cli_flags :: u32
  plen :: u16
  ncols :: u16
  quit_flag :: u16
  screen :: string

record cli_calls =
  granted :: "nat \<Rightarrow> bool"
  prompt_fn :: "int \<Rightarrow> cli \<Rightarrow> (int \<times> cli) option"
  execute_fn :: "cli \<Rightarrow> cli option"
  complete_fn :: "cli \<Rightarrow> cli option"

definition DISPLAY_LINE :: u32 where "DISPLAY_LINE = 1"
definition CLEAR_TO_EOL :: u32 where "CLEAR_TO_EOL = 2"
definition DISPLAY_PROMPT :: u32 where "DISPLAY_PROMPT = 4"
definition PROMPT_CONTINUE :: u32 where "PROMPT_CONTINUE = 8"
definition DELETE_CHAR :: u32 where "DELETE_CHAR = 16"
definition CLEAR_LINE :: u32 where "CLEAR_LINE = 32"

definition cli_set_flag :: "u32 \<Rightarrow> cli \<Rightarrow> cli" where
  "cli_set_flag x c = c\<lparr>cli_flags := cli_flags c OR x\<rparr>"

definition cli_clr_flag :: "u32 \<Rightarrow> cli \<Rightarrow> cli" where
  "cli_clr_flag x c = c\<lparr>cli_flags := cli_flags c AND NOT x\<rparr>"

definition cli_tst_flag :: "u32 \<Rightarrow> cli \<Rightarrow> bool" where
  "cli_tst_flag x c \<longleftrightarrow> cli_flags c AND x \<noteq> 0"

definition emit :: "string \<Rightarrow> cli \<Rightarrow> cli" where
  "emit s c = c\<lparr>screen := screen c @ s\<rparr>"

text \<open>scrn_write of cells from an offset: a length that is not positive means up to
  the NUL.\<close>

definition scrn_write :: "cells \<Rightarrow> int \<Rightarrow> int \<Rightarrow> cli \<Rightarrow> cli option" where
  "scrn_write m off len c =
     (if 0 \<le> off \<and> off \<le> int (length m)
      then do { n \<leftarrow> (if len \<le> 0 then strlen (drop (nat off) m) else Some (nat len));
                s \<leftarrow> those (take n (drop (nat off) m));
                if length s = n then Some (emit s c) else None }
      else None)"

fun dec :: "nat \<Rightarrow> string" where
  "dec n = (if n < 10 then [char_of (48 + n)] else dec (n div 10) @ [char_of (48 + n mod 10)])"

definition dec_int :: "int \<Rightarrow> string" where
  "dec_int i = (if i < 0 then ''-'' @ dec (nat (- i)) else dec (nat i))"

definition multi_right :: "u32 \<Rightarrow> string" where "multi_right n = ESC (''['' @ dec (unat n) @ ''C'')"
definition multi_left :: "u32 \<Rightarrow> string" where "multi_left n = ESC (''['' @ dec (unat n) @ ''D'')"

definition scrn_bol :: "cli \<Rightarrow> cli" where "scrn_bol = emit [CHR 0x0D]"

definition scrn_cnright :: "int \<Rightarrow> cli \<Rightarrow> cli" where
  "scrn_cnright n = emit (ESC (''['' @ dec_int n @ ''C''))"

definition cli_cursor_left :: "cli \<Rightarrow> cli" where "cli_cursor_left = emit vt100_left_arr"
definition cli_clear_to_eol :: "cli \<Rightarrow> cli" where "cli_clear_to_eol = emit vt100_clear_right"
definition cli_clear_screen :: "cli \<Rightarrow> cli" where "cli_clear_screen = emit vt100_clear_screen"

text \<open>cli_clear_line with the only argument it is called with, -1: the current line.\<close>

definition cli_clear_line :: "cli \<Rightarrow> cli" where
  "cli_clear_line c = emit vt100_clear_line (emit [CHR 0x0D] c)"

definition cli_display_right :: "cli \<Rightarrow> cli option" where
  "cli_display_right c =
     (let n = gb_right_data_size (cli_gb c) in
      if n \<noteq> 0 then scrn_write (buf (cli_gb c)) (egap (cli_gb c)) (sint n) c else Some c)"

definition cli_display_prompt :: "cli_calls \<Rightarrow> int \<Rightarrow> cli \<Rightarrow> cli option" where
  "cli_display_prompt env t c =
     do { (n, c) \<leftarrow> prompt_fn env t (emit [CHR 0x0D] c);
          Some (cli_clear_to_eol (c\<lparr>plen := word_of_int n\<rparr>)) }"

text \<open>cli_display_line: the four flags in turn, then the part of the line that fits the
  window, from a copy of the text in an array 16 bytes longer.\<close>

definition display_flags :: "cli_calls \<Rightarrow> cli \<Rightarrow> cli option" where
  "display_flags env c =
     (let c = (if cli_tst_flag DELETE_CHAR c
               then cli_set_flag (DISPLAY_LINE OR CLEAR_TO_EOL)
                      (emit [CHR '' '', CHR 0x08] (cli_clr_flag DELETE_CHAR c)) else c);
          c = (if cli_tst_flag CLEAR_LINE c
               then cli_set_flag (DISPLAY_LINE OR DISPLAY_PROMPT)
                      (cli_clear_to_eol (scrn_bol (cli_clr_flag CLEAR_LINE c))) else c);
          c = (if cli_tst_flag CLEAR_TO_EOL c
               then cli_clear_to_eol (cli_clr_flag CLEAR_TO_EOL c) else c)
      in if cli_tst_flag DISPLAY_PROMPT c
         then cli_display_prompt env 0 (cli_clr_flag (DISPLAY_PROMPT OR PROMPT_CONTINUE) c)
         else Some c)"

definition cli_display_line :: "cli_calls \<Rightarrow> cli \<Rightarrow> cli option" where
  "cli_display_line env c =
     (let gb = cli_gb c; sz = gb_data_size gb; pt = gb_point_offset gb;
          window = (uint (ncols c) - uint (plen c)) - 1 in
      do { (b, n) \<leftarrow> gb_copy_to_buf gb (replicate (unat (sz + 16)) None) sz;
           c \<leftarrow> display_flags env c;
           let len = sint n;
               (wstart, wend) = (if pt < window then (0, if len < window then pt + (len - pt)
                                                          else pt + (window - pt))
                                 else (pt - window, pt - window + window));
               c = scrn_cnright (uint (plen c)) (scrn_bol c) in
             do { c \<leftarrow> scrn_write b wstart (wend - wstart) c;
                  Some (scrn_cnright (uint (plen c) + pt) (scrn_bol (cli_clear_to_eol c))) } })"

definition cli_redisplay_line :: "cli_calls \<Rightarrow> cli \<Rightarrow> cli option" where
  "cli_redisplay_line env c =
     do { c \<leftarrow> cli_display_line env (c\<lparr>cli_flags := cli_flags c OR DISPLAY_PROMPT\<rparr>);
          gb \<leftarrow> gb_move_gap_to_point (cli_gb c);
          let n = gb_data_size gb - word_of_int (gb_point_offset gb) in
            Some ((cli_cursor_left ^^ unat n) (c\<lparr>cli_gb := gb\<rparr>)) }"


section \<open>The keys\<close>

definition on_gb :: "(gapbuf \<Rightarrow> gapbuf) \<Rightarrow> cli \<Rightarrow> cli" where
  "on_gb f c = c\<lparr>cli_gb := f (cli_gb c)\<rparr>"

definition try_gb :: "(gapbuf \<Rightarrow> gapbuf option) \<Rightarrow> cli \<Rightarrow> cli option" where
  "try_gb f c = do { gb \<leftarrow> f (cli_gb c); Some (c\<lparr>cli_gb := gb\<rparr>) }"

text \<open>A line of the history in place of the one being edited.\<close>

definition recall_line :: "cli_calls \<Rightarrow> string \<Rightarrow> cli \<Rightarrow> cli option" where
  "recall_line env line c =
     do { gb \<leftarrow> gb_reset_buf (cli_gb c);
          (n, gb) \<leftarrow> gb_str_insert (granted env) (c_str line) 0 gb;
          Some (cli_set_flag (DISPLAY_LINE OR CLEAR_LINE) (c\<lparr>cli_gb := gb_set_point (sint n) gb\<rparr>)) }"

definition key_up_arr :: "cli_calls \<Rightarrow> cli \<Rightarrow> cli option" where
  "key_up_arr env c =
     do { (line, h) \<leftarrow> cli_history_prev (cli_hist c);
          (case line of None \<Rightarrow> Some (c\<lparr>cli_hist := h\<rparr>)
           | Some l \<Rightarrow> recall_line env l (c\<lparr>cli_hist := h\<rparr>)) }"

definition key_down_arr :: "cli_calls \<Rightarrow> cli \<Rightarrow> cli option" where
  "key_down_arr env c =
     do { (line, h) \<leftarrow> cli_history_next (cli_hist c);
          (case line of None \<Rightarrow> Some (c\<lparr>cli_hist := h\<rparr>)
           | Some l \<Rightarrow> recall_line env l (c\<lparr>cli_hist := h\<rparr>)) }"

definition key_right_arr :: "cli \<Rightarrow> cli" where
  "key_right_arr c =
     (if \<not> gb_eof (cli_gb c) then on_gb gb_move_right (emit vt100_right_arr c) else c)"

definition key_left_arr :: "cli \<Rightarrow> cli" where
  "key_left_arr c =
     (if \<not> gb_point_at_start (cli_gb c) then on_gb gb_move_left (emit vt100_left_arr c) else c)"

definition key_backspace :: "cli \<Rightarrow> cli option" where
  "key_backspace c =
     (if \<not> gb_point_at_start (cli_gb c)
      then do { c \<leftarrow> try_gb (gb_del 1) (on_gb gb_move_left (cli_cursor_left c));
                Some (cli_set_flag DELETE_CHAR c) }
      else Some c)"

definition key_return :: "cli_calls \<Rightarrow> cli \<Rightarrow> cli option" where
  "key_return env c =
     do { c \<leftarrow> execute_fn env (emit [CHR 0x0A] c);
          c \<leftarrow> try_gb gb_reset_buf c;
          let c = (if quit_flag c = 0 then c\<lparr>cli_flags := cli_flags c OR DISPLAY_PROMPT\<rparr> else c) in
            Some (c\<lparr>cli_hist := (cli_hist c)\<lparr>curr_hist := Null\<rparr>\<rparr>) }"

definition key_ctrl_a :: "cli \<Rightarrow> cli" where
  "key_ctrl_a c = on_gb (gb_set_point 0) (emit (multi_left (gb_left_data_size (cli_gb c))) c)"

definition key_ctrl_e :: "cli \<Rightarrow> cli" where
  "key_ctrl_e c = on_gb (gb_set_point (-1)) (emit (multi_right (gb_right_data_size (cli_gb c))) c)"

text \<open>free of a pointer that was freed is undefined; strndup reads up to a count or a
  NUL.\<close>

definition free_kill :: "kill_ptr \<Rightarrow> kill_ptr option" where
  "free_kill k = (case k of No_Kill \<Rightarrow> Some No_Kill | Killed s \<Rightarrow> Some Dangling | Dangling \<Rightarrow> None)"

definition strndup :: "cells \<Rightarrow> nat \<Rightarrow> string option" where
  "strndup m n =
     (let s = takeWhile (\<lambda>c. c \<noteq> None \<and> c \<noteq> Some NUL) (take n m) in
      if length s = n \<or> length s < length m \<and> m ! length s = Some NUL then Some (map the s)
      else None)"

definition key_ctrl_k :: "cli \<Rightarrow> cli option" where
  "key_ctrl_k c =
     do { c \<leftarrow> try_gb gb_move_gap_to_point (cli_clear_to_eol c);
          k \<leftarrow> free_kill (kill c);
          let gb = cli_gb c; n = gb_right_data_size gb in
          do { k \<leftarrow> (if n \<noteq> 0
                     then map_option Killed (strndup (drop (nat (egap gb)) (buf gb)) (unat (n + 1)))
                     else Some k);
               gb \<leftarrow> gb_del (sint n) gb;
               Some (c\<lparr>kill := k, cli_gb := gb\<rparr>) } }"

definition key_ctrl_y :: "cli_calls \<Rightarrow> cli \<Rightarrow> cli option" where
  "key_ctrl_y env c =
     (case kill c of No_Kill \<Rightarrow> Some c | Dangling \<Rightarrow> None
      | Killed s \<Rightarrow>
          do { (n, gb) \<leftarrow> gb_str_insert (granted env) (c_str s) (of_nat (length s)) (cli_gb c);
               cli_redisplay_line env (cli_clear_line (c\<lparr>cli_gb := gb\<rparr>)) })"

definition key_ctrl_c :: "cli_calls \<Rightarrow> cli \<Rightarrow> cli option" where
  "key_ctrl_c env c =
     do { c \<leftarrow> try_gb gb_reset_buf c;
          (n, c) \<leftarrow> prompt_fn env 0 (cli_clear_line c);
          Some (c\<lparr>plen := word_of_int n, cli_hist := (cli_hist c)\<lparr>curr_hist := Null\<rparr>\<rparr>) }"

definition key_suppr :: "cli \<Rightarrow> cli option" where
  "key_suppr c =
     do { c \<leftarrow> try_gb (gb_del 1) c; c \<leftarrow> cli_display_right c; Some (cli_clear_to_eol c) }"

definition key_ctrl_l :: "cli_calls \<Rightarrow> cli \<Rightarrow> cli option" where
  "key_ctrl_l env c = cli_redisplay_line env (cli_clear_line (cli_clear_screen c))"

text \<open>The two loops over words: a loop that did not end would be \<open>None\<close>.\<close>

partial_function (option) key_word_left :: "cli \<Rightarrow> cli option" where
  "key_word_left c =
     (let c = key_left_arr c in
      do { (ch, gb) \<leftarrow> gb_get_prev (cli_gb c);
           let c = c\<lparr>cli_gb := gb\<rparr> in
             if ch = CHR '' '' \<or> gb_point_at_start gb then Some c else key_word_left c })"

partial_function (option) key_word_right :: "cli \<Rightarrow> cli option" where
  "key_word_right c =
     (if gb_point_at_end (cli_gb c) then Some c
      else let c = key_right_arr c in
        do { (ch, gb) \<leftarrow> gb_get (cli_gb c);
             let c = c\<lparr>cli_gb := gb\<rparr> in
               if ch = CHR '' '' then Some c else key_word_right c })"

declare key_word_left.simps [code] key_word_right.simps [code]

text \<open>The command table's functions; key_ctrl_d prints only when CLI_DEBUG_ENABLED is
  defined, which no file does.\<close>

fun vt100_func :: "cli_calls \<Rightarrow> vt100_key \<Rightarrow> cli \<Rightarrow> cli option" where
  "vt100_func env INVALID_KEY c = Some c"
| "vt100_func env UP_ARR c = key_up_arr env c"
| "vt100_func env DOWN_ARR c = key_down_arr env c"
| "vt100_func env RIGHT_ARR c = Some (key_right_arr c)"
| "vt100_func env LEFT_ARR c = Some (key_left_arr c)"
| "vt100_func env BKSPACE c = key_backspace c"
| "vt100_func env RETURN c = key_return env c"
| "vt100_func env CTRL_A c = Some (key_ctrl_a c)"
| "vt100_func env CTRL_E c = Some (key_ctrl_e c)"
| "vt100_func env CTRL_K c = key_ctrl_k c"
| "vt100_func env CTRL_Y c = key_ctrl_y env c"
| "vt100_func env CTRL_C c = key_ctrl_c env c"
| "vt100_func env CTRL_F c = Some (key_right_arr c)"
| "vt100_func env CTRL_B c = Some (key_left_arr c)"
| "vt100_func env SUPPR c = key_suppr c"
| "vt100_func env TAB c = complete_fn env c"
| "vt100_func env CTRL_D c = Some c"
| "vt100_func env CTRL_L c = key_ctrl_l env c"
| "vt100_func env RETURN2 c = key_return env c"
| "vt100_func env META_BKSPACE c = Some c"
| "vt100_func env WLEFT c = key_word_left c"
| "vt100_func env WRIGHT c = key_word_right c"
| "vt100_func env CTRL_W c = Some c"
| "vt100_func env CTRL_P c = key_up_arr env c"
| "vt100_func env CTRL_N c = key_down_arr env c"
| "vt100_func env META_D c = Some c"
| "vt100_func env CTRL_X c = Some (c\<lparr>quit_flag := 1\<rparr>)"

definition VT100_MAX_KEYS :: int where "VT100_MAX_KEYS = 27"

definition vt100_do_cmd :: "cli_calls \<Rightarrow> int \<Rightarrow> cli \<Rightarrow> cli option" where
  "vt100_do_cmd env idx c =
     (if idx < VT100_MAX_KEYS
      then if 0 \<le> idx then vt100_func env (snd (vt100_cmd_list ! nat idx)) c else None
      else Some c)"

section \<open>Input\<close>

text \<open>A char is signed: the bytes from 128 on are below the space.\<close>

definition printable :: "char \<Rightarrow> bool" where
  "printable ch \<longleftrightarrow> 32 \<le> char_code ch \<and> char_code ch \<le> 126"

definition handle_input_display :: "cli_calls \<Rightarrow> char \<Rightarrow> cli \<Rightarrow> cli option" where
  "handle_input_display env ch c =
     do { c \<leftarrow> (if printable ch
                then do { c \<leftarrow> try_gb (gb_insert (granted env) ch) (emit [ch] c);
                          Some (if \<not> gb_point_at_end (cli_gb c) then cli_set_flag DISPLAY_LINE c
                                else if \<not> gb_point_at_start (cli_gb c) then cli_set_flag DISPLAY_LINE c
                                else c) }
                else Some c);
          cli_display_line env c }"

definition input_byte :: "cli_calls \<Rightarrow> char \<Rightarrow> cli \<Rightarrow> cli option" where
  "input_byte env ch c =
     do { (ret, vt) \<leftarrow> vt100_parse_input ch (cli_vt c);
          let c = c\<lparr>cli_vt := vt\<rparr> in
            if ret > 0 then do { c \<leftarrow> vt100_do_cmd env ret c; handle_input_display env NUL c }
            else if ret = VT100_DONE then handle_input_display env ch c
            else Some c }"

primrec cli_input :: "cli_calls \<Rightarrow> string \<Rightarrow> cli \<Rightarrow> cli option" where
  "cli_input env [] c = Some c"
| "cli_input env (ch # s) c = do { c \<leftarrow> input_byte env ch c; cli_input env s c }"


section \<open>The parser recognises every key\<close>

text \<open>Between keys the parser is idle; what its buffer holds then does not matter.\<close>

definition vt_idle :: "cli_vt100 \<Rightarrow> bool" where
  "vt_idle vt \<longleftrightarrow> bufpos vt = VT100_INITIALIZE \<and> length (vt_buf vt) = VT100_BUF_SIZE"

primrec feed :: "string \<Rightarrow> cli_vt100 \<Rightarrow> (int list \<times> cli_vt100) option" where
  "feed [] vt = Some ([], vt)"
| "feed (ch # s) vt =
     do { (r, vt) \<leftarrow> vt100_parse_input ch vt; (rs, vt) \<leftarrow> feed s vt; Some (r # rs, vt) }"

text \<open>What the bytes of one key give: continue, and then the answer.\<close>

definition recognised :: "string \<Rightarrow> int \<Rightarrow> cli_vt100 \<Rightarrow> bool" where
  "recognised s r vt \<longleftrightarrow>
     (\<exists>vt'. feed s vt = Some (replicate (length s - 1) VT100_CONTINUE @ [r], vt') \<and> vt_idle vt')"

lemmas vt_consts = VT100_BUF_SIZE_def VT100_INITIALIZE_def VT100_DONE_def VT100_CONTINUE_def

lemma recognised_one:
  assumes "vt_idle vt" "ch \<noteq> vt100_escape"
  shows "recognised [ch] (find_cmd [ch] vt100_cmd_list 0) vt"
  using assms by (cases "vt_buf vt")
    (auto simp: recognised_def vt_idle_def vt100_parse_input_def vt_consts Let_def vt100_find_cmd_def)

definition alone :: "char \<Rightarrow> bool" where
  "alone ch \<longleftrightarrow> ch \<noteq> vt100_open_square \<and> char_code CHR ''0'' \<le> char_code ch
     \<and> char_code ch \<le> char_code vt100_del"

definition final :: "char \<Rightarrow> bool" where
  "final ch \<longleftrightarrow> char_code CHR ''@'' \<le> char_code ch \<and> char_code ch \<le> char_code CHR ''~''"

lemma idle_buffer:
  assumes "vt_idle vt"
  obtains a b c d e f g h where "vt_buf vt = [a, b, c, d, e, f, g, h]" "bufpos vt = -1"
  using assms by (auto simp: vt_idle_def vt_consts eval_nat_numeral length_Suc_conv)

lemma recognised_escape:
  assumes "vt_idle vt" "alone ch"
  shows "recognised (ESC [ch]) (find_cmd (ESC [ch]) vt100_cmd_list 0) vt"
  using assms(1)
proof (rule idle_buffer)
  fix a b c d e f g h assume "vt_buf vt = [a, b, c, d, e, f, g, h]" "bufpos vt = -1"
  then show ?thesis using assms(2)
    by (simp add: recognised_def vt100_parse_input_def vt_consts Let_def vt100_find_cmd_def ESC_def
        alone_def vt_idle_def)
qed

lemma recognised_csi:
  assumes "vt_idle vt" "final ch"
  shows "recognised (ESC [vt100_open_square, ch]) (find_cmd (ESC [vt100_open_square, ch]) vt100_cmd_list 0) vt"
  using assms(1)
proof (rule idle_buffer)
  fix a b c d e f g h assume "vt_buf vt = [a, b, c, d, e, f, g, h]" "bufpos vt = -1"
  then show ?thesis using assms(2)
    by (simp add: recognised_def vt100_parse_input_def vt_consts Let_def vt100_find_cmd_def ESC_def
        final_def vt_idle_def numeral_2_eq_2 numeral_3_eq_3)
qed

lemma recognised_csi1:
  assumes "vt_idle vt" "char_code p < char_code CHR ''@''" "final ch"
  shows "recognised (ESC [vt100_open_square, p, ch])
    (find_cmd (ESC [vt100_open_square, p, ch]) vt100_cmd_list 0) vt"
  using assms(1)
proof (rule idle_buffer)
  fix a b c d e f g h assume "vt_buf vt = [a, b, c, d, e, f, g, h]" "bufpos vt = -1"
  then show ?thesis using assms(2,3)
    by (simp add: recognised_def vt100_parse_input_def vt_consts Let_def vt100_find_cmd_def ESC_def
        final_def vt_idle_def numeral_2_eq_2 numeral_3_eq_3)
qed


lemma find_table:
  "find_cmd [CHR 0x7F] vt100_cmd_list 0 = 5" "find_cmd [CHR 0x01] vt100_cmd_list 0 = 7"
  "find_cmd [CHR 0x05] vt100_cmd_list 0 = 8" "find_cmd [CHR 0x06] vt100_cmd_list 0 = 12"
  "find_cmd [CHR 0x02] vt100_cmd_list 0 = 13" "find_cmd vt100_up_arr vt100_cmd_list 0 = 1"
  "find_cmd vt100_down_arr vt100_cmd_list 0 = 2" "find_cmd vt100_right_arr vt100_cmd_list 0 = 3"
  "find_cmd vt100_left_arr vt100_cmd_list 0 = 4" "find_cmd vt100_suppr vt100_cmd_list 0 = 14"
  "find_cmd vt100_word_left vt100_cmd_list 0 = 20" "find_cmd vt100_word_right vt100_cmd_list 0 = 21"
  by code_simp+

lemma find_printable:
  assumes "printable ch"
  shows "find_cmd [ch] vt100_cmd_list 0 = VT100_DONE"
proof -
  have "ch \<notin> {CHR 0x7F, CHR 0x0A, CHR 0x01, CHR 0x05, CHR 0x0B, CHR 0x19, CHR 0x03, CHR 0x06,
      CHR 0x02, CHR 0x09, CHR 0x04, CHR 0x0C, CHR 0x0D, CHR 0x17, CHR 0x10, CHR 0x0E, CHR 0x18}"
    using assms by (auto simp: printable_def char_code_def)
  then show ?thesis
    by (simp add: vt100_cmd_list_def vt100_up_arr_def vt100_down_arr_def vt100_right_arr_def
        vt100_left_arr_def vt100_suppr_def vt100_tab_def vt100_word_left_def vt100_word_right_def
        ESC_def VT100_BUF_SIZE_def Let_def)
qed

text \<open>Every sequence of the command table but the placeholder of index 0.\<close>

fun key_shape :: "string \<Rightarrow> bool" where
  "key_shape [ch] \<longleftrightarrow> ch \<noteq> vt100_escape"
| "key_shape [e, ch] \<longleftrightarrow> e = vt100_escape \<and> alone ch"
| "key_shape [e, b, ch] \<longleftrightarrow> e = vt100_escape \<and> b = vt100_open_square \<and> final ch"
| "key_shape [e, b, p, ch] \<longleftrightarrow> e = vt100_escape \<and> b = vt100_open_square
     \<and> char_code p < char_code CHR ''@'' \<and> final ch"
| "key_shape _ \<longleftrightarrow> False"

lemma shape_recognised:
  assumes "vt_idle vt" "key_shape s"
  shows "recognised s (find_cmd s vt100_cmd_list 0) vt"
  using assms(2,1) recognised_one recognised_escape recognised_csi recognised_csi1
  by (induction s rule: key_shape.induct) (simp_all add: ESC_def)

lemma table_recognised:
  assumes "vt_idle vt" "i \<in> set [1 ..< length vt100_cmd_list]"
  shows "recognised (fst (vt100_cmd_list ! i)) (int i) vt"
proof -
  have "list_all (\<lambda>i. key_shape (fst (vt100_cmd_list ! i))
      \<and> find_cmd (fst (vt100_cmd_list ! i)) vt100_cmd_list 0 = int i) [1 ..< length vt100_cmd_list]"
    by code_simp
  then have "key_shape (fst (vt100_cmd_list ! i))"
    "find_cmd (fst (vt100_cmd_list ! i)) vt100_cmd_list 0 = int i"
    using assms(2) unfolding list_all_iff by blast+
  then show ?thesis using shape_recognised [OF assms(1)] by metis
qed


text \<open>What the last byte of a recognised key does.\<close>

definition finish_key :: "cli_calls \<Rightarrow> int \<Rightarrow> char \<Rightarrow> cli \<Rightarrow> cli option" where
  "finish_key env r ch c =
     (if r > 0 then do { c \<leftarrow> vt100_do_cmd env r c; handle_input_display env NUL c }
      else if r = VT100_DONE then handle_input_display env ch c else Some c)"

lemma feed_input:
  assumes "feed s (cli_vt c) = Some (replicate n VT100_CONTINUE @ [r], vt)" "length s = Suc n"
  shows "cli_input env s c = finish_key env r (last s) (c\<lparr>cli_vt := vt\<rparr>)"
  using assms
proof (induction n arbitrary: s c)
  case 0
  then obtain ch where s: "s = [ch]" by (auto simp: length_Suc_conv)
  with 0 have "vt100_parse_input ch (cli_vt c) = Some (r, vt)" by (auto simp: bind_eq_Some_conv)
  then show ?case by (simp add: s input_byte_def finish_key_def Let_def)
next
  case (Suc n)
  then obtain ch t where s: "s = ch # t" "length t = Suc n" by (auto simp: length_Suc_conv)
  with Suc.prems obtain vt1 where 1: "vt100_parse_input ch (cli_vt c) = Some (VT100_CONTINUE, vt1)"
    "feed t vt1 = Some (replicate n VT100_CONTINUE @ [r], vt)"
    by (auto simp: bind_eq_Some_conv)
  have "t \<noteq> []" using s(2) by auto
  moreover have "cli_input env t (c\<lparr>cli_vt := vt1\<rparr>) = finish_key env r (last t) (c\<lparr>cli_vt := vt\<rparr>)"
    using Suc.IH [of t "c\<lparr>cli_vt := vt1\<rparr>"] 1(2) s(2) by simp
  ultimately show ?case using 1(1) by (simp add: s(1) input_byte_def VT100_CONTINUE_def VT100_DONE_def Let_def)
qed

lemma recognised_input:
  assumes "recognised s r (cli_vt c)" "s \<noteq> []"
  obtains vt where "vt_idle vt" "cli_input env s c = finish_key env r (last s) (c\<lparr>cli_vt := vt\<rparr>)"
proof -
  obtain vt where vt: "feed s (cli_vt c) = Some (replicate (length s - 1) VT100_CONTINUE @ [r], vt)"
    "vt_idle vt" using assms(1) by (auto simp: recognised_def)
  have "length s = Suc (length s - 1)" using assms(2) by (cases s) auto
  from feed_input [OF vt(1) this] vt(2) show ?thesis by (intro that)
qed

lemma input_append: "cli_input env (s @ t) c = do { c \<leftarrow> cli_input env s c; cli_input env t c }"
  by (induction s arbitrary: c) auto

section \<open>The line on the screen\<close>

text \<open>No request to print the prompt or to redraw is pending.\<close>

definition quiet :: "cli \<Rightarrow> bool" where
  "quiet c \<longleftrightarrow> \<not> cli_tst_flag CLEAR_LINE c \<and> \<not> cli_tst_flag DISPLAY_PROMPT c"

definition same_line :: "cli \<Rightarrow> cli \<Rightarrow> bool" where
  "same_line c c' \<longleftrightarrow> cli_gb c' = cli_gb c \<and> cli_vt c' = cli_vt c \<and> cli_hist c' = cli_hist c
     \<and> kill c' = kill c \<and> plen c' = plen c \<and> ncols c' = ncols c \<and> quit_flag c' = quit_flag c
     \<and> (quiet c \<longrightarrow> quiet c')"

lemma flag_bits:
  "cli_tst_flag CLEAR_LINE c \<longleftrightarrow> bit (cli_flags c) 5" "cli_tst_flag DELETE_CHAR c \<longleftrightarrow> bit (cli_flags c) 4"
  "cli_tst_flag DISPLAY_PROMPT c \<longleftrightarrow> bit (cli_flags c) 2" "cli_tst_flag CLEAR_TO_EOL c \<longleftrightarrow> bit (cli_flags c) 1"
  using and_exp_eq_0_iff_not_bit [of "cli_flags c" 5] and_exp_eq_0_iff_not_bit [of "cli_flags c" 4]
    and_exp_eq_0_iff_not_bit [of "cli_flags c" 2] and_exp_eq_0_iff_not_bit [of "cli_flags c" 1]
  by (simp_all add: cli_tst_flag_def CLEAR_LINE_def DELETE_CHAR_def DISPLAY_PROMPT_def CLEAR_TO_EOL_def)

lemma quiet_bits: "quiet c \<longleftrightarrow> \<not> bit (cli_flags c) 5 \<and> \<not> bit (cli_flags c) 2"
  by (simp add: quiet_def flag_bits)

lemma same_line_refl [simp]: "same_line c c"
  by (simp add: same_line_def)

lemma same_line_trans: "same_line a b \<Longrightarrow> same_line b c \<Longrightarrow> same_line a c"
  by (auto simp: same_line_def)

lemma same_line_emit [simp]: "same_line c (emit s c)"
  by (simp add: same_line_def emit_def quiet_bits)

lemma quiet_set:
  "quiet (cli_set_flag DISPLAY_LINE c) = quiet c" "quiet (cli_set_flag DELETE_CHAR c) = quiet c"
  "quiet (cli_set_flag (DISPLAY_LINE OR CLEAR_TO_EOL) c) = quiet c"
  "quiet c \<Longrightarrow> quiet (cli_clr_flag x c)"
  by (auto simp: quiet_bits cli_set_flag_def cli_clr_flag_def bit_or_iff bit_and_iff
      DISPLAY_LINE_def DELETE_CHAR_def CLEAR_TO_EOL_def bit_numeral_rec bit_1_iff)


lemma same_line_set:
  "same_line c (cli_set_flag DISPLAY_LINE c)" "same_line c (cli_set_flag DELETE_CHAR c)"
  "same_line c (cli_set_flag (DISPLAY_LINE OR CLEAR_TO_EOL) c)" "same_line c (cli_clr_flag x c)"
  using quiet_set [of c]
  by (simp_all add: same_line_def) (simp_all add: cli_set_flag_def cli_clr_flag_def)

lemma display_flags_quiet:
  assumes "quiet c"
  obtains c' where "display_flags env c = Some c'" "same_line c c'"
proof -
  define c1 where "c1 = (if cli_tst_flag DELETE_CHAR c
      then cli_set_flag (DISPLAY_LINE OR CLEAR_TO_EOL)
             (emit [CHR '' '', CHR 0x08] (cli_clr_flag DELETE_CHAR c)) else c)"
  have s1: "same_line c c1"
    unfolding c1_def using same_line_set same_line_emit same_line_trans same_line_refl by (metis (full_types))
  with assms have q1: "quiet c1" by (simp add: same_line_def)
  define c2 where "c2 = (if cli_tst_flag CLEAR_TO_EOL c1
      then cli_clear_to_eol (cli_clr_flag CLEAR_TO_EOL c1) else c1)"
  have s2: "same_line c1 c2"
    unfolding c2_def cli_clear_to_eol_def
    using same_line_set same_line_emit same_line_trans same_line_refl by (metis (full_types))
  then have "quiet c2" using q1 by (simp add: same_line_def)
  then have "display_flags env c = Some c2"
    using q1 unfolding display_flags_def c1_def [symmetric] Let_def quiet_def
    by (auto simp: c2_def split: if_splits)
  then show ?thesis using s1 s2 same_line_trans that by blast
qed

lemma those_map_Some: "those (map Some s) = Some s"
  by (induction s) auto

lemma write_text:
  assumes "n = length s"
  shows "scrn_write (map Some s @ Some NUL # rest) 0 (int n) c = Some (emit s c)"
  using assms those_map_Some [of s]
  by (cases "s = []") (auto simp: scrn_write_def strlen_def Let_def)

lemma point_offset_bounds:
  assumes "wf_gapbuf gb"
  shows "0 \<le> gb_point_offset gb" "gb_point_offset gb \<le> ebuf gb"
proof -
  have "0 \<le> point gb" "point gb \<le> ebuf gb" "ebuf gb < 2 ^ 31" "0 \<le> gap gb" "gap gb \<le> egap gb"
    "point gb > egap gb \<longrightarrow> 0 \<le> point gb - (egap gb - gap gb)"
    using assms by (auto simp: wf_gapbuf_def point_ok_def)
  then show "0 \<le> gb_point_offset gb" "gb_point_offset gb \<le> ebuf gb"
    by (auto simp: gb_point_offset_def c_int_small)
qed

definition window :: "cli \<Rightarrow> int" where
  "window c = uint (ncols c) - uint (plen c) - 1"

lemma text_bound:
  assumes "wf_gapbuf gb"
  shows "int (length (text_of gb)) \<le> ebuf gb" "ebuf gb < 2 ^ 31"
    "egap gb = gap gb \<Longrightarrow> ebuf gb = int (length (text_of gb))"
proof -
  obtain b g a s where L: "lay b g a s gb" using assms by (rule wf_layE)
  then show "int (length (text_of gb)) \<le> ebuf gb"
    "egap gb = gap gb \<Longrightarrow> ebuf gb = int (length (text_of gb))"
    by (auto simp: lay_text [OF L]) (auto simp: lay_def)
  show "ebuf gb < 2 ^ 31" using assms by (simp add: wf_gapbuf_def)
qed

lemma display_line_ok:
  assumes "wf_gapbuf (cli_gb c)" "quiet c" "ebuf (cli_gb c) < window c"
  obtains c' where "cli_display_line env c = Some c'" "same_line c c'"
proof -
  let ?gb = "cli_gb c"
  let ?t = "text_of ?gb"
  let ?pt = "gb_point_offset ?gb"
  have n: "unat (gb_data_size ?gb) = length ?t" using assms(1) by (rule data_size_cursor)
  have "int (length ?t) < 2 ^ 31" using text_bound(1,2) [OF assms(1)] by (rule le_less_trans)
  then have len: "int (length ?t) < window c" "length ?t < 2 ^ 31"
    using text_bound(1) [OF assms(1)] assms(3) by simp_all
  have pt: "?pt < window c" using point_offset_bounds [OF assms(1)] assms(3) by linarith
  have sz: "gb_data_size ?gb = of_nat (length ?t)" unfolding n [symmetric] by simp
  have sz16: "unat (gb_data_size ?gb + 16) = length ?t + 16"
    using len(2) n unat_add_lem [of "gb_data_size ?gb" 16] by simp
  have sn: "sint (of_nat (length ?t) :: u32) = int (length ?t)"
    using c_int_small [of "int (length ?t)"] len(2) by (simp add: c_int_def)
  have "0 < gb_data_size ?gb \<or> ?t = []" using n by (auto simp: word_gt_0)
  then obtain rest where copy: "gb_copy_to_buf ?gb (replicate (unat (gb_data_size ?gb + 16)) None) (gb_data_size ?gb)
      = Some (map Some ?t @ Some NUL # rest, of_nat (length ?t))"
    using copy_text [OF assms(1), of "gb_data_size ?gb" "replicate (length ?t + 16) None"]
    unfolding sz16 by auto
  obtain c1 where c1: "display_flags env c = Some c1" "same_line c c1"
    using display_flags_quiet [OF assms(2)] .
  let ?c2 = "scrn_cnright (uint (plen c1)) (scrn_bol c1)"
  let ?c3 = "emit ?t ?c2"
  have w: "scrn_write (map Some ?t @ Some NUL # rest) 0 (int (length ?t)) ?c2 = Some ?c3"
    by (rule write_text) simp
  have mid: "?pt + (int (length ?t) - ?pt) = int (length ?t)" by simp
  have "cli_display_line env c = Some (scrn_cnright (uint (plen ?c3) + ?pt)
      (scrn_bol (cli_clear_to_eol ?c3)))"
    unfolding cli_display_line_def Let_def copy c1(1) sn bind.bind_lunit prod.case
    using w pt len(1) mid unfolding window_def
    by (simp only: if_True prod.case bind.bind_lunit diff_zero)
  moreover have "same_line c (scrn_cnright (uint (plen ?c3) + ?pt) (scrn_bol (cli_clear_to_eol ?c3)))"
    unfolding scrn_cnright_def scrn_bol_def cli_clear_to_eol_def
    by (intro same_line_trans [OF _ same_line_emit] c1(2))
  ultimately show ?thesis by (rule that)
qed

section \<open>Editing with the keys\<close>

text \<open>The editor the keys stand for, on the text before and behind the cursor.
  \<open>None\<close> where the handler must not be called: backspace at the start of the line,
  delete at its end, the next word where there is no space before it.\<close>

datatype line_key = Typed char | Left | Right | Home | End | Backspace | Delete | Word_Left | Word_Right

primrec key_bytes :: "line_key \<Rightarrow> string" where
  "key_bytes (Typed ch) = [ch]"
| "key_bytes Left = vt100_left_arr"
| "key_bytes Right = vt100_right_arr"
| "key_bytes Home = [CHR 0x01]"
| "key_bytes End = [CHR 0x05]"
| "key_bytes Backspace = [CHR 0x7F]"
| "key_bytes Delete = vt100_suppr"
| "key_bytes Word_Left = vt100_word_left"
| "key_bytes Word_Right = vt100_word_right"

definition step_left :: "zipper \<Rightarrow> zipper" where
  "step_left z = (if fst z = [] then z else (butlast (fst z), last (fst z) # snd z))"

function word_left :: "zipper \<Rightarrow> zipper" where
  "word_left z = (let z' = step_left z in
     if fst z' = [] \<or> last (fst z') = CHR '' '' then z' else word_left z')"
  by pat_completeness auto
termination
  by (relation "measure (length \<circ> fst)") (auto simp: step_left_def split: if_splits)

fun edit_key :: "line_key \<Rightarrow> zipper \<Rightarrow> zipper option" where
  "edit_key (Typed ch) (b, a) = (if printable ch then Some (b @ [ch], a) else None)"
| "edit_key Left z = Some (step_left z)"
| "edit_key Right (b, a) = Some (case a of [] \<Rightarrow> (b, []) | ch # a' \<Rightarrow> (b @ [ch], a'))"
| "edit_key Home (b, a) = Some ([], b @ a)"
| "edit_key End (b, a) = Some (b @ a, [])"
| "edit_key Backspace (b, a) = (if b = [] then None else Some (butlast b, a))"
| "edit_key Delete (b, a) = (if a = [] then None else Some (b, tl a))"
| "edit_key Word_Left z = Some (word_left z)"
| "edit_key Word_Right (b, a) =
     (case a of [] \<Rightarrow> None | ch # a' \<Rightarrow>
        if CHR '' '' \<in> set a'
        then Some (b @ ch # takeWhile (\<lambda>x. x \<noteq> CHR '' '') a', dropWhile (\<lambda>x. x \<noteq> CHR '' '') a')
        else None)"

fun edit_keys :: "line_key list \<Rightarrow> zipper \<Rightarrow> zipper option" where
  "edit_keys [] z = Some z"
| "edit_keys (k # ks) z = do { z \<leftarrow> edit_key k z; edit_keys ks z }"

text \<open>The states of an editing session with room for \<open>m\<close> characters.\<close>

definition editing :: "nat \<Rightarrow> cli \<Rightarrow> zipper \<Rightarrow> bool" where
  "editing m c z \<longleftrightarrow> wf_gapbuf (cli_gb c) \<and> cursor (cli_gb c) = z
     \<and> ebuf (cli_gb c) \<le> int m + 9 \<and> int (length (buf (cli_gb c))) \<le> ebuf (cli_gb c) + 8
     \<and> quiet c \<and> int m + 9 < window c \<and> vt_idle (cli_vt c)"


definition keeps :: "cli \<Rightarrow> cli \<Rightarrow> bool" where
  "keeps c c' \<longleftrightarrow> cli_vt c' = cli_vt c \<and> cli_hist c' = cli_hist c \<and> kill c' = kill c
     \<and> plen c' = plen c \<and> ncols c' = ncols c \<and> quit_flag c' = quit_flag c \<and> (quiet c \<longrightarrow> quiet c')"

lemma keeps_refl [simp]: "keeps c c" by (simp add: keeps_def)
lemma keeps_trans: "keeps a b \<Longrightarrow> keeps b c \<Longrightarrow> keeps a c" by (auto simp: keeps_def)
lemma same_line_keeps: "same_line c c' \<Longrightarrow> keeps c c'" by (simp add: keeps_def same_line_def)

lemma keeps_simps [simp]:
  "keeps a (emit s c) = keeps a c" "keeps a (c\<lparr>cli_gb := gb\<rparr>) = keeps a c"
  "keeps a (on_gb f c) = keeps a c" "keeps a (cli_set_flag DELETE_CHAR c) = keeps a c"
  "keeps a (cli_set_flag DISPLAY_LINE c) = keeps a c"
  "cli_gb (emit s c) = cli_gb c" "cli_gb (on_gb f c) = f (cli_gb c)"
  "cli_gb (cli_set_flag x c) = cli_gb c"
  by (auto simp: keeps_def emit_def on_gb_def quiet_bits cli_set_flag_def bit_or_iff bit_numeral_rec
      DELETE_CHAR_def DISPLAY_LINE_def bit_1_iff)

lemma editing_gb:
  assumes "editing m c z" "keeps c c'" "wf_gapbuf (cli_gb c')" "cursor (cli_gb c') = z'"
    "ebuf (cli_gb c') \<le> int m + 9" "int (length (buf (cli_gb c'))) \<le> ebuf (cli_gb c') + 8"
  shows "editing m c' z'"
  using assms by (simp add: editing_def keeps_def window_def)

lemma editing_moved:
  assumes "editing m c z" "keeps c c'" "moved (cli_gb c) (cli_gb c') z'"
  shows "editing m c' z'"
proof -
  obtain p where "cli_gb c' = (cli_gb c)\<lparr>point := p\<rparr>" using assms(3) by (auto simp: moved_def)
  then show ?thesis
    using assms by (intro editing_gb [OF assms(1,2)]) (auto simp: moved_def editing_def)
qed

lemma editing_same: "editing m c z \<Longrightarrow> same_line c c' \<Longrightarrow> editing m c' z"
  by (simp add: editing_def same_line_def window_def)

lemma editing_display:
  assumes "editing m c z"
  obtains c' where "cli_display_line env c = Some c'" "editing m c' z"
proof -
  have "wf_gapbuf (cli_gb c)" "quiet c" "ebuf (cli_gb c) < window c"
    using assms by (simp_all add: editing_def)
  then obtain c' where "cli_display_line env c = Some c'" "same_line c c'"
    by (rule display_line_ok)
  with editing_same [OF assms] show ?thesis by (intro that)
qed

lemma editing_shown:
  assumes "editing m c z"
  obtains c' where "handle_input_display env NUL c = Some c'" "editing m c' z"
  using editing_display [OF assms, of env]
  by (auto simp: handle_input_display_def printable_def char_code_def NUL_def)

text \<open>A command key: its bytes are recognised, its handler runs, the line is shown.\<close>

lemma command_key:
  assumes "editing m c z" "s \<noteq> []" "key_shape s" "find_cmd s vt100_cmd_list 0 = r" "0 < r"
    "\<And>c. editing m c z \<Longrightarrow> \<exists>c'. vt100_do_cmd env r c = Some c' \<and> editing m c' z'"
  shows "\<exists>c'. cli_input env s c = Some c' \<and> editing m c' z'"
proof -
  have "recognised s r (cli_vt c)"
    using shape_recognised [of "cli_vt c" s] assms(1,3,4) by (simp add: editing_def)
  then obtain vt where vt: "vt_idle vt" "cli_input env s c = finish_key env r (last s) (c\<lparr>cli_vt := vt\<rparr>)"
    using assms(2) by (rule recognised_input)
  have "editing m (c\<lparr>cli_vt := vt\<rparr>) z"
    using assms(1) vt(1) by (simp add: editing_def quiet_bits window_def)
  then obtain c1 where "vt100_do_cmd env r (c\<lparr>cli_vt := vt\<rparr>) = Some c1" "editing m c1 z'"
    using assms(6) by blast
  moreover obtain c2 where "handle_input_display env NUL c1 = Some c2" "editing m c2 z'"
    using editing_shown [OF calculation(2)] .
  ultimately show ?thesis using vt(2) assms(5) by (simp add: finish_key_def)
qed


text \<open>The handlers on an editing state.\<close>

lemma editing_wf: "editing m c z \<Longrightarrow> wf_gapbuf (cli_gb c)"
  and editing_cursor: "editing m c z \<Longrightarrow> cursor (cli_gb c) = z"
  by (simp_all add: editing_def)

lemma editing_point:
  assumes "editing m c z" "moved (cli_gb c) gb z'"
  shows "editing m (c\<lparr>cli_gb := gb\<rparr>) z'"
  using editing_moved [OF assms(1), of "c\<lparr>cli_gb := gb\<rparr>" z'] assms(2) by simp

lemma right_edits:
  assumes "editing m c (b, a)"
  shows "editing m (key_right_arr c) (case a of [] \<Rightarrow> (b, []) | ch # a' \<Rightarrow> (b @ [ch], a'))"
proof (cases a)
  case Nil
  then show ?thesis using assms eof_cursor [OF editing_wf [OF assms]]
    by (simp add: key_right_arr_def editing_cursor)
next
  case (Cons ch a')
  have "moved (cli_gb c) (gb_move_right (cli_gb c)) (b @ [ch], a')"
    using move_right_cursor [of "cli_gb c" b a] assms Cons by (simp add: editing_def)
  then show ?thesis
    using editing_moved [OF assms, of "on_gb gb_move_right (emit vt100_right_arr c)"] Cons assms
      eof_cursor [OF editing_wf [OF assms]]
    by (simp add: key_right_arr_def editing_cursor)
qed

lemma start_cursor:
  assumes "wf_gapbuf gb" "gb_point_at_start gb"
  shows "fst (cursor gb) = []"
  using assms(1)
proof (cases rule: wf_pointE)
  case (left b1 b2 g a s)
  then show ?thesis using assms(2) by (simp add: gb_point_at_start_def)
next
  case (right b g a1 a2 s)
  then show ?thesis using assms(2) by (auto simp: gb_point_at_start_def lay_def add_nonneg_eq_0_iff)
qed

lemma left_edits:
  assumes "editing m c z"
  shows "editing m (key_left_arr c) (step_left z)"
proof (cases "gb_point_at_start (cli_gb c)")
  case True
  then have "fst z = []" using start_cursor assms by (auto simp: editing_def)
  then show ?thesis using True assms by (simp add: key_left_arr_def step_left_def)
next
  case False
  obtain b a where z: "z = (b, a)" by (cases z)
  have "moved (cli_gb c) (gb_move_left (cli_gb c)) (step_left z)"
    using move_left_cursor [of "cli_gb c" b a] assms z
    by (cases "b = []") (simp_all add: editing_def step_left_def)
  then show ?thesis
    using editing_moved [OF assms, of "on_gb gb_move_left (emit vt100_left_arr c)"] False
    by (simp add: key_left_arr_def)
qed

text \<open>A deletion behind the cursor.\<close>

lemma del_edits:
  assumes "editing m c (b, ch # a)"
  obtains gb where "gb_del 1 (cli_gb c) = Some gb" "editing m (c\<lparr>cli_gb := gb\<rparr>) (b, a)"
    "ebuf gb - egap gb = int (length a)" "right_cells gb = map Some a"
proof -
  have W: "wf_gapbuf (cli_gb c)" "cursor (cli_gb c) = (b, ch # a)"
    using assms by (simp_all add: editing_def)
  obtain gb g s where G: "gb_del (int 1) (cli_gb c) = Some gb" "at_gap b g (drop 1 (ch # a)) s gb"
    "length (buf gb) = length (buf (cli_gb c))"
    using del_cursor [OF W, of 1] by auto
  have e: "ebuf gb = ebuf (cli_gb c)"
    using G(1) by (auto simp: gb_del_def bind_eq_Some_conv dest: move_gap_ebuf split: if_splits)
  have "wf_gapbuf gb" using at_gap_wf [OF G(2)] G(3) W(1) by (simp add: wf_gapbuf_def)
  then have "editing m (c\<lparr>cli_gb := gb\<rparr>) (b, a)"
    using assms e G at_gap_cursor [OF G(2)] by (intro editing_gb [OF assms]) (auto simp: editing_def)
  with G show ?thesis using lay_cells(2) [OF at_gap_lay [OF G(2)]]
    by (intro that) (auto simp: at_gap_def lay_def)
qed

lemma backspace_edits:
  assumes "editing m c (b @ [ch], a)"
  shows "\<exists>c'. key_backspace c = Some c' \<and> editing m c' (b, a)"
proof -
  have "\<not> gb_point_at_start (cli_gb c)" using start_cursor [of "cli_gb c"] assms by (auto simp: editing_def)
  moreover have "editing m (on_gb gb_move_left (cli_cursor_left c)) (b, ch # a)"
    using move_left_cursor [of "cli_gb c" "b @ [ch]" a] assms
    by (intro editing_moved [OF assms]) (auto simp: cli_cursor_left_def editing_def)
  from del_edits [OF this] obtain gb where "gb_del 1 (gb_move_left (cli_gb c)) = Some gb"
    "editing m (on_gb gb_move_left (cli_cursor_left c)\<lparr>cli_gb := gb\<rparr>) (b, a)"
    by (auto simp: cli_cursor_left_def)
  moreover have "editing m (cli_set_flag DELETE_CHAR (on_gb gb_move_left (cli_cursor_left c)\<lparr>cli_gb := gb\<rparr>)) (b, a)"
    using calculation(3) by (simp add: editing_def quiet_set window_def) (simp add: cli_set_flag_def)
  ultimately show ?thesis by (simp add: key_backspace_def try_gb_def cli_cursor_left_def)
qed


lemma delete_edits:
  assumes "editing m c (b, ch # a)"
  shows "\<exists>c'. key_suppr c = Some c' \<and> editing m c' (b, a)"
proof -
  obtain gb where G: "gb_del 1 (cli_gb c) = Some gb" "editing m (c\<lparr>cli_gb := gb\<rparr>) (b, a)"
    "ebuf gb - egap gb = int (length a)" "right_cells gb = map Some a"
    using del_edits [OF assms] .
  let ?c = "c\<lparr>cli_gb := gb\<rparr>"
  have wf: "wf_gapbuf gb" "cursor gb = (b, a)" using G(2) by (simp_all add: editing_def)
  have "\<exists>c'. cli_display_right ?c = Some c' \<and> same_line ?c c'"
  proof (cases "a = []")
    case True
    then show ?thesis using eof_cursor [OF wf(1)] wf(2)
      by (simp add: cli_display_right_def gb_right_data_size_def)
  next
    case False
    have bound: "length a < 2 ^ 31" "0 \<le> egap gb" "egap gb \<le> int (length (buf gb))"
      using wf(1) G(3) by (auto simp: wf_gapbuf_def)
    have n: "gb_right_data_size gb = c_u32 (int (length a))" "sint (c_u32 (int (length a))) = int (length a)"
      using eof_cursor [OF wf(1)] wf(2) False G(3) c_int_small [of "int (length a)"] bound(1)
      by (simp_all add: gb_right_data_size_def c_int_def c_u32_def)
    then have "gb_right_data_size gb \<noteq> 0" using False by auto
    moreover have "scrn_write (buf gb) (egap gb) (int (length a)) ?c = Some (emit a ?c)"
      using False bound G(3,4) those_map_Some [of a]
      by (simp add: scrn_write_def right_cells_def)
    ultimately show ?thesis using n by (auto simp: cli_display_right_def Let_def)
  qed
  then obtain c' where c': "cli_display_right ?c = Some c'" "same_line ?c c'" by blast
  moreover have "same_line ?c (cli_clear_to_eol c')"
    unfolding cli_clear_to_eol_def by (rule same_line_trans [OF c'(2) same_line_emit])
  ultimately show ?thesis using G(1) editing_same [OF G(2)] by (auto simp: key_suppr_def try_gb_def)
qed

lemma home_edits:
  assumes "editing m c (b, a)"
  shows "editing m (key_ctrl_a c) ([], b @ a)"
  using set_point_cursor [OF editing_wf [OF assms], of 0] editing_cursor [OF assms]
  by (intro editing_moved [OF assms]) (simp_all add: key_ctrl_a_def text_of_def)

lemma end_edits:
  assumes "editing m c (b, a)"
  shows "editing m (key_ctrl_e c) (b @ a, [])"
  using set_end_cursor [OF editing_wf [OF assms]] editing_cursor [OF assms]
  by (intro editing_moved [OF assms]) (simp_all add: key_ctrl_e_def text_of_def)

lemma window_small: "window c < 65536"
proof -
  have "uint (ncols c) < 65536" "0 \<le> uint (plen c)" using uint_lt2p [of "ncols c"] by simp_all
  then show ?thesis unfolding window_def by linarith
qed

lemma typed_edits:
  assumes "editing m c (b, a)" "printable ch" "length b + length a \<le> m" "\<And>k. granted env k"
  shows "\<exists>c'. handle_input_display env ch c = Some c' \<and> editing m c' (b @ [ch], a)"
proof -
  let ?gb = "cli_gb c"
  have W: "wf_gapbuf ?gb" "cursor ?gb = (b, a)" "ebuf ?gb \<le> int m + 9"
    "int (length (buf ?gb)) \<le> ebuf ?gb + 8" "int m + 9 < window c"
    using assms(1) by (simp_all add: editing_def)
  have "window c < 65536" by (rule window_small)
  then have len: "length (buf ?gb) + 17 < 2 ^ 31" using W(3-5) by simp
  obtain gb g s where G: "gb_insert (granted env) ch ?gb = Some gb" "at_gap (b @ [ch]) g a s gb"
    "ebuf gb = ebuf ?gb \<and> length (buf gb) = length (buf ?gb)
     \<or> ebuf gb = int (length (text_of ?gb)) + 9 \<and> int (length (buf gb)) = ebuf gb + 8"
    by (rule insert_grows [OF W(1) len assms(4), where c = ch]) (simp add: W(2))
  have t: "length (text_of ?gb) = length b + length a" using W(2) by (simp add: text_of_def)
  have "length (buf gb) < 2 ^ 31" using G(3) len t assms(3) W(3) \<open>window c < 65536\<close> W(5) by auto
  then have "wf_gapbuf gb" using at_gap_wf [OF G(2)] by simp
  then have "editing m ((emit [ch] c)\<lparr>cli_gb := gb\<rparr>) (b @ [ch], a)"
    using at_gap_cursor [OF G(2)] G(3) t assms(3) W(3,4)
    by (intro editing_gb [OF assms(1)]) auto
  moreover have "editing m (cli_set_flag DISPLAY_LINE c') z \<longleftrightarrow> editing m c' z" for c' z
    by (simp add: editing_def quiet_set window_def) (simp add: cli_set_flag_def)
  ultimately have "editing m (let c = (emit [ch] c)\<lparr>cli_gb := gb\<rparr> in
      if \<not> gb_point_at_end (cli_gb c) then cli_set_flag DISPLAY_LINE c
      else if \<not> gb_point_at_start (cli_gb c) then cli_set_flag DISPLAY_LINE c else c) (b @ [ch], a)"
    by (simp add: Let_def)
  then obtain c' where "cli_display_line env (let c = (emit [ch] c)\<lparr>cli_gb := gb\<rparr> in
      if \<not> gb_point_at_end (cli_gb c) then cli_set_flag DISPLAY_LINE c
      else if \<not> gb_point_at_start (cli_gb c) then cli_set_flag DISPLAY_LINE c else c) = Some c'"
    "editing m c' (b @ [ch], a)" by (rule editing_display)
  then show ?thesis using G(1) assms(2) by (simp add: handle_input_display_def try_gb_def Let_def)
qed


text \<open>The loops over words end, where the specification says.\<close>

lemma get_prev_start:
  assumes "wf_gapbuf gb" "cursor gb = ([], a)"
  obtains ch gb' where "gb_get_prev gb = Some (ch, gb')" "moved gb gb' ([], a)" "point gb' = 0"
proof -
  have P: "point (skip_back gb) = 0" "moved gb (skip_back gb) ([], a)"
    using skip_back_start [OF assms] by simp_all
  have "\<exists>ch. gb_get_prev gb = Some (ch, skip_back gb)"
  proof (cases "gap gb = 0")
    case True
    then show ?thesis using P(1) by (auto simp: gb_get_prev_def skip_back_def Let_def)
  next
    case False
    obtain b g a' s where L: "lay b g a' s gb" using assms(1) by (rule wf_layE)
    then obtain x xs where "b = x # xs" using False by (cases b) (auto simp: lay_def)
    then have "mread 0 (buf gb) = Some x" using L by (simp add: lay_def mread_def)
    then show ?thesis using P(1) by (auto simp: gb_get_prev_def skip_back_def Let_def)
  qed
  with P that show ?thesis by blast
qed

lemma word_left_edits:
  assumes "editing m c z"
  shows "\<exists>c'. key_word_left c = Some c' \<and> editing m c' (word_left z)"
  using assms
proof (induction z arbitrary: c rule: word_left.induct)
  case (1 z)
  obtain b a where z': "step_left z = (b, a)" by (cases "step_left z")
  have L: "editing m (key_left_arr c) (b, a)" using left_edits [OF "1.prems"] z' by simp
  then have W: "wf_gapbuf (cli_gb (key_left_arr c))" "cursor (cli_gb (key_left_arr c)) = (b, a)"
    by (simp_all add: editing_def)
  show ?case
  proof (cases b rule: rev_cases)
    case Nil
    obtain ch gb where G: "gb_get_prev (cli_gb (key_left_arr c)) = Some (ch, gb)"
      "moved (cli_gb (key_left_arr c)) gb ([], a)" "point gb = 0"
      using get_prev_start [of "cli_gb (key_left_arr c)" a] W Nil by auto
    have "key_word_left c = Some ((key_left_arr c)\<lparr>cli_gb := gb\<rparr>)"
      using G by (subst key_word_left.simps) (simp add: gb_point_at_start_def Let_def)
    moreover have "word_left z = (b, a)" using Nil z' by (subst word_left.simps) (simp add: Let_def)
    ultimately show ?thesis using editing_point [OF L] G(2) Nil by auto
  next
    case (snoc b' ch)
    obtain gb where G: "gb_get_prev (cli_gb (key_left_arr c)) = Some (ch, gb)"
      "moved (cli_gb (key_left_arr c)) gb (b, a)"
      using get_prev_cursor [of "cli_gb (key_left_arr c)" b' ch a] W snoc by auto
    let ?c = "(key_left_arr c)\<lparr>cli_gb := gb\<rparr>"
    have E: "editing m ?c (b, a)" using editing_point [OF L G(2)] .
    have "\<not> gb_point_at_start gb" using start_cursor [of gb] G(2) snoc by (auto simp: moved_def)
    then have step: "key_word_left c = (if ch = CHR '' '' then Some ?c else key_word_left ?c)"
      using G(1) by (subst key_word_left.simps) (simp add: Let_def)
    have spec: "word_left z = (if ch = CHR '' '' then (b, a) else word_left (b, a))"
      using snoc z' by (subst word_left.simps) (simp add: Let_def)
    show ?thesis
    proof (cases "ch = CHR '' ''")
      case True
      then show ?thesis using step spec E by simp
    next
      case False
      then show ?thesis using step spec "1.IH" [of "(b, a)" ?c] E z' snoc by simp
    qed
  qed
qed

lemma not_at_end:
  assumes "wf_gapbuf gb" "cursor gb = (b, ch # a)"
  shows "\<not> gb_point_at_end gb"
  using skip_gap_here(4) [OF assms] assms(1)
  by (auto simp: skip_gap_def gb_point_at_end_def wf_gapbuf_def split: if_splits)

lemma word_right_edits:
  assumes "editing m c (b, ch # a)" "CHR '' '' \<in> set a"
  shows "\<exists>c'. key_word_right c = Some c'
    \<and> editing m c' (b @ ch # takeWhile (\<lambda>x. x \<noteq> CHR '' '') a, dropWhile (\<lambda>x. x \<noteq> CHR '' '') a)"
  using assms
proof (induction a arbitrary: b ch c)
  case Nil
  then show ?case by simp
next
  case (Cons d a)
  have R: "editing m (key_right_arr c) (b @ [ch], d # a)" using right_edits [OF Cons.prems(1)] by simp
  then have W: "wf_gapbuf (cli_gb (key_right_arr c))" "cursor (cli_gb (key_right_arr c)) = (b @ [ch], d # a)"
    by (simp_all add: editing_def)
  obtain gb where G: "gb_get (cli_gb (key_right_arr c)) = Some (d, gb)"
    "moved (cli_gb (key_right_arr c)) gb (b @ [ch], d # a)"
    using get_cursor [OF W] .
  let ?c = "(key_right_arr c)\<lparr>cli_gb := gb\<rparr>"
  have E: "editing m ?c (b @ [ch], d # a)" using editing_point [OF R G(2)] .
  have "\<not> gb_point_at_end (cli_gb c)" using not_at_end Cons.prems(1) by (auto simp: editing_def)
  then have step: "key_word_right c = (if d = CHR '' '' then Some ?c else key_word_right ?c)"
    using G(1) by (subst key_word_right.simps) (simp add: Let_def)
  show ?case
  proof (cases "d = CHR '' ''")
    case True
    then show ?thesis using step E by simp
  next
    case False
    then show ?thesis using step Cons.IH [OF E] Cons.prems(2) by simp
  qed
qed

section \<open>Properties\<close>

text \<open>One key, from its bytes to the line shown.\<close>

lemma do_cmds:
  "vt100_do_cmd env 3 c = Some (key_right_arr c)" "vt100_do_cmd env 4 c = Some (key_left_arr c)"
  "vt100_do_cmd env 5 c = key_backspace c" "vt100_do_cmd env 7 c = Some (key_ctrl_a c)"
  "vt100_do_cmd env 8 c = Some (key_ctrl_e c)" "vt100_do_cmd env 14 c = key_suppr c"
  "vt100_do_cmd env 20 c = key_word_left c" "vt100_do_cmd env 21 c = key_word_right c"
  by (simp_all add: vt100_do_cmd_def VT100_MAX_KEYS_def vt100_cmd_list_def)

lemma key_shapes:
  "key_shape vt100_left_arr" "key_shape vt100_right_arr" "key_shape [CHR 0x01]" "key_shape [CHR 0x05]"
  "key_shape [CHR 0x7F]" "key_shape vt100_suppr" "key_shape vt100_word_left" "key_shape vt100_word_right"
  by code_simp+

lemma one_key_edits:
  assumes "editing m c z" "edit_key k z = Some z'" "length (fst z) + length (snd z) \<le> m"
    "\<And>k. granted env k"
  shows "\<exists>c'. cli_input env (key_bytes k) c = Some c' \<and> editing m c' z'"
proof -
  obtain b a where z: "z = (b, a)" by (cases z)
  have nonempty: "key_bytes k \<noteq> []" by (cases k) (auto simp: vt100_left_arr_def vt100_right_arr_def
      vt100_suppr_def vt100_word_left_def vt100_word_right_def ESC_def)
  have esc: "CHR 0x01 \<noteq> vt100_escape" "CHR 0x05 \<noteq> vt100_escape" "CHR 0x7F \<noteq> vt100_escape"
    by (simp_all add: vt100_escape_def)
  note cmd = command_key [OF assms(1) nonempty, where env = env and z' = z']
  show ?thesis
  proof (cases k)
    case (Typed ch)
    then have p: "printable ch" "z' = (b @ [ch], a)" using assms(2) z by (auto split: if_splits)
    then have "ch \<noteq> vt100_escape" by (auto simp: printable_def char_code_def vt100_escape_def)
    then have "recognised [ch] VT100_DONE (cli_vt c)"
      using recognised_one [of "cli_vt c" ch] find_printable [OF p(1)] assms(1) by (simp add: editing_def)
    then obtain vt where vt: "vt_idle vt" "cli_input env [ch] c = finish_key env VT100_DONE ch (c\<lparr>cli_vt := vt\<rparr>)"
      using recognised_input [of "[ch]" VT100_DONE c env] by auto
    have "editing m (c\<lparr>cli_vt := vt\<rparr>) (b, a)"
      using assms(1) vt(1) z by (simp add: editing_def quiet_bits window_def)
    then show ?thesis
      using typed_edits [of m "c\<lparr>cli_vt := vt\<rparr>" b a ch env] p assms(3,4) Typed z vt(2)
      by (simp add: finish_key_def VT100_DONE_def)
  next
    case Left
    show ?thesis by (rule cmd) (use Left assms(2) left_edits [where z = z] in \<open>auto simp: find_table key_shapes do_cmds esc\<close>)
  next
    case Right
    show ?thesis by (rule cmd) (use Right assms(2) z right_edits in \<open>auto simp: find_table key_shapes do_cmds esc\<close>)
  next
    case Home
    show ?thesis by (rule cmd) (use Home assms(2) z home_edits in \<open>auto simp: find_table key_shapes do_cmds esc\<close>)
  next
    case End
    show ?thesis by (rule cmd) (use End assms(2) z end_edits in \<open>auto simp: find_table key_shapes do_cmds esc\<close>)
  next
    case Backspace
    then obtain b' ch where "b = b' @ [ch]" "z' = (b', a)"
      using assms(2) z by (cases b rule: rev_cases) auto
    then show ?thesis
      by (intro cmd) (use Backspace z backspace_edits in \<open>auto simp: find_table key_shapes do_cmds esc\<close>)
  next
    case Delete
    then obtain ch a' where "a = ch # a'" "z' = (b, a')" using assms(2) z by (cases a) auto
    then show ?thesis
      by (intro cmd) (use Delete z delete_edits in \<open>auto simp: find_table key_shapes do_cmds esc\<close>)
  next
    case Word_Left
    show ?thesis
      by (rule cmd) (use Word_Left assms(2) word_left_edits [where z = z] in \<open>auto simp: find_table key_shapes do_cmds esc simp del: word_left.simps\<close>)
  next
    case Word_Right
    then obtain ch a' where "a = ch # a'" "CHR '' '' \<in> set a'"
      "z' = (b @ ch # takeWhile (\<lambda>x. x \<noteq> CHR '' '') a', dropWhile (\<lambda>x. x \<noteq> CHR '' '') a')"
      using assms(2) z by (auto split: list.splits if_splits)
    then show ?thesis
      by (intro cmd) (use Word_Right z word_right_edits in \<open>auto simp: find_table key_shapes do_cmds esc\<close>)
  qed
qed


definition typed_count :: "line_key list \<Rightarrow> nat" where
  "typed_count ks = length (filter (\<lambda>k. case k of Typed _ \<Rightarrow> True | _ \<Rightarrow> False) ks)"

definition text_length :: "zipper \<Rightarrow> nat" where "text_length z = length (fst z) + length (snd z)"

lemma step_left_length: "text_length (step_left z) = text_length z"
  by (cases "fst z" rule: rev_cases) (auto simp: step_left_def text_length_def)

lemma word_left_length: "text_length (word_left z) = text_length z"
proof (induction z rule: word_left.induct)
  case (1 z)
  then show ?case using step_left_length [of z]
    by (subst word_left.simps) (simp add: Let_def del: word_left.simps)
qed

lemma edit_key_length:
  assumes "edit_key k z = Some z'"
  shows "text_length z' \<le> text_length z + typed_count [k]"
proof -
  obtain b a where z: "z = (b, a)" by (cases z)
  show ?thesis
  proof (cases k)
    case Word_Right
    then obtain ch a' where "a = ch # a'"
      "z' = (b @ ch # takeWhile (\<lambda>x. x \<noteq> CHR '' '') a', dropWhile (\<lambda>x. x \<noteq> CHR '' '') a')"
      using assms z by (auto split: list.splits if_splits)
    moreover have "length (takeWhile P xs) + length (dropWhile P xs) = length xs" for P and xs :: string
      by (metis length_append takeWhile_dropWhile_id)
    ultimately show ?thesis using z by (simp add: text_length_def)
  qed (use assms z step_left_length [of z] word_left_length [of z] in
      \<open>auto simp: text_length_def typed_count_def simp del: word_left.simps split: list.splits if_splits\<close>)
qed


definition sample_cli :: cli where
  "sample_cli = \<lparr>cli_gb = new_gapbuf, cli_vt = vt100_setup, cli_hist = empty_hist, kill = No_Kill,
     cli_flags = 0, plen = 12, ncols = 80, quit_flag = 0, screen = []\<rparr>"

definition sample_calls :: cli_calls where
  "sample_calls = \<lparr>granted = (\<lambda>_. True), prompt_fn = (\<lambda>t c. Some (12, emit ''Pktgen:/> '' c)),
     execute_fn = Some, complete_fn = Some\<rparr>"

lemma sample_editing: "editing 40 sample_cli ([], [])"
proof -
  have "quiet sample_cli" by (simp add: quiet_bits sample_cli_def)
  moreover have "window sample_cli = 67" by (simp add: window_def sample_cli_def)
  ultimately show ?thesis using new_gapbuf(2,3)
    by (simp add: editing_def vt_idle_def vt100_setup_def vt_consts)
       (simp add: sample_cli_def vt100_setup_def vt_consts new_gapbuf_def)
qed

definition sample_keys :: "line_key list" where
  "sample_keys = map Typed ''set 0 rat'' @ [Left, Backspace, Typed CHR ''r'', End, Typed CHR ''e'', Home,
     Delete, Right, Left, Typed CHR ''g'', Word_Right, Word_Left, Typed CHR ''!'']"


text \<open>C35 (functional). The parser recognises every key of the command table: from
  the idle parser, the bytes of entry \<open>i\<close> give VT100_CONTINUE until the last one,
  which gives \<open>i\<close>, and leave the parser idle.  Entry 0 is a placeholder.\<close>

theorem every_key_recognised:
  assumes "vt_idle vt" "0 < i" "i < length vt100_cmd_list"
  shows "recognised (fst (vt100_cmd_list ! i)) (int i) vt"
  by (rule table_recognised) (use assms in auto)

theorem every_key_recognised_witness:
  "recognised vt100_suppr 14 vt100_setup"
  using every_key_recognised [of vt100_setup 14]
  by (simp add: vt_idle_def vt100_setup_def vt_consts vt100_cmd_list_def)


section \<open>Keys that go wrong\<close>

text \<open>Delete at the end of the line: gb_del has no bound, the gap grows past the end
  of the buffer, and the number of characters behind it wraps around to
  4294967295; the redisplay then reads outside the allocation.\<close>

lemma delete_at_end:
  "map_option (\<lambda>gb. (ebuf gb, egap gb, gb_right_data_size gb))
     (gb_del 1 (cli_gb (the (cli_input sample_calls ''ab'' sample_cli)))) = Some (8, 9, 0xFFFFFFFF)"
  "cli_input sample_calls (''ab'' @ vt100_suppr) sample_cli = None"
  by code_simp+

text \<open>The next word at the end of the line reads the byte behind the buffer.\<close>

lemma next_word_at_end:
  "cli_input sample_calls (''ab'' @ vt100_word_right) sample_cli = None"
  by code_simp

text \<open>When the gap starts the buffer and the point is at its end, the cursor is at
  the start of the line, but gb_point_at_start does not say so: backspace then
  deletes the character behind the cursor.\<close>

lemma backspace_deletes_forward:
  "map_option (\<lambda>c. (cursor (cli_gb c), gb_point_at_start (cli_gb c)))
     (cli_input sample_calls (concat (map key_bytes
        [Typed CHR ''a'', Typed CHR ''b'', Left, Backspace, Right, Left])) sample_cli)
   = Some (([], ''b''), False)"
  "map_option (\<lambda>c. cursor (cli_gb c))
     (cli_input sample_calls (concat (map key_bytes
        [Typed CHR ''a'', Typed CHR ''b'', Left, Backspace, Right, Left, Backspace])) sample_cli)
   = Some ([], [])"
  by code_simp+

text \<open>After a step to the right and back the cursor is drawn behind the gap: the
  offset of the point is 7 where the cursor is behind 2 characters.\<close>

lemma cursor_drawn_wrong:
  "map_option (\<lambda>c. (cursor (cli_gb c), gb_point_offset (cli_gb c)))
     (cli_input sample_calls (concat (map key_bytes
        [Typed CHR ''a'', Typed CHR ''b'', Left, Typed CHR ''x'', Right, Left])) sample_cli)
   = Some ((''ax'', ''b''), 7)"
  by code_simp

text \<open>Ctrl-K frees the last killed text first; with nothing behind the cursor it
  leaves the pointer as it is, and the next Ctrl-K or Ctrl-Y uses it.\<close>

lemma kill_twice:
  assumes "wf_gapbuf (cli_gb c)" "snd (cursor (cli_gb c)) = []" "kill c = Killed s"
  obtains c' where "key_ctrl_k c = Some c'" "kill c' = Dangling"
    "key_ctrl_k c' = None" "key_ctrl_y env c' = None"
proof -
  obtain gb g s' where G: "gb_move_gap_to_point (cli_gb c) = Some gb"
    "at_gap (fst (cursor (cli_gb c))) g (snd (cursor (cli_gb c))) s' gb"
    "length (buf gb) = length (buf (cli_gb c))" using to_gap [OF assms(1)] .
  have "gb_right_data_size gb = 0"
    using G(2) assms(2) by (simp add: gb_right_data_size_def gb_eof_def at_gap_def lay_def)
  moreover have "gb_del 0 gb = Some gb" using G(2) by (simp add: gb_del_def at_gap_def)
  ultimately have "key_ctrl_k c = Some ((cli_clear_to_eol c)\<lparr>cli_gb := gb, kill := Dangling\<rparr>)"
    using G(1) assms(3) by (simp add: key_ctrl_k_def try_gb_def free_kill_def cli_clear_to_eol_def
        emit_def Let_def)
  moreover have "gb_move_gap_to_point gb = Some gb" using G(2) by (rule at_gap_moved)
  ultimately show ?thesis
    by (intro that) (auto simp: key_ctrl_k_def try_gb_def free_kill_def cli_clear_to_eol_def emit_def
        key_ctrl_y_def)
qed

text \<open>Ctrl-K copies one byte more than there is behind the cursor; when that byte
  was never written, or lies behind the allocation, the copy reads it.\<close>

lemma kill_reads_past_text:
  "cli_input sample_calls (''abcd'' @ [CHR 0x01, CHR 0x0B]) sample_cli = None"
  by code_simp


end
