(* ===== verification/CliText.thy ===== *)
theory CliText
  imports CLib LineEdit
begin

text \<open>
  The text functions of the command line (\<open>lib/cli/cli_string_fns.c\<close>,
  \<open>cli_string_fns.h\<close>) and the command maps (\<open>lib/cli/cli_map.c\<close>): trimming and
  splitting a line, numbers, port lists, MAC and IP addresses, and the search of the map
  entry that a command fits.

  A C string is the list of its characters.  None as the result of a function that
  returns an option stands for undefined behaviour: reading past the end of a string,
  a null pointer, or the overflow of \<open>atoi\<close>.
\<close>

section \<open>The C library\<close>

definition isspace :: "char \<Rightarrow> bool" where
  "isspace c \<longleftrightarrow> c = CHR '' '' \<or> 9 \<le> char_code c \<and> char_code c \<le> 13"

definition isdigit :: "char \<Rightarrow> bool" where "isdigit = is_digit_of 10"
definition isxdigit :: "char \<Rightarrow> bool" where "isxdigit = is_digit_of 16"

text \<open>The common part of \<open>strtol\<close> and \<open>strtoul\<close>: the sign, the value of the digits and
  what follows them.  Nothing is converted when there is no digit.\<close>

record scanned =
  sc_neg :: bool
  sc_mag :: nat
  sc_ok :: bool
  sc_rest :: string

definition sign_of :: "string \<Rightarrow> bool \<times> string" where
  "sign_of s = (case s of [] \<Rightarrow> (False, s) | c # r \<Rightarrow>
     if c = CHR ''-'' then (True, r) else if c = CHR ''+'' then (False, r) else (False, s))"

definition hex_prefix :: "string \<Rightarrow> bool" where
  "hex_prefix s = (case s of z # x # h # _ \<Rightarrow> z = CHR ''0'' \<and> x \<in> {CHR ''x'', CHR ''X''} \<and> isxdigit h | _ \<Rightarrow> False)"

definition base_of :: "nat \<Rightarrow> string \<Rightarrow> nat \<times> string" where
  "base_of b s =
     (if (b = 0 \<or> b = 16) \<and> hex_prefix s then (16, drop 2 s)
      else if b = 0 then (if take 1 s = ''0'' then 8 else 10, s) else (b, s))"

definition strto :: "nat \<Rightarrow> string \<Rightarrow> scanned" where
  "strto b s = (let (neg, s1) = sign_of (dropWhile isspace s); (b, s2) = base_of b s1;
       ds = takeWhile (is_digit_of b) s2
     in if ds = [] then \<lparr>sc_neg = False, sc_mag = 0, sc_ok = False, sc_rest = s\<rparr>
        else \<lparr>sc_neg = neg, sc_mag = num_val b ds, sc_ok = True, sc_rest = dropWhile (is_digit_of b) s2\<rparr>)"

definition out_of_ulong :: "scanned \<Rightarrow> bool" where
  "out_of_ulong r \<longleftrightarrow> 2 ^ 64 \<le> int (sc_mag r)"

definition strtoul :: "nat \<Rightarrow> string \<Rightarrow> u64" where
  "strtoul b s = (let r = strto b s in
     if out_of_ulong r then NOT 0
     else if sc_neg r then - word_of_nat (sc_mag r) else word_of_nat (sc_mag r))"

definition signed_value :: "scanned \<Rightarrow> int" where
  "signed_value r = (if sc_neg r then - int (sc_mag r) else int (sc_mag r))"

definition out_of_long :: "scanned \<Rightarrow> bool" where
  "out_of_long r \<longleftrightarrow> signed_value r < - (2 ^ 63) \<or> 2 ^ 63 \<le> signed_value r"

definition strtol :: "nat \<Rightarrow> string \<Rightarrow> int" where
  "strtol b s = (let v = signed_value (strto b s) in
     if v < - (2 ^ 63) then - (2 ^ 63) else if 2 ^ 63 \<le> v then 2 ^ 63 - 1 else v)"

definition atoi32 :: "string \<Rightarrow> u32 option" where
  "atoi32 s = (let v = signed_value (strto 10 s) in
     if - (2 ^ 31) \<le> v \<and> v < 2 ^ 31 then Some (word_of_int v) else None)"

text \<open>\<open>inet_pton\<close> for IPv4: four decimal numbers of one to three digits, at most 255.  The
  result has the bytes of the address in the order of the text.\<close>

fun octets :: "nat \<Rightarrow> string \<Rightarrow> u8 list option" where
  "octets 0 s = None"
| "octets (Suc k) s =
     (let ds = takeWhile isdigit s; r = dropWhile isdigit s; b = word_of_nat (num_val 10 ds)
      in if ds = [] \<or> length ds > 3 \<or> num_val 10 ds > 255 then None
         else if k = 0 then (if r = [] then Some [b] else None)
         else if take 1 r = ''.'' then map_option ((#) b) (octets k (drop 1 r)) else None)"

definition inet_pton4 :: "string \<Rightarrow> u32 option" where
  "inet_pton4 s = map_option (\<lambda>os. mk32 (os ! 0) (os ! 1) (os ! 2) (os ! 3)) (octets 4 s)"

section \<open>Strings and tokens\<close>

definition rte_strtrim :: "string \<Rightarrow> string" where
  "rte_strtrim str = rev (dropWhile isspace (rev (dropWhile isspace str)))"

definition rte_strtrimset :: "string \<Rightarrow> string \<Rightarrow> string option" where
  "rte_strtrimset str st =
     (if str = [] \<or> length st \<noteq> 2 then None
      else let str = dropWhile (\<lambda>c. c = st ! 0 \<or> isspace c) str
           in Some (rev (dropWhile (\<lambda>c. isspace c \<or> c = st ! 1) (rev str))))"

fun rte_strtok :: "nat \<Rightarrow> string \<Rightarrow> string \<Rightarrow> string list" where
  "rte_strtok 0 delim str = []"
| "rte_strtok (Suc n) delim str =
     (case strtok (set delim) str of (None, _) \<Rightarrow> []
      | (Some t, r) \<Rightarrow> rte_strtrim t # rte_strtok n delim r)"

fun rte_strmatch :: "string \<Rightarrow> string \<Rightarrow> bool" where
  "rte_strmatch (a # s1) (b # s2) \<longleftrightarrow> a = b \<and> rte_strmatch s1 s2"
| "rte_strmatch s1 s2 \<longleftrightarrow> s1 = [] \<and> s2 = []"

primrec rte_strcnt :: "string \<Rightarrow> char \<Rightarrow> nat" where
  "rte_strcnt [] c = 0"
| "rte_strcnt (x # s) c = rte_strcnt s c + (if x = c then 1 else 0)"

definition STR_MAX_ARGVS :: nat where "STR_MAX_ARGVS = 64"
definition CLI_MAX_ARGVS :: nat where "CLI_MAX_ARGVS = 64"

fun stropt_match :: "string list \<Rightarrow> string \<Rightarrow> int \<Rightarrow> int" where
  "stropt_match [] str i = -1"
| "stropt_match (a # argv) str i = (if rte_strmatch a str then i else stropt_match argv str (i + 1))"

definition rte_stropt :: "string \<Rightarrow> string \<Rightarrow> string \<Rightarrow> int" where
  "rte_stropt list str delim =
     (let list = (if take 2 list = ''%|'' then drop 2 list else list)
      in if list = [] then -1 else stropt_match (rte_strtok STR_MAX_ARGVS delim list) str 0)"

text \<open>\<open>rte_strqtok\<close>: \<open>w\<close> holds the characters from \<open>start_of_word\<close> to \<open>p\<close>.  A backslash
  starts the word again at the character after it, and one at the end of the string steps
  over its terminator.\<close>

datatype tok_state = INIT | WORD | STRING_QUOTE | STRING_TICK

fun qtok_loop :: "nat \<Rightarrow> string \<Rightarrow> tok_state \<Rightarrow> string \<Rightarrow> string \<Rightarrow> string list
    \<Rightarrow> (string list \<times> tok_state \<times> string) option" where
  "qtok_loop n delim st w [] argv = Some (argv, st, w)"
| "qtok_loop n delim st w (c # r) argv =
     (if length argv \<ge> n then Some (argv, st, w)
      else if c = CHR 0x5C then (case r of [] \<Rightarrow> None | e # r \<Rightarrow> qtok_loop n delim st [e] r argv)
      else case st of
        INIT \<Rightarrow>
          if c = CHR 0x22 then qtok_loop n delim STRING_QUOTE [] r argv
          else if c = CHR 0x27 then qtok_loop n delim STRING_TICK [] r argv
          else if c \<notin> set delim then qtok_loop n delim WORD [c] r argv
          else qtok_loop n delim INIT w r argv
      | STRING_QUOTE \<Rightarrow>
          if c = CHR 0x22 then qtok_loop n delim INIT [] r (argv @ [w])
          else qtok_loop n delim STRING_QUOTE (w @ [c]) r argv
      | STRING_TICK \<Rightarrow>
          if c = CHR 0x27 then qtok_loop n delim INIT [] r (argv @ [w])
          else qtok_loop n delim STRING_TICK (w @ [c]) r argv
      | WORD \<Rightarrow>
          if c \<in> set delim then qtok_loop n delim INIT [] r (argv @ [w])
          else qtok_loop n delim WORD (w @ [c]) r argv)"

definition rte_strqtok :: "nat \<Rightarrow> string \<Rightarrow> string \<Rightarrow> string list option" where
  "rte_strqtok n delim str = do {
     (argv, st, w) \<leftarrow> qtok_loop n delim WORD [] (rte_strtrim str) [];
     let argv = (if st \<noteq> INIT \<and> length argv < n then argv @ [w] else argv);
     Some (if argv = [] then [str] else argv) }"

section \<open>Port lists and addresses\<close>

type_synonym portlist = u64

definition set_portlist_bits :: "nat \<Rightarrow> nat \<Rightarrow> u64 \<Rightarrow> u64" where
  "set_portlist_bits low high m = foldl (\<lambda>m k. m OR push_bit k 1) m (low # [Suc low..<Suc high])"

definition MAX_SPLIT :: nat where "MAX_SPLIT = 64"

definition port_interval :: "string \<Rightarrow> u64 \<times> u64" where
  "port_interval s =
     (let a = takeWhile (\<lambda>c. c \<noteq> CHR ''-'') s; p = dropWhile (\<lambda>c. c \<noteq> CHR ''-'') s
      in if p = [] then (strtoul 10 s, strtoul 10 s) else (strtoul 10 a, strtoul 10 (drop 1 p)))"

fun portlist_map :: "string list \<Rightarrow> u64 \<Rightarrow> u64 option" where
  "portlist_map [] m = Some m"
| "portlist_map (s # split) m =
     (let (ps, pe) = port_interval s
      in if ps > pe \<or> pe \<ge> 64 then None
         else portlist_map split (set_portlist_bits (unat ps) (unat pe) m))"

text \<open>The value returned, and the list: it keeps its old value on an error.\<close>

definition rte_parse_portlist :: "string \<Rightarrow> portlist \<Rightarrow> int \<times> portlist" where
  "rte_parse_portlist str portlist =
     (if str = [] then (-1, portlist)
      else if str = ''all'' then (0, foldl (\<lambda>m i. m OR push_bit i 1) portlist [0..<64])
      else let split = rte_strtok MAX_SPLIT '','' str
           in if split = [] then (0, portlist)
              else case portlist_map split 0 of None \<Rightarrow> (-1, portlist) | Some m \<Rightarrow> (0, m))"

text \<open>\<open>rte_ether_aton\<close>: the numbers between the colons, and the bytes they give, stored from
  the last one down until one is too large.  The flag is whether the result is not NULL.\<close>

fun mac_parts :: "nat \<Rightarrow> string \<Rightarrow> (u64 list \<times> string) option" where
  "mac_parts 0 a = None"
| "mac_parts (Suc k) a =
     (let r = strto 16 a; e = sc_rest r
      in if out_of_ulong r \<or> \<not> sc_ok r \<or> (e \<noteq> [] \<and> hd e \<noteq> CHR '':'') then None
         else if k \<noteq> 0 \<and> e \<noteq> [] then map_option (\<lambda>(os, e). (strtoul 16 a # os, e)) (mac_parts k (tl e))
         else Some ([strtoul 16 a], e))"

primrec store_bytes :: "nat \<Rightarrow> u64 list \<Rightarrow> u8 list \<Rightarrow> u8 list \<times> bool" where
  "store_bytes 0 os e = (e, True)"
| "store_bytes (Suc i) os e =
     (if os ! i > 255 then (e, False) else store_bytes i os (e[i := ucast (os ! i)]))"

primrec store_pairs :: "nat \<Rightarrow> u64 list \<Rightarrow> u8 list \<Rightarrow> u8 list \<times> bool" where
  "store_pairs 0 os e = (e, True)"
| "store_pairs (Suc i) os e =
     (if os ! i > 65535 then (e, False)
      else store_pairs i os (e[i * 2 := ucast (drop_bit 8 (os ! i)), i * 2 + 1 := ucast (os ! i AND 0xFF)]))"

definition rte_ether_aton :: "string \<Rightarrow> ether_addr \<Rightarrow> ether_addr \<times> bool" where
  "rte_ether_aton a e =
     (case mac_parts 6 a of None \<Rightarrow> (e, False)
      | Some (os, e_end) \<Rightarrow>
          if e_end \<noteq> [] then (e, False)
          else if length os = 6 then store_bytes 6 os e
          else if length os = 3 then store_pairs 3 os e else (e, False))"

text \<open>\<open>rte_atoip\<close>: \<open>pton6\<close> is \<open>inet_pton\<close> for IPv6, and \<open>v\<close> is what the local variable
  holds at first: the bytes of the union that an IPv4 address does not use keep it.\<close>

definition PG_IPADDR_V4 :: nat where "PG_IPADDR_V4 = 1"
definition PG_IPADDR_V6 :: nat where "PG_IPADDR_V6 = 2"
definition PG_IPADDR_NETWORK :: nat where "PG_IPADDR_NETWORK = 4"

definition rte_isendoftoken :: "char \<Rightarrow> bool" where
  "rte_isendoftoken c \<longleftrightarrow> c \<in> {CHR ''#'', CHR '' '', CHR 0x09, CHR 0x0A, CHR 0x0D}"

definition prefix_of :: "string \<Rightarrow> (string \<times> int) option" where
  "prefix_of s =
     (let p = rev (takeWhile (\<lambda>c. c \<noteq> CHR ''/'') (rev s)); n = strtol 10 p; r = strto 10 p;
          endp = (if sc_ok r then sc_rest r else p)
      in if CHR ''/'' \<notin> set s \<or> out_of_long r \<or> endp \<noteq> [] \<or> n < 0 \<or> n > 128 then None
         else Some (take (length s - length p - 1) s, n))"

definition rte_atoip :: "(string \<Rightarrow> u8 list option) \<Rightarrow> cmdline_ipaddr \<Rightarrow> string \<Rightarrow> nat \<Rightarrow> cmdline_ipaddr
    \<Rightarrow> int \<times> cmdline_ipaddr" where
  "rte_atoip pton6 v str fl res =
     (let s = takeWhile (\<lambda>c. \<not> rte_isendoftoken c) str; n = int (length s)
      in if str = [] \<or> length s \<ge> 50 then (-1, res)
         else case (if bit fl 2 then prefix_of s else Some (s, 0)) of
           None \<Rightarrow> (-1, res)
         | Some (s, len) \<Rightarrow>
             let v = v\<lparr>prefixlen := word_of_int len\<rparr>
             in case (if bit fl 0 \<and> len \<le> 32 then inet_pton4 s else None) of
                  Some a \<Rightarrow> (n, v\<lparr>s_addr := a\<rparr>)
                | None \<Rightarrow> (case (if bit fl 1 then pton6 s else None) of
                     Some bs \<Rightarrow> (n, v\<lparr>s_addr := mk32 (bs ! 0) (bs ! 1) (bs ! 2) (bs ! 3), s6_tail := drop 4 bs\<rparr>)
                   | None \<Rightarrow> (-1, res)))"

section \<open>Command maps\<close>

type_synonym cli_map = "int \<times> string"

text \<open>The format without its first two characters is the list of options.\<close>

definition cli_map_list_search :: "string \<Rightarrow> string \<Rightarrow> nat \<Rightarrow> int option" where
  "cli_map_list_search fmt item index =
     (let opts = rte_strtok CLI_MAX_ARGVS '' '' fmt
      in if index < length opts \<and> 2 \<le> length (opts ! index)
         then Some (rte_stropt (drop 2 (opts ! index)) item ''|'') else None)"

text \<open>The loop of \<open>is_map_valid\<close>: it goes on while a character does \<^emph>\<open>not\<close> fit, and its
  first test of an empty argument steps over the terminator.\<close>

fun scan_arg :: "(char \<Rightarrow> bool) \<Rightarrow> string \<Rightarrow> bool option" where
  "scan_arg ok [] = None"
| "scan_arg ok [c] = Some (ok c)"
| "scan_arg ok (c # d # r) = (if ok c then Some True else scan_arg ok (d # r))"

definition map_class :: "char \<Rightarrow> (char \<Rightarrow> bool) option" where
  "map_class f =
     (if f \<in> set ''%l'' then Some (\<lambda>_. True)
      else if f \<in> set ''dDn46'' then Some isdigit
      else if f \<in> set ''hHm'' then Some isxdigit
      else if f = CHR ''s'' then Some printable
      else if f \<in> set ''PC'' then Some (\<lambda>c. isdigit c \<or> c = CHR ''a'') else None)"

definition is_map_valid :: "string \<Rightarrow> string \<Rightarrow> bool option" where
  "is_map_valid fmt arg =
     (case fmt of
        p # f # _ \<Rightarrow>
          if f = CHR ''k'' then Some True
          else if f = CHR ''|'' then Some (rte_stropt (tl fmt) arg ''|'' \<noteq> -1)
          else (case map_class f of None \<Rightarrow> Some False | Some ok \<Rightarrow> scan_arg ok arg)
      | _ \<Rightarrow> Some False)"

fun map_fits :: "string list \<Rightarrow> string list \<Rightarrow> bool option" where
  "map_fits (m # ms) (a # argv) =
     do { ok \<leftarrow> (if take 1 m = ''%'' then is_map_valid m a else Some (rte_strmatch m a));
          if ok then map_fits ms argv else Some False }"
| "map_fits ms argv = Some True"

definition help_word :: "string \<Rightarrow> bool" where
  "help_word a \<longleftrightarrow> a = ''-?'' \<or> a = ''?''"

fun cli_mapping :: "cli_map list \<Rightarrow> string list \<Rightarrow> cli_map option option" where
  "cli_mapping [] argv = Some None"
| "cli_mapping (m # maps) argv =
     (let ms = rte_strtok CLI_MAX_ARGVS '' '' (snd m)
      in if argv = [] then None
         else if help_word (last argv) then Some None
         else if length ms \<noteq> length argv then cli_mapping maps argv
         else do { ok \<leftarrow> map_fits ms argv; if ok then Some (Some m) else cli_mapping maps argv })"

text \<open>What is printed of a map.  The map of a command that fits no entry is a null pointer
  that \<open>cli_map_dump\<close> reads.\<close>

fun join_with :: "string \<Rightarrow> string list \<Rightarrow> string" where
  "join_with sep [] = []"
| "join_with sep [x] = x"
| "join_with sep (x # y # xs) = x @ sep @ join_with sep (y # xs)"

definition decode_map :: "string \<Rightarrow> string" where
  "decode_map fmt =
     (case fmt of
        p # f # r \<Rightarrow>
          if p \<noteq> CHR ''%'' then fmt @ '' ''
          else if f = CHR ''|'' then ''['' @ join_with ''|'' (rte_strtok CLI_MAX_ARGVS ''|'' r) @ ''] ''
          else (case map_of
              [(CHR ''%'', ''% ''), (CHR ''d'', ''<32bit number> ''), (CHR ''D'', ''<64bit number> ''),
               (CHR ''h'', ''<32bit hex> ''), (CHR ''H'', ''<64bit hex> ''), (CHR ''s'', ''<string> ''),
               (CHR ''4'', ''<IPv4 Address> ''), (CHR ''6'', ''<IPv6 Address> ''), (CHR ''m'', ''<MAC address> ''),
               (CHR ''k'', ''<kvargs> ''), (CHR ''P'', ''<portlist> ''), (CHR ''C'', ''<corelist> ''),
               (CHR ''l'', ''<list> '')] f of None \<Rightarrow> ''<unknown> '' | Some t \<Rightarrow> t)
      | _ \<Rightarrow> if fmt = ''%'' then ''<unknown> '' else fmt @ '' '')"

definition cli_map_show :: "cli_map \<Rightarrow> string option" where
  "cli_map_show m =
     (case rte_strtok CLI_MAX_ARGVS '' '' (snd m) of [] \<Rightarrow> None
      | t # ts \<Rightarrow> Some (''  '' @ t @ '' '' @ concat (map decode_map ts) @ [CHR 0x0A]))"

definition cli_maps_show :: "cli_map list \<Rightarrow> string list \<Rightarrow> string option" where
  "cli_maps_show maps argv =
     (if argv = [] then Some []
      else do {
        ls \<leftarrow> those (map cli_map_show (filter (\<lambda>m.
          case rte_strtok CLI_MAX_ARGVS '' '' (snd m) of [] \<Rightarrow> False | t # _ \<Rightarrow> hd argv = t) maps));
        Some ([CHR 0x0A] @ ''Usage:'' @ [CHR 0x0A] @ concat ls) })"

definition pad :: "nat \<Rightarrow> string \<Rightarrow> string" where
  "pad n s = replicate (n - length s) (CHR '' '') @ s"

definition cli_map_dump :: "cli_map list \<Rightarrow> string list \<Rightarrow> string option" where
  "cli_map_dump maps argv = do {
     m \<leftarrow> cli_mapping maps argv;
     case m of None \<Rightarrow> None
     | Some m \<Rightarrow>
         (case rte_strtok CLI_MAX_ARGVS '' '' (snd m) of [] \<Rightarrow> None
          | t # ts \<Rightarrow>
              Some (pad 4 (dec_int (fst m)) @ '' - '' @ hd argv @ '' == '' @ t @ [CHR 0x0A]
                @ concat (map (\<lambda>(a, t). ''       '' @ a @ '' == '' @ t @ [CHR 0x0A]) (zip (tl argv) ts)))) }"

section \<open>Numbers that are printed are read back\<close>

declare dec.simps [simp del]

lemmas char_defs = isspace_def isdigit_def isxdigit_def is_digit_of_def digit_val_def char_code_def

lemma digit_char:
  "d < 10 \<Longrightarrow> digit_val (char_of (48 + d)) = Some d"
  by (simp add: digit_val_def)

lemma num_val_snoc: "num_val b (s @ [c]) = num_val b s * b + (case digit_val c of None \<Rightarrow> 0 | Some v \<Rightarrow> v)"
  by (simp add: num_val_def)

lemma num_val_dec [simp]: "num_val 10 (dec n) = n"
proof (induction n rule: dec.induct)
  case (1 n)
  then show ?case
    by (cases "n < 10") (simp_all add: num_val_snoc digit_char num_val_def del: dec.simps,
        simp_all add: dec.simps [of n] num_val_snoc digit_char num_val_def)
qed

lemma dec_digits: "c \<in> set (dec n) \<Longrightarrow> isdigit c"
proof (induction n rule: dec.induct)
  case (1 n)
  then show ?case
    by (cases "n < 10") (auto simp: dec.simps [of n] isdigit_def is_digit_of_def digit_char simp del: dec.simps)
qed

lemma dec_nonempty [simp]: "dec n \<noteq> []"
  by (simp add: dec.simps [of n] del: dec.simps)

lemma digit_not_special:
  assumes "isxdigit c"
  shows "\<not> isspace c" "c \<noteq> CHR ''-''" "c \<noteq> CHR ''+''" "c \<noteq> CHR '':''" "c \<noteq> CHR ''.''" "c \<noteq> CHR ''/''" "c \<noteq> CHR '',''"
    "c \<noteq> CHR ''x''" "c \<noteq> CHR ''X''" "\<not> rte_isendoftoken c"
  using assms by (auto simp: char_defs rte_isendoftoken_def split: if_splits)

lemma isdigit_isxdigit: "isdigit c \<Longrightarrow> isxdigit c"
  by (auto simp: char_defs split: option.splits)

lemma strto_number:
  assumes "(b, ok) \<in> {(10, isdigit), (16, isxdigit)}"
    and "ds \<noteq> []" "\<forall>c\<in>set ds. ok c" "r = [] \<or> \<not> ok (hd r)"
    and "b = 16 \<longrightarrow> \<not> hex_prefix (ds @ r)"
  shows "strto b (ds @ r) = \<lparr>sc_neg = False, sc_mag = num_val b ds, sc_ok = True, sc_rest = r\<rparr>"
proof -
  have ok: "ok = is_digit_of b" and b: "b = 10 \<or> b = 16"
    using assms(1) by (auto simp: isdigit_def isxdigit_def)
  obtain c u where ds: "ds = c # u" using assms(2) by (cases ds) auto
  have c: "isxdigit c" using assms(1,3) ds isdigit_isxdigit by auto
  have t: "takeWhile (is_digit_of b) (ds @ r) = ds" "dropWhile (is_digit_of b) (ds @ r) = r"
    using assms(3,4) ok by (cases r; auto)+
  have "sign_of (dropWhile isspace (ds @ r)) = (False, ds @ r)"
    using ds digit_not_special [OF c] by (simp add: sign_of_def)
  moreover have "base_of b (ds @ r) = (b, ds @ r)"
    using b assms(5) by (auto simp: base_of_def)
  ultimately show ?thesis
    using t assms(2) by (simp add: strto_def Let_def)
qed

lemma strto_dec:
  "r = [] \<or> \<not> isdigit (hd r) \<Longrightarrow>
    strto 10 (dec n @ r) = \<lparr>sc_neg = False, sc_mag = n, sc_ok = True, sc_rest = r\<rparr>"
  using strto_number [of 10 isdigit "dec n" r] dec_digits by simp

lemma strtoul_dec [simp]: "n < 2 ^ 64 \<Longrightarrow> strtoul 10 (dec n) = word_of_nat n"
  using strto_dec [of "[]" n] by (simp add: strtoul_def out_of_ulong_def)

lemma atoi_dec [simp]: "n < 2 ^ 31 \<Longrightarrow> atoi32 (dec n) = Some (word_of_nat n)"
  using strto_dec [of "[]" n] by (simp add: atoi32_def signed_value_def)

section \<open>Addresses that are printed are read back\<close>

definition hex_digit :: "nat \<Rightarrow> char" where
  "hex_digit d = char_of (if d < 10 then 48 + d else 87 + d)"

definition hex2 :: "u8 \<Rightarrow> string" where
  "hex2 b = [hex_digit (unat b div 16), hex_digit (unat b mod 16)]"

definition inet_mtoa :: "ether_addr \<Rightarrow> string" where
  "inet_mtoa m = join_with '':'' (map hex2 m)"

text \<open>\<open>ip_addr\<close> has the bytes of the address in the order they are printed.\<close>

definition inet_ntop4 :: "u32 \<Rightarrow> u32 \<Rightarrow> string" where
  "inet_ntop4 ip_addr m =
     (let s = join_with ''.'' (map (\<lambda>b. dec (unat b)) (le32 ip_addr))
      in if m \<noteq> 0xFFFFFFFF then s @ ''/'' @ dec (mask_size m) else s)"

lemma hex_digit_val: "d < 16 \<Longrightarrow> digit_val (hex_digit d) = Some d"
  by (auto simp: digit_val_def hex_digit_def)

lemma hex2_value: "num_val 16 (hex2 b) = unat b" "\<forall>c\<in>set (hex2 b). isxdigit c" "hex2 b \<noteq> []"
proof -
  have "unat b div 16 < 16" using unat_less(1) [of b] by simp
  then show "num_val 16 (hex2 b) = unat b" "\<forall>c\<in>set (hex2 b). isxdigit c" "hex2 b \<noteq> []"
    by (simp_all add: hex2_def num_val_def isxdigit_def is_digit_of_def hex_digit_val)
qed

lemma strto_hex2:
  assumes "r = [] \<or> hd r = CHR '':''"
  shows "strto 16 (hex2 b @ r) = \<lparr>sc_neg = False, sc_mag = unat b, sc_ok = True, sc_rest = r\<rparr>"
proof -
  have "\<not> isxdigit CHR '':''" by (simp add: char_defs)
  then have r: "r = [] \<or> \<not> isxdigit (hd r)" using assms by auto
  have "isxdigit (hex_digit (unat b mod 16))" using hex2_value(2) [of b] by (simp add: hex2_def)
  then have "\<not> hex_prefix (hex2 b @ r)"
    using digit_not_special(8,9) by (auto simp: hex_prefix_def hex2_def split: list.splits)
  with r hex2_value [of b] show ?thesis
    by (subst strto_number [of 16 isxdigit]) auto
qed

lemma mac_parts_text:
  assumes "length m \<le> k" "m \<noteq> []"
  shows "mac_parts k (inet_mtoa m) = Some (map ucast m, [])"
  using assms
proof (induction m arbitrary: k)
  case (Cons b m)
  then obtain j where k: "k = Suc j" by (cases k) auto
  have big: "unat b < 2 ^ 64" using unat_less(1) [of b] by simp
  show ?case
  proof (cases m)
    case Nil
    then show ?thesis
      using strto_hex2 [of "[]" b] big k
      by (simp add: inet_mtoa_def out_of_ulong_def strtoul_def Let_def)
  next
    case (Cons c n)
    then have "inet_mtoa (b # m) = hex2 b @ CHR '':'' # inet_mtoa m" by (simp add: inet_mtoa_def)
    moreover have "mac_parts j (inet_mtoa m) = Some (map ucast m, [])"
      using Cons.IH [of j] Cons.prems k Cons by simp
    ultimately show ?thesis
      using strto_hex2 [of "CHR '':'' # inet_mtoa m" b] big k Cons.prems Cons
      by (simp add: out_of_ulong_def strtoul_def Let_def)
  qed
qed simp

lemma six_bytes:
  "length m = 6 \<Longrightarrow> \<exists>a b c d e f. m = [a, b, c, d, e, f]"
  by (auto simp: length_Suc_conv numeral_eq_Suc)

lemma small_byte: "\<not> (255 :: u64) < ucast (b :: u8)" "ucast (ucast (b :: u8) :: u64) = b"
proof -
  have "unat (ucast b :: u64) = unat b"
    by (simp add: unsigned_ucast_eq take_bit_nat_eq_self less_trans [OF unat_less(1)])
  then show "\<not> (255 :: u64) < ucast b" "ucast (ucast b :: u64) = b"
    using unat_less(1) [of b] by (simp_all add: word_less_nat_alt word_unat_eq_iff ucast_up_ucast_id is_up_def source_size_def target_size_def word_size)
qed

lemma aton_mtoa:
  assumes "length m = 6" "length e = 6"
  shows "rte_ether_aton (inet_mtoa m) e = (m, True)"
proof -
  obtain a b c d f g where m: "m = [a, b, c, d, f, g]" using six_bytes [OF assms(1)] by blast
  obtain a' b' c' d' f' g' where e: "e = [a', b', c', d', f', g']" using six_bytes [OF assms(2)] by blast
  have "mac_parts 6 (inet_mtoa m) = Some (map ucast m, [])"
    by (rule mac_parts_text) (use m in simp_all)
  then show ?thesis
    by (simp add: rte_ether_aton_def m e numeral_eq_Suc small_byte)
qed

lemma dec_short: "n < 1000 \<Longrightarrow> length (dec n) \<le> 3"
  by (simp add: dec.simps [of n] dec.simps [of "n div 10"] dec.simps [of "n div 10 div 10"])

lemma takeWhile_dec:
  assumes "r = [] \<or> \<not> isdigit (hd r)"
  shows "takeWhile isdigit (dec n @ r) = dec n" "dropWhile isdigit (dec n @ r) = r"
  using assms dec_digits [of _ n] by (cases r; auto)+

lemma takeWhile_dec_all [simp]: "takeWhile isdigit (dec n) = dec n" "dropWhile isdigit (dec n) = []"
  using takeWhile_dec [of "[]" n] by simp_all

lemma octets_text:
  assumes "bs \<noteq> []"
  shows "octets (length bs) (join_with ''.'' (map (\<lambda>b. dec (unat b)) bs)) = Some bs"
  using assms
proof (induction bs rule: induct_list012)
  case (2 b)
  have "unat b < 256" by (rule unat_less(1))
  then have "\<not> 255 < unat b" "length (dec (unat b)) \<le> 3" using dec_short [of "unat b"] by simp_all
  then show ?case by (simp add: Let_def)
next
  case (3 b c bs)
  have "unat b < 256" by (rule unat_less(1))
  then have "\<not> 255 < unat b" "length (dec (unat b)) \<le> 3" using dec_short [of "unat b"] by simp_all
  moreover have "\<not> isdigit CHR ''.''" by (simp add: char_defs)
  ultimately show ?case
    using takeWhile_dec [of "CHR ''.'' # u" "unat b" for u] 3 by (simp add: Let_def)
qed simp

lemma pton_ntop: "inet_pton4 (join_with ''.'' (map (\<lambda>b. dec (unat b)) (le32 a))) = Some a"
proof -
  have "octets 4 (join_with ''.'' (map (\<lambda>b. dec (unat b)) (le32 a))) = Some (le32 a)"
    using octets_text [of "le32 a"] unfolding length_le32 by (simp only: le32_def list.distinct not_False_eq_True simp_thms)
  then show ?thesis by (simp add: inet_pton4_def)
qed

lemma join_hd: "x \<noteq> [] \<Longrightarrow> hd (join_with s (x # xs)) = hd x \<and> join_with s (x # xs) \<noteq> []"
  by (cases xs) simp_all

lemma join_chars:
  "c \<in> set (join_with s xs) \<Longrightarrow> c \<in> set s \<or> (\<exists>x\<in>set xs. c \<in> set x)"
  by (induction s xs rule: join_with.induct) auto

lemma join_length:
  "(\<forall>x\<in>set xs. length x \<le> k) \<Longrightarrow> length (join_with [d] xs) \<le> length xs * (k + 1)"
  by (induction "[d]" xs rule: join_with.induct) auto

lemma dotted_text:
  defines "s \<equiv> \<lambda>a. join_with ''.'' (map (\<lambda>b. dec (unat b)) (le32 a))"
  shows "\<forall>c\<in>set (s a). isdigit c \<or> c = CHR ''.''" "length (s a) \<le> 16" "s a \<noteq> []"
proof -
  show "\<forall>c\<in>set (s a). isdigit c \<or> c = CHR ''.''"
    using dec_digits by (auto simp: s_def dest!: join_chars)
  have "\<forall>x\<in>set (map (\<lambda>b. dec (unat b)) (le32 a)). length x \<le> 3"
    using dec_short unat_less(1) by (force intro: dec_short less_trans)
  from join_length [OF this] show "length (s a) \<le> 16" by (simp add: s_def)
  show "s a \<noteq> []" by (simp add: s_def le32_def)
qed

lemma prefix_of_text:
  assumes "\<forall>c\<in>set s. isdigit c \<or> c = CHR ''.''" "n \<le> 128"
  shows "prefix_of (s @ ''/'' @ dec n) = Some (s, int n)"
proof -
  have d: "\<forall>c\<in>set (dec n). c \<noteq> CHR ''/''" using dec_digits digit_not_special(6) isdigit_isxdigit by blast
  then have "takeWhile (\<lambda>c. c \<noteq> CHR ''/'') (rev (s @ ''/'' @ dec n)) = rev (dec n)"
    using takeWhile_append2 [of "rev (dec n)" "\<lambda>c. c \<noteq> CHR ''/''" "CHR ''/'' # rev s"] by simp
  then show ?thesis
    using strto_dec [of "[]" n] assms(2)
    by (simp add: prefix_of_def Let_def strtol_def signed_value_def out_of_long_def)
qed

lemma token_chars:
  assumes "\<forall>c\<in>set s. isdigit c \<or> c = CHR ''.'' \<or> c = CHR ''/''"
  shows "takeWhile (\<lambda>c. \<not> rte_isendoftoken c) s = s"
proof -
  have "\<not> rte_isendoftoken c" if "isdigit c \<or> c = CHR ''.'' \<or> c = CHR ''/''" for c
    using that digit_not_special(10) [OF isdigit_isxdigit, of c] by (auto simp: rte_isendoftoken_def)
  with assms show ?thesis by (simp add: takeWhile_eq_all_conv)
qed

lemma ip_flags [simp]: "bit PG_IPADDR_V4 0" "\<not> bit PG_IPADDR_V4 2" "bit (PG_IPADDR_V4 + PG_IPADDR_NETWORK) 0"
  "bit (PG_IPADDR_V4 + PG_IPADDR_NETWORK) 2"
  by code_simp+

lemma atoip_v4:
  assumes "takeWhile (\<lambda>c. \<not> rte_isendoftoken c) str = str" "str \<noteq> []" "length str < 50"
    and "(if bit fl 2 then prefix_of str else Some (str, 0)) = Some (t, len)"
    and "bit fl 0" "len \<le> 32" "inet_pton4 t = Some a"
  shows "snd (rte_atoip pt v str fl ip) = v\<lparr>s_addr := a, prefixlen := word_of_int len\<rparr>"
  unfolding rte_atoip_def Let_def assms(1,4) option.case prod.case
  using assms(2,3,5,6,7) by simp

lemma atoip_ntop:
  "snd (rte_atoip pt v (inet_ntop4 a 0xFFFFFFFF) PG_IPADDR_V4 ip) = v\<lparr>s_addr := a, prefixlen := 0\<rparr>"
  "n \<le> 32 \<Longrightarrow> snd (rte_atoip pt v (inet_ntop4 a 0xFFFFFFFF @ ''/'' @ dec n) (PG_IPADDR_V4 + PG_IPADDR_NETWORK) ip)
     = v\<lparr>s_addr := a, prefixlen := word_of_nat n\<rparr>"
proof -
  let ?s = "join_with ''.'' (map (\<lambda>b. dec (unat b)) (le32 a))"
  note d = dotted_text [of a]
  have s: "inet_ntop4 a 0xFFFFFFFF = ?s" by (simp add: inet_ntop4_def Let_def)
  have "snd (rte_atoip pt v ?s PG_IPADDR_V4 ip) = v\<lparr>s_addr := a, prefixlen := word_of_int 0\<rparr>"
    by (rule atoip_v4 [OF token_chars _ _ _ _ _ pton_ntop]) (use d in auto)
  then show "snd (rte_atoip pt v (inet_ntop4 a 0xFFFFFFFF) PG_IPADDR_V4 ip) = v\<lparr>s_addr := a, prefixlen := 0\<rparr>"
    by (simp add: s)
  assume n: "n \<le> 32"
  have "length (dec n) \<le> 3" using dec_short n by simp
  moreover have "prefix_of (?s @ ''/'' @ dec n) = Some (?s, int n)"
    by (rule prefix_of_text) (use d n in auto)
  ultimately have "snd (rte_atoip pt v (?s @ ''/'' @ dec n) (PG_IPADDR_V4 + PG_IPADDR_NETWORK) ip)
      = v\<lparr>s_addr := a, prefixlen := word_of_int (int n)\<rparr>"
    by (intro atoip_v4 [OF token_chars _ _ _ _ _ pton_ntop]) (use d n dec_digits in auto)
  then show "snd (rte_atoip pt v (inet_ntop4 a 0xFFFFFFFF @ ''/'' @ dec n)
      (PG_IPADDR_V4 + PG_IPADDR_NETWORK) ip) = v\<lparr>s_addr := a, prefixlen := word_of_nat n\<rparr>"
    by (simp add: s)
qed

section \<open>Splitting\<close>

definition trimmed :: "string \<Rightarrow> bool" where
  "trimmed s \<longleftrightarrow> s \<noteq> [] \<and> \<not> isspace (hd s) \<and> \<not> isspace (last s)"

lemma strtrim_trimmed: "trimmed s \<Longrightarrow> rte_strtrim s = s"
proof -
  assume "trimmed s"
  then have "dropWhile isspace s = s" "dropWhile isspace (rev s) = rev s"
    by (simp_all add: trimmed_def dropWhile_eq_self_iff hd_rev)
  then show ?thesis by (simp add: rte_strtrim_def)
qed

lemma strtok_next:
  assumes "t \<noteq> []" "set t \<inter> set d = {}" "c \<in> set d"
  shows "strtok (set d) (t @ c # r) = (Some t, r)" "strtok (set d) t = (Some t, [])"
proof -
  have n: "x \<in> set t \<Longrightarrow> x \<notin> set d" for x using assms(2) by blast
  have a: "takeWhile (\<lambda>c. c \<notin> set d) t = t" "dropWhile (\<lambda>c. c \<notin> set d) t = []"
    using n by (auto simp: takeWhile_eq_all_conv)
  have b: "takeWhile (\<lambda>c. c \<notin> set d) (t @ c # r) = t" "dropWhile (\<lambda>c. c \<notin> set d) (t @ c # r) = c # r"
    using n assms(3) by (simp_all add: takeWhile_append2 dropWhile_append2)
  have "hd t \<notin> set d" using assms(1) n by simp
  then have "dropWhile (\<lambda>c. c \<in> set d) (t @ r) = t @ r" for r
    using assms(1) by (cases t) simp_all
  from this [of "c # r"] this [of "[]"] show "strtok (set d) (t @ c # r) = (Some t, r)" "strtok (set d) t = (Some t, [])"
    using assms(1) by (simp_all add: strtok_def Let_def a b del: dropWhile_append takeWhile_append)
qed

lemma strtok_join:
  assumes "length ts \<le> n" "\<forall>t\<in>set ts. trimmed t \<and> c \<notin> set t"
  shows "rte_strtok n [c] (join_with [c] ts) = ts"
  using assms
proof (induction ts arbitrary: n rule: induct_list012)
  case 1
  then show ?case by (cases n) (simp_all add: strtok_def)
next
  case (2 t)
  then obtain k where n: "n = Suc k" by (cases n) auto
  have "strtok (set [c]) t = (Some t, [])" using strtok_next [of t "[c]" c] 2 by (simp add: trimmed_def)
  moreover have "rte_strtok k [c] [] = []" by (cases k) (simp_all add: strtok_def)
  ultimately show ?case using 2 n by (simp add: strtrim_trimmed)
next
  case (3 t u ts)
  then obtain k where n: "n = Suc k" by (cases n) auto
  have "strtok (set [c]) (t @ c # r) = (Some t, r)" for r
    using strtok_next [of t "[c]" c] 3(4) by (simp add: trimmed_def)
  then show ?case using 3 n by (simp add: strtrim_trimmed)
qed

lemma strmatch_eq [simp]: "rte_strmatch s t \<longleftrightarrow> s = t"
  by (induction s t rule: rte_strmatch.induct) auto

lemma first_match_found:
  "stropt_match ts s i = (if s \<in> set ts then i + int (length (takeWhile (\<lambda>t. t \<noteq> s) ts)) else -1)"
  if "0 \<le> i"
  using that by (induction ts arbitrary: i) auto

section \<open>Port lists\<close>

fun show_interval :: "nat \<times> nat \<Rightarrow> string" where
  "show_interval (a, b) = (if a = b then dec a else dec a @ ''-'' @ dec b)"

definition show_ports :: "(nat \<times> nat) list \<Rightarrow> string" where
  "show_ports xs = join_with '','' (map show_interval xs)"

lemma bit_fold_OR:
  "bit (foldl (\<lambda>m k. m OR push_bit k 1) (m :: u64) ks) j \<longleftrightarrow> bit m j \<or> j \<in> set ks \<and> j < 64"
  by (induction ks arbitrary: m) (auto simp: bit_or_iff bit_exp_iff)

lemma bit_portlist_bits:
  "low \<le> high \<Longrightarrow> high < 64 \<Longrightarrow> bit (set_portlist_bits low high m) j \<longleftrightarrow> bit m j \<or> low \<le> j \<and> j \<le> high"
  unfolding set_portlist_bits_def bit_fold_OR by auto

lemma interval_text:
  assumes "a \<le> b" "b < 64"
  shows "port_interval (show_interval (a, b)) = (word_of_nat a, word_of_nat b)"
proof -
  have d: "\<forall>c\<in>set (dec n). c \<noteq> CHR ''-''" for n using dec_digits digit_not_special(2) isdigit_isxdigit by blast
  have "takeWhile (\<lambda>c. c \<noteq> CHR ''-'') (dec a @ CHR ''-'' # dec b) = dec a"
    "dropWhile (\<lambda>c. c \<noteq> CHR ''-'') (dec a @ CHR ''-'' # dec b) = CHR ''-'' # dec b"
    using d [of a] by (auto simp: takeWhile_append dropWhile_append)
  moreover have "dropWhile (\<lambda>c. c \<noteq> CHR ''-'') (dec a) = []"
    using d [of a] by (simp add: dropWhile_eq_Nil_conv)
  ultimately show ?thesis using assms by (cases "a = b") (simp_all add: port_interval_def Let_def del: dropWhile_eq_Nil_conv)
qed

lemma interval_trimmed: "trimmed (show_interval (a, b)) \<and> CHR '','' \<notin> set (show_interval (a, b))"
proof -
  have d: "isxdigit c" if "c \<in> set (dec n)" for c n using that dec_digits isdigit_isxdigit by blast
  have "\<not> isspace (hd (dec n))" "\<not> isspace (last (dec n))" "CHR '','' \<notin> set (dec n)" for n
    using d [of _ n] digit_not_special(1,7) dec_nonempty [of n] by (auto dest: hd_in_set last_in_set)
  then show ?thesis by (simp add: trimmed_def)
qed

lemma portlist_map_text:
  assumes "\<forall>(a, b)\<in>set xs. a \<le> b \<and> b < 64"
  shows "\<exists>m'. portlist_map (map show_interval xs) m = Some m' \<and>
    (\<forall>j. bit m' j \<longleftrightarrow> bit m j \<or> (\<exists>(a, b)\<in>set xs. a \<le> j \<and> j \<le> b))"
  using assms
proof (induction xs arbitrary: m)
  case (Cons x xs)
  obtain a b where x: "x = (a, b)" by force
  with Cons.prems have ab: "a \<le> b" "b < 64" by auto
  have u: "unat (word_of_nat a :: u64) = a" "unat (word_of_nat b :: u64) = b"
    using ab by (simp_all add: unat_of_nat take_bit_nat_eq_self)
  have "\<not> (word_of_nat a > (word_of_nat b :: u64) \<or> word_of_nat b \<ge> (64 :: u64))"
    using ab u by (simp add: word_less_nat_alt word_le_nat_alt)
  then have "portlist_map (map show_interval (x # xs)) m
      = portlist_map (map show_interval xs) (set_portlist_bits a b m)"
    using u by (simp add: x interval_text [OF ab] del: show_interval.simps)
  moreover obtain m' where "portlist_map (map show_interval xs) (set_portlist_bits a b m) = Some m'"
    "\<forall>j. bit m' j \<longleftrightarrow> bit (set_portlist_bits a b m) j \<or> (\<exists>(a, b)\<in>set xs. a \<le> j \<and> j \<le> b)"
    using Cons.IH [of "set_portlist_bits a b m"] Cons.prems by auto
  ultimately show ?case using bit_portlist_bits [OF ab] x by auto
qed simp

lemma portlist_roundtrip:
  assumes "xs \<noteq> []" "length xs \<le> 64" "\<forall>(a, b)\<in>set xs. a \<le> b \<and> b < 64"
  shows "\<exists>m. rte_parse_portlist (show_ports xs) old = (0, m) \<and>
    (\<forall>j. bit m j \<longleftrightarrow> (\<exists>(a, b)\<in>set xs. a \<le> j \<and> j \<le> b))"
proof -
  have sp: "rte_strtok MAX_SPLIT '','' (show_ports xs) = map show_interval xs"
    unfolding show_ports_def
    by (rule strtok_join) (use assms(2) interval_trimmed in \<open>auto simp: MAX_SPLIT_def\<close>)
  have "show_ports xs \<noteq> []" "hd (show_ports xs) \<noteq> CHR ''a''"
  proof -
    obtain a b ys where xs: "xs = (a, b) # ys" using assms(1) by (cases xs) auto
    have "isdigit (hd (dec a))" using dec_digits dec_nonempty hd_in_set by blast
    then have "hd (dec a) \<noteq> CHR ''a''" by (auto simp: char_defs)
    moreover have "hd (show_ports xs) = hd (dec a) \<and> show_ports xs \<noteq> []"
      using join_hd [of "show_interval (a, b)"] by (simp add: show_ports_def xs)
    ultimately show "show_ports xs \<noteq> []" "hd (show_ports xs) \<noteq> CHR ''a''" by simp_all
  qed
  moreover from this have "show_ports xs \<noteq> ''all''" by auto
  moreover obtain m where "portlist_map (map show_interval xs) 0 = Some m"
    "\<forall>j. bit m j \<longleftrightarrow> (\<exists>(a, b)\<in>set xs. a \<le> j \<and> j \<le> b)"
    using portlist_map_text [OF assms(3), of 0] by auto
  ultimately show ?thesis
    using assms(1) by (simp add: rte_parse_portlist_def sp del: foldl_Cons)
qed

section \<open>Words of a command line\<close>

text \<open>A word is written as it is or in quotes; the first word of a line is not quoted.\<close>

datatype shown_word = Plain string | Quoted string | Ticked string

primrec word_text :: "shown_word \<Rightarrow> string" where
  "word_text (Plain w) = w"
| "word_text (Quoted w) = w"
| "word_text (Ticked w) = w"

primrec show_word :: "shown_word \<Rightarrow> string" where
  "show_word (Plain w) = w"
| "show_word (Quoted w) = CHR 0x22 # w @ [CHR 0x22]"
| "show_word (Ticked w) = CHR 0x27 # w @ [CHR 0x27]"

definition plain_char :: "char \<Rightarrow> bool" where
  "plain_char c \<longleftrightarrow> \<not> isspace c \<and> c \<notin> {CHR 0x22, CHR 0x27, CHR 0x5C}"

primrec word_ok :: "shown_word \<Rightarrow> bool" where
  "word_ok (Plain w) \<longleftrightarrow> w \<noteq> [] \<and> (\<forall>c\<in>set w. plain_char c)"
| "word_ok (Quoted w) \<longleftrightarrow> set w \<inter> {CHR 0x22, CHR 0x5C} = {}"
| "word_ok (Ticked w) \<longleftrightarrow> set w \<inter> {CHR 0x27, CHR 0x5C} = {}"

definition blanks :: string where "blanks = [CHR '' '', CHR 0x0D, CHR 0x0A]"

lemma blank_chars: "plain_char c \<Longrightarrow> c \<notin> set blanks"
  by (auto simp: plain_char_def blanks_def isspace_def char_code_def)

lemma qtok_plain:
  "\<forall>c\<in>set w. plain_char c \<Longrightarrow> length av < n \<Longrightarrow>
    qtok_loop n blanks WORD u (w @ r) av = qtok_loop n blanks WORD (u @ w) r av"
proof (induction w arbitrary: u)
  case (Cons c w)
  then show ?case using blank_chars [of c] by (simp add: plain_char_def)
qed simp

lemma qtok_quote:
  "\<forall>c\<in>set w. c \<noteq> CHR 0x22 \<and> c \<noteq> CHR 0x5C \<Longrightarrow> length av < n \<Longrightarrow>
    qtok_loop n blanks STRING_QUOTE u (w @ r) av = qtok_loop n blanks STRING_QUOTE (u @ w) r av"
  by (induction w arbitrary: u) simp_all

lemma qtok_tick:
  "\<forall>c\<in>set w. c \<noteq> CHR 0x27 \<and> c \<noteq> CHR 0x5C \<Longrightarrow> length av < n \<Longrightarrow>
    qtok_loop n blanks STRING_TICK u (w @ r) av = qtok_loop n blanks STRING_TICK (u @ w) r av"
  by (induction w arbitrary: u) simp_all

lemma qtok_start:
  assumes "w \<noteq> []" "\<forall>c\<in>set w. plain_char c" "length av < n"
  shows "qtok_loop n blanks INIT u (w @ r) av = qtok_loop n blanks WORD w r av"
proof -
  obtain c v where w: "w = c # v" using assms(1) by (cases w) auto
  with assms blank_chars [of c] have "qtok_loop n blanks INIT u (w @ r) av = qtok_loop n blanks WORD [c] (v @ r) av"
    by (simp add: plain_char_def)
  with assms w qtok_plain [of v av n "[c]" r] show ?thesis by simp
qed

definition last_word :: "nat \<Rightarrow> string list \<times> tok_state \<times> string \<Rightarrow> string list" where
  "last_word n = (\<lambda>(argv, st, w). if st \<noteq> INIT \<and> length argv < n then argv @ [w] else argv)"

lemma qtok_word:
  assumes "word_ok x" "length av + 1 < n \<or> r = [] \<and> length av < n"
  shows "map_option (last_word n) (qtok_loop n blanks INIT u (show_word x @ (if r = [] then [] else CHR '' '' # r)) av)
    = (if r = [] then Some (av @ [word_text x])
       else map_option (last_word n) (qtok_loop n blanks INIT [] r (av @ [word_text x])))"
proof -
  have n: "length av < n" "r \<noteq> [] \<Longrightarrow> length av + 1 < n" using assms(2) by auto
  have b: "CHR '' '' \<in> set blanks" by (simp add: blanks_def)
  show ?thesis
  proof (cases x)
    case (Plain w)
    then show ?thesis using assms(1) n b by (cases "r = []") (simp_all add: qtok_start qtok_start [where r = "[]", simplified] last_word_def)
  next
    case (Quoted w)
    then have "\<forall>c\<in>set w. c \<noteq> CHR 0x22 \<and> c \<noteq> CHR 0x5C" using assms(1) by auto
    with Quoted n b show ?thesis by (cases "r = []") (simp_all add: qtok_quote last_word_def not_le)
  next
    case (Ticked w)
    then have "\<forall>c\<in>set w. c \<noteq> CHR 0x27 \<and> c \<noteq> CHR 0x5C" using assms(1) by auto
    with Ticked n b show ?thesis by (cases "r = []") (simp_all add: qtok_tick last_word_def not_le)
  qed
qed

lemma show_word_nonempty: "word_ok x \<Longrightarrow> show_word x \<noteq> []"
  by (cases x) auto

lemma qtok_words:
  assumes "ws \<noteq> []" "\<forall>x\<in>set ws. word_ok x" "length av + length ws \<le> n"
  shows "map_option (last_word n) (qtok_loop n blanks INIT u (join_with '' '' (map show_word ws)) av)
    = Some (av @ map word_text ws)"
  using assms
proof (induction ws arbitrary: av u rule: induct_list012)
  case (2 x)
  then show ?case using qtok_word [of x av n "[]" u] by simp
next
  case (3 x y ws)
  let ?r = "join_with '' '' (map show_word (y # ws))"
  have r: "?r \<noteq> []" using 3 show_word_nonempty [of y] join_hd [of "show_word y"] by simp
  have "map_option (last_word n) (qtok_loop n blanks INIT u (show_word x @ CHR '' '' # ?r) av)
      = map_option (last_word n) (qtok_loop n blanks INIT [] ?r (av @ [word_text x]))"
    using qtok_word [of x av n ?r u] 3 r by simp
  also have "\<dots> = Some ((av @ [word_text x]) @ map word_text (y # ws))"
    by (rule 3) (use 3(4,5) in auto)
  finally show ?case by simp
qed simp

lemma join_last: "xs \<noteq> [] \<Longrightarrow> last xs \<noteq> [] \<Longrightarrow> last (join_with s xs) = last (last xs) \<and> join_with s xs \<noteq> []"
  by (induction s xs rule: join_with.induct) (auto split: if_splits)

lemma words_trimmed:
  assumes "word_ok (Plain w)" "\<forall>x\<in>set ws. word_ok x"
  shows "trimmed (join_with '' '' (w # map show_word ws))"
proof -
  have "\<not> isspace (last (show_word x))" if "word_ok x" for x
    using that by (cases x) (auto simp: plain_char_def char_defs)
  moreover have "\<not> isspace (hd w)" using assms(1) by (auto simp: plain_char_def)
  moreover have l: "last (Plain w # ws) \<in> set (Plain w # ws)" by (rule last_in_set) simp
  ultimately have "\<not> isspace (last (show_word (last (Plain w # ws))))" "show_word (last (Plain w # ws)) \<noteq> []"
    using assms show_word_nonempty by (metis set_ConsD)+
  moreover have "last (w # map show_word ws) = show_word (last (Plain w # ws))"
    by (simp add: last_map)
  ultimately show ?thesis
    using join_last [of "w # map show_word ws" "'' ''"] join_hd [of w "'' ''" "map show_word ws"] assms(1)
      \<open>\<not> isspace (hd w)\<close> by (simp add: trimmed_def)
qed

lemma words_roundtrip:
  assumes "word_ok (Plain w)" "\<forall>x\<in>set ws. word_ok x" "length ws < n"
  shows "rte_strqtok n blanks (join_with '' '' (w # map show_word ws)) = Some (w # map word_text ws)"
proof -
  let ?s = "join_with '' '' (w # map show_word ws)"
  obtain r where s: "?s = w @ r" by (cases ws) simp_all
  have w: "w \<noteq> []" "\<forall>c\<in>set w. plain_char c" using assms(1) by auto
  have "qtok_loop n blanks WORD [] ?s [] = qtok_loop n blanks INIT [] ?s []"
    using s w assms(3) qtok_plain [of w "[]" n "[]" r] qtok_start [of w "[]" n "[]" r] by simp
  with qtok_words [of "Plain w # ws" "[]" n "[]"] assms
  have "map_option (last_word n) (qtok_loop n blanks WORD [] ?s []) = Some (w # map word_text ws)" by simp
  then show ?thesis
    using strtrim_trimmed [OF words_trimmed [OF assms(1,2)]]
    by (auto simp: rte_strqtok_def last_word_def Let_def)
qed

text \<open>C16 A command line is split into the words it was written with: the first word as it is,
  every other one as it is or between quotes or ticks, which then may hold blanks.\<close>

theorem command_words_roundtrip:
  assumes "word_ok (Plain w)" "\<forall>x\<in>set ws. word_ok x" "length ws < n"
  shows "rte_strqtok n blanks (join_with '' '' (w # map show_word ws)) = Some (w # map word_text ws)"
  by (rule words_roundtrip [OF assms])

theorem command_words_roundtrip_witness:
  "rte_strqtok 64 blanks (join_with '' '' (''lua'' # map show_word [Quoted ''a b'', Ticked [], Plain ''x=1'']))
    = Some [''lua'', ''a b'', [], ''x=1'']"
  using command_words_roundtrip [of "''lua''" "[Quoted ''a b'', Ticked [], Plain ''x=1'']" 64]
  by (simp add: plain_char_def char_defs)

section \<open>Command maps\<close>

text \<open>What an argument must be to fit a token of a map entry.\<close>

definition arg_fits :: "string \<Rightarrow> string \<Rightarrow> bool" where
  "arg_fits m a \<longleftrightarrow>
     (if take 1 m \<noteq> ''%'' then a = m
      else case m of
        p # f # r \<Rightarrow>
          if f = CHR ''k'' then True
          else if f = CHR ''|'' then a \<in> set (rte_strtok STR_MAX_ARGVS ''|'' r)
          else (case map_class f of None \<Rightarrow> False | Some ok \<Rightarrow> \<exists>c\<in>set a. ok c)
      | _ \<Rightarrow> False)"

definition map_tokens :: "cli_map \<Rightarrow> string list" where
  "map_tokens m = rte_strtok CLI_MAX_ARGVS '' '' (snd m)"

lemma scan_arg_any: "a \<noteq> [] \<Longrightarrow> scan_arg ok a = Some (\<exists>c\<in>set a. ok c)"
  by (induction ok a rule: scan_arg.induct) auto

lemma strtok_skip: "c \<in> set d \<Longrightarrow> rte_strtok n d (c # r) = rte_strtok n d r"
  by (cases n) (simp_all add: strtok_def)

lemma stropt_bar: "rte_stropt (CHR ''|'' # r) a ''|'' = stropt_match (rte_strtok STR_MAX_ARGVS ''|'' r) a 0"
  by (simp add: rte_stropt_def strtok_skip)

lemma is_map_valid_fits:
  "take 1 m = ''%'' \<Longrightarrow> a \<noteq> [] \<Longrightarrow> is_map_valid m a = Some (arg_fits m a)"
  by (auto simp: is_map_valid_def arg_fits_def scan_arg_any stropt_bar first_match_found
      split: list.splits option.splits)

lemma map_fits_all:
  "length ms = length argv \<Longrightarrow> [] \<notin> set argv \<Longrightarrow> map_fits ms argv = Some (list_all2 arg_fits ms argv)"
proof (induction ms argv rule: map_fits.induct)
  case (1 m ms a argv)
  then have "(if take 1 m = ''%'' then is_map_valid m a else Some (rte_strmatch m a)) = Some (arg_fits m a)"
    using is_map_valid_fits [of m a] by (auto simp: arg_fits_def)
  with 1 show ?case by (cases "arg_fits m a") simp_all
qed auto



text \<open>C18 A list of port intervals, written with commas and dashes, is read back as the set of
  the ports of the intervals.\<close>

theorem portlist_reads_back:
  assumes "xs \<noteq> []" "length xs \<le> 64" "\<forall>(a, b)\<in>set xs. a \<le> b \<and> b < 64"
  shows "\<exists>m. rte_parse_portlist (show_ports xs) old = (0, m) \<and>
    (\<forall>j. bit m j \<longleftrightarrow> (\<exists>(a, b)\<in>set xs. a \<le> j \<and> j \<le> b))"
  by (rule portlist_roundtrip [OF assms])

theorem portlist_reads_back_witness:
  "\<exists>m. rte_parse_portlist ''2,4,6-9'' 0 = (0, m) \<and> bit m 7 \<and> \<not> bit m 3"
proof -
  have "show_ports [(2, 2), (4, 4), (6, 9)] = ''2,4,6-9''" by code_simp
  with portlist_reads_back [of "[(2, 2), (4, 4), (6, 9)]" 0] show ?thesis by auto
qed

text \<open>C19 A MAC address that is printed is read back, and so is an IPv4 address, with its
  prefix length when it is printed with a mask.\<close>

theorem addresses_read_back:
  assumes "length m = 6" "length e = 6"
  shows "rte_ether_aton (inet_mtoa m) e = (m, True)
    \<and> snd (rte_atoip pt v (inet_ntop4 a 0xFFFFFFFF) PG_IPADDR_V4 ip) = v\<lparr>s_addr := a, prefixlen := 0\<rparr>
    \<and> (w \<noteq> 0xFFFFFFFF \<longrightarrow> snd (rte_atoip pt v (inet_ntop4 a w) (PG_IPADDR_V4 + PG_IPADDR_NETWORK) ip)
      = v\<lparr>s_addr := a, prefixlen := word_of_nat (mask_size w)\<rparr>)"
proof (intro conjI impI)
  show "rte_ether_aton (inet_mtoa m) e = (m, True)" by (rule aton_mtoa [OF assms])
  show "snd (rte_atoip pt v (inet_ntop4 a 0xFFFFFFFF) PG_IPADDR_V4 ip) = v\<lparr>s_addr := a, prefixlen := 0\<rparr>"
    by (rule atoip_ntop(1))
  assume "w \<noteq> 0xFFFFFFFF"
  then have "inet_ntop4 a w = inet_ntop4 a 0xFFFFFFFF @ ''/'' @ dec (mask_size w)"
    by (simp add: inet_ntop4_def Let_def)
  moreover have "mask_size w \<le> 32" using mask_size_leading_ones by blast
  ultimately show "snd (rte_atoip pt v (inet_ntop4 a w) (PG_IPADDR_V4 + PG_IPADDR_NETWORK) ip)
      = v\<lparr>s_addr := a, prefixlen := word_of_nat (mask_size w)\<rparr>"
    using atoip_ntop(2) by simp
qed

theorem addresses_read_back_witness:
  "rte_ether_aton ''00:1b:21:3c:9d:f8'' [0, 0, 0, 0, 0, 0] = ([0x00, 0x1B, 0x21, 0x3C, 0x9D, 0xF8], True) \<and>
   prefixlen (snd (rte_atoip (\<lambda>_. None) \<lparr>s_addr = 0, s6_tail = replicate 12 0, prefixlen = 0\<rparr> ''10.1.2.3/24'' 5 \<lparr>s_addr = 1, s6_tail = replicate 12 0, prefixlen = 0\<rparr>)) = 24"
proof -
  let ?m = "[0x00, 0x1B, 0x21, 0x3C, 0x9D, 0xF8] :: u8 list"
  have "inet_mtoa ?m = ''00:1b:21:3c:9d:f8''" "inet_ntop4 0x0302010A 0xFFFFFF00 = ''10.1.2.3/24''"
    "word_of_nat (mask_size 0xFFFFFF00) = (24 :: u32)" "PG_IPADDR_V4 + PG_IPADDR_NETWORK = 5"
    by code_simp+
  with addresses_read_back [where m = ?m and e = "[0, 0, 0, 0, 0, 0]" and w = "0xFFFFFF00" and pt = "\<lambda>_. None"
      and v = "\<lparr>s_addr = 0, s6_tail = replicate 12 0, prefixlen = 0\<rparr>" and a = "0x0302010A"
      and ip = "\<lparr>s_addr = 1, s6_tail = replicate 12 0, prefixlen = 0\<rparr>"]
  show ?thesis by simp
qed

section \<open>What the code does against its description\<close>

text \<open>A number or an address is any argument with one character of its class.\<close>

lemma any_digit_is_a_number:
  "is_map_valid ''%d'' ''abc1'' = Some True" "is_map_valid ''%4'' ''x7'' = Some True"
  "is_map_valid ''%P'' ''wham!'' = Some True"
  by code_simp+

text \<open>A dash without a first port starts at port 0, and a list with more than 64 entries is cut.\<close>

lemma portlist_dash: "rte_parse_portlist ''-3'' 0 = (0, 15)"
  by code_simp

lemma portlist_no_number: "rte_parse_portlist ''none'' 0 = (0, 1)"
  by code_simp

text \<open>A backslash drops the part of the word before it.\<close>

lemma backslash_drops_word:
  "rte_strqtok 64 blanks (''echo ab'' @ [CHR 0x5C] @ ''cd'') = Some [''echo'', ''cd'']"
  "rte_strqtok 64 blanks (''echo ab'' @ [CHR 0x5C]) = None"
  by code_simp+

text \<open>A quote at the start of a line does not open a string.\<close>

lemma first_word_quote:
  "rte_strqtok 64 blanks [CHR 0x22, CHR ''a'', CHR '' '', CHR ''b'', CHR 0x22] = Some [[CHR 0x22, CHR ''a''], [CHR ''b'', CHR 0x22]]"
  by code_simp

lemma map_dump_unknown: "cli_map_dump [(10, ''page %d'')] [''page''] = None"
  by code_simp

end
