(* ===== verification/Nodes.thy ===== *)
theory Nodes
  imports CliText
begin

text \<open>
  The tree of the command line (\<open>lib/cli/cli.c\<close>, \<open>cli_search.c\<close>, \<open>cli.h\<close>) and its
  environment variables (\<open>cli_env.c\<close>).

  The nodes are taken from a pool and a pointer to a node is its number in the pool; a pointer
  outside of the pool must not be used.  A function pointer is the name of the function.
  A path must fit into the buffers of the code (\<open>CLI_MAX_PATH_LENGTH\<close>); None stands for
  undefined behaviour.
\<close>

section \<open>State\<close>

datatype node_type = CLI_UNK_NODE | CLI_DIR_NODE | CLI_CMD_NODE | CLI_FILE_NODE | CLI_ALIAS_NODE | CLI_STR_NODE

definition CLI_EXE_TYPE :: "node_type list" where "CLI_EXE_TYPE = [CLI_CMD_NODE, CLI_ALIAS_NODE]"
definition CLI_ALL_TYPE :: "node_type list" where "CLI_ALL_TYPE = CLI_EXE_TYPE @ [CLI_FILE_NODE, CLI_DIR_NODE]"

record cli_node =
  n_parent :: "nat option"
  n_name :: string
  n_type :: node_type
  n_func :: "string option"
  n_desc :: "string option"
  n_alias :: "string option"
  n_items :: "nat list"

text \<open>The name has a size as well (\<open>name_sz\<close>), which is its length.\<close>

record tree =
  pool :: "cli_node list"
  free_nodes :: "nat list"
  root :: "nat option"
  bins :: "nat option list"
  unlimited :: bool

definition CLI_MAX_BINS :: nat where "CLI_MAX_BINS = 32"
definition CLI_MAX_PATH_LENGTH :: nat where "CLI_MAX_PATH_LENGTH = 2048"
definition CLI_NAME_LEN :: nat where "CLI_NAME_LEN = 64"
definition CLI_DEFAULT_NB_NODES :: nat where "CLI_DEFAULT_NB_NODES = 256"
definition CLI_ROOT_NAME :: string where "CLI_ROOT_NAME = ''/''"

definition node_at :: "tree \<Rightarrow> nat \<Rightarrow> cli_node option" where
  "node_at t k = (if k < length (pool t) then Some (pool t ! k) else None)"

definition upd_node :: "nat \<Rightarrow> (cli_node \<Rightarrow> cli_node) \<Rightarrow> tree \<Rightarrow> tree option" where
  "upd_node k f t = (if k < length (pool t) then Some (t\<lparr>pool := (pool t)[k := f (pool t ! k)]\<rparr>) else None)"

definition get_cwd :: "tree \<Rightarrow> nat option" where "get_cwd t = bins t ! 0"
definition set_cwd :: "nat option \<Rightarrow> tree \<Rightarrow> tree" where "set_cwd d t = t\<lparr>bins := (bins t)[0 := d]\<rparr>"

definition is_node :: "tree \<Rightarrow> nat \<Rightarrow> node_type list \<Rightarrow> bool option" where
  "is_node t k ty = map_option (\<lambda>n. n_type n \<in> set ty) (node_at t k)"

definition is_directory :: "tree \<Rightarrow> nat \<Rightarrow> bool option" where
  "is_directory t k = is_node t k [CLI_DIR_NODE]"

section \<open>Search\<close>

text \<open>The first item of a directory with a name and one of the types.\<close>

fun first_item :: "tree \<Rightarrow> string \<Rightarrow> node_type list \<Rightarrow> nat list \<Rightarrow> nat option option" where
  "first_item t name ty [] = Some None"
| "first_item t name ty (k # ks) = do {
     n \<leftarrow> node_at t k;
     if rte_strmatch (n_name n) name \<and> n_type n \<in> set ty then Some (Some k) else first_item t name ty ks }"

definition cli_search_dir :: "tree \<Rightarrow> nat option \<Rightarrow> string \<Rightarrow> node_type list \<Rightarrow> nat option option" where
  "cli_search_dir t dir name ty =
     (if name = [] then Some None
      else do {
        dir \<leftarrow> (case dir of None \<Rightarrow> map_option Some (get_cwd t)
          | Some d \<Rightarrow> map_option (\<lambda>b. if b then Some d else None) (is_directory t d));
        case dir of None \<Rightarrow> Some None
        | Some d \<Rightarrow> do {
            n \<leftarrow> node_at t d;
            if name = ''..'' then Some (n_parent n)
            else if name = ''.'' then Some (Some d)
            else first_item t name ty (n_items n) } })"

text \<open>The walk along the parts of a path: the last directory, and the node.\<close>

fun follow :: "tree \<Rightarrow> nat option \<Rightarrow> nat option \<Rightarrow> string list \<Rightarrow> (nat option \<times> nat option) option" where
  "follow t dir node [] = Some (dir, node)"
| "follow t dir node (p # ps) = do {
     node \<leftarrow> cli_search_dir t dir p CLI_ALL_TYPE;
     case node of None \<Rightarrow> Some (dir, None)
     | Some k \<Rightarrow> do {
         d \<leftarrow> is_directory t k;
         if d then follow t (Some k) (Some k) ps else Some (dir, Some k) } }"

definition path_parts :: "string \<Rightarrow> string list" where
  "path_parts path = rte_strtok CLI_MAX_ARGVS ''/'' (if take 1 path = ''/'' then tl path else path)"

definition start_dir :: "tree \<Rightarrow> string \<Rightarrow> nat option" where
  "start_dir t path = (if take 1 path = ''/'' then root t else get_cwd t)"

text \<open>The node, when there is one: then the code returns 1.\<close>

definition cli_find_node :: "tree \<Rightarrow> string \<Rightarrow> nat option option" where
  "cli_find_node t path =
     (if path = [] then Some None
      else if path = ''/'' then Some (root t)
      else map_option snd (follow t (start_dir t path) None (path_parts path)))"

definition cli_last_node_in_path :: "tree \<Rightarrow> string \<Rightarrow> nat option option" where
  "cli_last_node_in_path t path =
     (if path = [] then Some (get_cwd t)
      else if path = ''/'' then Some (root t)
      else map_option fst (follow t (start_dir t path) None (path_parts path)))"

fun search_bins :: "tree \<Rightarrow> string \<Rightarrow> nat option list \<Rightarrow> nat option option" where
  "search_bins t path [] = Some None"
| "search_bins t path (None # ds) = search_bins t path ds"
| "search_bins t path (Some d # ds) = do {
     cmd \<leftarrow> cli_search_dir t (Some d) path CLI_EXE_TYPE;
     case cmd of Some k \<Rightarrow> Some (Some k) | None \<Rightarrow> search_bins t path ds }"

definition cli_find_cmd :: "tree \<Rightarrow> string \<Rightarrow> nat option option" where
  "cli_find_cmd t path = do {
     cmd \<leftarrow> cli_find_node t path;
     case cmd of Some k \<Rightarrow> Some (Some k) | None \<Rightarrow> search_bins t path (bins t) }"

text \<open>A scan stops when the function returns something other than 0.\<close>

fun scan_items :: "tree \<Rightarrow> (nat \<Rightarrow> 'a \<Rightarrow> 'a \<times> int) \<Rightarrow> node_type list \<Rightarrow> nat list \<Rightarrow> 'a \<Rightarrow> ('a \<times> int) option" where
  "scan_items t f ty [] a = Some (a, 0)"
| "scan_items t f ty (k # ks) a = do {
     hit \<leftarrow> is_node t k ty;
     if hit then (let (a, r) = f k a in if r \<noteq> 0 then Some (a, r) else scan_items t f ty ks a)
     else scan_items t f ty ks a }"

definition cli_scan_directory ::
    "tree \<Rightarrow> nat option \<Rightarrow> (nat \<Rightarrow> 'a \<Rightarrow> 'a \<times> int) \<Rightarrow> node_type list \<Rightarrow> 'a \<Rightarrow> ('a \<times> int) option" where
  "cli_scan_directory t dir f ty a = do {
     d \<leftarrow> (if dir = None then root t else dir);
     n \<leftarrow> node_at t d;
     scan_items t f ty (n_items n) a }"

definition cli_scan_path :: "tree \<Rightarrow> string \<Rightarrow> (nat \<Rightarrow> 'a \<Rightarrow> 'a \<times> int) \<Rightarrow> node_type list \<Rightarrow> 'a \<Rightarrow> ('a \<times> int) option" where
  "cli_scan_path t path f ty a = do {
     node \<leftarrow> cli_find_node t path;
     case node of None \<Rightarrow> Some (a, 0)
     | Some k \<Rightarrow> map_option (\<lambda>(a, r). (a, if r \<noteq> 0 then 1 else 0)) (cli_scan_directory t (Some k) f ty a) }"

definition count_nodes :: "nat \<Rightarrow> nat \<Rightarrow> nat \<times> int" where "count_nodes k n = (n + 1, 0)"

definition cli_dir_item_count :: "tree \<Rightarrow> nat option \<Rightarrow> node_type list \<Rightarrow> nat option" where
  "cli_dir_item_count t dir ty =
     (case dir of None \<Rightarrow> Some 0
      | Some d \<Rightarrow> do {
          b \<leftarrow> is_directory t d;
          if b then map_option fst (cli_scan_directory t (Some d) count_nodes ty 0) else Some 0 })"

definition cli_path_item_count :: "tree \<Rightarrow> node_type list \<Rightarrow> nat option" where
  "cli_path_item_count t ty = map_option sum_list (those (map (\<lambda>d. cli_dir_item_count t d ty) (bins t)))"

definition cli_path_cmd_count :: "tree \<Rightarrow> nat option" where
  "cli_path_cmd_count t = cli_path_item_count t CLI_EXE_TYPE"

definition collect_node :: "nat \<Rightarrow> nat list \<Rightarrow> nat list \<times> int" where "collect_node k ks = (ks @ [k], 0)"

text \<open>The bins that are listed: not those after the first that are the current directory.\<close>

definition listed_bins :: "tree \<Rightarrow> nat list" where
  "listed_bins t = concat (map (\<lambda>i. case bins t ! i of None \<Rightarrow> []
     | Some d \<Rightarrow> if i > 0 \<and> Some d = get_cwd t then [] else [d]) [0..<length (bins t)])"

definition cli_node_list_with_type :: "tree \<Rightarrow> nat option \<Rightarrow> node_type list \<Rightarrow> nat list option" where
  "cli_node_list_with_type t node ty =
     (case node of
        Some d \<Rightarrow> do {
          n \<leftarrow> cli_dir_item_count t (Some d) ty;
          if n = 0 then Some [] else map_option fst (cli_scan_directory t (Some d) collect_node ty []) }
      | None \<Rightarrow> do {
          n \<leftarrow> cli_path_item_count t ty;
          if n = 0 then Some []
          else map_option concat (those (map (\<lambda>d. map_option fst (cli_scan_directory t (Some d) collect_node ty [])) (listed_bins t))) })"

section \<open>Paths\<close>

text \<open>\<open>n\<close> bounds the depth.\<close>

fun cli_path_string :: "nat \<Rightarrow> tree \<Rightarrow> nat \<Rightarrow> string option" where
  "cli_path_string 0 t k = None"
| "cli_path_string (Suc n) t k = do {
     nd \<leftarrow> node_at t k;
     case n_parent nd of None \<Rightarrow> Some ''/''
     | Some p \<Rightarrow> map_option (\<lambda>s. s @ n_name nd @ ''/'') (cli_path_string n t p) }"

definition cli_cwd_path :: "nat \<Rightarrow> tree \<Rightarrow> string option" where
  "cli_cwd_path n t = Option.bind (get_cwd t) (cli_path_string n t)"

section \<open>Adding and removing nodes\<close>

text \<open>With an unlimited pool the code grows it, when \<open>realloc\<close> can do so in place
  (\<open>grow\<close>), and then returns the node behind the last new one.\<close>

definition blank_node :: cli_node where
  "blank_node = \<lparr>n_parent = None, n_name = [], n_type = CLI_UNK_NODE, n_func = None, n_desc = None, n_alias = None, n_items = []\<rparr>"

definition cli_alloc :: "bool \<Rightarrow> tree \<Rightarrow> nat option \<times> tree" where
  "cli_alloc grow t =
     (case free_nodes t of
        k # ks \<Rightarrow> (Some k, t\<lparr>free_nodes := ks\<rparr>)
      | [] \<Rightarrow>
          if unlimited t \<and> grow then
            let n = length (pool t)
            in (Some (n + CLI_DEFAULT_NB_NODES),
                t\<lparr>pool := pool t @ replicate CLI_DEFAULT_NB_NODES blank_node, free_nodes := [n..<n + CLI_DEFAULT_NB_NODES]\<rparr>)
          else (None, t))"

definition cli_free :: "nat \<Rightarrow> tree \<Rightarrow> tree" where
  "cli_free k t = t\<lparr>free_nodes := free_nodes t @ [k]\<rparr>"

definition index_of :: "nat option \<Rightarrow> nat option list \<Rightarrow> nat option" where
  "index_of d ds = (if d \<in> set ds then Some (length (takeWhile (\<lambda>x. x \<noteq> d) ds)) else None)"

definition cli_add_bin :: "nat option \<Rightarrow> tree \<Rightarrow> (int \<times> tree) option" where
  "cli_add_bin dir t =
     (case dir of None \<Rightarrow> Some (-1, t)
      | Some d \<Rightarrow> do {
          b \<leftarrow> is_directory t d;
          if \<not> b then Some (-1, t)
          else if Some d \<in> set (tl (bins t)) then Some (0, t)
          else case index_of None (tl (bins t)) of
            Some i \<Rightarrow> Some (0, t\<lparr>bins := (bins t)[Suc i := Some d]\<rparr>)
          | None \<Rightarrow> Some (-1, t) })"

definition cli_del_bin :: "nat option \<Rightarrow> tree \<Rightarrow> (int \<times> tree) option" where
  "cli_del_bin dir t =
     (case dir of None \<Rightarrow> Some (-1, t)
      | Some d \<Rightarrow> do {
          b \<leftarrow> is_directory t d;
          if \<not> b then Some (-1, t)
          else case index_of (Some d) (bins t) of
            Some i \<Rightarrow> Some (0, t\<lparr>bins := take i (bins t) @ drop (Suc i) (bins t) @ [None]\<rparr>)
          | None \<Rightarrow> Some (-1, t) })"

definition cli_add_bin_path :: "string \<Rightarrow> tree \<Rightarrow> (int \<times> tree) option" where
  "cli_add_bin_path path t = do {
     node \<leftarrow> cli_find_node t path;
     case node of None \<Rightarrow> Some (-1, t)
     | Some k \<Rightarrow> do { (r, t) \<leftarrow> cli_add_bin (Some k) t; Some (if r \<noteq> 0 then -1 else 0, t) } }"

text \<open>A node is removed after its items; \<open>n\<close> bounds the number of calls.\<close>

fun cli_remove_node :: "nat \<Rightarrow> nat \<Rightarrow> tree \<Rightarrow> (int \<times> tree) option" and
    remove_items :: "nat \<Rightarrow> nat \<Rightarrow> tree \<Rightarrow> (int \<times> tree) option" where
  "cli_remove_node 0 k t = None"
| "cli_remove_node (Suc n) k t = do {
     nd \<leftarrow> node_at t k;
     case n_parent nd of None \<Rightarrow> Some (-1, t)
     | Some p \<Rightarrow>
         if n_type nd = CLI_UNK_NODE then Some (-1, t)
         else do {
           (r, t) \<leftarrow> (if n_type nd = CLI_DIR_NODE then remove_items n k t else Some (0, t));
           if r \<noteq> 0 then Some (-1, t)
           else do {
             (_, t) \<leftarrow> (if n_type nd = CLI_DIR_NODE then cli_del_bin (Some k) t else Some (0, t));
             t \<leftarrow> upd_node p (\<lambda>nd. nd\<lparr>n_items := remove1 k (n_items nd)\<rparr>) t;
             Some (0, cli_free k t) } } }"
| "remove_items 0 k t = None"
| "remove_items (Suc n) k t = do {
     nd \<leftarrow> node_at t k;
     case n_items nd of [] \<Rightarrow> Some (0, t)
     | c # cs \<Rightarrow> do {
         (r, t) \<leftarrow> cli_remove_node n c t;
         if r \<noteq> 0 then Some (-1, t) else remove_items n k t } }"

text \<open>What a node of a type needs: a parent (the root apart) and the right function pointer.\<close>

definition may_add :: "string \<Rightarrow> nat option \<Rightarrow> node_type \<Rightarrow> string option \<Rightarrow> string option \<Rightarrow> bool" where
  "may_add name parent ty func desc =
     (case ty of
        CLI_DIR_NODE \<Rightarrow> (if parent \<noteq> None then name \<noteq> CLI_ROOT_NAME else name = CLI_ROOT_NAME) \<and> func = None
      | CLI_CMD_NODE \<Rightarrow> parent \<noteq> None \<and> func \<noteq> None
      | CLI_FILE_NODE \<Rightarrow> parent \<noteq> None \<and> func \<noteq> None
      | CLI_ALIAS_NODE \<Rightarrow> parent \<noteq> None \<and> func = None
      | CLI_STR_NODE \<Rightarrow> func \<noteq> None \<or> desc \<noteq> None
      | CLI_UNK_NODE \<Rightarrow> False)"

definition add_node :: "bool \<Rightarrow> string \<Rightarrow> nat option \<Rightarrow> node_type \<Rightarrow> string option \<Rightarrow> string option \<Rightarrow> tree
    \<Rightarrow> (nat option \<times> tree) option" where
  "add_node grow name parent ty func desc t =
     (if \<not> may_add name parent ty func desc then Some (None, t)
      else case cli_alloc grow t of
        (None, t) \<Rightarrow> Some (None, t)
      | (Some k, t) \<Rightarrow> do {
          t \<leftarrow> upd_node k (\<lambda>n. n\<lparr>n_type := ty, n_parent := parent, n_desc := desc, n_name := take (CLI_NAME_LEN - 1) name,
                 n_func := (if ty \<in> {CLI_CMD_NODE, CLI_ALIAS_NODE, CLI_FILE_NODE} then func else n_func n)\<rparr>) t;
          t \<leftarrow> (case parent of None \<Rightarrow> Some t | Some p \<Rightarrow> upd_node p (\<lambda>n. n\<lparr>n_items := k # n_items n\<rparr>) t);
          Some (Some k, t) })"

text \<open>The directories of a path: the parts are appended to the path without a separator.\<close>

fun add_parts :: "bool \<Rightarrow> string list \<Rightarrow> string \<Rightarrow> nat option \<Rightarrow> nat option \<Rightarrow> tree \<Rightarrow> (nat option \<times> tree) option" where
  "add_parts grow [] path dir n t = Some (n, t)"
| "add_parts grow (p # ps) path dir n t =
     (if length (path @ p) \<ge> CLI_MAX_PATH_LENGTH then None
      else do {
        found \<leftarrow> cli_find_node t (path @ p);
        case found of Some k \<Rightarrow> add_parts grow ps (path @ p) (Some k) n t
        | None \<Rightarrow> do {
            (n, t) \<leftarrow> add_node grow p dir CLI_DIR_NODE None None t;
            case n of None \<Rightarrow> Some (None, t) | Some k \<Rightarrow> add_parts grow ps (path @ p) (Some k) (Some k) t } })"

definition cli_add_dir :: "bool \<Rightarrow> string \<Rightarrow> nat option \<Rightarrow> tree \<Rightarrow> (nat option \<times> tree) option" where
  "cli_add_dir grow name dir t = do {
     found \<leftarrow> cli_find_node t name;
     case found of Some k \<Rightarrow> Some (Some k, t)
     | None \<Rightarrow>
         let dir = (if dir = None \<or> take 1 name = ''/'' then root t else dir)
         in add_parts grow (path_parts name) (if take 1 name = ''/'' then ''/'' else []) dir None t }"

definition cli_add_cmd :: "bool \<Rightarrow> string \<Rightarrow> nat option \<Rightarrow> string option \<Rightarrow> string option \<Rightarrow> tree \<Rightarrow> (nat option \<times> tree) option" where
  "cli_add_cmd grow name dir func desc t = add_node grow name dir CLI_CMD_NODE func desc t"

definition cli_add_file :: "bool \<Rightarrow> string \<Rightarrow> nat option \<Rightarrow> string option \<Rightarrow> string option \<Rightarrow> tree \<Rightarrow> (nat option \<times> tree) option" where
  "cli_add_file grow name dir func desc t = add_node grow name dir CLI_FILE_NODE func desc t"

text \<open>The new alias is used without a test for NULL.\<close>

definition cli_add_alias :: "bool \<Rightarrow> string \<Rightarrow> nat option \<Rightarrow> string \<Rightarrow> string option \<Rightarrow> tree \<Rightarrow> (nat option \<times> tree) option" where
  "cli_add_alias grow name dir line desc t = do {
     (alias, t) \<leftarrow> add_node grow name dir CLI_ALIAS_NODE None desc t;
     k \<leftarrow> alias;
     t \<leftarrow> upd_node k (\<lambda>n. n\<lparr>n_alias := Some line\<rparr>) t;
     Some (alias, t) }"

definition cli_create_root :: "bool \<Rightarrow> string \<Rightarrow> tree \<Rightarrow> (nat option \<times> tree) option" where
  "cli_create_root grow name t = do {
     (k, t) \<leftarrow> add_node grow name None CLI_DIR_NODE None None t;
     Some (case k of None \<Rightarrow> (None, t) | Some _ \<Rightarrow> (k, set_cwd k (t\<lparr>root := k\<rparr>))) }"

text \<open>The nodes of \<open>cli_init\<close>: \<open>nb\<close> is 0 for the default number and -1 for a pool that grows.\<close>

definition init_nodes :: "int \<Rightarrow> (nat option \<times> tree) option" where
  "init_nodes nb =
     (let n = (if nb = 0 \<or> nb = -1 then CLI_DEFAULT_NB_NODES else nat nb)
      in cli_create_root False CLI_ROOT_NAME
           \<lparr>pool = replicate n blank_node, free_nodes = [0..<n], root = None,
            bins = replicate CLI_MAX_BINS None, unlimited = (nb = -1)\<rparr>)"

section \<open>Environment\<close>

text \<open>A variable has a value, which is freed (None) when it is set again, and a function that
  computes what is shown of it: a new node is not cleared, so the function is unknown (None) until
  \<open>cli_env_string\<close> sets it.\<close>

record env_node =
  e_var :: string
  e_val :: "string option"
  e_fun :: "(string \<Rightarrow> string) option option"

type_synonym cli_env = "env_node list"

definition find_env :: "string \<Rightarrow> cli_env \<Rightarrow> nat option" where
  "find_env var env = (if var \<in> e_var ` set env then Some (length (takeWhile (\<lambda>n. e_var n \<noteq> var) env)) else None)"

text \<open>A variable that is found gets the new value as its name; its old value is freed, and
  must not have been freed before.\<close>

definition env_set :: "string \<Rightarrow> string \<Rightarrow> cli_env \<Rightarrow> (nat \<times> cli_env) option" where
  "env_set var val env =
     (case find_env var env of
        Some k \<Rightarrow> if e_val (env ! k) = None then None else Some (k, env[k := (env ! k)\<lparr>e_val := None, e_var := val\<rparr>])
      | None \<Rightarrow> Some (length env, env @ [\<lparr>e_var = var, e_val = Some val, e_fun = None\<rparr>]))"

definition cli_env_set :: "string \<Rightarrow> string \<Rightarrow> cli_env \<Rightarrow> (int \<times> cli_env) option" where
  "cli_env_set var val env = map_option (\<lambda>(_, env). (0, env)) (env_set var val env)"

definition cli_env_string :: "string \<Rightarrow> (string \<Rightarrow> string) option \<Rightarrow> string \<Rightarrow> cli_env \<Rightarrow> (int \<times> cli_env) option" where
  "cli_env_string var sfunc val env =
     map_option (\<lambda>(k, env). (0, env[k := (env ! k)\<lparr>e_fun := Some sfunc\<rparr>])) (env_set var val env)"

definition env_show :: "env_node \<Rightarrow> string option" where
  "env_show n = do { f \<leftarrow> e_fun n; v \<leftarrow> e_val n; Some (case f of None \<Rightarrow> v | Some f \<Rightarrow> f v) }"

text \<open>The value, or NULL.\<close>

definition cli_env_get :: "string \<Rightarrow> cli_env \<Rightarrow> string option option" where
  "cli_env_get var env =
     (case find_env var env of None \<Rightarrow> Some None | Some k \<Rightarrow> map_option Some (env_show (env ! k)))"

definition cli_env_del :: "string \<Rightarrow> cli_env \<Rightarrow> (int \<times> cli_env) option" where
  "cli_env_del var env =
     (case find_env var env of None \<Rightarrow> Some (-1, env)
      | Some k \<Rightarrow> if e_val (env ! k) = None then None else Some (0, take k env @ drop (Suc k) env))"

definition cli_env_get_all :: "nat \<Rightarrow> cli_env \<Rightarrow> cli_env" where
  "cli_env_get_all max_size env = (if max_size = 0 then env else take max_size env)"

definition cli_env_show :: "cli_env \<Rightarrow> (string \<times> string) list option" where
  "cli_env_show env = those (map (\<lambda>n. map_option (Pair (e_var n)) (env_show n)) env)"

text \<open>The substitution copies the line to a buffer of \<open>sz + 1\<close> bytes; \<open>t\<close> is what was
  copied.  A variable that is not set is replaced by a text.\<close>

definition close_of :: "char \<Rightarrow> char" where
  "close_of c = (if c = CHR ''{'' then CHR ''}'' else CHR '')'')"

function subst_loop :: "cli_env \<Rightarrow> nat \<Rightarrow> string \<Rightarrow> string \<Rightarrow> string option" where
  "subst_loop env sz [] t = Some t"
| "subst_loop env sz (c # r) t =
     (let var = takeWhile (\<lambda>x. x \<noteq> close_of (hd r)) (tl r); rest = dropWhile (\<lambda>x. x \<noteq> close_of (hd r)) (tl r)
      in if c = CHR ''$'' \<and> r \<noteq> [] \<and> hd r \<in> {CHR ''{'', CHR ''(''} \<and> rest \<noteq> [] then do {
           v \<leftarrow> cli_env_get var env;
           let t = t @ (case v of None \<Rightarrow> ''oops!'' | Some v \<Rightarrow> v);
           guard (length t \<le> sz);
           subst_loop env sz (tl rest) t }
         else if length t < sz then subst_loop env sz r (t @ [c]) else None)"
  by pat_completeness auto
termination
proof (relation "measure (\<lambda>(env, sz, s, t). length s)")
  fix env :: cli_env and sz :: nat and c r t and var rest :: string
  assume "rest = dropWhile (\<lambda>x. x \<noteq> close_of (hd r)) (tl r)" "c = CHR ''$'' \<and> r \<noteq> [] \<and> hd r \<in> {CHR ''{'', CHR ''(''} \<and> rest \<noteq> []"
  then have "length (tl rest) < Suc (length r)"
    using length_dropWhile_le [of "\<lambda>x. x \<noteq> close_of (hd r)" "tl r"] by simp
  then show "((env, sz, tl rest, t'), env, sz, c # r, t) \<in> measure (\<lambda>(env, sz, s, t). length s)" for t' by simp
qed auto

text \<open>The line was shorter than its buffer; the result is cut to \<open>sz - 1\<close> characters.\<close>

definition cli_env_substitution :: "cli_env \<Rightarrow> string \<Rightarrow> nat \<Rightarrow> string option" where
  "cli_env_substitution env line sz =
     (if sz = 0 then Some line
      else if length line > sz then None
      else map_option (take (sz - 1)) (subst_loop env sz line []))"

section \<open>Trees\<close>

text \<open>The entries of a table of nodes (\<open>struct cli_tree\<close>).\<close>

datatype tree_entry = Dir string bool | Cmd string string string | File string string string
  | Alias string string string | Str string "(string \<Rightarrow> string) option" string

text \<open>The first table entry that fails ends the function with -1.\<close>

fun cli_add_tree :: "bool \<Rightarrow> nat option \<Rightarrow> tree_entry list \<Rightarrow> tree \<times> cli_env \<Rightarrow> (int \<times> tree \<times> cli_env) option" where
  "cli_add_tree grow parent [] (t, env) = Some (0, t, env)"
| "cli_add_tree grow parent (e # es) (t, env) =
     (let parent = (if parent = None then root t else parent)
      in case e of
        Dir name bin \<Rightarrow> do {
          (n, t) \<leftarrow> cli_add_dir grow name parent t;
          case n of None \<Rightarrow> Some (-1, t, env)
          | Some k \<Rightarrow> do {
              (_, t) \<leftarrow> (if bin then cli_add_bin_path name t else Some (0, t));
              cli_add_tree grow (Some k) es (t, env) } }
      | Cmd name f d \<Rightarrow> do {
          (n, t) \<leftarrow> cli_add_cmd grow name parent (Some f) (Some d) t;
          if n = None then Some (-1, t, env) else cli_add_tree grow parent es (t, env) }
      | File name f d \<Rightarrow> do {
          (n, t) \<leftarrow> cli_add_file grow name parent (Some f) (Some d) t;
          if n = None then Some (-1, t, env) else cli_add_tree grow parent es (t, env) }
      | Alias name l d \<Rightarrow> do {
          (n, t) \<leftarrow> cli_add_alias grow name parent l (Some d) t;
          if n = None then Some (-1, t, env) else cli_add_tree grow parent es (t, env) }
      | Str name f v \<Rightarrow>
          do { (r, env) \<leftarrow> cli_env_string name f v env;
               if r \<noteq> 0 then Some (-1, t, env) else cli_add_tree grow parent es (t, env) })"

section \<open>The path of a node leads to it\<close>

text \<open>A name that can be part of a path.\<close>

definition path_name :: "string \<Rightarrow> bool" where
  "path_name s \<longleftrightarrow> s \<noteq> [] \<and> CHR ''/'' \<notin> set s \<and> \<not> isspace (hd s) \<and> \<not> isspace (last s) \<and> s \<noteq> ''.'' \<and> s \<noteq> ''..''"

text \<open>A node stands at a path when the parents lead from it to the root and each node is the first
  item of its parent with its name.\<close>

inductive at_path :: "tree \<Rightarrow> nat \<Rightarrow> string list \<Rightarrow> bool" for t where
  at_root: "root t = Some r \<Longrightarrow> node_at t r = Some nd \<Longrightarrow> n_parent nd = None \<Longrightarrow> n_type nd = CLI_DIR_NODE \<Longrightarrow> at_path t r []"
| at_item: "at_path t d ps \<Longrightarrow> node_at t d = Some dn \<Longrightarrow> n_type dn = CLI_DIR_NODE \<Longrightarrow>
    first_item t name CLI_ALL_TYPE (n_items dn) = Some (Some k) \<Longrightarrow> node_at t k = Some nd \<Longrightarrow> n_name nd = name \<Longrightarrow>
    n_parent nd = Some d \<Longrightarrow> path_name name \<Longrightarrow> at_path t k (ps @ [name])"

definition path_text :: "string list \<Rightarrow> string" where
  "path_text ps = ''/'' @ concat (map (\<lambda>p. p @ ''/'') ps)"

lemma path_string_at: "at_path t k ps \<Longrightarrow> length ps < n \<Longrightarrow> cli_path_string n t k = Some (path_text ps)"
proof (induction arbitrary: n rule: at_path.induct)
  case (at_root r nd)
  then show ?case by (cases n) (simp_all add: path_text_def)
next
  case (at_item d ps dn name k nd)
  then obtain m where "n = Suc m" "length ps < m" by (cases n) auto
  with at_item show ?case by (simp add: path_text_def)
qed

lemma follow_append:
  "follow t d n ps = Some (Some e, Some e) \<Longrightarrow> is_directory t e = Some True \<Longrightarrow> follow t d n (ps @ qs) = follow t (Some e) (Some e) qs"
proof (induction t d n ps rule: follow.induct)
  case (2 t dir node p ps)
  then obtain k where s: "cli_search_dir t dir p CLI_ALL_TYPE = Some (Some k)" by (auto simp: bind_eq_Some_iff split: option.splits)
  then obtain b where b: "is_directory t k = Some b" using 2(2) by (auto simp: bind_eq_Some_iff)
  show ?case
  proof (cases b)
    case True
    then show ?thesis using 2 s b by auto
  next
    case False
    then show ?thesis using 2(2,3) s b by simp
  qed
qed simp

text \<open>A directory is its own last directory, so the walk goes on from it.\<close>

lemma search_item:
  assumes "node_at t d = Some dn" "n_type dn = CLI_DIR_NODE" "path_name p"
  shows "cli_search_dir t (Some d) p ty = first_item t p ty (n_items dn)"
  using assms by (auto simp: cli_search_dir_def is_directory_def is_node_def path_name_def)

lemma follow_at:
  assumes "at_path t k ps" "root t = Some r"
  shows "\<exists>d. follow t (Some r) (Some r) ps = Some (d, Some k)
    \<and> (\<forall>nd. node_at t k = Some nd \<longrightarrow> n_type nd = CLI_DIR_NODE \<longrightarrow> d = Some k)"
  using assms
proof (induction rule: at_path.induct)
  case (at_item d ps dn name k nd)
  then obtain e where "follow t (Some r) (Some r) ps = Some (e, Some d)" "e = Some d" by blast
  then have "follow t (Some r) (Some r) (ps @ [name]) = follow t (Some d) (Some d) [name]"
    using at_item by (simp add: follow_append is_directory_def is_node_def)
  then show ?case using at_item by (auto simp: search_item is_directory_def is_node_def)
qed simp

lemma path_names: "at_path t k ps \<Longrightarrow> \<forall>p\<in>set ps. path_name p"
  by (induction rule: at_path.induct) auto

lemma path_tokens:
  assumes "length ps \<le> n" "\<forall>p\<in>set ps. path_name p"
  shows "rte_strtok n ''/'' (concat (map (\<lambda>p. p @ ''/'') ps)) = ps"
  using assms
proof (induction ps arbitrary: n)
  case Nil
  then show ?case by (cases n) (simp_all add: strtok_def)
next
  case (Cons p ps)
  then obtain m where n: "n = Suc m" by (cases n) auto
  have p: "trimmed p" "p \<noteq> []" "CHR ''/'' \<notin> set p" using Cons.prems(2) by (simp_all add: path_name_def trimmed_def)
  then have "strtok (set ''/'') (p @ CHR ''/'' # concat (map (\<lambda>p. p @ ''/'') ps)) = (Some p, concat (map (\<lambda>p. p @ ''/'') ps))"
    by (intro strtok_next(1)) auto
  then show ?case using Cons n p by (simp add: strtrim_trimmed)
qed

lemma find_at:
  assumes "at_path t k ps" "length ps \<le> 64"
  shows "cli_find_node t (path_text ps) = Some (Some k)"
proof -
  obtain r where r: "root t = Some r" using assms(1) by (induction rule: at_path.induct) auto
  show ?thesis
  proof (cases "ps = []")
    case True
    with assms(1) have "root t = Some k" by (auto elim: at_path.cases)
    then show ?thesis using True by (simp add: cli_find_node_def path_text_def)
  next
    case False
    then obtain p qs where ps: "ps = p # qs" by (cases ps) auto
    then have "p \<noteq> []" using path_names [OF assms(1)] by (simp add: path_name_def)
    then have ne: "path_text ps \<noteq> ''/''" by (simp add: path_text_def ps)
    have "path_parts (path_text ps) = ps"
      using path_tokens [of ps CLI_MAX_ARGVS] path_names [OF assms(1)] assms(2)
      by (simp add: path_parts_def path_text_def CLI_MAX_ARGVS_def)
    moreover have "start_dir t (path_text ps) = Some r" by (simp add: start_dir_def path_text_def r)
    moreover have "follow t (Some r) None ps = follow t (Some r) (Some r) ps" by (simp add: ps)
    ultimately show ?thesis
      using follow_at [OF assms(1) r] ne by (auto simp: cli_find_node_def path_text_def)
  qed
qed

section \<open>The substitution\<close>

text \<open>A line as text and variables, what is written for it and what it stands for.\<close>

datatype piece = Text string | Var string

primrec show_piece :: "piece \<Rightarrow> string" where
  "show_piece (Text s) = s"
| "show_piece (Var v) = ''${'' @ v @ ''}''"

primrec piece_ok :: "cli_env \<Rightarrow> piece \<Rightarrow> bool" where
  "piece_ok env (Text s) \<longleftrightarrow> CHR ''$'' \<notin> set s"
| "piece_ok env (Var v) \<longleftrightarrow> CHR ''}'' \<notin> set v \<and> cli_env_get v env \<noteq> None"

primrec piece_value :: "cli_env \<Rightarrow> piece \<Rightarrow> string" where
  "piece_value env (Text s) = s"
| "piece_value env (Var v) = (case cli_env_get v env of Some (Some w) \<Rightarrow> w | _ \<Rightarrow> ''oops!'')"

lemma subst_text: "CHR ''$'' \<notin> set s \<Longrightarrow> length t + length s \<le> sz \<Longrightarrow> subst_loop env sz (s @ r) t = subst_loop env sz r (t @ s)"
  by (induction s arbitrary: t) auto

lemma subst_pieces:
  assumes "\<forall>p\<in>set ps. piece_ok env p" "length t + length (concat (map (piece_value env) ps)) \<le> sz"
  shows "subst_loop env sz (concat (map show_piece ps)) t = Some (t @ concat (map (piece_value env) ps))"
  using assms
proof (induction ps arbitrary: t)
  case (Cons p ps)
  show ?case
  proof (cases p)
    case (Text s)
    then show ?thesis using Cons by (simp add: subst_text)
  next
    case (Var v)
    let ?r = "concat (map show_piece ps)"
    have v: "CHR ''}'' \<notin> set v" using Cons.prems(1) Var by simp
    then have tw: "takeWhile (\<lambda>x. x \<noteq> CHR ''}'') (v @ CHR ''}'' # ?r) = v" "dropWhile (\<lambda>x. x \<noteq> CHR ''}'') (v @ CHR ''}'' # ?r) = CHR ''}'' # ?r"
      by (subst takeWhile_append2, auto) (subst dropWhile_append2, auto)
    obtain w where g: "cli_env_get v env = Some w" using Cons.prems(1) Var by auto
    have "subst_loop env sz ?r (t @ piece_value env p) = Some ((t @ piece_value env p) @ concat (map (piece_value env) ps))"
      by (rule Cons.IH) (use Cons.prems in auto)
    moreover have "piece_value env p = (case w of None \<Rightarrow> ''oops!'' | Some v \<Rightarrow> v)"
      by (simp add: Var g split: option.split)
    ultimately show ?thesis using Cons.prems(2) by (simp add: Var g tw close_of_def guard_def split: option.splits)
  qed
qed simp

section \<open>Properties\<close>


text \<open>A small tree: a directory with a command.\<close>

definition small_tree :: tree where
  "small_tree = (case init_nodes 4 of None \<Rightarrow> undefined | Some (_, t) \<Rightarrow>
     fst (snd (the (cli_add_tree False None [Dir ''/bin'' True, Cmd ''ls'' ''ls_cmd'' ''list''] (t, [])))))"

lemma small_tree_nodes:
  "root small_tree = Some 0" "map n_name (pool small_tree) = [''/'', ''bin'', ''ls'', []]"
  "map n_items (pool small_tree) = [[1], [2], [], []]" "map n_parent (pool small_tree) = [None, Some 0, Some 1, None]"
  "map n_type (pool small_tree) = [CLI_DIR_NODE, CLI_DIR_NODE, CLI_CMD_NODE, CLI_UNK_NODE]"
  by code_simp+

lemma map_nthD: "map f xs = ys \<Longrightarrow> k < length ys \<Longrightarrow> f (xs ! k) = ys ! k" "map f xs = ys \<Longrightarrow> length xs = length ys"
  by auto

lemma small_tree_at: "at_path small_tree 2 [''bin'', ''ls'']"
proof -
  let ?t = small_tree
  note m = small_tree_nodes(2-) [THEN map_nthD(1)] and len = map_nthD(2) [OF small_tree_nodes(2)]
  have 0: "at_path ?t 0 []"
    by (rule at_root [where nd = "pool ?t ! 0"]) (use small_tree_nodes(1) m [of 0] len in \<open>simp_all add: node_at_def\<close>)
  have f: "first_item ?t ''bin'' CLI_ALL_TYPE [1] = Some (Some 1)" "first_item ?t ''ls'' CLI_ALL_TYPE [2] = Some (Some 2)"
    "path_name ''bin''" "path_name ''ls''"
    by code_simp+
  have "at_path ?t 1 ([] @ [''bin''])"
    by (rule at_item [OF 0, where dn = "pool ?t ! 0" and nd = "pool ?t ! 1"])
       (use f m [of 0] m [of 1] len in \<open>simp_all add: node_at_def\<close>)
  then have 1: "at_path ?t 1 [''bin'']" by simp
  have "at_path ?t 2 ([''bin''] @ [''ls''])"
    by (rule at_item [OF 1, where dn = "pool ?t ! 1" and nd = "pool ?t ! 2"])
       (use f m [of 1] m [of 2] len in \<open>simp_all add: node_at_def\<close>)
  then show ?thesis by simp
qed


text \<open>C32 The substitution replaces each variable of a line by its value and keeps the text around
  them, when the line and the result are shorter than the buffer.\<close>

theorem substitution_values:
  assumes "\<forall>p\<in>set ps. piece_ok env p" "length (concat (map show_piece ps)) \<le> sz"
    and "length (concat (map (piece_value env) ps)) < sz"
  shows "cli_env_substitution env (concat (map show_piece ps)) sz = Some (concat (map (piece_value env) ps))"
  using subst_pieces [OF assms(1), of "[]" sz] assms(2,3) by (simp add: cli_env_substitution_def)

theorem substitution_values_witness:
  "cli_env_substitution [\<lparr>e_var = ''P'', e_val = Some ''0-3'', e_fun = Some None\<rparr>] ''start ${P} ${Q}'' 64 = Some ''start 0-3 oops!''"
proof -
  let ?e = "[\<lparr>e_var = ''P'', e_val = Some ''0-3'', e_fun = Some None\<rparr>]" and ?ps = "[Text ''start '', Var ''P'', Text '' '', Var ''Q'']"
  have g: "cli_env_get ''P'' ?e = Some (Some ''0-3'')" "cli_env_get ''Q'' ?e = Some None"
    by (simp_all add: cli_env_get_def find_env_def env_show_def)
  show ?thesis using substitution_values [of ?ps ?e 64] g by simp
qed

section \<open>What the code does against its description\<close>

text \<open>A directory that exists is added again below its parent, because the path that is looked up
  lacks the separators, and hides the first one.\<close>

definition added_twice :: "tree option" where
  "added_twice = do {
     (_, t) \<leftarrow> init_nodes 8;
     (_, t) \<leftarrow> cli_add_dir False ''/a/b'' None t;
     (_, t) \<leftarrow> cli_add_cmd False ''run'' (Some 2) (Some ''f'') None t;
     (_, t) \<leftarrow> cli_add_dir False ''/a/b/c'' None t;
     Some t }"

lemma add_dir_duplicates:
  "map_option (\<lambda>t. map (\<lambda>k. n_name (pool t ! k)) (n_items (pool t ! 1))) added_twice = Some [''b'', ''b'']"
  "Option.bind added_twice (\<lambda>t. cli_find_node t ''/a/b/run'') = Some None"
  by code_simp+

text \<open>A path that goes on behind a command leads to the command.\<close>

lemma path_through_command: "cli_find_node small_tree ''/bin/ls/x/y'' = Some (Some 2)"
  by code_simp

text \<open>When the current directory is removed, the first directory of the search path takes its
  place; a directory of the search path stays there when it is removed as the current one.\<close>

definition removed_cwd :: "tree option" where
  "removed_cwd = do { (_, t) \<leftarrow> cli_remove_node 9 1 (set_cwd (Some 1) small_tree); Some t }"

lemma removed_cwd_stays: "map_option (\<lambda>t. (get_cwd t, free_nodes t)) removed_cwd = Some (Some 1, [3, 2, 1])"
  by code_simp

text \<open>The node that the allocator returns after it has extended the pool is not in it.\<close>

lemma alloc_past_end:
  assumes "free_nodes t = []" "unlimited t" "cli_alloc True t = (Some k, t')"
  shows "node_at t' k = None"
  using assms by (auto simp: cli_alloc_def Let_def node_at_def)

text \<open>Setting a variable a second time renames it.\<close>

lemma env_set_twice:
  assumes "cli_env_string var f val [] = Some (r, env)" "cli_env_set var val2 env = Some (r', env')" "val2 \<noteq> var"
  shows "cli_env_get var env' = Some None" "cli_env_get val2 env' = None"
proof -
  have env: "env = [\<lparr>e_var = var, e_val = Some val, e_fun = Some f\<rparr>]"
    using assms(1) by (simp add: cli_env_string_def env_set_def find_env_def)
  have "env' = [\<lparr>e_var = val2, e_val = None, e_fun = Some f\<rparr>]"
    using assms(2) by (simp add: cli_env_set_def env_set_def find_env_def env)
  then show "cli_env_get var env' = Some None" "cli_env_get val2 env' = None"
    using assms(3) by (simp_all add: find_env_def cli_env_get_def env_show_def)
qed

text \<open>A variable that was only set has an unknown function.\<close>

lemma env_get_unset_function: "cli_env_set var val [] = Some (r, env) \<Longrightarrow> cli_env_get var env = None"
  by (simp add: cli_env_set_def env_set_def find_env_def cli_env_get_def env_show_def,
      elim conjE, hypsubst, simp add: env_show_def)

text \<open>A long value overruns the buffer.\<close>

lemma substitution_overflow:
  assumes "CHR ''}'' \<notin> set v" "cli_env_get v env = Some (Some w)" "sz < length w" "length (show_piece (Var v)) \<le> sz"
  shows "cli_env_substitution env (show_piece (Var v)) sz = None"
proof -
  have "takeWhile (\<lambda>x. x \<noteq> CHR ''}'') (v @ ''}'') = v" "dropWhile (\<lambda>x. x \<noteq> CHR ''}'') (v @ ''}'') = ''}''"
    using assms(1) by (subst takeWhile_append2, auto) (subst dropWhile_append2, auto)
  then show ?thesis using assms(2-) by (simp add: cli_env_substitution_def close_of_def guard_def)
qed

end
