(* ===== verification/Commands.thy ===== *)
theory Commands
  imports Pages Range PacketCtor
begin

text \<open>
  The commands of \<open>app/pktgen-cmds.c\<close> on one port: the modes and options of the
  port, start and stop, the fields of the single packet, the range and the sequence.
  A command works on the global state and on the port; the layer 2 and 3 image of the
  packet it changes is rebuilt at once.  None: an access outside an array, an undefined
  operation of C, or a null pointer.
\<close>

section \<open>Helpers\<close>

definition ENABLE_STATE :: u32 where "ENABLE_STATE = 1"
definition DISABLE_STATE :: u32 where "DISABLE_STATE = 0"
definition DEFAULT_PRIME_COUNT :: u16 where "DEFAULT_PRIME_COUNT = 1"

text \<open>\<open>strcasecmp\<close> is equality of the lower case strings.\<close>

definition to_lower :: "char \<Rightarrow> char" where
  "to_lower c = (if of_char c \<in> {65..90 :: nat} then char_of (of_char c + 32 :: nat) else c)"

definition estate :: "string \<Rightarrow> u32" where
  "estate state = (if map to_lower state \<in> {''on'', ''enable'', ''start''} then ENABLE_STATE else DISABLE_STATE)"

text \<open>A character of a C string; the one after the last is the terminator.\<close>

definition char_at :: "string \<Rightarrow> nat \<Rightarrow> char option" where
  "char_at s k = (if k < length s then Some (s ! k) else if k = length s then Some (char_of (0 :: nat)) else None)"

definition upd_pkt :: "nat \<Rightarrow> (pkt_seq \<Rightarrow> pkt_seq) \<Rightarrow> port_info \<Rightarrow> port_info option" where
  "upd_pkt k f i =
    (if k < length (seq_pkt i) then Some (i\<lparr>seq_pkt := (seq_pkt i)[k := f (seq_pkt i ! k)]\<rparr>) else None)"

type_synonym port_cmd = "glob \<Rightarrow> port_info \<Rightarrow> (glob \<times> port_info) option"

definition rebuild :: "nat \<Rightarrow> int \<Rightarrow> port_cmd" where
  "rebuild k ty g i = map_option snd (pktgen_packet_ctor g i k ty)"

definition set_and_rebuild :: "nat \<Rightarrow> (pkt_seq \<Rightarrow> pkt_seq) \<Rightarrow> port_cmd" where
  "set_and_rebuild k f g i = do { i \<leftarrow> upd_pkt k f i; rebuild k (- 1) g i }"

definition onoff :: "u32 \<Rightarrow> u32 \<Rightarrow> port_info \<Rightarrow> port_info" where
  "onoff f state i = (if state = ENABLE_STATE then pktgen_set_port_flags i f else pktgen_clr_port_flags i f)"

section \<open>Options of a port\<close>

definition pktgen_port_transmitting :: "port_info \<Rightarrow> bool" where
  "pktgen_port_transmitting i = has_flag (port_flags i) SENDING_PACKETS"

definition enable_icmp_echo :: "u32 \<Rightarrow> port_info \<Rightarrow> port_info" where
  "enable_icmp_echo on i = onoff ICMP_ECHO_ENABLE_FLAG on i"

definition enable_random :: "u32 \<Rightarrow> port_info \<Rightarrow> port_info" where
  "enable_random on i = onoff SEND_RANDOM_PKTS on i"

definition enable_process :: "u32 \<Rightarrow> port_info \<Rightarrow> port_info" where
  "enable_process on i = onoff PROCESS_INPUT_PKTS on i"

definition enable_bonding :: "u32 \<Rightarrow> port_info \<Rightarrow> port_info" where
  "enable_bonding on i = onoff BONDING_TX_PACKETS on i"

definition enable_short_pkts :: "u32 \<Rightarrow> port_info \<Rightarrow> port_info" where
  "enable_short_pkts on i = onoff SEND_SHORT_PACKETS on i"

definition enable_garp :: "u32 \<Rightarrow> port_info \<Rightarrow> port_info" where
  "enable_garp on i = onoff (PROCESS_GARP_PKTS OR PROCESS_INPUT_PKTS) on i"

definition enable_latency :: "u32 \<Rightarrow> port_info \<Rightarrow> port_info" where
  "enable_latency on i = onoff SEND_LATENCY_PKTS on i"

definition pktgen_send_arp_requests :: "u32 \<Rightarrow> port_info \<Rightarrow> port_info" where
  "pktgen_send_arp_requests ty i =
    pktgen_set_port_flags i (if ty = GRATUITOUS_ARP then SEND_GRATUITOUS_ARP else SEND_ARP_REQUEST)"

definition enable_mac_from_arp :: "u32 \<Rightarrow> glob \<Rightarrow> glob" where
  "enable_mac_from_arp on g =
    (if on = ENABLE_STATE then set_gflags g MAC_FROM_ARP_FLAG else clr_gflags g MAC_FROM_ARP_FLAG)"

definition debug_blink :: "u32 \<Rightarrow> port_cmd" where
  "debug_blink state g i =
    (if unat (pid i) < 32 then
       let b = push_bit (unat (pid i)) 1
       in Some (g\<lparr>blinklist := (if state = ENABLE_STATE then blinklist g OR b else blinklist g AND NOT b)\<rparr>, i)
     else None)"

text \<open>The flags column of the main page.\<close>

definition pktgen_flags_string :: "glob \<Rightarrow> port_info \<Rightarrow> string" where
  "pktgen_flags_string g i =
    (let w = port_flags i; f = (\<lambda>m c d. if has_flag w m then c else d)
     in [if has_flag (flags g) PROMISCUOUS_ON_FLAG then CHR ''P'' else CHR ''-'',
         f ICMP_ECHO_ENABLE_FLAG (CHR ''E'') (CHR ''-''),
         f SEND_ARP_REQUEST (CHR ''A'') (CHR ''-''),
         f SEND_GRATUITOUS_ARP (CHR ''G'') (CHR ''-''),
         f SEND_PCAP_PKTS (CHR ''p'') (CHR ''-''),
         f SEND_SEQ_PKTS (CHR ''S'') (CHR ''-''),
         f SEND_RANGE_PKTS (CHR ''R'') (CHR ''-''),
         f PROCESS_INPUT_PKTS (CHR ''I'') (CHR ''-''),
         ''-rt*'' ! unat (drop_bit 9 (w AND (PROCESS_RX_TAP_PKTS OR PROCESS_TX_TAP_PKTS))),
         f SEND_LATENCY_PKTS (CHR ''L'') (CHR ''-''),
         f SEND_VLAN_ID (CHR ''V'') (f SEND_MPLS_LABEL (CHR ''M'') (f SEND_Q_IN_Q_IDS (CHR ''Q'') (CHR ''-''))),
         f PROCESS_GARP_PKTS (CHR ''g'') (CHR ''-''),
         f SEND_GRE_IPv4_HEADER (CHR ''g'') (f SEND_GRE_ETHER_HEADER (CHR ''G'') (CHR ''-'')),
         f CAPTURE_PKTS (CHR ''C'') (CHR ''-''),
         f SEND_RANDOM_PKTS (CHR ''r'') (CHR ''-'')])"

section \<open>Start and stop\<close>

text \<open>A flag of every transmit queue; \<open>n\<close> is \<open>get_port_txcnt\<close>.\<close>

primrec all_q_flags :: "nat \<Rightarrow> u32 \<Rightarrow> port_info \<Rightarrow> port_info option" where
  "all_q_flags 0 f i = Some i"
| "all_q_flags (Suc n) f i = do { i \<leftarrow> all_q_flags n f i; pktgen_set_q_flags i n f }"

definition pktgen_start_transmitting :: "u64 \<Rightarrow> port_info \<Rightarrow> port_info option" where
  "pktgen_start_transmitting txcnt i =
    (if \<not> has_flag (port_flags i) SENDING_PACKETS then do {
       i \<leftarrow> all_q_flags (unat txcnt) CLEAR_FAST_ALLOC_FLAG i;
       let i = i\<lparr>current_tx_count := transmit_count i\<rparr>;
       let i = pktgen_set_port_flags i SENDING_PACKETS;
       Some (if current_tx_count i = 0 then pktgen_set_port_flags i SEND_FOREVER else i) }
     else Some i)"

definition pktgen_stop_transmitting :: "u64 \<Rightarrow> port_info \<Rightarrow> port_info option" where
  "pktgen_stop_transmitting txcnt i =
    (if has_flag (port_flags i) SENDING_PACKETS
     then all_q_flags (unat txcnt) DO_TX_FLUSH (pktgen_clr_port_flags i (SENDING_PACKETS OR SEND_FOREVER))
     else Some i)"

definition pktgen_prime_ports :: "u64 \<Rightarrow> port_info \<Rightarrow> port_info option" where
  "pktgen_prime_ports txcnt i = do {
     i \<leftarrow> all_q_flags (unat txcnt) CLEAR_FAST_ALLOC_FLAG i;
     let i = i\<lparr>current_tx_count := ucast (prime_cnt i)\<rparr>;
     let i = pktgen_set_port_flags i SENDING_PACKETS;
     all_q_flags (unat txcnt) DO_TX_FLUSH i }"

definition single_set_tx_count :: "u32 \<Rightarrow> port_info \<Rightarrow> port_info" where
  "single_set_tx_count cnt i = i\<lparr>transmit_count := ucast cnt\<rparr>"

definition single_set_tx_burst :: "u32 \<Rightarrow> port_info \<Rightarrow> port_info" where
  "single_set_tx_burst burst i =
    i\<lparr>tx_burst := ucast (if burst = 0 then 1
       else if burst > ucast DEFAULT_PKT_BURST then ucast DEFAULT_PKT_BURST else burst)\<rparr>"

definition debug_set_tx_cycles :: "u32 \<Rightarrow> port_info \<Rightarrow> port_info" where
  "debug_set_tx_cycles cycles i = i\<lparr>tx_cycles := ucast cycles\<rparr>"

definition pktgen_set_port_prime :: "u32 \<Rightarrow> port_info \<Rightarrow> port_info" where
  "pktgen_set_port_prime cnt i =
    i\<lparr>prime_cnt := ucast (if cnt > ucast MAX_PRIME_COUNT then ucast MAX_PRIME_COUNT
       else if cnt = 0 then ucast DEFAULT_PRIME_COUNT else cnt)\<rparr>"

text \<open>Every turn of the loop frees the same entry, the first one.\<close>

definition debug_set_port_dump :: "u32 \<Rightarrow> port_info \<Rightarrow> port_info option" where
  "debug_set_port_dump cnt i =
    (if dump_list i = [] then None
     else let cnt = (if cnt > word_of_nat MAX_DUMP_PACKETS then word_of_nat MAX_DUMP_PACKETS else cnt);
              i = i\<lparr>dump_count := 0, dump_tail := 0, dump_head := 0\<rparr>;
              i = i\<lparr>dump_list := (dump_list i)[0 := None]\<rparr>
          in Some (i\<lparr>dump_count := ucast cnt\<rparr>))"

definition single_set_jitter :: "u64 \<Rightarrow> u64 \<Rightarrow> port_info \<Rightarrow> port_info" where
  "single_set_jitter timer_hz threshold i =
    (let i = i\<lparr>jitter_threshold := threshold, jitter_count := 0\<rparr>;
         ticks = timer_hz div 1000000
     in i\<lparr>jitter_threshold_clks := jitter_threshold i * ticks\<rparr>)"

section \<open>Modes and rates\<close>

text \<open>\<open>rate\<close> is the result of \<open>strtod\<close>.\<close>

definition single_set_tx_rate :: "(rat \<Rightarrow> rat) \<Rightarrow> u64 \<Rightarrow> rat \<Rightarrow> glob \<Rightarrow> port_info \<Rightarrow> port_info option" where
  "single_set_tx_rate fp txcnt rate g i =
    (let rate = (if rate = 0 then fp (1 / 100) else if rate > 100 then 100 else rate)
     in pktgen_packet_rate fp txcnt g (i\<lparr>tx_rate := rate\<rparr>))"

text \<open>The rate is not a number when the link has no speed.\<close>

definition pktgen_set_port_pps :: "(rat \<Rightarrow> rat) \<Rightarrow> u64 \<Rightarrow> u64 \<Rightarrow> glob \<Rightarrow> port_info \<Rightarrow> port_info option" where
  "pktgen_set_port_pps fp txcnt pps g i = do {
     let i = i\<lparr>tx_pps := pps\<rparr>;
     w \<leftarrow> pktgen_wire_size i;
     let wire_size = w * 8;
     let link = ucast (link_speed i) * 1000000;
     guard (link \<noteq> 0);
     let i = i\<lparr>tx_rate := fp (fp (of_nat (unat (pps * 100)))
       * fp (fp (of_nat (unat wire_size)) / fp (of_nat (unat (link :: u64)))))\<rparr>;
     let cpp = (if pps > 0 then hz g div pps else hz g div 4);
     let i = i\<lparr>tx_burst := 32\<rparr>;
     Some (i\<lparr>tx_cycles := cpp * ucast (tx_burst i) * txcnt\<rparr>) }"

definition enable_pcap :: "(rat \<Rightarrow> rat) \<Rightarrow> u64 \<Rightarrow> u32 \<Rightarrow> glob \<Rightarrow> port_info \<Rightarrow> port_info option" where
  "enable_pcap fp txcnt state g i =
    (case pcap i of
       None \<Rightarrow> Some i
     | Some pc \<Rightarrow>
         if pcap_pkt_count pc \<noteq> 0 then
           pktgen_packet_rate fp txcnt g
             (if state = ENABLE_STATE
              then pktgen_set_port_flags (pktgen_clr_port_flags (pktgen_clr_port_flags i SEND_RANGE_PKTS)
                     SEND_SEQ_PKTS) SEND_PCAP_PKTS
              else pktgen_clr_port_flags i SEND_PCAP_PKTS)
         else Some i)"

definition enable_range :: "(rat \<Rightarrow> rat) \<Rightarrow> u64 \<Rightarrow> u32 \<Rightarrow> glob \<Rightarrow> port_info \<Rightarrow> port_info option" where
  "enable_range fp txcnt state g i =
    pktgen_packet_rate fp txcnt g
      (if state = ENABLE_STATE
       then pktgen_set_port_flags (pktgen_clr_port_flags (pktgen_clr_port_flags i SEND_SEQ_PKTS)
              SEND_PCAP_PKTS) SEND_RANGE_PKTS
       else pktgen_clr_port_flags i SEND_RANGE_PKTS)"

definition pktgen_set_port_seqCnt :: "(rat \<Rightarrow> rat) \<Rightarrow> u64 \<Rightarrow> u32 \<Rightarrow> glob \<Rightarrow> port_info \<Rightarrow> port_info option" where
  "pktgen_set_port_seqCnt fp txcnt cnt g i =
    (let cnt = (if cnt > word_of_nat NUM_SEQ_PKTS then word_of_nat NUM_SEQ_PKTS else cnt);
         i = i\<lparr>seqCnt := ucast cnt\<rparr>
     in pktgen_packet_rate fp txcnt g
       (if cnt \<noteq> 0
        then pktgen_set_port_flags (pktgen_clr_port_flags (pktgen_clr_port_flags i SEND_RANGE_PKTS)
               SEND_PCAP_PKTS) SEND_SEQ_PKTS
        else pktgen_clr_port_flags i SEND_SEQ_PKTS))"

definition enable_vlan :: "u32 \<Rightarrow> port_cmd" where
  "enable_vlan on g i =
    rebuild SINGLE_PKT (- 1) g
      (if on = ENABLE_STATE
       then pktgen_set_port_flags (pktgen_clr_port_flags (pktgen_clr_port_flags i SEND_MPLS_LABEL)
              SEND_Q_IN_Q_IDS) SEND_VLAN_ID
       else pktgen_clr_port_flags i SEND_VLAN_ID)"

definition enable_mpls :: "u32 \<Rightarrow> port_cmd" where
  "enable_mpls on g i =
    rebuild SINGLE_PKT (- 1) g
      (if on = ENABLE_STATE
       then pktgen_set_port_flags (pktgen_clr_port_flags (pktgen_clr_port_flags i SEND_VLAN_ID)
              SEND_Q_IN_Q_IDS) SEND_MPLS_LABEL
       else pktgen_clr_port_flags i SEND_MPLS_LABEL)"

definition enable_qinq :: "u32 \<Rightarrow> port_cmd" where
  "enable_qinq on g i =
    rebuild SINGLE_PKT (- 1) g
      (if on = ENABLE_STATE
       then pktgen_set_port_flags (pktgen_clr_port_flags (pktgen_clr_port_flags i SEND_VLAN_ID)
              SEND_MPLS_LABEL) SEND_Q_IN_Q_IDS
       else pktgen_clr_port_flags i SEND_Q_IN_Q_IDS)"

definition enable_gre :: "u32 \<Rightarrow> port_cmd" where
  "enable_gre on g i =
    rebuild SINGLE_PKT (- 1) g
      (if on = ENABLE_STATE
       then pktgen_set_port_flags (pktgen_clr_port_flags i SEND_GRE_ETHER_HEADER) SEND_GRE_IPv4_HEADER
       else pktgen_clr_port_flags i SEND_GRE_IPv4_HEADER)"

definition enable_gre_eth :: "u32 \<Rightarrow> port_cmd" where
  "enable_gre_eth on g i =
    rebuild SINGLE_PKT (- 1) g
      (if on = ENABLE_STATE
       then pktgen_set_port_flags (pktgen_clr_port_flags i SEND_GRE_IPv4_HEADER) SEND_GRE_ETHER_HEADER
       else pktgen_clr_port_flags i SEND_GRE_ETHER_HEADER)"

section \<open>The single packet\<close>

definition proto_of :: "char \<Rightarrow> u8" where
  "proto_of c = (if c = CHR ''u'' then PG_IPPROTO_UDP else if c = CHR ''i'' then PG_IPPROTO_ICMP
     else if c = CHR ''t'' then PG_IPPROTO_TCP else PG_IPPROTO_TCP)"

definition single_set_proto :: "string \<Rightarrow> port_cmd" where
  "single_set_proto ty g i = do {
     c \<leftarrow> char_at ty 0;
     i \<leftarrow> upd_pkt SINGLE_PKT (\<lambda>p. p\<lparr>ipProto := ucast (proto_of c)\<rparr>) i;
     i \<leftarrow> (if c = CHR ''i'' then upd_pkt SINGLE_PKT (\<lambda>p. p\<lparr>ethType := ETHER_TYPE_IPv4\<rparr>) i else Some i);
     rebuild SINGLE_PKT (- 1) g i }"

definition single_ether_type :: "string \<Rightarrow> u16 option" where
  "single_ether_type ty = do {
     c0 \<leftarrow> char_at ty 0;
     if c0 = CHR ''a'' then Some ETHER_TYPE_ARP else do {
     c3 \<leftarrow> char_at ty 3;
     if c3 = CHR ''4'' then Some ETHER_TYPE_IPv4 else
     if c3 = CHR ''6'' then Some ETHER_TYPE_IPv6 else do {
     c2 \<leftarrow> char_at ty 2;
     Some (if c2 = CHR ''4'' then ETHER_TYPE_IPv4 else if c2 = CHR ''6'' then ETHER_TYPE_IPv6
           else ETHER_TYPE_IPv4) } } }"

definition retype_size :: "u16 \<Rightarrow> u16 \<Rightarrow> u16 \<Rightarrow> u16" where
  "retype_size old new sz =
    (let sz = (if old = ETHER_TYPE_IPv6 \<and> new = ETHER_TYPE_IPv4 \<and> sz \<ge> MIN_v6_PKT_SIZE
               then MIN_PKT_SIZE + (sz - MIN_v6_PKT_SIZE) else sz)
     in if old = ETHER_TYPE_IPv4 \<and> new = ETHER_TYPE_IPv6 \<and> sz < MIN_v6_PKT_SIZE
        then MIN_v6_PKT_SIZE + (sz - MIN_PKT_SIZE) else sz)"

definition single_set_pkt_type :: "string \<Rightarrow> port_cmd" where
  "single_set_pkt_type ty g i = do {
     t \<leftarrow> single_ether_type ty;
     set_and_rebuild SINGLE_PKT
       (\<lambda>p. p\<lparr>ethType := t, pktSize := retype_size (ethType p) t (pktSize p)\<rparr>) g i }"

definition single_set_vlan_id :: "u16 \<Rightarrow> port_cmd" where
  "single_set_vlan_id v g i = set_and_rebuild SINGLE_PKT (\<lambda>p. p\<lparr>vlanid := v\<rparr>) g (i\<lparr>pvlanid := v\<rparr>)"

definition single_set_cos :: "u8 \<Rightarrow> port_cmd" where
  "single_set_cos c g i = set_and_rebuild SINGLE_PKT (\<lambda>p. p\<lparr>pkt_cos := c\<rparr>) g (i\<lparr>pcos := c\<rparr>)"

definition single_set_tos :: "u8 \<Rightarrow> port_cmd" where
  "single_set_tos t g i = set_and_rebuild SINGLE_PKT (\<lambda>p. p\<lparr>tos := t\<rparr>) g (i\<lparr>ptos := t\<rparr>)"

definition range_set_mpls_entry :: "u32 \<Rightarrow> port_cmd" where
  "range_set_mpls_entry m g i =
    set_and_rebuild SINGLE_PKT (\<lambda>p. p\<lparr>mpls_entry := m\<rparr>) g (i\<lparr>pmpls_entry := m\<rparr>)"

definition single_set_qinqids :: "u16 \<Rightarrow> u16 \<Rightarrow> port_cmd" where
  "single_set_qinqids outerid innerid g i =
    set_and_rebuild SINGLE_PKT (\<lambda>p. p\<lparr>qinq_outerid := outerid, qinq_innerid := innerid\<rparr>) g i"

definition range_set_gre_key :: "u32 \<Rightarrow> port_cmd" where
  "range_set_gre_key k g i = set_and_rebuild SINGLE_PKT (\<lambda>p. p\<lparr>gre_key := k\<rparr>) g (i\<lparr>pgre_key := k\<rparr>)"

definition single_size :: "bool \<Rightarrow> u16 \<Rightarrow> u16 \<Rightarrow> u16" where
  "single_size short ety sz =
    (let sz = (if sz < FCS_SIZE then FCS_SIZE else sz);
         sz = (if \<not> short \<and> sz - FCS_SIZE < MIN_PKT_SIZE then MIN_PKT_SIZE + FCS_SIZE else sz);
         sz = (if sz - FCS_SIZE > MAX_PKT_SIZE then MAX_PKT_SIZE + FCS_SIZE else sz);
         sz = (if ety = ETHER_TYPE_IPv6 \<and> sz < MIN_v6_PKT_SIZE + FCS_SIZE then MIN_v6_PKT_SIZE + FCS_SIZE else sz)
     in sz - FCS_SIZE)"

definition single_set_pkt_size :: "u16 \<Rightarrow> port_cmd" where
  "single_set_pkt_size sz g i =
    (if SINGLE_PKT < length (seq_pkt i) then
       let s = single_size (has_flag (port_flags i) SEND_SHORT_PACKETS) (ethType (seq_pkt i ! SINGLE_PKT)) sz
       in set_and_rebuild SINGLE_PKT (\<lambda>p. p\<lparr>pktSize := s\<rparr>) (g\<lparr>tool_pkt_size := ucast s\<rparr>) i
     else None)"

definition single_set_port_value :: "char \<Rightarrow> u32 \<Rightarrow> port_cmd" where
  "single_set_port_value ty v g i =
    set_and_rebuild SINGLE_PKT
      (\<lambda>p. if ty = CHR ''d'' then p\<lparr>dport := ucast v\<rparr> else p\<lparr>sport := ucast v\<rparr>) g i"

definition single_set_ipaddr :: "char \<Rightarrow> cmdline_ipaddr \<Rightarrow> port_cmd" where
  "single_set_ipaddr ty ip g i =
    (let a = ntohl (s_addr ip)
     in if ty = CHR ''s'' then do {
          let g = (if traffic_gen_as g = IL_TRAFFIC_GEN then g\<lparr>start_ip := a\<rparr> else g);
          m \<leftarrow> size_to_mask (sint (prefixlen ip));
          set_and_rebuild SINGLE_PKT
            (\<lambda>p. p\<lparr>ip_mask := m, ip_src_addr := (ip_src_addr p)\<lparr>s_addr := a\<rparr>\<rparr>) g i }
        else
          let g = (if traffic_gen_as g = IL_TRAFFIC_RESP \<or> traffic_gen_as g = IL_TRAFFIC_RESP_AS_REF
                   then g\<lparr>start_ip := a\<rparr> else g)
          in set_and_rebuild SINGLE_PKT
            (\<lambda>p. p\<lparr>ip_dst_addr := (ip_dst_addr p)\<lparr>s_addr := a\<rparr>\<rparr>) g i)"

definition single_set_dst_mac :: "ether_addr \<Rightarrow> port_cmd" where
  "single_set_dst_mac mac g i = set_and_rebuild SINGLE_PKT (\<lambda>p. p\<lparr>eth_dst_addr := mac\<rparr>) g i"

definition single_set_src_mac :: "ether_addr \<Rightarrow> port_cmd" where
  "single_set_src_mac mac g i = set_and_rebuild SINGLE_PKT (\<lambda>p. p\<lparr>eth_src_addr := mac\<rparr>) g i"

definition pattern_set_type :: "string \<Rightarrow> port_info \<Rightarrow> port_info" where
  "pattern_set_type str i =
    (if take 3 str = ''abc'' then i\<lparr>fill_pattern_type := ABC_FILL_PATTERN\<rparr>
     else if take 4 str = ''none'' then i\<lparr>fill_pattern_type := NO_FILL_PATTERN\<rparr>
     else if take 4 str = ''user'' then i\<lparr>fill_pattern_type := USER_FILL_PATTERN\<rparr>
     else if take 4 str = ''zero'' then i\<lparr>fill_pattern_type := ZERO_FILL_PATTERN\<rparr>
     else i)"

text \<open>The copy has room for 16 characters and the terminator.\<close>

definition pattern_set_user_pattern :: "string \<Rightarrow> port_info \<Rightarrow> port_info option" where
  "pattern_set_user_pattern str i =
    (if length str \<le> USER_PATTERN_SIZE then
       let cp = (if str \<noteq> [] \<and> hd str \<in> {CHR 0x22, CHR 0x27} then tl (butlast str) else str);
           pat = take USER_PATTERN_SIZE cp
       in Some (i\<lparr>user_pattern := pat @ replicate (USER_PATTERN_SIZE - length pat) (char_of (0 :: nat)),
                  fill_pattern_type := USER_FILL_PATTERN\<rparr>)
     else None)"

definition pktgen_ping4 :: "port_cmd" where
  "pktgen_ping4 g i =
    (if PING_PKT < length (seq_pkt i) then do {
       i \<leftarrow> upd_pkt PING_PKT (\<lambda>_. (seq_pkt i ! SINGLE_PKT)\<lparr>ipProto := ucast PG_IPPROTO_ICMP\<rparr>) i;
       (g, i) \<leftarrow> rebuild PING_PKT ICMP4_ECHO g i;
       Some (g, pktgen_set_port_flags i SEND_PING4_REQUEST) }
     else None)"

section \<open>The range\<close>

definition is_min :: "string \<Rightarrow> bool" where "is_min what \<longleftrightarrow> what = ''min'' \<or> what = ''minimum''"
definition is_max :: "string \<Rightarrow> bool" where "is_max what \<longleftrightarrow> what = ''max'' \<or> what = ''maximum''"
definition is_inc :: "string \<Rightarrow> bool" where "is_inc what \<longleftrightarrow> what = ''inc'' \<or> what = ''increment''"

definition upd_range :: "(range_info \<Rightarrow> range_info) \<Rightarrow> port_info \<Rightarrow> port_info" where
  "upd_range f i = i\<lparr>range := f (range i)\<rparr>"

definition range_set_proto :: "string \<Rightarrow> port_info \<Rightarrow> port_info option" where
  "range_set_proto ty i = do {
     c \<leftarrow> char_at ty 0;
     i \<leftarrow> upd_pkt RANGE_PKT (\<lambda>p. p\<lparr>ipProto := ucast (proto_of c)\<rparr>) i;
     let i = upd_range (\<lambda>r. r\<lparr>ip_proto := ipProto (seq_pkt i ! RANGE_PKT)\<rparr>) i;
     if c = CHR ''i'' then upd_pkt RANGE_PKT (\<lambda>p. p\<lparr>ethType := ETHER_TYPE_IPv4\<rparr>) i else Some i }"

definition range_set_pkt_type :: "string \<Rightarrow> port_info \<Rightarrow> port_info option" where
  "range_set_pkt_type ty i = do {
     c0 \<leftarrow> char_at ty 0;
     t \<leftarrow> (if c0 = CHR ''a'' then Some ETHER_TYPE_ARP else do {
       c3 \<leftarrow> char_at ty 3;
       Some (if c3 = CHR ''4'' then ETHER_TYPE_IPv4 else if c3 = CHR ''6'' then ETHER_TYPE_IPv6
             else ETHER_TYPE_IPv4) });
     upd_pkt RANGE_PKT (\<lambda>p. p\<lparr>ethType := t\<rparr>) i }"

definition range_set_qinqids :: "u16 \<Rightarrow> u16 \<Rightarrow> port_cmd" where
  "range_set_qinqids outerid innerid g i =
    set_and_rebuild RANGE_PKT (\<lambda>p. p\<lparr>qinq_outerid := outerid, qinq_innerid := innerid\<rparr>) g i"

definition range_set_dest_mac :: "string \<Rightarrow> ether_addr \<Rightarrow> port_info \<Rightarrow> port_info option" where
  "range_set_dest_mac what mac i =
    (if is_min what then Some (upd_range (\<lambda>r. r\<lparr>dst_mac_min := inet_mtoh64 mac\<rparr>) i)
     else if is_max what then Some (upd_range (\<lambda>r. r\<lparr>dst_mac_max := inet_mtoh64 mac\<rparr>) i)
     else if is_inc what then Some (upd_range (\<lambda>r. r\<lparr>dst_mac_inc := inet_mtoh64 mac\<rparr>) i)
     else if what = ''start'' then
       upd_pkt RANGE_PKT (\<lambda>p. p\<lparr>eth_dst_addr := mac\<rparr>) (upd_range (\<lambda>r. r\<lparr>dst_mac := inet_mtoh64 mac\<rparr>) i)
     else Some i)"

definition range_set_src_mac :: "string \<Rightarrow> ether_addr \<Rightarrow> port_info \<Rightarrow> port_info option" where
  "range_set_src_mac what mac i =
    (if is_min what then Some (upd_range (\<lambda>r. r\<lparr>src_mac_min := inet_mtoh64 mac\<rparr>) i)
     else if is_max what then Some (upd_range (\<lambda>r. r\<lparr>src_mac_max := inet_mtoh64 mac\<rparr>) i)
     else if is_inc what then Some (upd_range (\<lambda>r. r\<lparr>src_mac_inc := inet_mtoh64 mac\<rparr>) i)
     else if what = ''start'' then
       upd_pkt RANGE_PKT (\<lambda>p. p\<lparr>eth_src_addr := mac\<rparr>) (upd_range (\<lambda>r. r\<lparr>src_mac := inet_mtoh64 mac\<rparr>) i)
     else Some i)"

text \<open>The number of flows of the traffic tool follows from the range of addresses;
  the counters that \<open>set_ip_pkt_counters\<close> allocates are not part of the model.  The
  difference is computed in 32 bits.\<close>

definition range_set_src_ip :: "string \<Rightarrow> cmdline_ipaddr \<Rightarrow> glob \<Rightarrow> port_info \<Rightarrow> glob \<times> port_info" where
  "range_set_src_ip what ip g i =
    (let a = ntohl (s_addr ip)
     in if is_min what then (g, upd_range (\<lambda>r. r\<lparr>src_ip_min := a\<rparr>) i)
        else if is_max what then
          (if traffic_gen_as g = IL_TRAFFIC_GEN
           then g\<lparr>subs := ucast (a - src_ip_min (range i) + 1), end_ip := a\<rparr> else g,
           upd_range (\<lambda>r. r\<lparr>src_ip_max := a\<rparr>) i)
        else if is_inc what then (g, upd_range (\<lambda>r. r\<lparr>src_ip_inc := a\<rparr>) i)
        else if what = ''start'' then (g, upd_range (\<lambda>r. r\<lparr>src_ip := a\<rparr>) i)
        else (g, i))"

definition range_set_dst_ip :: "string \<Rightarrow> cmdline_ipaddr \<Rightarrow> glob \<Rightarrow> port_info \<Rightarrow> glob \<times> port_info" where
  "range_set_dst_ip what ip g i =
    (let a = ntohl (s_addr ip)
     in if is_min what then (g, upd_range (\<lambda>r. r\<lparr>dst_ip_min := a\<rparr>) i)
        else if is_max what then
          (let i = upd_range (\<lambda>r. r\<lparr>dst_ip_max := a\<rparr>) i
           in (if traffic_gen_as g = IL_TRAFFIC_RESP \<or> traffic_gen_as g = IL_TRAFFIC_RESP_AS_REF
               then g\<lparr>subs := ucast (a - src_ip_min (range i) + 1), end_ip := a\<rparr> else g, i))
        else if is_inc what then (g, upd_range (\<lambda>r. r\<lparr>dst_ip_inc := a\<rparr>) i)
        else if what = ''start'' then (g, upd_range (\<lambda>r. r\<lparr>dst_ip := a\<rparr>) i)
        else (g, i))"

definition range_set_src_port :: "string \<Rightarrow> u16 \<Rightarrow> port_info \<Rightarrow> port_info" where
  "range_set_src_port what v i =
    upd_range (\<lambda>r. if is_inc what then r\<lparr>src_port_inc := (if v > 64 then 64 else v)\<rparr>
      else if is_min what then r\<lparr>src_port_min := v\<rparr>
      else if is_max what then r\<lparr>src_port_max := v\<rparr>
      else if what = ''start'' then r\<lparr>src_port := v\<rparr> else r) i"

definition range_set_dst_port :: "string \<Rightarrow> u16 \<Rightarrow> port_info \<Rightarrow> port_info" where
  "range_set_dst_port what v i =
    upd_range (\<lambda>r. if is_inc what then r\<lparr>dst_port_inc := (if v > 64 then 64 else v)\<rparr>
      else if is_min what then r\<lparr>dst_port_min := v\<rparr>
      else if is_max what then r\<lparr>dst_port_max := v\<rparr>
      else if what = ''start'' then r\<lparr>dst_port := v\<rparr> else r) i"

definition range_set_gtpu_teid :: "string \<Rightarrow> u32 \<Rightarrow> port_info \<Rightarrow> port_info option" where
  "range_set_gtpu_teid what v i =
    (if is_inc what then Some (if v \<noteq> 0 then upd_range (\<lambda>r. r\<lparr>gtpu_teid_inc := v\<rparr>) i else i)
     else if is_min what then Some (upd_range (\<lambda>r. r\<lparr>gtpu_teid_min := v\<rparr>) i)
     else if is_max what then Some (upd_range (\<lambda>r. r\<lparr>gtpu_teid_max := v\<rparr>) i)
     else if what = ''start'' then
       upd_pkt RANGE_PKT (\<lambda>p. p\<lparr>gtpu_teid := v\<rparr>) (upd_range (\<lambda>r. r\<lparr>rgtpu_teid := v\<rparr>) i)
     else Some i)"

definition range_set_vlan_id :: "string \<Rightarrow> u16 \<Rightarrow> port_info \<Rightarrow> port_info" where
  "range_set_vlan_id what v i =
    upd_range (\<lambda>r. if is_inc what then r\<lparr>vlan_id_inc := (if v > 64 then 64 else v)\<rparr>
      else let v = (if v < MIN_VLAN_ID \<or> v > MAX_VLAN_ID then MIN_VLAN_ID else v)
      in if is_min what then r\<lparr>vlan_id_min := v\<rparr>
      else if is_max what then r\<lparr>vlan_id_max := v\<rparr>
      else if what = ''start'' then r\<lparr>vlan_id := v\<rparr> else r) i"

definition range_set_tos_id :: "string \<Rightarrow> u8 \<Rightarrow> port_info \<Rightarrow> port_info" where
  "range_set_tos_id what v i =
    upd_range (\<lambda>r. if is_inc what then r\<lparr>tos_inc := ucast v\<rparr>
      else if is_min what then r\<lparr>tos_min := v\<rparr>
      else if is_max what then r\<lparr>tos_max := v\<rparr>
      else if what = ''start'' then r\<lparr>rtos := v\<rparr> else r) i"

definition range_set_cos_id :: "string \<Rightarrow> u8 \<Rightarrow> port_info \<Rightarrow> port_info" where
  "range_set_cos_id what v i =
    upd_range (\<lambda>r. if is_inc what then r\<lparr>cos_inc := ucast (if v > 7 then 7 else v)\<rparr>
      else if is_min what then r\<lparr>cos_min := v\<rparr>
      else if is_max what then r\<lparr>cos_max := v\<rparr>
      else if what = ''start'' then r\<lparr>rcos := v\<rparr> else r) i"

definition range_set_pkt_size :: "string \<Rightarrow> u16 \<Rightarrow> port_info \<Rightarrow> port_info" where
  "range_set_pkt_size what v i =
    upd_range (\<lambda>r. if is_inc what then r\<lparr>pkt_size_inc := (if v > ETHER_MIN_LEN then ETHER_MIN_LEN else v)\<rparr>
      else let v = (if v < ETHER_MIN_LEN then MIN_PKT_SIZE else if v > ETHER_MAX_LEN then MAX_PKT_SIZE
                    else v - FCS_SIZE)
      in if what = ''start'' then r\<lparr>pkt_size := v\<rparr>
      else if is_min what then r\<lparr>pkt_size_min := v\<rparr>
      else if is_max what then r\<lparr>pkt_size_max := v\<rparr> else r) i"

section \<open>Sequence and extra packets\<close>

record seq_args =
  a_daddr :: ether_addr
  a_saddr :: ether_addr
  a_ip_daddr :: cmdline_ipaddr
  a_ip_saddr :: cmdline_ipaddr
  a_sport :: u32
  a_dport :: u32
  a_type :: char
  a_proto :: char
  a_vlanid :: u16
  a_pktsize :: u32
  a_gtpu_teid :: u32

definition seq_proto :: "char \<Rightarrow> u8" where
  "seq_proto c = (if c = CHR ''u'' then PG_IPPROTO_UDP else if c = CHR ''i'' then PG_IPPROTO_ICMP
     else PG_IPPROTO_TCP)"

definition pktgen_set_seq :: "u32 \<Rightarrow> seq_args \<Rightarrow> port_cmd" where
  "pktgen_set_seq seqnum a g i = do {
     m \<leftarrow> size_to_mask (sint (prefixlen (a_ip_saddr a)));
     let ty = (if a_proto a = CHR ''i'' then CHR ''4'' else a_type a);
     set_and_rebuild (unat seqnum) (\<lambda>p.
       let p = p\<lparr>eth_dst_addr := a_daddr a, eth_src_addr := a_saddr a, ip_mask := m\<rparr>;
           p = (if a_type a = CHR ''4''
                then p\<lparr>ip_src_addr := (ip_src_addr p)\<lparr>s_addr := htonl (s_addr (a_ip_saddr a))\<rparr>,
                       ip_dst_addr := (ip_dst_addr p)\<lparr>s_addr := htonl (s_addr (a_ip_daddr a))\<rparr>\<rparr>
                else p\<lparr>ip_src_addr := (ip_src_addr p)\<lparr>s_addr := s_addr (a_ip_saddr a),
                                                    s6_tail := s6_tail (a_ip_saddr a)\<rparr>,
                       ip_dst_addr := (ip_dst_addr p)\<lparr>s_addr := s_addr (a_ip_daddr a),
                                                    s6_tail := s6_tail (a_ip_daddr a)\<rparr>\<rparr>)
       in p\<lparr>dport := ucast (a_dport a), sport := ucast (a_sport a),
            pktSize := ucast (a_pktsize a - ucast FCS_SIZE), ipProto := ucast (seq_proto (a_proto a)),
            ethType := (if ty = CHR ''6'' then ETHER_TYPE_IPv6 else ETHER_TYPE_IPv4),
            vlanid := a_vlanid a, gtpu_teid := a_gtpu_teid a\<rparr>) g i }"

definition pktgen_set_cos_tos_seq :: "u32 \<Rightarrow> u32 \<Rightarrow> u32 \<Rightarrow> port_cmd" where
  "pktgen_set_cos_tos_seq seqnum c t g i =
    set_and_rebuild (unat seqnum) (\<lambda>p. p\<lparr>pkt_cos := ucast c, tos := ucast t\<rparr>) g i"

text \<open>The template that is changed is \<open>seqnum + EXTRA_TX_PKT\<close>; the image that is rebuilt
  is the one of \<open>seqnum\<close>.\<close>

definition pktgen_compile_pkt :: "u32 \<Rightarrow> seq_args \<Rightarrow> port_cmd" where
  "pktgen_compile_pkt seqnum a g i =
    (if unat seqnum \<ge> NUM_EXTRA_TX_PKTS then Some (g, i) else do {
     m \<leftarrow> size_to_mask (sint (prefixlen (a_ip_saddr a)));
     let ty = (if a_proto a = CHR ''i'' then CHR ''4'' else a_type a);
     i \<leftarrow> upd_pkt (unat seqnum + EXTRA_TX_PKT) (\<lambda>p.
       p\<lparr>eth_dst_addr := a_daddr a, eth_src_addr := a_saddr a, ip_mask := m,
         ip_src_addr := (ip_src_addr p)\<lparr>s_addr := htonl (s_addr (a_ip_saddr a))\<rparr>,
         ip_dst_addr := (ip_dst_addr p)\<lparr>s_addr := htonl (s_addr (a_ip_daddr a))\<rparr>,
         dport := ucast (a_dport a), sport := ucast (a_sport a),
         pktSize := ucast (a_pktsize a - ucast FCS_SIZE), ipProto := ucast (seq_proto (a_proto a)),
         ethType := (if ty = CHR ''4'' then ETHER_TYPE_IPv4 else if ty = CHR ''6'' then ETHER_TYPE_IPv6
                     else if ty = CHR ''n'' then ETHER_TYPE_VLAN else ETHER_TYPE_IPv4),
         vlanid := a_vlanid a, gtpu_teid := a_gtpu_teid a\<rparr>) i;
     rebuild (unat seqnum) (- 1) g i })"

definition pktgen_add_cos_tos :: "u32 \<Rightarrow> u32 \<Rightarrow> u32 \<Rightarrow> port_cmd" where
  "pktgen_add_cos_tos seqnum c t g i =
    (if unat seqnum \<ge> NUM_EXTRA_TX_PKTS then Some (g, i) else do {
     i \<leftarrow> upd_pkt (unat seqnum + EXTRA_TX_PKT) (\<lambda>p. p\<lparr>pkt_cos := ucast c, tos := ucast t\<rparr>) i;
     rebuild (unat seqnum) (- 1) g i })"

section \<open>Statistics\<close>

text \<open>\<open>dev\<close>: the counters of the device, read by \<open>rte_eth_stats_get\<close>.\<close>

definition pktgen_clear_stats :: "eth_stats \<Rightarrow> glob \<Rightarrow> port_info \<Rightarrow> glob \<times> port_info" where
  "pktgen_clear_stats dev g i =
    (g\<lparr>max_total_ipackets := 0, max_total_opackets := 0, cumm_rate_totals := zero_eth_stats\<rparr>,
     i\<lparr>sizes := zero_port_sizes, prev_stats := zero_eth_stats, rate_stats := zero_eth_stats,
       init_stats := dev, max_ipackets := 0, max_opackets := 0,
       stats := (stats i)\<lparr>dropped_pkts := 0, arp_pkts := 0, echo_pkts := 0, ip_pkts := 0,
         ipv6_pkts := 0, vlan_pkts := 0, unknown_pkts := 0, tx_failed := 0\<rparr>,
       min_latency := 0, max_latency := 0, avg_latency := 0, jitter_count := 0, max_missed := 0\<rparr>)"

end
