(* ===== verification/Rate.thy ===== *)
theory Rate
  imports PacketCtor Samples
begin

text \<open>
  The transmit rate of a port: \<open>pktgen_wire_size\<close> does not overflow and is the mean size
  on the wire of the packets that are sent, and \<open>pktgen_packet_rate\<close> returns a packet
  rate that the link can carry.
\<close>

section \<open>Sums of words\<close>

lemma unat_sum_list:
  fixes f :: "'b \<Rightarrow> 'a :: len word"
  assumes "\<forall>x \<in> set xs. unat (f x) \<le> B" "length xs * B < 2 ^ LENGTH('a)"
  shows "unat (sum_list (map f xs)) = (\<Sum>x\<leftarrow>xs. unat (f x)) \<and> (\<Sum>x\<leftarrow>xs. unat (f x)) \<le> length xs * B"
  using assms
proof (induction xs)
  case (Cons x xs)
  have l: "length xs * B < 2 ^ LENGTH('a)" using Cons.prems(2) by simp
  from Cons.IH [OF _ l] Cons.prems(1) have
    ih: "unat (sum_list (map f xs)) = (\<Sum>x\<leftarrow>xs. unat (f x))" "(\<Sum>x\<leftarrow>xs. unat (f x)) \<le> length xs * B"
    by auto
  have b: "unat (f x) \<le> B" using Cons.prems(1) by simp
  have "unat (f x) + unat (sum_list (map f xs)) < 2 ^ LENGTH('a)"
    using ih b Cons.prems(2) by simp
  then have "unat (f x + sum_list (map f xs)) = unat (f x) + unat (sum_list (map f xs))"
    by (simp add: unat_word_ariths)
  then show ?case using ih b by simp
qed simp

lemma unat_ucast_64 [simp]:
  "unat (ucast (h :: u16) :: u64) = unat h" "unat (ucast (v :: u32) :: u64) = unat v"
  using unat_less(2) [of h] unat_less(3) [of v]
  by (simp_all add: unsigned_ucast_eq take_bit_nat_eq_self)

section \<open>Wire size\<close>

text \<open>What a port sends: the size on the wire of a packet is its length, the checksum, the
  preamble and the gap.\<close>

definition on_wire :: "nat \<Rightarrow> nat" where
  "on_wire len = len + 24"

lemma unat_wire_overhead: "unat wire_overhead = 24"
  by (simp add: wire_overhead_def size_consts)

lemma unat_on_wire:
  "unat (ucast (h :: u16) + wire_overhead) = on_wire (unat h)"
  "unat (v :: u32) + 24 < 2 ^ 32 \<Longrightarrow> unat (v + ucast wire_overhead) = on_wire (unat v)"
  using unat_less(2) [of h]
  by (simp_all add: unat_word_ariths unat_wire_overhead on_wire_def) (simp add: wire_overhead_def size_consts)

definition mean_wire_size :: "port_info \<Rightarrow> nat" where
  "mean_wire_size i =
    (if has_flag (port_flags i) SEND_PCAP_PKTS then on_wire (unat (pcap_pkt_size (the (pcap i))))
     else if seqCnt i > 0
       then (\<Sum>p\<leftarrow>take (unat (seqCnt i)) (seq_pkt i). on_wire (unat (pktSize p))) div unat (seqCnt i)
     else on_wire (unat (pktSize (seq_pkt i ! SINGLE_PKT))))"

definition can_send :: "port_info \<Rightarrow> bool" where
  "can_send i \<longleftrightarrow> length (seq_pkt i) = NUM_TOTAL_PKTS \<and> unat (seqCnt i) \<le> NUM_SEQ_PKTS
     \<and> (has_flag (port_flags i) SEND_PCAP_PKTS \<longrightarrow>
       (\<exists>pc. pcap i = Some pc \<and> unat (pcap_pkt_size pc) + 24 < 2 ^ 32))"

lemma wire_size_mean:
  assumes "can_send i"
  shows "\<exists>w. pktgen_wire_size i = Some w \<and> unat w = mean_wire_size i"
proof -
  consider (pcap) "has_flag (port_flags i) SEND_PCAP_PKTS"
    | (seq) "\<not> has_flag (port_flags i) SEND_PCAP_PKTS" "seqCnt i > 0"
    | (single) "\<not> has_flag (port_flags i) SEND_PCAP_PKTS" "\<not> seqCnt i > 0" by blast
  then show ?thesis
  proof cases
    case pcap
    then show ?thesis using assms
      by (auto simp: can_send_def pktgen_wire_size_def mean_wire_size_def unat_on_wire)
  next
    case seq
    let ?ps = "take (unat (seqCnt i)) (seq_pkt i)" and ?f = "\<lambda>p. ucast (pktSize p) + wire_overhead :: u64"
    have b: "\<forall>p \<in> set ?ps. unat (?f p) \<le> 65559"
    proof
      fix p show "unat (?f p) \<le> 65559" using unat_less(2) [of "pktSize p"] by (simp add: unat_on_wire on_wire_def)
    qed
    have l: "length ?ps * 65559 < 2 ^ LENGTH(64)" using assms by (simp add: can_send_def)
    have "unat (sum_list (map ?f ?ps) div ucast (seqCnt i)) =
        (\<Sum>p\<leftarrow>?ps. on_wire (unat (pktSize p))) div unat (seqCnt i)"
      using unat_sum_list [OF b l] by (simp add: unat_div unat_on_wire)
    then show ?thesis using assms seq
      by (simp add: can_send_def pktgen_wire_size_def mean_wire_size_def)
  next
    case single
    then show ?thesis using assms
      by (simp add: can_send_def pktgen_wire_size_def mean_wire_size_def unat_on_wire)
  qed
qed

lemma mean_wire_bounds:
  assumes "can_send i"
  shows "24 \<le> mean_wire_size i" "mean_wire_size i < 2 ^ 33"
proof -
  let ?n = "unat (seqCnt i)" let ?ps = "take ?n (seq_pkt i)"
  have n: "length ?ps = ?n" using assms by (simp add: can_send_def)
  have lo: "length qs * 24 \<le> (\<Sum>p\<leftarrow>qs. on_wire (unat (pktSize p)))" for qs
    by (induction qs) (simp_all add: on_wire_def)
  have hi: "(\<Sum>p\<leftarrow>qs. on_wire (unat (pktSize p))) \<le> length qs * 65559" for qs
  proof (induction qs)
    case (Cons p qs)
    then show ?case using unat_less(2) [of "pktSize p"] by (simp add: on_wire_def)
  qed simp
  have s: "24 \<le> (\<Sum>p\<leftarrow>?ps. on_wire (unat (pktSize p))) div ?n
      \<and> (\<Sum>p\<leftarrow>?ps. on_wire (unat (pktSize p))) div ?n \<le> 65559" if "0 < ?n"
  proof
    show "24 \<le> (\<Sum>p\<leftarrow>?ps. on_wire (unat (pktSize p))) div ?n"
      using lo [of ?ps] n that by (simp add: less_eq_div_iff_mult_less_eq mult.commute)
    have "(\<Sum>p\<leftarrow>?ps. on_wire (unat (pktSize p))) div ?n \<le> (?n * 65559) div ?n"
      using hi [of ?ps] n by (intro div_le_mono) simp
    then show "(\<Sum>p\<leftarrow>?ps. on_wire (unat (pktSize p))) div ?n \<le> 65559" using that by simp
  qed
  show "24 \<le> mean_wire_size i"
    using s by (auto simp: mean_wire_size_def on_wire_def unat_gt_0 word_less_nat_alt)
  show "mean_wire_size i < 2 ^ 33"
    using s unat_less(3) [of "pcap_pkt_size (the (pcap i))"] unat_less(2) [of "pktSize (seq_pkt i ! SINGLE_PKT)"]
    by (auto simp: mean_wire_size_def on_wire_def word_less_nat_alt)
qed

section \<open>Rate\<close>

text \<open>Rounding to a double: a value that is not negative stays so and is at most doubled.\<close>

definition rounds :: "(rat \<Rightarrow> rat) \<Rightarrow> bool" where
  "rounds fp \<longleftrightarrow> (\<forall>x. 0 \<le> x \<longrightarrow> 0 \<le> fp x \<and> fp x \<le> 2 * x)"

definition link_bits :: "port_info \<Rightarrow> nat" where
  "link_bits i = unat (link_speed i) * 1000000"

lemma unat_link: "unat (ucast (link_speed i) * 1000000 :: u64) = link_bits i"
  using unat_less(3) [of "link_speed i"] by (simp add: link_bits_def unat_word_ariths)

lemma packet_rate_result:
  assumes "can_send i" "rounds fp" "0 \<le> tx_rate i" "tx_rate i \<le> 100"
  shows "\<exists>pps. pktgen_packet_rate fp n g i = Some (i\<lparr>tx_pps := pps,
      tx_cycles := (if pps > 0 then hz g div pps else hz g div 4) * ucast (tx_burst i) * n\<rparr>)
    \<and> int (unat pps) = \<lfloor>fp (fp (fp (of_nat (link_bits i div (mean_wire_size i * 8))) * tx_rate i) / 100)\<rfloor>"
proof -
  obtain w where w: "pktgen_wire_size i = Some w" "unat w = mean_wire_size i"
    using wire_size_mean [OF assms(1)] by blast
  have w8: "unat (w * 8) = mean_wire_size i * 8"
    using mean_wire_bounds(2) [OF assms(1)] w(2) by (simp add: unat_word_ariths)
  then have nz: "w * 8 \<noteq> 0" using mean_wire_bounds(1) [OF assms(1)] by (metis unat_0 mult_is_0 not_numeral_le_zero zero_neq_numeral)
  let ?k = "link_bits i div (mean_wire_size i * 8)"
  have k: "unat (ucast (link_speed i) * 1000000 div (w * 8) :: u64) = ?k"
    by (simp add: unat_div unat_link w8)
  have k': "(unsigned (ucast (link_speed i) * 1000000 div (w * 8) :: u64) :: rat) = of_nat ?k"
    using k by (metis of_nat_unat)
  have kb: "?k < 2 ^ 53"
  proof -
    have "?k \<le> link_bits i" by (rule div_le_dividend)
    also have "\<dots> < 2 ^ 53" using unat_less(3) [of "link_speed i"] by (simp add: link_bits_def)
    finally show ?thesis .
  qed
  let ?x = "fp (of_nat ?k)" let ?y = "fp (?x * tx_rate i)" let ?z = "fp (?y / 100)"
  have x: "0 \<le> ?x" "?x \<le> 2 * of_nat ?k" using assms(2) by (simp_all add: rounds_def)
  have y: "0 \<le> ?y" "?y \<le> 2 * (?x * tx_rate i)" using assms(2,3) x(1) by (simp_all add: rounds_def)
  have y100: "0 \<le> ?y / 100" using y(1) by simp
  have z: "0 \<le> ?z" "?z \<le> 2 * (?y / 100)" using assms(2) y100 unfolding rounds_def by blast+
  have "?x * tx_rate i \<le> ?x * 100" using x(1) assms(4) by (rule mult_left_mono [rotated])
  then have "?z \<le> 8 * of_nat ?k" using x y z by linarith
  also have "\<dots> < 2 ^ 64"
  proof -
    have "(of_nat ?k :: rat) < of_nat (2 ^ 53)" using kb by (simp only: of_nat_less_iff)
    then show ?thesis by simp
  qed
  finally have z64: "?z < 2 ^ 64" .
  have "to_u64 ?z = Some (word_of_int \<lfloor>?z\<rfloor>)" using z(1) z64 by (simp add: to_u64_def)
  moreover have "int (unat (word_of_int \<lfloor>?z\<rfloor> :: u64)) = \<lfloor>?z\<rfloor>"
  proof -
    have "0 \<le> \<lfloor>?z\<rfloor>" "\<lfloor>?z\<rfloor> < 2 ^ 64" using z(1) z64 by (simp_all add: floor_less_iff)
    then show ?thesis by (simp add: uint_word_of_int uint_nat [symmetric] mod_pos_pos_trivial)
  qed
  moreover have "pktgen_packet_rate fp n g i = (case to_u64 ?z of None \<Rightarrow> None | Some pps \<Rightarrow>
      Some (i\<lparr>tx_pps := pps, tx_cycles := (if pps > 0 then hz g div pps else hz g div 4) * ucast (tx_burst i) * n\<rparr>))"
    using w(1) nz k' by (simp add: pktgen_packet_rate_def guard_def Let_def split: option.splits)
  ultimately show ?thesis by auto
qed


lemma sample_can_send [simp]: "can_send sample_port"
  by (simp add: can_send_def sample_port_def has_flag_def)


end
