(* ===== verification/PortInv.thy ===== *)
theory PortInv
  imports Commands Rate
begin

text \<open>
  The invariant of a configured port and its preservation by every command.  It holds
  the shape of the templates, the exclusive modes (one tag format, one source of packets,
  one GRE mode) and the bounds of the sequence, the burst, the prime count, the packet
  size and the increments of the range.
\<close>

section \<open>The invariant\<close>

definition tag_flags :: "u32 list" where
  "tag_flags = [SEND_VLAN_ID, SEND_MPLS_LABEL, SEND_Q_IN_Q_IDS]"

definition feed_flags :: "u32 list" where
  "feed_flags = [SEND_RANGE_PKTS, SEND_SEQ_PKTS, SEND_PCAP_PKTS]"

definition gre_flags :: "u32 list" where
  "gre_flags = [SEND_GRE_IPv4_HEADER, SEND_GRE_ETHER_HEADER]"

definition modes_ok :: "port_info \<Rightarrow> bool" where
  "modes_ok i \<longleftrightarrow> at_most_one tag_flags (port_flags i) \<and> at_most_one feed_flags (port_flags i)
     \<and> at_most_one gre_flags (port_flags i)"

definition inc_ok :: "range_info \<Rightarrow> bool" where
  "inc_ok r \<longleftrightarrow> src_port_inc r \<le> 64 \<and> dst_port_inc r \<le> 64 \<and> vlan_id_inc r \<le> 64 \<and> cos_inc r \<le> 7
     \<and> pkt_size_inc r \<le> ETHER_MIN_LEN
     \<and> 1 \<le> vlan_id_min r \<and> vlan_id_min r \<le> 4095 \<and> 1 \<le> vlan_id_max r \<and> vlan_id_max r \<le> 4095
     \<and> MIN_PKT_SIZE \<le> pkt_size_min r \<and> pkt_size_min r \<le> MAX_PKT_SIZE
     \<and> MIN_PKT_SIZE \<le> pkt_size_max r \<and> pkt_size_max r \<le> MAX_PKT_SIZE"

definition port_inv :: "nat \<Rightarrow> port_info \<Rightarrow> bool" where
  "port_inv sz i \<longleftrightarrow> wf_port sz i \<and> modes_ok i \<and> inc_ok (range i)
     \<and> unat (seqCnt i) \<le> NUM_SEQ_PKTS
     \<and> 1 \<le> unat (tx_burst i) \<and> unat (tx_burst i) \<le> unat DEFAULT_PKT_BURST
     \<and> 1 \<le> unat (prime_cnt i) \<and> unat (prime_cnt i) \<le> unat MAX_PRIME_COUNT
     \<and> pktSize (seq_pkt i ! SINGLE_PKT) \<le> MAX_PKT_SIZE
     \<and> length (dump_list i) = MAX_DUMP_PACKETS \<and> unat (dump_count i) \<le> MAX_DUMP_PACKETS"

lemmas port_inv_defs = port_inv_def wf_port_def modes_ok_def

section \<open>Flags\<close>

definition all_modes :: "u32 list" where "all_modes = tag_flags @ feed_flags @ gre_flags"

lemma mode_apart [simp]:
  "f \<in> set all_modes \<Longrightarrow> h \<in> set all_modes \<Longrightarrow> f \<noteq> h \<Longrightarrow> f AND h = 0"
  by (auto simp: all_modes_def tag_flags_def feed_flags_def gre_flags_def port_flag_defs)

lemma mode_group:
  assumes "f \<in> set fs" "f \<in> set fs'"
    and "fs \<in> {tag_flags, feed_flags, gre_flags}" "fs' \<in> {tag_flags, feed_flags, gre_flags}"
  shows "fs' = fs"
  using assms by (elim insertE emptyE) (auto simp: tag_flags_def feed_flags_def gre_flags_def port_flag_defs)

lemma at_most_one_other:
  assumes "\<And>f. f \<in> set fs \<Longrightarrow> has_flag w' f \<Longrightarrow> has_flag w f" "at_most_one fs w"
  shows "at_most_one fs w'"
  using assms by (simp add: at_most_one_def)

text \<open>Clearing flags keeps every group exclusive; so does setting a flag outside of the group,
  or the one flag of the group that is left.\<close>

lemma has_flag_clr_imp: "has_flag (w AND NOT f) h \<Longrightarrow> has_flag w h"
proof -
  have "(w AND NOT f) AND h = (w AND h) AND NOT f" by (simp only: ac_simps)
  then show "has_flag (w AND NOT f) h \<Longrightarrow> has_flag w h" by (auto simp: has_flag_def)
qed

lemma at_most_one_clr: "at_most_one fs w \<Longrightarrow> at_most_one fs (w AND NOT f)"
  by (erule at_most_one_other [rotated]) (rule has_flag_clr_imp)

lemma at_most_one_set:
  assumes "at_most_one fs w" "\<And>h. h \<in> set fs \<Longrightarrow> f AND h = 0"
  shows "at_most_one fs (w OR f)"
  using assms by (auto simp: at_most_one_def has_flag_def bit.conj_disj_distrib2)

lemma at_most_one_select:
  assumes "\<And>h. h \<in> set fs \<Longrightarrow> h \<noteq> f \<Longrightarrow> f AND h = 0 \<and> \<not> has_flag w h"
  shows "at_most_one fs (w OR f)"
proof -
  have "h = f" if "h \<in> set fs" "has_flag (w OR f) h" for h
    by (rule ccontr) (use assms [OF that(1)] that(2) in \<open>simp add: has_flag_def bit.conj_disj_distrib2\<close>)
  then show ?thesis by (auto simp: at_most_one_def)
qed

lemma clr_clears: "\<not> has_flag w h \<Longrightarrow> \<not> has_flag (w AND NOT f) h" "\<not> has_flag (w AND NOT f) f"
  using has_flag_clr_imp by (blast, simp add: has_flag_def and.assoc)

lemma modes_clr: "modes_ok i \<Longrightarrow> modes_ok (pktgen_clr_port_flags i f)"
  by (simp add: modes_ok_def clr_port_flags_eq at_most_one_clr)

lemma modes_set:
  "modes_ok i \<Longrightarrow> (\<And>h. h \<in> set all_modes \<Longrightarrow> f AND h = 0) \<Longrightarrow> modes_ok (pktgen_set_port_flags i f)"
  by (simp add: modes_ok_def set_port_flags_eq all_modes_def at_most_one_set)

text \<open>Selecting a mode after the others of its group were cleared.\<close>

lemma modes_select:
  assumes "modes_ok i" "f \<in> set all_modes"
    and "\<And>fs h. fs \<in> {tag_flags, feed_flags, gre_flags} \<Longrightarrow> f \<in> set fs \<Longrightarrow> h \<in> set fs \<Longrightarrow> h \<noteq> f \<Longrightarrow>
      \<not> has_flag (port_flags i) h"
  shows "modes_ok (pktgen_set_port_flags i f)"
proof -
  have "at_most_one fs (port_flags i OR f)"
    if fs: "fs \<in> {tag_flags, feed_flags, gre_flags}" and ok: "at_most_one fs (port_flags i)" for fs
  proof (cases "f \<in> set fs")
    case True
    have sub: "set fs \<subseteq> set all_modes" using fs by (auto simp: all_modes_def)
    show ?thesis
      by (rule at_most_one_select) (use True sub assms(2,3) fs in auto)
  next
    case False
    have sub: "set fs \<subseteq> set all_modes" using fs by (auto simp: all_modes_def)
    show ?thesis
      by (rule at_most_one_set [OF ok]) (use False sub assms(2) in \<open>auto intro: mode_apart\<close>)
  qed
  then show ?thesis using assms(1) by (simp add: modes_ok_def set_port_flags_eq)
qed

lemma modes_cong: "port_flags i' = port_flags i \<Longrightarrow> modes_ok i' = modes_ok i"
  by (simp add: modes_ok_def)

section \<open>Frames\<close>

lemma packet_rate_frame:
  "pktgen_packet_rate fp n g i = Some i' \<Longrightarrow> \<exists>a b. i' = i\<lparr>tx_pps := a, tx_cycles := b\<rparr>"
  by (auto simp: pktgen_packet_rate_def Let_def bind_eq_Some_iff guard_def split: if_splits)

lemma all_q_flags_frame:
  "all_q_flags n f i = Some i' \<Longrightarrow> \<exists>qs. length qs = length (q i) \<and> i' = i\<lparr>q := qs\<rparr>"
proof (induction n arbitrary: i')
  case 0
  then show ?case by (auto intro!: exI [of _ "q i"])
next
  case (Suc n)
  from Suc.prems obtain i1 where 1: "all_q_flags n f i = Some i1" and 2: "pktgen_set_q_flags i1 n f = Some i'"
    by (auto simp: bind_eq_Some_iff)
  with Suc.IH obtain qs where "length qs = length (q i)" "i1 = i\<lparr>q := qs\<rparr>" by blast
  with 2 show ?case
    by (auto simp: pktgen_set_q_flags_def split: if_splits intro!: exI [of _ "qs[n := x]" for x])
qed

lemma rebuild_frame:
  assumes "rebuild k ty g i = Some (g', i')"
  obtains p' where "k < length (seq_pkt i)" "hdr_only (seq_pkt i ! k) p'"
    "i' = i\<lparr>seq_pkt := (seq_pkt i)[k := p']\<rparr>" "ident_only g g'"
proof -
  obtain e where "pktgen_packet_ctor g i k ty = Some (e, g', i')"
    using assms by (auto simp: rebuild_def)
  from packet_ctor_frame [OF this] show thesis using that by blast
qed

lemma inv_rate [step_inv]:
  "pktgen_packet_rate fp n g i = Some i' \<Longrightarrow> port_inv sz i \<Longrightarrow> port_inv sz i'"
  by (drule packet_rate_frame) (auto simp: port_inv_defs)

lemma inv_q_flags [step_inv]: "all_q_flags n f i = Some i' \<Longrightarrow> port_inv sz i \<Longrightarrow> port_inv sz i'"
  by (drule all_q_flags_frame) (auto simp: port_inv_defs)

lemma inv_pkt:
  assumes "port_inv sz i" "k < length (seq_pkt i)" "wf_pkt sz p"
    and "k = SINGLE_PKT \<Longrightarrow> pktSize p \<le> MAX_PKT_SIZE"
  shows "port_inv sz (i\<lparr>seq_pkt := (seq_pkt i)[k := p]\<rparr>)"
  using assms by (auto simp: port_inv_defs list_all_length nth_list_update)

lemma inv_rebuild [step_inv]:
  assumes "rebuild k ty g i = Some (g', i')" "port_inv sz i"
  shows "port_inv sz i'"
proof -
  from rebuild_frame [OF assms(1)] obtain p' where k: "k < length (seq_pkt i)"
    and h: "hdr_only (seq_pkt i ! k) p'" and i: "i' = i\<lparr>seq_pkt := (seq_pkt i)[k := p']\<rparr>" by metis
  have "wf_pkt sz (seq_pkt i ! k)" using assms(2) k by (simp add: port_inv_defs list_all_length)
  then have w: "wf_pkt sz p'" using h hdr_only_wf by blast
  have "pktSize p' = pktSize (seq_pkt i ! k)"
    using h by (cases p', cases "seq_pkt i ! k") (simp add: hdr_only_def)
  then have sz: "k = SINGLE_PKT \<Longrightarrow> pktSize p' \<le> MAX_PKT_SIZE" using assms(2) by (simp add: port_inv_def)
  show ?thesis unfolding i by (rule inv_pkt [OF assms(2) k w sz])
qed

lemma inv_upd_pkt [step_inv]:
  assumes "upd_pkt k f i = Some i'" "port_inv sz i"
    and "\<And>p. wf_pkt sz p \<Longrightarrow> wf_pkt sz (f p)"
    and "\<And>p. k = SINGLE_PKT \<Longrightarrow> pktSize p \<le> MAX_PKT_SIZE \<Longrightarrow> pktSize (f p) \<le> MAX_PKT_SIZE"
  shows "port_inv sz i'"
proof -
  have k: "k < length (seq_pkt i)" and i: "i' = i\<lparr>seq_pkt := (seq_pkt i)[k := f (seq_pkt i ! k)]\<rparr>"
    using assms(1) by (auto simp: upd_pkt_def split: if_splits)
  show ?thesis unfolding i
    by (rule inv_pkt [OF assms(2) k])
      (use assms(2-4) k in \<open>auto simp: port_inv_defs list_all_length\<close>)
qed

lemma inv_set_and_rebuild [step_inv]:
  assumes "set_and_rebuild k f g i = Some (g', i')" "port_inv sz i"
    and "\<And>p. wf_pkt sz p \<Longrightarrow> wf_pkt sz (f p)"
    and "\<And>p. k = SINGLE_PKT \<Longrightarrow> pktSize p \<le> MAX_PKT_SIZE \<Longrightarrow> pktSize (f p) \<le> MAX_PKT_SIZE"
  shows "port_inv sz i'"
proof -
  obtain i1 where "upd_pkt k f i = Some i1" "rebuild k (- 1) g i1 = Some (g', i')"
    using assms(1) by (auto simp: set_and_rebuild_def bind_eq_Some_iff)
  moreover from inv_upd_pkt [OF this(1) assms(2)] assms(3,4) have "port_inv sz i1" by blast
  ultimately show ?thesis using inv_rebuild by blast
qed

lemma inv_flags:
  "port_inv sz i \<Longrightarrow> modes_ok (pktgen_clr_port_flags i f) \<Longrightarrow> port_inv sz (pktgen_clr_port_flags i f)"
  "port_inv sz i \<Longrightarrow> modes_ok (pktgen_set_port_flags i f) \<Longrightarrow> port_inv sz (pktgen_set_port_flags i f)"
  by (simp_all add: port_inv_defs clr_port_flags_eq set_port_flags_eq)

lemma inv_clr [step_inv]: "port_inv sz i \<Longrightarrow> port_inv sz (pktgen_clr_port_flags i f)"
  by (rule inv_flags) (simp_all add: modes_clr port_inv_def)

lemma inv_set [step_inv]:
  "port_inv sz i \<Longrightarrow> list_all (\<lambda>h. f AND h = 0) all_modes \<Longrightarrow> port_inv sz (pktgen_set_port_flags i f)"
  by (rule inv_flags) (simp_all add: modes_set port_inv_def list_all_iff)

lemma inv_onoff [step_inv]:
  "port_inv sz i \<Longrightarrow> list_all (\<lambda>h. f AND h = 0) all_modes \<Longrightarrow> port_inv sz (onoff f on i)"
  by (simp add: onoff_def inv_clr inv_set)

text \<open>The three selections: of a tag, of a source of packets, of a GRE mode.\<close>

definition select_tag :: "u32 \<Rightarrow> u32 \<Rightarrow> u32 \<Rightarrow> port_info \<Rightarrow> port_info" where
  "select_tag a b f i = pktgen_set_port_flags (pktgen_clr_port_flags (pktgen_clr_port_flags i a) b) f"

lemma inv_select3:
  assumes "port_inv sz i" "{a, b, f} = set fs" "fs = tag_flags \<or> fs = feed_flags"
  shows "port_inv sz (select_tag a b f i)"
proof -
  let ?i = "pktgen_clr_port_flags (pktgen_clr_port_flags i a) b"
  have sub: "set fs \<subseteq> set all_modes" using assms(3) by (auto simp: all_modes_def)
  have no: "\<not> has_flag (port_flags ?i) a" "\<not> has_flag (port_flags ?i) b"
    by (simp_all add: clr_port_flags_eq clr_clears)
  have only: "fs' = fs" if "fs' \<in> {tag_flags, feed_flags, gre_flags}" "f \<in> set fs'" for fs'
  proof -
    have "f \<in> set fs" using assms(2) by auto
    then show ?thesis using that assms(3) mode_group by blast
  qed
  have "modes_ok (pktgen_set_port_flags ?i f)"
  proof (rule modes_select)
    show "modes_ok ?i" using assms(1) by (simp add: modes_clr port_inv_def)
    show "f \<in> set all_modes" using assms(2) sub by auto
    fix fs' h assume fs': "fs' \<in> {tag_flags, feed_flags, gre_flags}" "f \<in> set fs'" and h: "h \<in> set fs'" "h \<noteq> f"
    have "h \<in> {a, b, f}" using h(1) unfolding only [OF fs'] assms(2) .
    then show "\<not> has_flag (port_flags ?i) h" using no h(2) by (elim insertE) simp_all
  qed
  then show ?thesis unfolding select_tag_def using assms(1) by (intro inv_flags(2) inv_clr)
qed

section \<open>Every command\<close>

text \<open>One command on a port, with the arguments the parser can hand it: a MAC address has six
  bytes and an address union sixteen.  \<open>n\<close> is the number of transmit queues.\<close>

definition ip_arg :: "cmdline_ipaddr \<Rightarrow> bool" where
  "ip_arg a \<longleftrightarrow> length (s6_tail a) = 12"

definition seq_arg :: "seq_args \<Rightarrow> bool" where
  "seq_arg a \<longleftrightarrow> length (a_daddr a) = 6 \<and> length (a_saddr a) = 6 \<and> ip_arg (a_ip_daddr a) \<and> ip_arg (a_ip_saddr a)"

inductive port_step :: "(rat \<Rightarrow> rat) \<Rightarrow> u64 \<Rightarrow> glob \<times> port_info \<Rightarrow> glob \<times> port_info \<Rightarrow> bool"
  for fp n where
  option: "f \<in> set [enable_icmp_echo on, enable_random on, enable_process on, enable_bonding on,
      enable_short_pkts on, enable_garp on, enable_latency on, pktgen_send_arp_requests on] \<Longrightarrow>
    port_step fp n (g, i) (g, f i)"
| scalar: "f \<in> set [single_set_tx_count v, single_set_tx_burst v, debug_set_tx_cycles v,
      pktgen_set_port_prime v, single_set_jitter thz v64, pattern_set_type str] \<Longrightarrow>
    port_step fp n (g, i) (g, f i)"
| traffic: "f \<in> set [pktgen_start_transmitting n, pktgen_stop_transmitting n, pktgen_prime_ports n,
      debug_set_port_dump v, pattern_set_user_pattern str] \<Longrightarrow> f i = Some i' \<Longrightarrow>
    port_step fp n (g, i) (g, i')"
| feed: "f \<in> set [single_set_tx_rate fp n rate, enable_pcap fp n v, enable_range fp n v,
      pktgen_set_port_seqCnt fp n v, pktgen_set_port_pps fp n v64] \<Longrightarrow> f g i = Some i' \<Longrightarrow>
    port_step fp n (g, i) (g, i')"
| tags: "f \<in> set [enable_vlan v, enable_mpls v, enable_qinq v, enable_gre v, enable_gre_eth v] \<Longrightarrow>
    f g i = Some (g', i') \<Longrightarrow> port_step fp n (g, i) (g', i')"
| single: "f \<in> set [single_set_proto str, single_set_pkt_type str, single_set_vlan_id h,
      single_set_cos b, single_set_tos b, range_set_mpls_entry v, single_set_qinqids h h',
      range_set_gre_key v, single_set_pkt_size h, single_set_port_value c v,
      range_set_qinqids h h', pktgen_ping4, pktgen_set_cos_tos_seq v v' v'',
      pktgen_add_cos_tos v v' v''] \<Longrightarrow>
    f g i = Some (g', i') \<Longrightarrow> port_step fp n (g, i) (g', i')"
| single_mac: "length mac = 6 \<Longrightarrow> f \<in> set [single_set_dst_mac mac, single_set_src_mac mac] \<Longrightarrow>
    f g i = Some (g', i') \<Longrightarrow> port_step fp n (g, i) (g', i')"
| single_ip: "single_set_ipaddr c ip g i = Some (g', i') \<Longrightarrow> port_step fp n (g, i) (g', i')"
| seq: "seq_arg a \<Longrightarrow> unat v < NUM_SEQ_PKTS \<Longrightarrow> pktgen_set_seq v a g i = Some (g', i') \<Longrightarrow>
    port_step fp n (g, i) (g', i')"
| compile: "seq_arg a \<Longrightarrow> pktgen_compile_pkt v a g i = Some (g', i') \<Longrightarrow> port_step fp n (g, i) (g', i')"
| range_plain: "f \<in> set [range_set_src_port str h, range_set_dst_port str h, range_set_vlan_id str h,
      range_set_tos_id str b, range_set_cos_id str b, range_set_pkt_size str h] \<Longrightarrow>
    port_step fp n (g, i) (g, f i)"
| range_pkt: "f \<in> set [range_set_proto str, range_set_pkt_type str, range_set_gtpu_teid str v] \<Longrightarrow>
    f i = Some i' \<Longrightarrow> port_step fp n (g, i) (g, i')"
| range_mac: "length mac = 6 \<Longrightarrow> f \<in> set [range_set_dest_mac str mac, range_set_src_mac str mac] \<Longrightarrow>
    f i = Some i' \<Longrightarrow> port_step fp n (g, i) (g, i')"
| range_ip: "f \<in> set [range_set_src_ip str ip, range_set_dst_ip str ip] \<Longrightarrow> f g i = (g', i') \<Longrightarrow>
    port_step fp n (g, i) (g', i')"
| clear: "pktgen_clear_stats dev g i = (g', i') \<Longrightarrow> port_step fp n (g, i) (g', i')"
| blink: "debug_blink v g i = Some (g', i') \<Longrightarrow> port_step fp n (g, i) (g', i')"

lemma all_modes_list: "all_modes = [SEND_VLAN_ID, SEND_MPLS_LABEL, SEND_Q_IN_Q_IDS, SEND_RANGE_PKTS,
    SEND_SEQ_PKTS, SEND_PCAP_PKTS, SEND_GRE_IPv4_HEADER, SEND_GRE_ETHER_HEADER]"
  by (simp add: all_modes_def tag_flags_def feed_flags_def gre_flags_def)

lemma options_apart [simp]:
  "list_all (\<lambda>h. ICMP_ECHO_ENABLE_FLAG AND h = 0) all_modes"
  "list_all (\<lambda>h. SEND_RANDOM_PKTS AND h = 0) all_modes"
  "list_all (\<lambda>h. PROCESS_INPUT_PKTS AND h = 0) all_modes"
  "list_all (\<lambda>h. BONDING_TX_PACKETS AND h = 0) all_modes"
  "list_all (\<lambda>h. SEND_SHORT_PACKETS AND h = 0) all_modes"
  "list_all (\<lambda>h. (PROCESS_GARP_PKTS OR PROCESS_INPUT_PKTS) AND h = 0) all_modes"
  "list_all (\<lambda>h. SEND_LATENCY_PKTS AND h = 0) all_modes"
  "list_all (\<lambda>h. SEND_GRATUITOUS_ARP AND h = 0) all_modes"
  "list_all (\<lambda>h. SEND_ARP_REQUEST AND h = 0) all_modes"
  "list_all (\<lambda>h. SENDING_PACKETS AND h = 0) all_modes"
  "list_all (\<lambda>h. SEND_FOREVER AND h = 0) all_modes"
  "list_all (\<lambda>h. SEND_PING4_REQUEST AND h = 0) all_modes"
  by (simp_all add: all_modes_list port_flag_defs)

lemma inv_option:
  assumes "f \<in> set [enable_icmp_echo on, enable_random on, enable_process on, enable_bonding on,
      enable_short_pkts on, enable_garp on, enable_latency on, pktgen_send_arp_requests on]" "port_inv sz i"
  shows "port_inv sz (f i)"
  using assms
  by (auto simp: enable_icmp_echo_def enable_random_def enable_process_def enable_bonding_def
      enable_short_pkts_def enable_garp_def enable_latency_def pktgen_send_arp_requests_def
      inv_onoff inv_set)

lemma unat_ucast_32_16_small: "unat (v :: u32) < 65536 \<Longrightarrow> unat (ucast v :: u16) = unat v"
  by (rule unat_ucast_32_narrow)

lemma inv_value:
  assumes "f \<in> set [single_set_tx_count v, single_set_tx_burst v, debug_set_tx_cycles v,
      pktgen_set_port_prime v, single_set_jitter thz v64, pattern_set_type str]" "port_inv sz i"
  shows "port_inv sz (f i)"
proof -
  have b: "1 \<le> unat (ucast (if v = 0 then 1 else if v > 64 then 64 else v) :: u16)
      \<and> unat (ucast (if v = 0 then 1 else if v > 64 then 64 else v) :: u16) \<le> 64"
    by (auto simp: unat_ucast_32_16_small word_less_nat_alt not_less word_le_nat_alt unat_gt_0 Suc_le_eq)
  have p: "1 \<le> unat (ucast (if v > 4 then 4 else if v = 0 then 1 else v) :: u16)
      \<and> unat (ucast (if v > 4 then 4 else if v = 0 then 1 else v) :: u16) \<le> 4"
    by (auto simp: unat_ucast_32_16_small word_less_nat_alt not_less word_le_nat_alt unat_gt_0 Suc_le_eq)
  show ?thesis using assms b p
    by (auto simp: single_set_tx_count_def single_set_tx_burst_def debug_set_tx_cycles_def
        pktgen_set_port_prime_def single_set_jitter_def pattern_set_type_def port_inv_defs
        DEFAULT_PKT_BURST_def MAX_PRIME_COUNT_def DEFAULT_PRIME_COUNT_def Let_def)
qed

lemma inv_traffic:
  assumes "f \<in> set [pktgen_start_transmitting n, pktgen_stop_transmitting n, pktgen_prime_ports n,
      debug_set_port_dump v, pattern_set_user_pattern str]" "f i = Some i'" "port_inv sz i"
  shows "port_inv sz i'"
proof -
  have cur: "port_inv sz (j\<lparr>current_tx_count := c\<rparr>) = port_inv sz j" for j c
    by (simp add: port_inv_defs)
  have "pktgen_start_transmitting n i = Some i' \<Longrightarrow> ?thesis"
    using assms(3) by (auto simp: pktgen_start_transmitting_def bind_eq_Some_iff Let_def cur
        intro!: inv_set dest: inv_q_flags split: if_splits)
  moreover have "pktgen_stop_transmitting n i = Some i' \<Longrightarrow> ?thesis"
    using assms(3) inv_clr by (auto simp: pktgen_stop_transmitting_def dest: inv_q_flags split: if_splits)
  moreover have "pktgen_prime_ports n i = Some i' \<Longrightarrow> ?thesis"
    using assms(3) unfolding pktgen_prime_ports_def Let_def bind_eq_Some_iff
    by (metis cur inv_q_flags inv_set options_apart(10))
  moreover have "debug_set_port_dump v i = Some i' \<Longrightarrow> ?thesis"
  proof -
    have "unat (ucast (if v > 32 then 32 else v) :: u8) \<le> 32"
      by (auto simp: unat_ucast_32_narrow word_less_nat_alt not_less)
    then show "debug_set_port_dump v i = Some i' \<Longrightarrow> ?thesis" using assms(3)
      by (auto simp: debug_set_port_dump_def port_inv_defs MAX_DUMP_PACKETS_def Let_def split: if_splits)
  qed
  moreover have "pattern_set_user_pattern str i = Some i' \<Longrightarrow> ?thesis"
    using assms(3) by (auto simp: pattern_set_user_pattern_def port_inv_defs Let_def split: if_splits)
  ultimately show ?thesis using assms(1,2) by auto
qed

lemma inv_feed:
  assumes "f \<in> set [single_set_tx_rate fp n rate, enable_pcap fp n v, enable_range fp n v,
      pktgen_set_port_seqCnt fp n v, pktgen_set_port_pps fp n v64]" "f g i = Some i'" "port_inv sz i"
  shows "port_inv sz i'"
proof -
  have sel: "port_inv sz (select_tag SEND_RANGE_PKTS SEND_SEQ_PKTS SEND_PCAP_PKTS j)"
    "port_inv sz (select_tag SEND_SEQ_PKTS SEND_PCAP_PKTS SEND_RANGE_PKTS j)"
    "port_inv sz (select_tag SEND_RANGE_PKTS SEND_PCAP_PKTS SEND_SEQ_PKTS j)" if "port_inv sz j" for j
    using that by (auto intro!: inv_select3 [where fs = feed_flags] simp: feed_flags_def)
  have rate: "port_inv sz (i\<lparr>tx_rate := r\<rparr>)" for r using assms(3) by (simp add: port_inv_defs)
  have cnt: "port_inv sz (i\<lparr>seqCnt := ucast (if v > 16 then 16 else v)\<rparr>)" for v :: u32
  proof -
    have "unat (ucast (if v > 16 then 16 else v) :: u16) \<le> 16"
      by (auto simp: unat_ucast_32_16_small word_less_nat_alt not_less)
    then show ?thesis using assms(3) by (simp add: port_inv_defs)
  qed
  have "single_set_tx_rate fp n rate g i = Some i' \<Longrightarrow> ?thesis"
    using rate inv_rate by (auto simp: single_set_tx_rate_def Let_def)
  moreover have "enable_pcap fp n v g i = Some i' \<Longrightarrow> ?thesis"
    using sel(1) inv_rate inv_clr assms(3)
    by (auto simp: enable_pcap_def select_tag_def split: option.splits if_splits)
  moreover have "enable_range fp n v g i = Some i' \<Longrightarrow> ?thesis"
    using sel(2) inv_rate inv_clr assms(3) by (auto simp: enable_range_def select_tag_def split: if_splits)
  moreover have "pktgen_set_port_seqCnt fp n v g i = Some i' \<Longrightarrow> ?thesis"
  proof -
    have 1: "port_inv sz (if c then select_tag SEND_RANGE_PKTS SEND_PCAP_PKTS SEND_SEQ_PKTS
        (i\<lparr>seqCnt := ucast (if v > 16 then 16 else v)\<rparr>) else pktgen_clr_port_flags
        (i\<lparr>seqCnt := ucast (if v > 16 then 16 else v)\<rparr>) SEND_SEQ_PKTS)" for c
      using sel(3) [OF cnt [of v]] inv_clr [OF cnt [of v]] by simp
    assume "pktgen_set_port_seqCnt fp n v g i = Some i'"
    from this [unfolded pktgen_set_port_seqCnt_def Let_def pkt_index_values of_nat_numeral
        select_tag_def [symmetric]]
    show ?thesis by (rule inv_rate) (rule 1)
  qed
  moreover have "pktgen_set_port_pps fp n v64 g i = Some i' \<Longrightarrow> ?thesis"
    using assms(3) by (auto simp: pktgen_set_port_pps_def Let_def bind_eq_Some_iff guard_def port_inv_defs
        DEFAULT_PKT_BURST_def split: if_splits)
  ultimately show ?thesis using assms(1,2) by auto
qed

lemma inv_tags:
  assumes "f \<in> set [enable_vlan v, enable_mpls v, enable_qinq v, enable_gre v, enable_gre_eth v]"
    "f g i = Some (g', i')" "port_inv sz i"
  shows "port_inv sz i'"
proof -
  have sel: "port_inv sz (select_tag SEND_MPLS_LABEL SEND_Q_IN_Q_IDS SEND_VLAN_ID i)"
    "port_inv sz (select_tag SEND_VLAN_ID SEND_Q_IN_Q_IDS SEND_MPLS_LABEL i)"
    "port_inv sz (select_tag SEND_VLAN_ID SEND_MPLS_LABEL SEND_Q_IN_Q_IDS i)"
    using assms(3) by (auto intro!: inv_select3 [where fs = tag_flags] simp: tag_flags_def)
  have gre: "port_inv sz (pktgen_set_port_flags (pktgen_clr_port_flags i a) b)"
    if ab: "{a, b} = set gre_flags" for a b
  proof -
    have "modes_ok (pktgen_set_port_flags (pktgen_clr_port_flags i a) b)"
    proof (rule modes_select)
      show "modes_ok (pktgen_clr_port_flags i a)" using assms(3) by (simp add: modes_clr port_inv_def)
      have b: "b \<in> set gre_flags" using ab by auto
      then show "b \<in> set all_modes" by (simp add: all_modes_def)
      fix fs h assume fs: "fs \<in> {tag_flags, feed_flags, gre_flags}" "b \<in> set fs" "h \<in> set fs" "h \<noteq> b"
      then have "fs = gre_flags" using mode_group [OF b, of fs] by simp
      with fs(3,4) ab have "h = a" by auto
      then show "\<not> has_flag (port_flags (pktgen_clr_port_flags i a)) h"
        by (simp add: clr_port_flags_eq clr_clears)
    qed
    then show ?thesis using assms(3) by (intro inv_flags(2) inv_clr)
  qed
  have g1: "port_inv sz (pktgen_set_port_flags (pktgen_clr_port_flags i SEND_GRE_ETHER_HEADER) SEND_GRE_IPv4_HEADER)"
    "port_inv sz (pktgen_set_port_flags (pktgen_clr_port_flags i SEND_GRE_IPv4_HEADER) SEND_GRE_ETHER_HEADER)"
    by (rule gre; auto simp: gre_flags_def)+
  note c = inv_clr [OF assms(3)] and r = inv_rebuild
  have "enable_vlan v g i = Some (g', i') \<Longrightarrow> ?thesis"
    unfolding enable_vlan_def select_tag_def [symmetric] by (erule r) (simp add: sel(1) c)
  moreover have "enable_mpls v g i = Some (g', i') \<Longrightarrow> ?thesis"
    unfolding enable_mpls_def select_tag_def [symmetric] by (erule r) (simp add: sel(2) c)
  moreover have "enable_qinq v g i = Some (g', i') \<Longrightarrow> ?thesis"
    unfolding enable_qinq_def select_tag_def [symmetric] by (erule r) (simp add: sel(3) c)
  moreover have "enable_gre v g i = Some (g', i') \<Longrightarrow> ?thesis"
    unfolding enable_gre_def by (erule r) (simp add: g1(1) c)
  moreover have "enable_gre_eth v g i = Some (g', i') \<Longrightarrow> ?thesis"
    unfolding enable_gre_eth_def by (erule r) (simp add: g1(2) c)
  ultimately show ?thesis using assms(1,2) by auto
qed

lemma retype_size_max: "sz \<le> MAX_PKT_SIZE \<Longrightarrow> retype_size old new sz \<le> MAX_PKT_SIZE"
proof -
  assume s: "sz \<le> MAX_PKT_SIZE"
  have down: "60 + (sz - 74) \<le> 1514" if "74 \<le> sz"
    using s that by (simp add: size_consts word_le_nat_alt unat_sub unat_word_ariths)
  have up: "74 + (sz - 60) \<le> 1514" if "sz < 74"
  proof -
    have "74 + (sz - 60) = sz + 14" by simp
    moreover have "unat (sz + 14) = unat sz + 14" using that by (simp add: word_less_nat_alt unat_word_ariths)
    ultimately show ?thesis using that by (simp only: word_le_nat_alt word_less_nat_alt) simp
  qed
  have ne: "ETHER_TYPE_IPv4 \<noteq> ETHER_TYPE_IPv6" by (simp add: ETHER_TYPE_IPv4_def ETHER_TYPE_IPv6_def)
  show ?thesis using s down up ne by (auto simp: retype_size_def Let_def size_consts not_le not_less)
qed

lemma single_size_max: "single_size short ety sz \<le> MAX_PKT_SIZE"
  by (auto simp: single_size_def Let_def size_consts not_less)

lemma wf_pkt_fields [simp]:
  "wf_pkt sz (p\<lparr>ipProto := a\<rparr>) = wf_pkt sz p" "wf_pkt sz (p\<lparr>ethType := a\<rparr>) = wf_pkt sz p"
  "wf_pkt sz (p\<lparr>pktSize := a\<rparr>) = wf_pkt sz p" "wf_pkt sz (p\<lparr>vlanid := a\<rparr>) = wf_pkt sz p"
  "wf_pkt sz (p\<lparr>pkt_cos := b\<rparr>) = wf_pkt sz p" "wf_pkt sz (p\<lparr>tos := b\<rparr>) = wf_pkt sz p"
  "wf_pkt sz (p\<lparr>mpls_entry := c\<rparr>) = wf_pkt sz p" "wf_pkt sz (p\<lparr>gre_key := c\<rparr>) = wf_pkt sz p"
  "wf_pkt sz (p\<lparr>qinq_outerid := a\<rparr>) = wf_pkt sz p" "wf_pkt sz (p\<lparr>qinq_innerid := a\<rparr>) = wf_pkt sz p"
  "wf_pkt sz (p\<lparr>sport := a\<rparr>) = wf_pkt sz p" "wf_pkt sz (p\<lparr>dport := a\<rparr>) = wf_pkt sz p"
  "wf_pkt sz (p\<lparr>ip_mask := c\<rparr>) = wf_pkt sz p" "wf_pkt sz (p\<lparr>gtpu_teid := c\<rparr>) = wf_pkt sz p"
  by (simp_all add: wf_pkt_def)

lemma inv_port_field [simp]:
  "port_inv sz (i\<lparr>pvlanid := h\<rparr>) = port_inv sz i" "port_inv sz (i\<lparr>pcos := b\<rparr>) = port_inv sz i"
  "port_inv sz (i\<lparr>ptos := b\<rparr>) = port_inv sz i" "port_inv sz (i\<lparr>pmpls_entry := v\<rparr>) = port_inv sz i"
  "port_inv sz (i\<lparr>pgre_key := v\<rparr>) = port_inv sz i"
  by (simp_all add: port_inv_defs)

text \<open>A change of a template that keeps its shape and does not grow its size.\<close>

definition fits :: "nat \<Rightarrow> (pkt_seq \<Rightarrow> pkt_seq) \<Rightarrow> bool" where
  "fits sz f \<longleftrightarrow> (\<forall>p. wf_pkt sz p \<longrightarrow> wf_pkt sz (f p)) \<and> (\<forall>p. pktSize p \<le> MAX_PKT_SIZE \<longrightarrow> pktSize (f p) \<le> MAX_PKT_SIZE)"

lemma inv_fits:
  "set_and_rebuild k f g i = Some (g', i') \<Longrightarrow> port_inv sz i \<Longrightarrow> fits sz f \<Longrightarrow> port_inv sz i'"
  "upd_pkt k f i = Some i' \<Longrightarrow> port_inv sz i \<Longrightarrow> fits sz f \<Longrightarrow> port_inv sz i'"
  by (auto simp: fits_def elim!: inv_set_and_rebuild inv_upd_pkt)

lemma inv_proto_ety:
  "port_inv sz i \<Longrightarrow> upd_pkt k (\<lambda>p. p\<lparr>ipProto := w\<rparr>) i = Some j \<Longrightarrow> port_inv sz j"
  "port_inv sz i \<Longrightarrow> upd_pkt k (\<lambda>p. p\<lparr>ethType := w\<rparr>) i = Some j \<Longrightarrow> port_inv sz j"
  by (erule inv_fits(2) [rotated]; simp add: fits_def; fail)+

lemma inv_single:
  assumes "f \<in> set [single_set_proto str, single_set_pkt_type str, single_set_vlan_id h,
      single_set_cos b, single_set_tos b, range_set_mpls_entry v, single_set_qinqids h h',
      range_set_gre_key v, single_set_pkt_size h, single_set_port_value c v,
      range_set_qinqids h h', pktgen_ping4, pktgen_set_cos_tos_seq v v' v'',
      pktgen_add_cos_tos v v' v'']" "f g i = Some (g', i')" "port_inv sz i"
  shows "port_inv sz i'"
proof -
  have "single_set_proto str g i = Some (g', i') \<Longrightarrow> ?thesis"
    unfolding single_set_proto_def bind_eq_Some_iff
    by (elim exE conjE, erule inv_rebuild)
      (auto intro: inv_proto_ety [OF assms(3)] inv_proto_ety(2) [OF inv_proto_ety(1) [OF assms(3)]] split: if_splits)
  moreover have "single_set_pkt_type str g i = Some (g', i') \<Longrightarrow> ?thesis"
    using assms(3) by (auto simp: single_set_pkt_type_def bind_eq_Some_iff fits_def retype_size_max intro: inv_fits)
  moreover have "single_set_vlan_id h g i = Some (g', i') \<Longrightarrow> ?thesis"
    unfolding single_set_vlan_id_def by (erule inv_fits) (simp_all add: assms(3) fits_def)
  moreover have "single_set_cos b g i = Some (g', i') \<Longrightarrow> ?thesis"
    unfolding single_set_cos_def by (erule inv_fits) (simp_all add: assms(3) fits_def)
  moreover have "single_set_tos b g i = Some (g', i') \<Longrightarrow> ?thesis"
    unfolding single_set_tos_def by (erule inv_fits) (simp_all add: assms(3) fits_def)
  moreover have "range_set_mpls_entry v g i = Some (g', i') \<Longrightarrow> ?thesis"
    unfolding range_set_mpls_entry_def by (erule inv_fits) (simp_all add: assms(3) fits_def)
  moreover have "single_set_qinqids h h' g i = Some (g', i') \<Longrightarrow> ?thesis"
    unfolding single_set_qinqids_def by (erule inv_fits) (simp_all add: assms(3) fits_def)
  moreover have "range_set_gre_key v g i = Some (g', i') \<Longrightarrow> ?thesis"
    unfolding range_set_gre_key_def by (erule inv_fits) (simp_all add: assms(3) fits_def)
  moreover have "single_set_pkt_size h g i = Some (g', i') \<Longrightarrow> ?thesis"
    using assms(3) by (auto simp: single_set_pkt_size_def Let_def fits_def single_size_max intro: inv_fits split: if_splits)
  moreover have "single_set_port_value c v g i = Some (g', i') \<Longrightarrow> ?thesis"
    unfolding single_set_port_value_def by (erule inv_fits) (simp_all add: assms(3) fits_def)
  moreover have "range_set_qinqids h h' g i = Some (g', i') \<Longrightarrow> ?thesis"
    unfolding range_set_qinqids_def by (erule inv_fits) (simp_all add: assms(3) fits_def)
  moreover have "pktgen_set_cos_tos_seq v v' v'' g i = Some (g', i') \<Longrightarrow> ?thesis"
    unfolding pktgen_set_cos_tos_seq_def by (erule inv_fits) (simp_all add: assms(3) fits_def)
  moreover have "pktgen_add_cos_tos v v' v'' g i = Some (g', i') \<Longrightarrow> ?thesis"
    using assms(3) by (auto simp: pktgen_add_cos_tos_def bind_eq_Some_iff fits_def split: if_splits
      dest!: inv_rebuild intro: inv_fits)
  moreover have "pktgen_ping4 g i = Some (g', i') \<Longrightarrow> ?thesis"
  proof -
    assume "pktgen_ping4 g i = Some (g', i')"
    then obtain i1 i2 where 1: "upd_pkt PING_PKT (\<lambda>_. (seq_pkt i ! SINGLE_PKT)\<lparr>ipProto := ucast PG_IPPROTO_ICMP\<rparr>) i = Some i1"
      and 2: "rebuild PING_PKT ICMP4_ECHO g i1 = Some (g', i2)"
      and 3: "i' = pktgen_set_port_flags i2 SEND_PING4_REQUEST"
      by (auto simp: pktgen_ping4_def bind_eq_Some_iff split: if_splits)
    have "wf_pkt sz (seq_pkt i ! SINGLE_PKT)" using assms(3) by (simp add: port_inv_defs list_all_length)
    with inv_upd_pkt [OF 1 assms(3)] have "port_inv sz i1" by simp
    then show ?thesis unfolding 3 using inv_rebuild [OF 2] by (simp add: inv_set)
  qed
  ultimately show ?thesis using assms(1,2) by auto
qed

lemma inv_upd_range:
  assumes "port_inv sz i" "inc_ok (range i) \<Longrightarrow> inc_ok (f (range i))"
  shows "port_inv sz (upd_range f i)"
  using assms by (simp add: port_inv_defs upd_range_def)

lemma inv_range_plain:
  assumes "f \<in> set [range_set_src_port str h, range_set_dst_port str h, range_set_vlan_id str h,
      range_set_tos_id str b, range_set_cos_id str b, range_set_pkt_size str h]" "port_inv sz i"
  shows "port_inv sz (f i)"
proof -
  have c: "ucast (if b > 7 then 7 else b) \<le> (7 :: u16)"
    by (auto simp: word_le_nat_alt word_less_nat_alt not_less)
  have inc: "(if h > 64 then 64 else h) \<le> 64" by auto
  have s: "60 \<le> (if h < ETHER_MIN_LEN then MIN_PKT_SIZE else if h > ETHER_MAX_LEN then MAX_PKT_SIZE else h - FCS_SIZE)
      \<and> (if h < ETHER_MIN_LEN then MIN_PKT_SIZE else if h > ETHER_MAX_LEN then MAX_PKT_SIZE else h - FCS_SIZE) \<le> 1514"
  proof -
    have "unat (h - 4) = unat h - 4" if "64 \<le> h"
      using that by (intro unat_sub_nat [of 4, simplified]) (simp add: word_le_nat_alt)
    then show ?thesis by (auto simp: size_consts word_le_nat_alt word_less_nat_alt not_less)
  qed
  have m: "(if h > ETHER_MIN_LEN then ETHER_MIN_LEN else h) \<le> 64"
    by (simp add: size_consts not_less)
  have v: "1 \<le> (if h < 1 \<or> h > 4095 then 1 else h) \<and> (if h < 1 \<or> h > 4095 then 1 else h) \<le> 4095"
    by (auto simp: word_le_nat_alt word_less_nat_alt not_less Suc_le_eq unat_gt_0)
  note defs = range_set_src_port_def range_set_dst_port_def range_set_vlan_id_def range_set_tos_id_def
    range_set_cos_id_def range_set_pkt_size_def Let_def
  have 1: "inc_ok r \<Longrightarrow> x \<le> 64 \<Longrightarrow> inc_ok (if p then r\<lparr>src_port_inc := x\<rparr> else if a then r\<lparr>src_port_min := h\<rparr>
      else if b then r\<lparr>src_port_max := h\<rparr> else if d then r\<lparr>src_port := h\<rparr> else r)" for r x p a b d
    by (simp add: inc_ok_def)
  have 2: "inc_ok r \<Longrightarrow> x \<le> 64 \<Longrightarrow> inc_ok (if p then r\<lparr>dst_port_inc := x\<rparr> else if a then r\<lparr>dst_port_min := h\<rparr>
      else if b then r\<lparr>dst_port_max := h\<rparr> else if d then r\<lparr>dst_port := h\<rparr> else r)" for r x p a b d
    by (simp add: inc_ok_def)
  have 3: "inc_ok r \<Longrightarrow> x \<le> 64 \<Longrightarrow> 1 \<le> y \<and> y \<le> 4095 \<Longrightarrow> inc_ok (if p then r\<lparr>vlan_id_inc := x\<rparr>
      else if a then r\<lparr>vlan_id_min := y\<rparr>
      else if b then r\<lparr>vlan_id_max := y\<rparr> else if d then r\<lparr>vlan_id := y\<rparr> else r)" for r x y p a b d
    by (simp add: inc_ok_def)
  have 4: "inc_ok r \<Longrightarrow> inc_ok (if p then r\<lparr>tos_inc := x\<rparr> else if a then r\<lparr>tos_min := y\<rparr>
      else if b then r\<lparr>tos_max := y\<rparr> else if d then r\<lparr>rtos := y\<rparr> else r)" for r x y p a b d
    by (simp add: inc_ok_def)
  have 5: "inc_ok r \<Longrightarrow> x \<le> 7 \<Longrightarrow> inc_ok (if p then r\<lparr>cos_inc := x\<rparr> else if a then r\<lparr>cos_min := y\<rparr>
      else if b then r\<lparr>cos_max := y\<rparr> else if d then r\<lparr>rcos := y\<rparr> else r)" for r x y p a b d
    by (simp add: inc_ok_def)
  have 6: "inc_ok r \<Longrightarrow> x \<le> 64 \<Longrightarrow> 60 \<le> y \<and> y \<le> 1514 \<Longrightarrow> inc_ok (if p then r\<lparr>pkt_size_inc := x\<rparr>
      else if d then r\<lparr>pkt_size := y\<rparr>
      else if a then r\<lparr>pkt_size_min := y\<rparr> else if b then r\<lparr>pkt_size_max := y\<rparr> else r)" for r x y p a b d
    by (simp add: inc_ok_def size_consts)
  have "port_inv sz (range_set_src_port str h i)" "port_inv sz (range_set_dst_port str h i)"
    "port_inv sz (range_set_tos_id str b i)" "port_inv sz (range_set_cos_id str b i)"
    "port_inv sz (range_set_vlan_id str h i)"
    using c inc v by (simp_all only: defs field_consts, simp_all add: inv_upd_range [OF assms(2)] 1 2 3 4 5 split del: if_split)
  moreover have "port_inv sz (range_set_pkt_size str h i)"
    unfolding defs by (rule inv_upd_range [OF assms(2)], erule 6) (rule m, rule s)
  ultimately show ?thesis using assms(1) by auto
qed

lemma inv_range_pkt:
  assumes "f \<in> set [range_set_proto str, range_set_pkt_type str, range_set_gtpu_teid str v]"
    "f i = Some i'" "port_inv sz i"
  shows "port_inv sz i'"
proof -
  note fit = inv_fits(2) [OF _ _ fits_def [THEN iffD2]] and r = inv_upd_range
  have "range_set_proto str i = Some i' \<Longrightarrow> ?thesis"
  proof -
    assume "range_set_proto str i = Some i'"
    then obtain c i1 where 1: "upd_pkt RANGE_PKT (\<lambda>p. p\<lparr>ipProto := ucast (proto_of c)\<rparr>) i = Some i1"
      and 2: "i' = upd_range (\<lambda>r. r\<lparr>ip_proto := ipProto (seq_pkt i1 ! RANGE_PKT)\<rparr>) i1 \<or>
        upd_pkt RANGE_PKT (\<lambda>p. p\<lparr>ethType := ETHER_TYPE_IPv4\<rparr>)
          (upd_range (\<lambda>r. r\<lparr>ip_proto := ipProto (seq_pkt i1 ! RANGE_PKT)\<rparr>) i1) = Some i'"
      by (auto simp: range_set_proto_def bind_eq_Some_iff Let_def split: if_splits)
    have "port_inv sz (upd_range (\<lambda>r. r\<lparr>ip_proto := w\<rparr>) i1)" for w
      by (rule r [OF inv_proto_ety(1) [OF assms(3) 1]]) (simp add: inc_ok_def)
    with 2 inv_proto_ety(2) show ?thesis by blast
  qed
  moreover have "range_set_pkt_type str i = Some i' \<Longrightarrow> ?thesis"
    using assms(3) unfolding range_set_pkt_type_def bind_eq_Some_iff
    by (elim exE conjE) (erule fit, simp_all)
  moreover have "range_set_gtpu_teid str v i = Some i' \<Longrightarrow> ?thesis"
    using assms(3) unfolding range_set_gtpu_teid_def
    by (auto intro!: r intro: fit [where sz = sz] simp: inc_ok_def split: if_splits)
  ultimately show ?thesis using assms(1,2) by auto
qed

lemma inv_range_mac:
  assumes "length mac = 6" "f \<in> set [range_set_dest_mac str mac, range_set_src_mac str mac]"
    "f i = Some i'" "port_inv sz i"
  shows "port_inv sz i'"
proof -
  have mac: "wf_pkt sz p \<Longrightarrow> wf_pkt sz (p\<lparr>eth_dst_addr := mac\<rparr>)"
    "wf_pkt sz p \<Longrightarrow> wf_pkt sz (p\<lparr>eth_src_addr := mac\<rparr>)" for p
    using assms(1) by (simp_all add: wf_pkt_def)
  have "range_set_dest_mac str mac i = Some i' \<Longrightarrow> ?thesis"
    using assms(4) mac unfolding range_set_dest_mac_def
    by (auto intro!: inv_upd_range elim!: inv_upd_pkt simp: inc_ok_def split: if_splits)
  moreover have "range_set_src_mac str mac i = Some i' \<Longrightarrow> ?thesis"
    using assms(4) mac unfolding range_set_src_mac_def
    by (auto intro!: inv_upd_range elim!: inv_upd_pkt simp: inc_ok_def split: if_splits)
  ultimately show ?thesis using assms(2,3) by auto
qed

lemma inv_range_ip:
  assumes "f \<in> set [range_set_src_ip str ip, range_set_dst_ip str ip]" "f g i = (g', i')" "port_inv sz i"
  shows "port_inv sz i'"
  using assms
  by (auto simp: range_set_src_ip_def range_set_dst_ip_def Let_def inc_ok_def intro!: inv_upd_range
      split: if_splits)

lemma inv_single_mac:
  assumes "length mac = 6" "f \<in> set [single_set_dst_mac mac, single_set_src_mac mac]"
    "f g i = Some (g', i')" "port_inv sz i"
  shows "port_inv sz i'"
  using assms by (auto simp: single_set_dst_mac_def single_set_src_mac_def wf_pkt_def elim!: inv_set_and_rebuild)

lemma inv_single_ip:
  assumes "single_set_ipaddr c ip g i = Some (g', i')" "port_inv sz i"
  shows "port_inv sz i'"
  using assms
  by (auto simp: single_set_ipaddr_def Let_def bind_eq_Some_iff wf_pkt_def elim!: inv_set_and_rebuild split: if_splits)

text \<open>A sequence template may have any size, so the single packet must not be named.\<close>

lemma inv_seq:
  assumes "seq_arg a" "unat v < NUM_SEQ_PKTS" "pktgen_set_seq v a g i = Some (g', i')" "port_inv sz i"
  shows "port_inv sz i'"
  using assms
  by (auto simp: pktgen_set_seq_def Let_def bind_eq_Some_iff wf_pkt_def seq_arg_def ip_arg_def
      elim!: inv_set_and_rebuild split: if_splits)

lemma inv_compile:
  assumes "seq_arg a" "pktgen_compile_pkt v a g i = Some (g', i')" "port_inv sz i"
  shows "port_inv sz i'"
proof (cases "unat v \<ge> 8")
  case True
  then show ?thesis using assms by (simp add: pktgen_compile_pkt_def)
next
  case False
  then obtain m f i1 where u: "upd_pkt (unat v + EXTRA_TX_PKT) f i = Some i1"
    and f: "\<And>p. wf_pkt sz p \<Longrightarrow> wf_pkt sz (f p)" and r: "rebuild (unat v) (- 1) g i1 = Some (g', i')"
    using assms(1,2)
    by (auto simp: pktgen_compile_pkt_def bind_eq_Some_iff Let_def wf_pkt_def seq_arg_def)
  have "port_inv sz i1" using inv_upd_pkt [OF u assms(3) f] by simp
  then show ?thesis using inv_rebuild [OF r] by simp
qed

lemma inv_step:
  assumes "port_step fp n (g, i) (g', i')" "port_inv sz i"
  shows "port_inv sz i'"
  using assms(1)
proof (cases rule: port_step.cases)
  case (clear dev)
  then show ?thesis using assms(2) by (auto simp: pktgen_clear_stats_def port_inv_defs)
next
  case (blink v)
  then show ?thesis using assms(2) by (auto simp: debug_blink_def Let_def split: if_splits)
next
  case (option f on)
  then show ?thesis using inv_option [of f on sz i] assms(2) by simp
next
  case (scalar f v thz v64 str)
  then show ?thesis using inv_value [of f v thz v64 str sz i] assms(2) by simp
next
  case (traffic f v str)
  then show ?thesis using inv_traffic [of f n v str i i' sz] assms(2) by simp
next
  case (feed f rate v v64)
  then show ?thesis using inv_feed [of f fp n rate v v64 g i i' sz] assms(2) by simp
next
  case (tags f v)
  then show ?thesis using inv_tags [of f v g i g' i' sz] assms(2) by simp
next
  case (single f str h b v h' c v' v'')
  then show ?thesis using inv_single [of f str h b v h' c v' v'' g i g' i' sz] assms(2) by simp
next
  case (single_mac mac f)
  then show ?thesis using inv_single_mac [of mac f g i g' i' sz] assms(2) by simp
next
  case (single_ip c ip)
  then show ?thesis using inv_single_ip assms(2) by blast
next
  case (seq a v)
  then show ?thesis using inv_seq assms(2) by blast
next
  case (compile a v)
  then show ?thesis using inv_compile assms(2) by blast
next
  case (range_plain f str h b)
  then show ?thesis using inv_range_plain [of f str h b sz i] assms(2) by simp
next
  case (range_pkt f str v)
  then show ?thesis using inv_range_pkt [of f str v i i' sz] assms(2) by simp
next
  case (range_mac mac f str)
  then show ?thesis using inv_range_mac [of mac f str i i' sz] assms(2) by simp
next
  case (range_ip f str ip)
  then show ?thesis using inv_range_ip [of f str ip g i g' i' sz] assms(2) by simp
qed

section \<open>What the commands do\<close>

lemma select_tag_flags:
  assumes "{a, b, f} = set fs" "fs = tag_flags \<or> fs = feed_flags" "h \<in> set fs"
  shows "has_flag (port_flags (select_tag a b f i)) h \<longleftrightarrow> h = f"
proof -
  have sub: "set fs \<subseteq> set all_modes" using assms(2) by (auto simp: all_modes_def)
  show ?thesis
  proof (cases "h = f")
    case True
    have "f \<in> set fs" using assms(1) by auto
    then have "f \<noteq> 0" using assms(2) by (auto simp: tag_flags_def feed_flags_def port_flag_defs)
    then show ?thesis using True port_word.has_set [of f f] by (simp add: select_tag_def)
  next
    case False
    then have h: "h = a \<or> h = b" using assms(1,3) by auto
    have "f AND h = 0" using False sub assms(1,3) by (intro mode_apart) auto
    then have "has_flag (port_flags (select_tag a b f i)) h \<longleftrightarrow>
        has_flag (port_flags (pktgen_clr_port_flags (pktgen_clr_port_flags i a) b)) h"
      by (simp add: select_tag_def port_word.set_other)
    also have "\<not> \<dots>" using h by (auto simp: clr_port_flags_eq clr_clears)
    finally show ?thesis using False by simp
  qed
qed

lemma start_frame:
  assumes "pktgen_start_transmitting n i = Some i'" "\<not> has_flag (port_flags i) SENDING_PACKETS"
  obtains qs where "length qs = length (q i)"
    "i' = i\<lparr>q := qs, current_tx_count := transmit_count i,
      port_flags := port_flags i OR SENDING_PACKETS OR (if transmit_count i = 0 then SEND_FOREVER else 0)\<rparr>"
proof -
  obtain i1 where 1: "all_q_flags (unat n) CLEAR_FAST_ALLOC_FLAG i = Some i1"
    using assms by (auto simp: pktgen_start_transmitting_def bind_eq_Some_iff)
  then obtain qs where qs: "length qs = length (q i)" "i1 = i\<lparr>q := qs\<rparr>" using all_q_flags_frame by blast
  show thesis using assms 1
    by (intro that [of qs]) (auto simp: pktgen_start_transmitting_def qs Let_def set_port_flags_eq or.assoc
        split: if_splits)
qed

lemma all_q_flags_total:
  "n \<le> length (q i) \<Longrightarrow> \<exists>i'. all_q_flags n f i = Some i'"
proof (induction n)
  case (Suc n)
  then obtain i1 where 1: "all_q_flags n f i = Some i1" by auto
  from all_q_flags_frame [OF 1] have "length (q i1) = length (q i)" by auto
  then show ?case using 1 Suc.prems by (simp add: pktgen_set_q_flags_def)
qed simp

lemma q_flag_set: "has_flag (w OR f) f \<longleftrightarrow> f \<noteq> 0"
  by (simp add: has_flag_def bit.conj_disj_distrib2)

lemma all_q_flags_set:
  assumes "all_q_flags n f i = Some i'" "f \<noteq> 0" "k < n"
  shows "has_flag (qflags (q i' ! k)) f"
  using assms
proof (induction n arbitrary: i')
  case (Suc n)
  then obtain i1 where 1: "all_q_flags n f i = Some i1" and 2: "pktgen_set_q_flags i1 n f = Some i'"
    by (auto simp: bind_eq_Some_iff)
  show ?case
  proof (cases "k = n")
    case True
    then show ?thesis using 2 Suc.prems(2)
      by (auto simp: pktgen_set_q_flags_def atomically_def set_flags_op_def q_flag_set split: if_splits)
  next
    case False
    then show ?thesis using 2 Suc.IH [OF 1] Suc.prems
      by (auto simp: pktgen_set_q_flags_def split: if_splits)
  qed
qed simp

lemma sample_port_inv [simp]: "port_inv 128 sample_port"
  by (simp add: port_inv_def modes_ok_def at_most_one_def has_flag_def inc_ok_def field_consts
      MAX_DUMP_PACKETS_def) (simp add: sample_port_def sample_range_def sample_pkt_def size_consts)

section \<open>Properties\<close>

text \<open>C13 Every sequence of console commands keeps the port well formed: at most one tag format,
  one source of packets and one GRE mode are selected, a sequence has at most 16 packets, a burst
  1 to 64, a prime count 1 to 4, the single packet at most 1514 bytes, and every increment
  and interval end of the range stays inside the documented limits.\<close>

theorem commands_keep_invariant:
  assumes "(port_step fp n)\<^sup>*\<^sup>* (g, i) (g', i')" "port_inv sz i"
  shows "port_inv sz i'"
  using assms
proof (induction "(g', i')" arbitrary: g' i' rule: rtranclp_induct)
  case base
  then show ?case by simp
next
  case (step y)
  obtain g1 i1 where y: "y = (g1, i1)" by force
  with step have "port_inv sz i1" by simp
  then show ?case using inv_step step(2) y by blast
qed

theorem commands_keep_invariant_witness:
  "port_inv 128 (single_set_tx_burst 99 (enable_garp 1 sample_port))"
proof (rule commands_keep_invariant)
  have "port_step id 1 (sample_glob, sample_port) (sample_glob, enable_garp 1 sample_port)"
    by (rule port_step.option [of _ 1]) simp
  moreover have "port_step id 1 (sample_glob, enable_garp 1 sample_port)
      (sample_glob, single_set_tx_burst 99 (enable_garp 1 sample_port))"
    by (rule port_step.scalar [of _ 99]) simp
  ultimately show "(port_step id 1)\<^sup>*\<^sup>* (sample_glob, sample_port)
      (sample_glob, single_set_tx_burst 99 (enable_garp 1 sample_port))" by simp
qed simp

text \<open>\<open>enable vlan\<close>, \<open>enable mpls\<close> and \<open>enable qinq\<close> select one tag format: after
  the command its flag is set and the flags of the two others are not.\<close>

theorem tag_commands_select:
  assumes "(cmd, f0) \<in> {(enable_vlan, SEND_VLAN_ID), (enable_mpls, SEND_MPLS_LABEL), (enable_qinq, SEND_Q_IN_Q_IDS)}"
    and "cmd ENABLE_STATE g i = Some (g', i')" "f \<in> set tag_flags"
  shows "has_flag (port_flags i') f \<longleftrightarrow> f = f0"
proof -
  have tg: "{SEND_MPLS_LABEL, SEND_Q_IN_Q_IDS, SEND_VLAN_ID} = set tag_flags"
    "{SEND_VLAN_ID, SEND_Q_IN_Q_IDS, SEND_MPLS_LABEL} = set tag_flags"
    "{SEND_VLAN_ID, SEND_MPLS_LABEL, SEND_Q_IN_Q_IDS} = set tag_flags"
    by (auto simp: tag_flags_def)
  consider "cmd = enable_vlan" "f0 = SEND_VLAN_ID" | "cmd = enable_mpls" "f0 = SEND_MPLS_LABEL"
    | "cmd = enable_qinq" "f0 = SEND_Q_IN_Q_IDS" using assms(1) by auto
  then have "\<exists>a b. {a, b, f0} = set tag_flags \<and> rebuild SINGLE_PKT (- 1) g (select_tag a b f0 i) = Some (g', i')"
  proof cases
    case 1
    have "rebuild SINGLE_PKT (- 1) g (select_tag SEND_MPLS_LABEL SEND_Q_IN_Q_IDS f0 i) = Some (g', i')"
      using assms(2) unfolding 1 enable_vlan_def select_tag_def by simp
    then show ?thesis using tg(1) 1 by blast
  next
    case 2
    have "rebuild SINGLE_PKT (- 1) g (select_tag SEND_VLAN_ID SEND_Q_IN_Q_IDS f0 i) = Some (g', i')"
      using assms(2) unfolding 2 enable_mpls_def select_tag_def by simp
    then show ?thesis using tg(2) 2 by blast
  next
    case 3
    have "rebuild SINGLE_PKT (- 1) g (select_tag SEND_VLAN_ID SEND_MPLS_LABEL f0 i) = Some (g', i')"
      using assms(2) unfolding 3 enable_qinq_def select_tag_def by simp
    then show ?thesis using tg(3) 3 by blast
  qed
  then obtain a b where ab: "{a, b, f0} = set tag_flags"
    and r: "rebuild SINGLE_PKT (- 1) g (select_tag a b f0 i) = Some (g', i')" by blast
  have "port_flags i' = port_flags (select_tag a b f0 i)" by (rule rebuild_frame [OF r]) simp
  then show ?thesis using select_tag_flags [OF ab _ assms(3)] by simp
qed

lemma sample_vlan: "enable_vlan 1 sample_glob sample_port \<noteq> None"
  by code_simp

theorem tag_commands_select_witness:
  "\<exists>g' i'. enable_vlan ENABLE_STATE sample_glob sample_port = Some (g', i')
    \<and> has_flag (port_flags i') SEND_VLAN_ID \<and> \<not> has_flag (port_flags i') SEND_MPLS_LABEL"
proof -
  obtain g' i' where e: "enable_vlan ENABLE_STATE sample_glob sample_port = Some (g', i')"
    using sample_vlan by (auto simp: ENABLE_STATE_def)
  note t = tag_commands_select [of enable_vlan SEND_VLAN_ID, OF _ e]
  have "has_flag (port_flags i') SEND_VLAN_ID" using t [of SEND_VLAN_ID] by (simp add: tag_flags_def)
  moreover have "\<not> has_flag (port_flags i') SEND_MPLS_LABEL"
    using t [of SEND_MPLS_LABEL] by (simp add: tag_flags_def port_flag_defs)
  ultimately show ?thesis using e by blast
qed

lemma stop_frame:
  assumes "pktgen_stop_transmitting n i = Some i'" "has_flag (port_flags i) SENDING_PACKETS"
  obtains qs where "length qs = length (q i)"
    "i' = i\<lparr>q := qs, port_flags := port_flags i AND NOT (SENDING_PACKETS OR SEND_FOREVER)\<rparr>"
    "all_q_flags (unat n) DO_TX_FLUSH (pktgen_clr_port_flags i (SENDING_PACKETS OR SEND_FOREVER)) = Some i'"
proof -
  have 1: "all_q_flags (unat n) DO_TX_FLUSH (pktgen_clr_port_flags i (SENDING_PACKETS OR SEND_FOREVER)) = Some i'"
    using assms by (simp add: pktgen_stop_transmitting_def)
  from all_q_flags_frame [OF this] obtain qs where qs: "length qs = length (q i)"
    "i' = (pktgen_clr_port_flags i (SENDING_PACKETS OR SEND_FOREVER))\<lparr>q := qs\<rparr>"
    by (auto simp: clr_port_flags_eq)
  show thesis by (rule that [of qs, OF qs(1) _ 1]) (simp add: qs(2) clr_port_flags_eq)
qed

lemma or_clear: "w AND m = 0 \<Longrightarrow> f AND NOT m = 0 \<Longrightarrow> (w OR f) AND NOT m = (w :: u32)"
proof -
  assume wm: "w AND m = 0" and fm: "f AND NOT m = 0"
  have "w AND (m OR NOT m) = w" by simp
  then have "(w AND m) OR (w AND NOT m) = w" by (simp only: bit.conj_disj_distrib)
  then show "(w OR f) AND NOT m = w" using wm fm by (simp only: bit.conj_disj_distrib2) simp
qed

text \<open>C34 Starting an idle port arms every transmit queue, loads the packet count and marks
  the port as sending, for ever when the count is 0; stopping it clears both marks, asks every
  queue to flush, and gives back the flags the port had.\<close>

theorem start_then_stop:
  assumes "unat n \<le> length (q i)" "\<not> has_flag (port_flags i) SENDING_PACKETS" "\<not> has_flag (port_flags i) SEND_FOREVER"
  shows "\<exists>i1 i2. pktgen_start_transmitting n i = Some i1 \<and> pktgen_stop_transmitting n i1 = Some i2
    \<and> pktgen_port_transmitting i1 \<and> current_tx_count i1 = transmit_count i
    \<and> (has_flag (port_flags i1) SEND_FOREVER \<longleftrightarrow> transmit_count i = 0)
    \<and> port_flags i2 = port_flags i
    \<and> (\<forall>k < unat n. has_flag (qflags (q i1 ! k)) CLEAR_FAST_ALLOC_FLAG \<and> has_flag (qflags (q i2 ! k)) DO_TX_FLUSH)"
proof -
  let ?f = "SENDING_PACKETS OR (if transmit_count i = 0 then SEND_FOREVER else 0)"
  obtain ia where ia: "all_q_flags (unat n) CLEAR_FAST_ALLOC_FLAG i = Some ia"
    using all_q_flags_total [OF assms(1)] by blast
  then have "\<exists>i1. pktgen_start_transmitting n i = Some i1"
    using assms(2) by (simp add: pktgen_start_transmitting_def Let_def)
  then obtain i1 where s1: "pktgen_start_transmitting n i = Some i1" by blast
  obtain qs where qs: "length qs = length (q i)"
    and i1: "i1 = i\<lparr>q := qs, current_tx_count := transmit_count i, port_flags := port_flags i OR ?f\<rparr>"
    using start_frame [OF s1 assms(2)] by (metis or.assoc)
  have q1: "q i1 = q ia" using s1 ia assms(2)
    by (auto simp: pktgen_start_transmitting_def Let_def set_port_flags_eq split: if_splits)
  have snd: "has_flag (port_flags i1) SENDING_PACKETS"
    by (simp add: i1 has_flag_def bit.conj_disj_distrib2 SENDING_PACKETS_def)
  obtain i2 where s2: "pktgen_stop_transmitting n i1 = Some i2"
    using all_q_flags_total [of "unat n" "pktgen_clr_port_flags i1 (SENDING_PACKETS OR SEND_FOREVER)" DO_TX_FLUSH]
      assms(1) qs snd i1 by (auto simp: pktgen_stop_transmitting_def clr_port_flags_eq)
  obtain qs2 where i2: "i2 = i1\<lparr>q := qs2, port_flags := port_flags i1 AND NOT (SENDING_PACKETS OR SEND_FOREVER)\<rparr>"
    and fl: "all_q_flags (unat n) DO_TX_FLUSH (pktgen_clr_port_flags i1 (SENDING_PACKETS OR SEND_FOREVER)) = Some i2"
    using stop_frame [OF s2 snd] by metis
  have "port_flags i AND (SENDING_PACKETS OR SEND_FOREVER) = 0"
    using assms(2,3) by (simp add: has_flag_def bit.conj_disj_distrib)
  moreover have "?f AND NOT (SENDING_PACKETS OR SEND_FOREVER) = 0"
    by (simp add: SENDING_PACKETS_def SEND_FOREVER_def)
  ultimately have "(port_flags i OR ?f) AND NOT (SENDING_PACKETS OR SEND_FOREVER) = port_flags i"
    by (rule or_clear)
  moreover have "port_flags i2 = (port_flags i OR ?f) AND NOT (SENDING_PACKETS OR SEND_FOREVER)"
    by (simp add: i2 i1)
  ultimately have "port_flags i2 = port_flags i" by simp
  moreover have "has_flag (port_flags i1) SEND_FOREVER \<longleftrightarrow> transmit_count i = 0"
    using assms(3) by (simp add: i1 has_flag_def bit.conj_disj_distrib2 SENDING_PACKETS_def SEND_FOREVER_def)
  moreover have "\<forall>k < unat n. has_flag (qflags (q i1 ! k)) CLEAR_FAST_ALLOC_FLAG"
    using all_q_flags_set [OF ia] by (simp add: q1 CLEAR_FAST_ALLOC_FLAG_def)
  moreover have "\<forall>k < unat n. has_flag (qflags (q i2 ! k)) DO_TX_FLUSH"
    using all_q_flags_set [OF fl] by (simp add: DO_TX_FLUSH_def)
  ultimately show ?thesis using s1 s2 snd by (auto simp: i1 pktgen_port_transmitting_def)
qed

theorem start_then_stop_witness:
  "\<exists>i1. pktgen_start_transmitting 2 sample_port = Some i1 \<and> pktgen_port_transmitting i1"
proof -
  have "unat (2 :: u64) \<le> length (q sample_port)" "\<not> has_flag (port_flags sample_port) SENDING_PACKETS"
    "\<not> has_flag (port_flags sample_port) SEND_FOREVER"
    by (simp_all add: sample_port_def has_flag_def)
  from start_then_stop [OF this] show ?thesis by blast
qed

text \<open>The size of the single packet is the requested frame size less the checksum, held
  between 60 and 1514 bytes (0 when short packets are enabled), and never below 74 for IPv6.\<close>

theorem single_size_clamp:
  "unat (single_size short ety sz) =
    max (if ety = ETHER_TYPE_IPv6 then 74 else 0) (min 1514 (max (if short then 0 else 60) (unat sz - 4)))"
proof -
  have s4: "unat (w - 4) = unat w - 4" if "4 \<le> unat w" for w :: u16
    using unat_sub_nat [of 4 w] that by simp
  let ?a = "if sz < 4 then 4 else sz"
  have a: "unat ?a = max 4 (unat sz)" by (simp add: word_less_nat_alt max_def)
  let ?b = "if \<not> short \<and> ?a - 4 < 60 then 64 else ?a"
  have b: "unat ?b = max (if short then 4 else 64) (unat sz)"
    using a s4 [of ?a] by (auto simp: word_less_nat_alt max_def)
  let ?c = "if ?b - 4 > 1514 then 1518 else ?b"
  have c: "unat ?c = min 1518 (max (if short then 4 else 64) (unat sz))"
    using b s4 [of ?b] by (auto simp: word_less_nat_alt max_def min_def)
  let ?d = "if ety = ETHER_TYPE_IPv6 \<and> ?c < 78 then 78 else ?c"
  have d: "unat ?d = max (if ety = ETHER_TYPE_IPv6 then 78 else 4) (unat ?c)"
    using c by (auto simp: word_less_nat_alt max_def min_def)
  have "single_size short ety sz = ?d - 4"
    by (auto simp: single_size_def Let_def size_consts)
  moreover have "unat (?d - 4) = unat ?d - 4" 
  proof (rule s4)
    show "4 \<le> unat ?d" unfolding d by (rule le_trans [OF _ max.cobounded1]) simp
  qed
  ultimately have "unat (single_size short ety sz) = unat ?d - 4" by (simp only:)
  then show ?thesis unfolding d c by (auto simp: max_def min_def)
qed

text \<open>\<open>set seqCnt\<close> holds the number of sequence packets at 16 and makes the sequence the
  only source of packets; a count of 0 turns the sequence off.\<close>

theorem seqCnt_mode:
  assumes "pktgen_set_port_seqCnt fp n cnt g i = Some i'"
  shows "unat (seqCnt i') = min 16 (unat cnt)
    \<and> (cnt \<noteq> 0 \<longrightarrow> (\<forall>f \<in> set feed_flags. has_flag (port_flags i') f \<longleftrightarrow> f = SEND_SEQ_PKTS))
    \<and> (cnt = 0 \<longrightarrow> \<not> has_flag (port_flags i') SEND_SEQ_PKTS)"
proof -
  let ?c = "if cnt > 16 then 16 else cnt"
  let ?i = "i\<lparr>seqCnt := ucast ?c\<rparr>"
  let ?j = "if ?c \<noteq> 0 then select_tag SEND_RANGE_PKTS SEND_PCAP_PKTS SEND_SEQ_PKTS ?i
    else pktgen_clr_port_flags ?i SEND_SEQ_PKTS"
  have "pktgen_packet_rate fp n g ?j = Some i'"
    using assms [unfolded pktgen_set_port_seqCnt_def Let_def pkt_index_values of_nat_numeral
        select_tag_def [symmetric]] .
  from packet_rate_frame [OF this] have eq: "seqCnt i' = seqCnt ?j" "port_flags i' = port_flags ?j" by auto
  have "unat ?c = min 16 (unat cnt)" by (simp add: word_less_nat_alt min_def)
  then have "unat (ucast ?c :: u16) = min 16 (unat cnt)" by (subst unat_ucast_32_16_small) simp_all
  moreover have "seqCnt ?j = ucast ?c"
    by (simp add: select_tag_def set_port_flags_eq clr_port_flags_eq)
  ultimately have "unat (seqCnt i') = min 16 (unat cnt)" using eq(1) by metis
  moreover have "{SEND_RANGE_PKTS, SEND_PCAP_PKTS, SEND_SEQ_PKTS} = set feed_flags"
    by (auto simp: feed_flags_def)
  then have "\<forall>f \<in> set feed_flags. has_flag (port_flags i') f \<longleftrightarrow> f = SEND_SEQ_PKTS" if "cnt \<noteq> 0"
    using select_tag_flags [of SEND_RANGE_PKTS SEND_PCAP_PKTS SEND_SEQ_PKTS feed_flags] that eq(2) by auto
  moreover have "\<not> has_flag (port_flags i') SEND_SEQ_PKTS" if "cnt = 0"
    using that eq(2) by (simp add: clr_port_flags_eq clr_clears)
  ultimately show ?thesis by blast
qed

theorem seqCnt_mode_witness:
  "\<exists>i'. pktgen_set_port_seqCnt id 2 99 sample_glob sample_port = Some i' \<and> seqCnt i' = 16
    \<and> has_flag (port_flags i') SEND_SEQ_PKTS"
proof -
  let ?j = "select_tag SEND_RANGE_PKTS SEND_PCAP_PKTS SEND_SEQ_PKTS (sample_port\<lparr>seqCnt := 16\<rparr>)"
  have "can_send ?j" "0 \<le> tx_rate ?j" "tx_rate ?j \<le> 100"
    by (simp_all add: can_send_def select_tag_def set_port_flags_eq clr_port_flags_eq sample_port_def
        has_flag_def port_flag_defs)
  from packet_rate_result [OF this(1) _ this(2,3), of id 2 sample_glob]
  obtain i' where "pktgen_packet_rate id 2 sample_glob ?j = Some i'" by (auto simp: rounds_def)
  then have e: "pktgen_set_port_seqCnt id 2 99 sample_glob sample_port = Some i'"
    by (simp add: pktgen_set_port_seqCnt_def select_tag_def)
  from seqCnt_mode [OF e] have "unat (seqCnt i') = 16" "has_flag (port_flags i') SEND_SEQ_PKTS"
    by (simp_all add: feed_flags_def)
  then show ?thesis using e by (simp add: word_unat_eq_iff)
qed

section \<open>Where the code departs from its purpose\<close>

text \<open>Changing the type of the packet from IPv4 to IPv6 keeps it long enough for IPv6, but the
  change from IPv4 to ARP and from ARP to IPv6 does not.\<close>

lemma retype_size_direct: "60 \<le> sz \<Longrightarrow> sz \<le> MAX_PKT_SIZE \<Longrightarrow>
    MIN_v6_PKT_SIZE \<le> retype_size ETHER_TYPE_IPv4 ETHER_TYPE_IPv6 sz"
proof -
  assume s: "60 \<le> sz" "sz \<le> MAX_PKT_SIZE"
  have "74 \<le> 74 + (sz - 60)" if "sz < 74"
  proof -
    have "unat (sz - 60) = unat sz - 60"
      using s by (intro unat_sub_nat [of 60, simplified]) (simp add: word_le_nat_alt)
    moreover have "60 \<le> unat sz" using s by (simp add: word_le_nat_alt)
    ultimately show ?thesis using that by (simp add: word_le_nat_alt word_less_nat_alt unat_word_ariths)
  qed
  then show ?thesis
    by (auto simp: retype_size_def Let_def size_consts ETHER_TYPE_IPv4_def ETHER_TYPE_IPv6_def not_less)
qed

lemma retype_via_arp_short:
  "retype_size ETHER_TYPE_ARP ETHER_TYPE_IPv6 (retype_size ETHER_TYPE_IPv4 ETHER_TYPE_ARP 60) < MIN_v6_PKT_SIZE"
  by (simp add: retype_size_def Let_def size_consts ETHER_TYPE_IPv4_def ETHER_TYPE_IPv6_def ETHER_TYPE_ARP_def)

text \<open>The image of an extra packet is not rebuilt when its fields are set.\<close>

lemma compile_pkt_stale_image:
  assumes "pktgen_compile_pkt v a g i = Some (g', i')" "unat v < NUM_EXTRA_TX_PKTS" "length (seq_pkt i) = NUM_TOTAL_PKTS"
  shows "hdr (seq_pkt i' ! (unat v + EXTRA_TX_PKT)) = hdr (seq_pkt i ! (unat v + EXTRA_TX_PKT))"
proof -
  obtain f i1 where u: "upd_pkt (unat v + EXTRA_TX_PKT) f i = Some i1" and f: "\<And>p. hdr (f p) = hdr p"
    and r: "rebuild (unat v) (- 1) g i1 = Some (g', i')"
    using assms(1,2) by (auto simp: pktgen_compile_pkt_def bind_eq_Some_iff Let_def split: if_splits)
  have "seq_pkt i' ! (unat v + 20) = seq_pkt i1 ! (unat v + 20)"
    by (rule rebuild_frame [OF r]) simp
  then show ?thesis using u f assms(2,3) by (auto simp: upd_pkt_def split: if_splits)
qed

text \<open>The number of flows that \<open>range dst.ip max\<close> stores is counted from the first source address.\<close>

lemma dst_ip_flow_count:
  assumes "traffic_gen_as g = IL_TRAFFIC_RESP" "is_max what" "range_set_dst_ip what ip g i = (g', i')"
  shows "subs g' = ucast (ntohl (s_addr ip) - src_ip_min (range i) + 1)"
  using assms by (auto simp: range_set_dst_ip_def is_max_def is_min_def upd_range_def Let_def)

text \<open>Restarting the dump frees the first saved packet only.\<close>

lemma port_dump_leak:
  assumes "debug_set_port_dump v i = Some i'" "0 < k" "k < length (dump_list i)"
  shows "dump_list i' ! k = dump_list i ! k"
  using assms by (auto simp: debug_set_port_dump_def Let_def split: if_splits)

end
