(* ===== verification/Reset.thy ===== *)
theory Reset
  imports PortInv Rate RndBits
begin

text \<open>
  The defaults of a port (\<open>pktgen_port_defaults\<close> and \<open>pktgen_reset\<close> of
  \<open>app/pktgen-cmds.c\<close>).  The ports are the array \<open>pktgen.info\<close>; the default
  destination address is the source address of the neighbouring port, so a port is reset
  among the others.  A null pointer and an access outside an array are None.
\<close>

section \<open>Defaults of one template\<close>

definition DEFAULT_TX_COUNT :: u64 where "DEFAULT_TX_COUNT = 0"
definition DEFAULT_TX_RATE :: rat where "DEFAULT_TX_RATE = 100"
definition DEFAULT_VLAN_ID :: u16 where "DEFAULT_VLAN_ID = MIN_VLAN_ID"
definition DEFAULT_COS :: u8 where "DEFAULT_COS = MIN_COS"
definition DEFAULT_TOS :: u8 where "DEFAULT_TOS = MIN_TOS"
definition DEFAULT_IP_ADDR :: u32 where "DEFAULT_IP_ADDR = push_bit 24 192 OR push_bit 16 168"

text \<open>The fields of the template that are constants, and those of the port.\<close>

definition default_pkt :: "pkt_seq \<Rightarrow> pkt_seq" where
  "default_pkt p = p\<lparr>pktSize := MIN_PKT_SIZE, sport := DEFAULT_SRC_PORT, dport := DEFAULT_DST_PORT,
     ipProto := ucast PG_IPPROTO_TCP, ethType := ETHER_TYPE_IPv4, vlanid := DEFAULT_VLAN_ID,
     pkt_cos := DEFAULT_COS, tos := DEFAULT_TOS\<rparr>"

definition default_port :: "port_info \<Rightarrow> port_info" where
  "default_port i = i\<lparr>transmit_count := DEFAULT_TX_COUNT, current_tx_count := 0, tx_rate := DEFAULT_TX_RATE,
     tx_burst := DEFAULT_PKT_BURST, pvlanid := DEFAULT_VLAN_ID, pcos := DEFAULT_COS, ptos := DEFAULT_TOS,
     seqCnt := 0, seqIdx := 0, prime_cnt := DEFAULT_PRIME_COUNT, delta := 0\<rparr>"

text \<open>The addresses: the network of the port and that of its neighbour.\<close>

definition neighbour :: "u32 \<Rightarrow> u32" where
  "neighbour p = (if p AND 1 = 0 then p + 1 else p - 1)"

definition default_ips :: "u32 \<Rightarrow> pkt_seq \<Rightarrow> pkt_seq" where
  "default_ips p t = t\<lparr>ip_mask := DEFAULT_NETMASK,
     ip_src_addr := (ip_src_addr t)\<lparr>s_addr := DEFAULT_IP_ADDR OR push_bit 8 p OR 1\<rparr>,
     ip_dst_addr := (ip_dst_addr t)\<lparr>s_addr := DEFAULT_IP_ADDR OR push_bit 8 (neighbour p) OR 1\<rparr>\<rparr>"

definition default_mac :: "port_info \<Rightarrow> ether_addr option" where
  "default_mac dst =
     (if seq_pkt dst = [] then Some [0, 0, 0, 0, 0, 0]
      else if SINGLE_PKT < length (seq_pkt dst) then Some (eth_src_addr (seq_pkt dst ! SINGLE_PKT)) else None)"

definition pktgen_port_defaults ::
  "(rat \<Rightarrow> rat) \<Rightarrow> u64 \<Rightarrow> u32 \<Rightarrow> nat \<Rightarrow> glob \<times> port_info list \<Rightarrow> (glob \<times> port_info list) option" where
  "pktgen_port_defaults fp txcnt p sq = (\<lambda>(g, ports).
     let k = unat p; n = unat (neighbour p) in
     if k < length ports then do {
       i \<leftarrow> upd_pkt sq default_pkt (ports ! k);
       i \<leftarrow> pktgen_packet_rate fp txcnt g (default_port i);
       i \<leftarrow> upd_pkt sq (default_ips p) i;
       guard (n < length ports);
       mac \<leftarrow> default_mac (ports ! n);
       i \<leftarrow> upd_pkt sq (\<lambda>t. t\<lparr>eth_dst_addr := mac\<rparr>) i;
       (g, i) \<leftarrow> rebuild sq (- 1) g i;
       Some (set_gflags g PRINT_LABELS_FLAG, ports[k := i]) }
     else None)"

section \<open>Reset of a port\<close>

primrec all_defaults ::
  "(rat \<Rightarrow> rat) \<Rightarrow> u64 \<Rightarrow> u32 \<Rightarrow> nat \<Rightarrow> glob \<times> port_info list \<Rightarrow> (glob \<times> port_info list) option" where
  "all_defaults fp txcnt p 0 w = Some w"
| "all_defaults fp txcnt p (Suc s) w = Option.bind (all_defaults fp txcnt p s w) (pktgen_port_defaults fp txcnt p s)"

text \<open>What the port gets after its templates: the range, cleared statistics, no range mode, no
  random fields, no sequence.  \<open>dev\<close> are the device's counters, \<open>urandom\<close> what reading
  the random device gives, \<open>s\<close> the state of the generator.\<close>

definition reset_rest ::
  "(rat \<Rightarrow> rat) \<Rightarrow> u64 \<Rightarrow> eth_stats \<Rightarrow> u64 option option \<Rightarrow> glob \<Rightarrow> port_info \<Rightarrow> u64
    \<Rightarrow> (glob \<times> port_info \<times> u64) option" where
  "reset_rest fp txcnt dev urandom g i s = do {
     i \<leftarrow> pktgen_range_setup i;
     let (g, i) = pktgen_clear_stats dev g i;
     i \<leftarrow> enable_range fp txcnt (estate ''off'') g i;
     guard (rnd_bitfields i \<noteq> None);
     let (rb, s, _) = pktgen_rnd_bits_init urandom s;
     i \<leftarrow> pktgen_set_port_seqCnt fp txcnt 0 g (i\<lparr>rnd_bitfields := Some rb\<rparr>);
     Some (g, i, s) }"

definition pktgen_reset ::
  "(rat \<Rightarrow> rat) \<Rightarrow> u64 \<Rightarrow> eth_stats \<Rightarrow> u64 option option \<Rightarrow> nat \<Rightarrow> glob \<times> port_info list \<times> u64
    \<Rightarrow> (glob \<times> port_info list \<times> u64) option" where
  "pktgen_reset fp txcnt dev urandom k = (\<lambda>(g, ports, s).
     if k < length ports then do {
       i \<leftarrow> pktgen_stop_transmitting txcnt (ports ! k);
       let g = clr_gflags g MAC_FROM_ARP_FLAG;
       (g, ports, s) \<leftarrow>
         (if seq_pkt i = [] then Some (g, ports[k := i], s)
          else do {
            i \<leftarrow> upd_pkt SINGLE_PKT (\<lambda>p. p\<lparr>pktSize := MIN_PKT_SIZE\<rparr>) i;
            (g, ports) \<leftarrow> all_defaults fp txcnt (ucast (pid i)) NUM_TOTAL_PKTS (g, ports[k := i]);
            (g, i, s) \<leftarrow> reset_rest fp txcnt dev urandom g (ports ! k) s;
            Some (g, ports[k := i], s) });
       Some (pktgen_update_display g, ports, s) }
     else None)"

section \<open>A reset port\<close>

text \<open>The shape that a reset needs of the port: what the commands never change, with the modes.  It
  says nothing of the values in the port.\<close>

definition port_shape :: "nat \<Rightarrow> port_info \<Rightarrow> bool" where
  "port_shape sz i \<longleftrightarrow> wf_port sz i \<and> modes_ok i \<and> length (dump_list i) = MAX_DUMP_PACKETS
     \<and> unat (dump_count i) \<le> MAX_DUMP_PACKETS"

lemmas shape_defs = port_shape_def wf_port_def modes_ok_def

lemma shape_pkt:
  assumes "port_shape sz i" "k < length (seq_pkt i)" "wf_pkt sz p"
  shows "port_shape sz (i\<lparr>seq_pkt := (seq_pkt i)[k := p]\<rparr>)"
  using assms by (auto simp: shape_defs list_all_length nth_list_update)

lemma shape_upd_pkt:
  assumes "upd_pkt k f i = Some i'" "port_shape sz i" "\<And>p. wf_pkt sz p \<Longrightarrow> wf_pkt sz (f p)"
  shows "port_shape sz i'"
proof -
  have k: "k < length (seq_pkt i)" and i: "i' = i\<lparr>seq_pkt := (seq_pkt i)[k := f (seq_pkt i ! k)]\<rparr>"
    using assms(1) by (auto simp: upd_pkt_def split: if_splits)
  show ?thesis unfolding i
    by (rule shape_pkt [OF assms(2) k]) (use assms(2,3) k in \<open>auto simp: shape_defs list_all_length\<close>)
qed

lemma shape_rebuild:
  assumes "rebuild k ty g i = Some (g', i')" "port_shape sz i"
  shows "port_shape sz i'"
proof -
  from rebuild_frame [OF assms(1)] obtain p' where k: "k < length (seq_pkt i)"
    and h: "hdr_only (seq_pkt i ! k) p'" and i: "i' = i\<lparr>seq_pkt := (seq_pkt i)[k := p']\<rparr>" by metis
  have "wf_pkt sz (seq_pkt i ! k)" using assms(2) k by (simp add: shape_defs list_all_length)
  then show ?thesis unfolding i using h hdr_only_wf shape_pkt [OF assms(2) k] by blast
qed

lemma shape_rate: "pktgen_packet_rate fp n g i = Some i' \<Longrightarrow> port_shape sz i \<Longrightarrow> port_shape sz i'"
  by (drule packet_rate_frame) (auto simp: shape_defs)

text \<open>The default values of a template of port \<open>p\<close>, and of the port.\<close>

definition is_default :: "u32 \<Rightarrow> pkt_seq \<Rightarrow> bool" where
  "is_default p t \<longleftrightarrow> pktSize t = 60 \<and> sport t = 1234 \<and> dport t = 5678 \<and> ipProto t = 6
     \<and> ethType t = 0x0800 \<and> vlanid t = 1 \<and> pkt_cos t = 0 \<and> tos t = 0 \<and> ip_mask t = 0xFFFFFF00
     \<and> s_addr (ip_src_addr t) = 0xC0A80000 OR push_bit 8 p OR 1
     \<and> s_addr (ip_dst_addr t) = 0xC0A80000 OR push_bit 8 (neighbour p) OR 1"

definition default_vals :: "port_info \<Rightarrow> bool" where
  "default_vals i \<longleftrightarrow> transmit_count i = 0 \<and> current_tx_count i = 0 \<and> tx_rate i = 100 \<and> tx_burst i = 64
     \<and> pvlanid i = 1 \<and> pcos i = 0 \<and> ptos i = 0 \<and> seqCnt i = 0 \<and> seqIdx i = 0 \<and> prime_cnt i = 1 \<and> delta i = 0"

lemmas default_consts = DEFAULT_TX_COUNT_def DEFAULT_TX_RATE_def DEFAULT_VLAN_ID_def DEFAULT_COS_def
  DEFAULT_TOS_def DEFAULT_PKT_BURST_def DEFAULT_PRIME_COUNT_def DEFAULT_NETMASK_def DEFAULT_SRC_PORT_def
  DEFAULT_DST_PORT_def field_consts size_consts

lemma DEFAULT_IP: "DEFAULT_IP_ADDR = 0xC0A80000"
  by (simp add: DEFAULT_IP_ADDR_def)

lemma default_pkt_fields:
  "is_default p ((default_ips p (default_pkt t))\<lparr>eth_dst_addr := mac\<rparr>)"
  "wf_pkt sz t \<Longrightarrow> wf_pkt sz (default_pkt t)" "wf_pkt sz t \<Longrightarrow> wf_pkt sz (default_ips p t)"
  "wf_pkt sz t \<Longrightarrow> length mac = 6 \<Longrightarrow> wf_pkt sz (t\<lparr>eth_dst_addr := mac\<rparr>)"
  by (simp_all add: is_default_def default_ips_def default_pkt_def default_consts DEFAULT_IP wf_pkt_def
      PG_IPPROTO_TCP_def ETHER_TYPE_IPv4_def)

lemma is_default_hdr: "hdr_only t t' \<Longrightarrow> is_default p t \<Longrightarrow> is_default p t'"
  by (cases t, cases t') (simp add: hdr_only_def is_default_def)

lemma default_mac_length:
  "default_mac i = Some mac \<Longrightarrow> seq_pkt i = [] \<or> wf_port sz i \<Longrightarrow> length mac = 6"
  by (auto simp: default_mac_def wf_pkt_def NUM_TOTAL_PKTS_def dest: wf_port_nth [of sz i SINGLE_PKT]
      split: if_splits)

text \<open>A port where the templates below \<open>n\<close> have their defaults.\<close>

definition part_reset :: "nat \<Rightarrow> u32 \<Rightarrow> nat \<Rightarrow> port_info \<Rightarrow> port_info \<Rightarrow> bool" where
  "part_reset sz p n i0 i \<longleftrightarrow> port_shape sz i \<and> port_flags i = port_flags i0 \<and> pid i = pid i0
     \<and> user_pattern i = user_pattern i0 \<and> rnd_bitfields i = rnd_bitfields i0
     \<and> (\<forall>t<n. is_default p (seq_pkt i ! t)) \<and> (0 < n \<longrightarrow> default_vals i)"

lemma upd_pkt_Some:
  "upd_pkt k f i = Some i' \<longleftrightarrow> k < length (seq_pkt i) \<and> i' = i\<lparr>seq_pkt := (seq_pkt i)[k := f (seq_pkt i ! k)]\<rparr>"
  by (auto simp: upd_pkt_def)

lemma defaults_parts:
  assumes "pktgen_port_defaults fp txcnt p sq (g, ports) = Some (g', ports')" "unat p < length ports"
  obtains i1 i2 i3 mac i4 i5 g1 where "upd_pkt sq default_pkt (ports ! unat p) = Some i1"
    "pktgen_packet_rate fp txcnt g (default_port i1) = Some i2" "upd_pkt sq (default_ips p) i2 = Some i3"
    "unat (neighbour p) < length ports"
    "default_mac (ports ! unat (neighbour p)) = Some mac"
    "upd_pkt sq (\<lambda>t. t\<lparr>eth_dst_addr := mac\<rparr>) i3 = Some i4" "rebuild sq (- 1) g i4 = Some (g1, i5)"
    "ports' = ports[unat p := i5]"
  using assms by (auto simp: pktgen_port_defaults_def Let_def bind_eq_Some_iff guard_def split: if_splits)

lemma shape_default_port: "port_shape sz i \<Longrightarrow> port_shape sz (default_port i)"
  by (simp add: shape_defs default_port_def)

lemma defaults_step:
  assumes d: "pktgen_port_defaults fp txcnt p sq (g, ports) = Some (g', ports')"
    and k: "unat p < length ports" and i: "part_reset sz p sq i0 (ports ! unat p)"
    and ok: "\<forall>i\<in>set ports. seq_pkt i = [] \<or> wf_port sz i"
  shows "\<exists>i. ports' = ports[unat p := i] \<and> part_reset sz p (Suc sq) i0 i"
proof -
  let ?i = "ports ! unat p"
  from defaults_parts [OF d k] obtain i1 i2 i3 mac i4 i5 g1 where
    1: "upd_pkt sq default_pkt ?i = Some i1" and 2: "pktgen_packet_rate fp txcnt g (default_port i1) = Some i2"
    and 3: "upd_pkt sq (default_ips p) i2 = Some i3" and n: "unat (neighbour p) < length ports"
    and m: "default_mac (ports ! unat (neighbour p)) = Some mac"
    and 4: "upd_pkt sq (\<lambda>t. t\<lparr>eth_dst_addr := mac\<rparr>) i3 = Some i4"
    and 5: "rebuild sq (- 1) g i4 = Some (g1, i5)" and p': "ports' = ports[unat p := i5]" .
  have s: "port_shape sz ?i" using i by (simp add: part_reset_def)
  have s1: "port_shape sz i1" by (rule shape_upd_pkt [OF 1 s default_pkt_fields(2)])
  have s3: "port_shape sz i3"
    by (rule shape_upd_pkt [OF 3 shape_rate [OF 2 shape_default_port [OF s1]] default_pkt_fields(3)])
  have mac: "length mac = 6" by (rule default_mac_length [OF m, of sz]) (use ok n in simp)
  have s4: "port_shape sz i4" by (rule shape_upd_pkt [OF 4 s3 default_pkt_fields(4) [OF _ mac]])
  obtain a b where i2: "i2 = (default_port i1)\<lparr>tx_pps := a, tx_cycles := b\<rparr>" using packet_rate_frame [OF 2] by blast
  obtain p5 where h: "hdr_only (seq_pkt i4 ! sq) p5" and i5: "i5 = i4\<lparr>seq_pkt := (seq_pkt i4)[sq := p5]\<rparr>"
    using rebuild_frame [OF 5] by metis
  have sq: "sq < length (seq_pkt ?i)" and sp4: "seq_pkt i4 = (seq_pkt ?i)[sq := (default_ips p (default_pkt (seq_pkt ?i ! sq)))\<lparr>eth_dst_addr := mac\<rparr>]"
    and fl: "port_flags i4 = port_flags ?i" "pid i4 = pid ?i" "default_vals i4"
      "user_pattern i4 = user_pattern ?i" "rnd_bitfields i4 = rnd_bitfields ?i"
    using 1 3 4 by (auto simp: upd_pkt_Some i2 default_port_def default_vals_def default_consts)
  have "is_default p p5" by (rule is_default_hdr [OF h]) (simp add: sp4 sq default_pkt_fields(1))
  then have "\<forall>t<Suc sq. is_default p (seq_pkt i5 ! t)"
    using i sq by (auto simp: i5 sp4 part_reset_def less_Suc_eq nth_list_update)
  moreover have "default_vals i5" using fl(3) by (simp add: i5 default_vals_def)
  ultimately have "part_reset sz p (Suc sq) i0 i5"
    using shape_rebuild [OF 5 s4] fl i by (simp add: part_reset_def i5)
  with p' show ?thesis by blast
qed

lemma defaults_all:
  assumes "all_defaults fp txcnt p n (g, ports) = Some (g', ports')"
    and "unat p < length ports" "port_shape sz (ports ! unat p)"
    and "\<forall>i\<in>set ports. seq_pkt i = [] \<or> wf_port sz i"
  shows "\<exists>i. ports' = ports[unat p := i] \<and> part_reset sz p n (ports ! unat p) i"
  using assms(1)
proof (induction n arbitrary: g' ports')
  case 0
  then show ?case using assms by (auto simp: part_reset_def intro!: exI [of _ "ports ! unat p"])
next
  case (Suc n)
  then obtain g1 ports1 where 1: "all_defaults fp txcnt p n (g, ports) = Some (g1, ports1)"
    and 2: "pktgen_port_defaults fp txcnt p n (g1, ports1) = Some (g', ports')"
    by (auto simp: bind_eq_Some_iff)
  from Suc.IH [OF 1] obtain i where i: "ports1 = ports[unat p := i]" "part_reset sz p n (ports ! unat p) i" by blast
  have "\<forall>i\<in>set ports1. seq_pkt i = [] \<or> wf_port sz i"
    using i assms(4) set_update_subset_insert [of ports "unat p" i] by (auto simp: part_reset_def port_shape_def)
  from defaults_step [OF 2 _ _ this] i assms(2) show ?case by auto
qed

lemma estate_off: "estate ''off'' = DISABLE_STATE" "DISABLE_STATE \<noteq> ENABLE_STATE"
  by code_simp+

lemma range_setup_frame:
  assumes "pktgen_range_setup i = Some i'"
  obtains r where "i' = i\<lparr>range := r, seq_pkt := (seq_pkt i)[RANGE_PKT := (seq_pkt i ! RANGE_PKT)\<lparr>pktSize := MIN_PKT_SIZE\<rparr>]\<rparr>"
    "inc_ok r"
  using assms that by (auto simp: pktgen_range_setup_def Let_def inc_ok_def field_consts size_consts split: if_splits)

text \<open>The port after the last steps: a mode flag is cleared and rates are computed.\<close>

lemma reset_rest_frame:
  assumes "reset_rest fp txcnt dev urandom g i s = Some (g', i', s')"
  obtains i1 a b rb where "pktgen_range_setup i = Some i1"
    "i' = (snd (pktgen_clear_stats dev g i1))\<lparr>port_flags := (port_flags i1 AND NOT SEND_RANGE_PKTS) AND NOT SEND_SEQ_PKTS,
      tx_pps := a, tx_cycles := b, rnd_bitfields := Some rb, seqCnt := 0\<rparr>" "rnd_bitfields i1 \<noteq> None"
proof -
  from assms obtain i1 where 1: "pktgen_range_setup i = Some i1" by (auto simp: reset_rest_def bind_eq_Some_iff)
  obtain g2 j where c: "pktgen_clear_stats dev g i1 = (g2, j)" by force
  obtain rb s2 m where rb: "pktgen_rnd_bits_init urandom s = (rb, s2, m)" by (metis prod_cases3)
  from assms 1 obtain i2 where 2: "enable_range fp txcnt DISABLE_STATE (fst (pktgen_clear_stats dev g i1)) (snd (pktgen_clear_stats dev g i1)) = Some i2"
    and 3: "pktgen_set_port_seqCnt fp txcnt 0 (fst (pktgen_clear_stats dev g i1)) (i2\<lparr>rnd_bitfields := Some rb\<rparr>) = Some i'"
    and 4: "rnd_bitfields i2 \<noteq> None"
    by (auto simp: reset_rest_def c rb bind_eq_Some_iff guard_def estate_off split: if_splits)
  obtain a b where i2: "i2 = (pktgen_clr_port_flags (snd (pktgen_clear_stats dev g i1)) SEND_RANGE_PKTS)\<lparr>tx_pps := a, tx_cycles := b\<rparr>"
    using packet_rate_frame [OF 2 [unfolded enable_range_def]] by (auto simp: estate_off)
  obtain c d where "i' = (pktgen_clr_port_flags (i2\<lparr>rnd_bitfields := Some rb, seqCnt := 0\<rparr>) SEND_SEQ_PKTS)\<lparr>tx_pps := c, tx_cycles := d\<rparr>"
    using packet_rate_frame [OF 3 [unfolded pktgen_set_port_seqCnt_def Let_def]] by auto
  then have "i' = (snd (pktgen_clear_stats dev g i1))\<lparr>port_flags := (port_flags i1 AND NOT SEND_RANGE_PKTS) AND NOT SEND_SEQ_PKTS,
      tx_pps := c, tx_cycles := d, rnd_bitfields := Some rb, seqCnt := 0\<rparr>"
    by (simp add: i2 clr_port_flags_eq pktgen_clear_stats_def)
  moreover have "rnd_bitfields i1 \<noteq> None" using 4 by (simp add: i2 clr_port_flags_eq pktgen_clear_stats_def)
  ultimately show thesis using that 1 by blast
qed

lemma reset_rest_inv:
  assumes "reset_rest fp txcnt dev urandom g i s = Some (g', i', s')" "part_reset sz p NUM_TOTAL_PKTS i0 i"
  shows "port_inv sz i' \<and> default_vals i' \<and> pid i' = pid i0 \<and> (\<forall>t<NUM_TOTAL_PKTS. is_default p (seq_pkt i' ! t))
    \<and> port_flags i' = (port_flags i0 AND NOT SEND_RANGE_PKTS) AND NOT SEND_SEQ_PKTS"
proof -
  obtain i1 a b rb where 1: "pktgen_range_setup i = Some i1"
    and i': "i' = (snd (pktgen_clear_stats dev g i1))\<lparr>port_flags := (port_flags i1 AND NOT SEND_RANGE_PKTS) AND NOT SEND_SEQ_PKTS,
      tx_pps := a, tx_cycles := b, rnd_bitfields := Some rb, seqCnt := 0\<rparr>"
    using reset_rest_frame [OF assms(1)] by metis
  let ?sp = "(seq_pkt i)[RANGE_PKT := (seq_pkt i ! RANGE_PKT)\<lparr>pktSize := MIN_PKT_SIZE\<rparr>]"
  obtain r where i1: "i1 = i\<lparr>range := r, seq_pkt := ?sp\<rparr>" and r: "inc_ok r"
    using range_setup_frame [OF 1] by metis
  have sh: "port_shape sz i" and dv: "default_vals i" and fl: "port_flags i = port_flags i0" "pid i = pid i0"
    and t: "\<forall>t<NUM_TOTAL_PKTS. is_default p (seq_pkt i ! t)"
    using assms(2) by (simp_all add: part_reset_def NUM_TOTAL_PKTS_def)
  have sp: "\<forall>t<NUM_TOTAL_PKTS. is_default p (?sp ! t)"
    using t sh by (auto simp: nth_list_update is_default_def size_consts shape_defs)
  have len: "length (seq_pkt i) = 28" using sh by (simp add: shape_defs NUM_TOTAL_PKTS_def)
  have wf: "list_all (wf_pkt sz) ?sp"
    using sh len by (auto simp: shape_defs list_all_length nth_list_update wf_pkt_def)
  have "is_default p (?sp ! SINGLE_PKT)" using sp by (simp del: nth_list_update_neq add: NUM_TOTAL_PKTS_def)
  then have "pktSize (?sp ! SINGLE_PKT) = 60" unfolding is_default_def by blast
  with sh dv r wf have "port_inv sz i'"
    by (simp add: i' i1 pktgen_clear_stats_def port_inv_defs port_shape_def at_most_one_clr default_vals_def size_consts
        DEFAULT_PKT_BURST_def MAX_PRIME_COUNT_def)
  with dv fl sp show ?thesis by (simp add: i' i1 pktgen_clear_stats_def default_vals_def)
qed

lemma stopped:
  assumes "pktgen_stop_transmitting n i = Some i'" "port_shape sz i"
  shows "port_shape sz i' \<and> pid i' = pid i \<and> \<not> has_flag (port_flags i') SENDING_PACKETS"
proof (cases "has_flag (port_flags i) SENDING_PACKETS")
  case True
  from stop_frame [OF assms(1) True] obtain qs where qs: "length qs = length (q i)"
    "i' = i\<lparr>q := qs, port_flags := port_flags i AND NOT (SENDING_PACKETS OR SEND_FOREVER)\<rparr>" by metis
  have "(port_flags i AND NOT (SENDING_PACKETS OR SEND_FOREVER)) AND SENDING_PACKETS = 0"
    by (rule bit_eqI) (auto simp: bit_simps)
  moreover have "at_most_one fs (port_flags i) \<Longrightarrow> at_most_one fs (port_flags i AND NOT SENDING_PACKETS AND NOT SEND_FOREVER)" for fs
    using at_most_one_clr [of fs "port_flags i" "SENDING_PACKETS OR SEND_FOREVER"] by simp
  ultimately show ?thesis using qs assms(2) by (simp add: shape_defs has_flag_def)
next
  case False
  with assms show ?thesis by (simp add: pktgen_stop_transmitting_def)
qed

text \<open>What a reset needs to succeed: no GRE mode (the constructors then write through a null
  pointer), no Q-in-Q tag (the default packet of 60 bytes has no room for it), no capture file as
  the source, and the random fields of the port.\<close>

definition can_reset :: "nat \<Rightarrow> port_info \<Rightarrow> bool" where
  "can_reset sz i \<longleftrightarrow> no_gre i \<and> \<not> has_flag (port_flags i) SEND_Q_IN_Q_IDS \<and> \<not> has_flag (port_flags i) SEND_PCAP_PKTS
     \<and> USER_PATTERN_SIZE \<le> length (user_pattern i) \<and> rnd_bitfields i \<noteq> None \<and> 61 \<le> sz"

lemma can_reset_cong:
  "port_flags i' = port_flags i \<Longrightarrow> user_pattern i' = user_pattern i \<Longrightarrow> rnd_bitfields i' = rnd_bitfields i \<Longrightarrow>
    can_reset sz i' = can_reset sz i"
  by (simp add: can_reset_def no_gre_def)

lemma tags_without_qinq:
  "\<not> has_flag (port_flags i) SEND_Q_IN_Q_IDS \<Longrightarrow> wf_pkt sz p \<Longrightarrow> length (l2_hdr i p) \<le> 18"
  by (simp add: l2_hdr_def l2_tags_def wf_pkt_def be16_def be32_def)

lemma default_packet_builds:
  assumes "wf_pkt sz p" "can_reset sz i" "is_default a p"
  shows "\<exists>g' p'. packet_build g i p ty = Some (False, g', p')"
proof -
  let ?L = "length (l2_hdr i p)"
  have L: "14 \<le> ?L" "?L \<le> 18" using l2_hdr_length [OF assms(1)] tags_without_qinq assms by (simp_all add: can_reset_def)
  have p: "pktSize p = 60" "ethType p = ETHER_TYPE_IPv4" "ipProto p = ucast PG_IPPROTO_TCP" "dport p \<noteq> PG_IPPROTO_L4_GTPU_PORT"
    using assms(3) by (simp_all add: is_default_def ETHER_TYPE_IPv4_def PG_IPPROTO_TCP_def PG_IPPROTO_L4_GTPU_PORT_def)
  have "22 \<le> sz" "no_gre i" "USER_PATTERN_SIZE \<le> length (user_pattern i)" using assms(2) by (simp_all add: can_reset_def)
  from packet_build_l2 [OF assms(1) this, of g ty] obtain pat where pat: "length pat = sz"
    and b: "packet_build g i p ty = packet_l3 g
      (p\<lparr>hdr := put 0 (l2_hdr i p) pat, ether_hdr_size := word_of_nat ?L\<rparr>) ?L ty" by metis
  let ?p = "p\<lparr>hdr := put 0 (l2_hdr i p) pat, ether_hdr_size := word_of_nat ?L\<rparr>"
  have sz: "61 \<le> sz" using assms(2) by (simp add: can_reset_def)
  have h: "length (hdr ?p) = sz" using pat L sz by simp
  have l3: "unat (l3_len ?p) = 60 - ?L" using L p(1) by (simp add: l3_len_def unat_sub_nat)
  have "(60 - ?L) mod 2 \<le> 1" by simp
  then have "?L + 40 \<le> length (hdr ?p)" "40 \<le> unat (l3_len ?p)"
    "?L + unat (l3_len ?p) + unat (l3_len ?p) mod 2 \<le> length (hdr ?p)"
    unfolding l3 h using L sz by linarith+
  from tcp_ipv4_ctor [OF this, of g] show ?thesis unfolding b using p by (auto simp: packet_l3_def)
qed

lemma default_rate:
  assumes "can_reset sz i" "port_shape sz i" "default_vals i" "rounds fp"
  shows "\<exists>i'. pktgen_packet_rate fp n g i = Some i'"
proof -
  have "can_send i" using assms(1,2,3) by (simp add: can_send_def can_reset_def default_vals_def port_shape_def wf_port_def)
  moreover have "0 \<le> tx_rate i" "tx_rate i \<le> 100" using assms(3) by (simp_all add: default_vals_def)
  ultimately show ?thesis using packet_rate_result [OF _ assms(4)] by blast
qed

lemma default_port_vals: "default_vals (default_port i)"
  by (simp add: default_vals_def default_port_def default_consts)

lemma defaults_total:
  assumes k: "unat p < length ports" and sh: "port_shape sz (ports ! unat p)" and c: "can_reset sz (ports ! unat p)"
    and n: "unat (neighbour p) < length ports" and ok: "\<forall>i\<in>set ports. seq_pkt i = [] \<or> wf_port sz i"
    and fp: "rounds fp" and sq: "sq < NUM_TOTAL_PKTS"
  shows "\<exists>w. pktgen_port_defaults fp txcnt p sq (g, ports) = Some w"
proof -
  let ?i = "ports ! unat p"
  have len: "length (seq_pkt ?i) = NUM_TOTAL_PKTS" using sh by (simp add: shape_defs)
  obtain i1 where 1: "upd_pkt sq default_pkt ?i = Some i1" and i1: "i1 = ?i\<lparr>seq_pkt := (seq_pkt ?i)[sq := default_pkt (seq_pkt ?i ! sq)]\<rparr>"
    using len sq by (simp add: upd_pkt_def)
  have s1: "port_shape sz (default_port i1)"
    by (rule shape_default_port [OF shape_upd_pkt [OF 1 sh default_pkt_fields(2)]])
  have "can_reset sz (default_port i1)" using c can_reset_cong [of "default_port i1" ?i] by (simp add: i1 default_port_def)
  then obtain i2 where 2: "pktgen_packet_rate fp txcnt g (default_port i1) = Some i2"
    using default_rate [OF _ s1 default_port_vals fp] by blast
  then obtain a b where i2: "i2 = (default_port i1)\<lparr>tx_pps := a, tx_cycles := b\<rparr>" using packet_rate_frame by blast
  obtain i3 where 3: "upd_pkt sq (default_ips p) i2 = Some i3"
    using len sq by (simp add: upd_pkt_def i2 i1 default_port_def)
  have s3: "port_shape sz i3" by (rule shape_upd_pkt [OF 3 shape_rate [OF 2 s1] default_pkt_fields(3)])
  have nb: "seq_pkt (ports ! unat (neighbour p)) = [] \<or> wf_port sz (ports ! unat (neighbour p))" using ok n by simp
  then obtain mac where m: "default_mac (ports ! unat (neighbour p)) = Some mac"
    by (cases "seq_pkt (ports ! unat (neighbour p)) = []") (auto simp: default_mac_def wf_port_def NUM_TOTAL_PKTS_def size_consts)
  have mac: "length mac = 6" by (rule default_mac_length [OF m nb])
  obtain i4 where 4: "upd_pkt sq (\<lambda>t. t\<lparr>eth_dst_addr := mac\<rparr>) i3 = Some i4"
    and sp4: "seq_pkt i4 ! sq = (default_ips p (default_pkt (seq_pkt ?i ! sq)))\<lparr>eth_dst_addr := mac\<rparr>"
    and f4: "port_flags i4 = port_flags ?i" "user_pattern i4 = user_pattern ?i" "rnd_bitfields i4 = rnd_bitfields ?i"
    and l4: "sq < length (seq_pkt i4)"
    using 3 len sq by (auto simp: upd_pkt_Some i2 i1 default_port_def)
  note c4 = can_reset_cong [OF f4]
  have s4: "port_shape sz i4" by (rule shape_upd_pkt [OF 4 s3 default_pkt_fields(4) [OF _ mac]])
  have "wf_pkt sz (seq_pkt i4 ! sq)" using s4 l4 by (simp add: shape_defs list_all_length)
  from default_packet_builds [OF this, of i4 p g "- 1"] c c4 default_pkt_fields(1)
  obtain g5 p5 where "packet_build g i4 (seq_pkt i4 ! sq) (- 1) = Some (False, g5, p5)" unfolding sp4 by blast
  then have "rebuild sq (- 1) g i4 = Some (g5, i4\<lparr>seq_pkt := (seq_pkt i4)[sq := p5]\<rparr>)"
    using l4 by (simp add: rebuild_def pktgen_packet_ctor_def)
  with 1 2 3 4 m k n show ?thesis by (simp add: pktgen_port_defaults_def Let_def guard_def)
qed

lemma all_defaults_total:
  assumes "unat p < length ports" "port_shape sz (ports ! unat p)" "can_reset sz (ports ! unat p)"
    and "unat (neighbour p) < length ports" "\<forall>i\<in>set ports. seq_pkt i = [] \<or> wf_port sz i"
    and "rounds fp" "n \<le> NUM_TOTAL_PKTS"
  shows "\<exists>g' ports'. all_defaults fp txcnt p n (g, ports) = Some (g', ports')"
  using assms(7)
proof (induction n)
  case (Suc n)
  then obtain g1 ports1 where 1: "all_defaults fp txcnt p n (g, ports) = Some (g1, ports1)" by auto
  from defaults_all [OF 1 assms(1,2,5)] obtain i where i: "ports1 = ports[unat p := i]"
    "part_reset sz p n (ports ! unat p) i" by blast
  have "port_shape sz (ports1 ! unat p)" "can_reset sz (ports1 ! unat p)"
    using i assms(1,3) can_reset_cong [of i "ports ! unat p"] by (simp_all add: part_reset_def)
  moreover have "\<forall>i\<in>set ports1. seq_pkt i = [] \<or> wf_port sz i"
    using i assms(5) set_update_subset_insert [of ports "unat p" i] by (auto simp: part_reset_def port_shape_def)
  ultimately obtain w where "pktgen_port_defaults fp txcnt p n (g1, ports1) = Some w"
    using defaults_total [of p ports1 sz fp n txcnt g1] assms(1,4,6) i Suc.prems by auto
  with 1 show ?case by (cases w) simp
qed simp

lemma no_feed_flags:
  "has_flag ((w AND NOT SEND_RANGE_PKTS) AND NOT SEND_SEQ_PKTS) SEND_PCAP_PKTS \<Longrightarrow> has_flag w SEND_PCAP_PKTS"
  using has_flag_clr_imp by blast

lemma rate_total:
  assumes "length (seq_pkt i) = NUM_TOTAL_PKTS" "seqCnt i = 0" "\<not> has_flag (port_flags i) SEND_PCAP_PKTS"
    and "tx_rate i = 100" "rounds fp"
  shows "\<exists>i'. pktgen_packet_rate fp n g i = Some i'"
proof -
  have "can_send i" using assms(1-3) by (simp add: can_send_def)
  then show ?thesis using packet_rate_result [OF _ assms(5), of i n g] assms(4) by auto
qed

lemma reset_rest_total:
  assumes "part_reset sz p NUM_TOTAL_PKTS i0 i" "can_reset sz i" "rounds fp"
  shows "\<exists>g' i' s'. reset_rest fp txcnt dev urandom g i s = Some (g', i', s')"
proof -
  have len: "length (seq_pkt i) = 28" and dv: "default_vals i"
    using assms(1) by (simp_all add: part_reset_def shape_defs NUM_TOTAL_PKTS_def)
  then obtain i1 where 1: "pktgen_range_setup i = Some i1" by (auto simp: pktgen_range_setup_def Let_def)
  then obtain r where i1: "i1 = i\<lparr>range := r, seq_pkt := (seq_pkt i)[RANGE_PKT := (seq_pkt i ! RANGE_PKT)\<lparr>pktSize := MIN_PKT_SIZE\<rparr>]\<rparr>"
    using range_setup_frame by metis
  obtain g2 i2 where c: "pktgen_clear_stats dev g i1 = (g2, i2)" by force
  have i2: "length (seq_pkt i2) = 28" "seqCnt i2 = 0" "tx_rate i2 = 100" "port_flags i2 = port_flags i" "rnd_bitfields i2 = rnd_bitfields i"
    using c dv len by (auto simp: pktgen_clear_stats_def i1 default_vals_def)
  have np: "\<not> has_flag (port_flags i) SEND_PCAP_PKTS" using assms(2) by (simp add: can_reset_def)
  have "\<not> has_flag (port_flags (pktgen_clr_port_flags i2 SEND_RANGE_PKTS)) SEND_PCAP_PKTS"
    using np i2(4) clr_clears(1) by (simp add: clr_port_flags_eq)
  then obtain i3 where 3: "enable_range fp txcnt DISABLE_STATE g2 i2 = Some i3"
    using rate_total [OF _ _ _ _ assms(3), of "pktgen_clr_port_flags i2 SEND_RANGE_PKTS"] i2
    by (auto simp: enable_range_def estate_off clr_port_flags_eq NUM_TOTAL_PKTS_def)
  then obtain a b where i3: "i3 = (pktgen_clr_port_flags i2 SEND_RANGE_PKTS)\<lparr>tx_pps := a, tx_cycles := b\<rparr>"
    using packet_rate_frame unfolding enable_range_def estate_off(2) [THEN eq_False [THEN iffD2]] by (metis (full_types) estate_off(2))
  obtain rb s2 m where rb: "pktgen_rnd_bits_init urandom s = (rb, s2, m)" by (metis prod_cases3)
  let ?i4 = "i3\<lparr>rnd_bitfields := Some rb\<rparr>"
  have "\<not> has_flag ((port_flags i AND NOT SEND_RANGE_PKTS) AND NOT SEND_SEQ_PKTS) SEND_PCAP_PKTS"
    using np no_feed_flags by blast
  then obtain i5 where 5: "pktgen_set_port_seqCnt fp txcnt 0 g2 ?i4 = Some i5"
    using rate_total [OF _ _ _ _ assms(3), of "pktgen_clr_port_flags (?i4\<lparr>seqCnt := 0\<rparr>) SEND_SEQ_PKTS"] i2
    by (auto simp: pktgen_set_port_seqCnt_def i3 clr_port_flags_eq NUM_TOTAL_PKTS_def)
  have "rnd_bitfields i3 \<noteq> None" using assms(2) i2 by (simp add: i3 clr_port_flags_eq can_reset_def)
  with 1 c 3 rb 5 show ?thesis by (simp add: reset_rest_def estate_off guard_def)
qed

lemma stop_total: "unat n \<le> length (q i) \<Longrightarrow> \<exists>i'. pktgen_stop_transmitting n i = Some i'"
  using all_q_flags_total [of "unat n" "pktgen_clr_port_flags i (SENDING_PACKETS OR SEND_FOREVER)" DO_TX_FLUSH]
  by (auto simp: pktgen_stop_transmitting_def clr_port_flags_eq)

lemma stop_can_reset:
  assumes "pktgen_stop_transmitting n i = Some i'" "can_reset sz i"
  shows "can_reset sz i'"
proof (cases "has_flag (port_flags i) SENDING_PACKETS")
  case True
  from stop_frame [OF assms(1) True] obtain qs where
    "i' = i\<lparr>q := qs, port_flags := port_flags i AND NOT (SENDING_PACKETS OR SEND_FOREVER)\<rparr>" by metis
  moreover have "\<not> has_flag (port_flags i) f \<Longrightarrow> \<not> has_flag (port_flags i AND NOT (SENDING_PACKETS OR SEND_FOREVER)) f" for f
    by (rule clr_clears(1))
  ultimately show ?thesis using assms(2) by (auto simp: can_reset_def no_gre_def simp del: bit.de_Morgan_disj)
next
  case False
  with assms show ?thesis by (simp add: pktgen_stop_transmitting_def)
qed


definition used_port :: port_info where
  "used_port = sample_port\<lparr>port_flags := SENDING_PACKETS OR SEND_RANGE_PKTS, seqCnt := 5, tx_burst := 7,
     transmit_count := 99, rnd_bitfields := Some \<lparr>active_specs = 1, specs = []\<rparr>\<rparr>"


end
