(* ===== verification/Dispatch.thy ===== *)
theory Dispatch
  imports CliText Reset Capture
begin

text \<open>
  The commands of the console (\<open>app/cli-functions.c\<close>): a line that was split into
  words is matched against the map of its command, its arguments are converted, and the port
  command is called on every port of the port list.

  The state is the program state, the array of ports, the screen, the capture zones and the
  generator of random numbers.  A variable that the code reads before it is set has an unknown
  value, which is a parameter (\<open>machine\<close>): the port list and the address of a text that is
  no such thing keep it.  So are the calls into DPDK, libpcap and Lua and what only prints.  None is
  undefined behaviour: a null pointer, an access outside an array, an argument that is not there
  (the array of arguments is not cleared, so the code reads a word of an earlier line or null).
\<close>

section \<open>State\<close>

record console =
  c_glob :: glob
  c_ports :: "port_info list"
  c_scrn :: scrn
  c_caps :: "capture list"
  c_rnd :: u64

text \<open>\<open>m_port\<close> is the call of a command on one port and \<open>m_call\<close> that of a command without ports
  that this development does not model, by the words of the line.\<close>

record machine =
  m_fp :: "rat \<Rightarrow> rat"
  m_strtod :: "string \<Rightarrow> rat"
  m_pton6 :: "string \<Rightarrow> u8 list option"
  m_txcnt :: "u16 \<Rightarrow> u64"
  m_rxcnt :: "u16 \<Rightarrow> nat"
  m_lids :: "u16 \<Rightarrow> (u16 \<times> u16 list) list"
  m_sock :: "u16 \<Rightarrow> nat"
  m_lim :: limits
  m_timer_hz :: u64
  m_dev :: "u16 \<Rightarrow> eth_stats"
  m_urandom :: "u64 option option"
  m_portlist :: portlist
  m_ip :: cmdline_ipaddr
  m_ip2 :: cmdline_ipaddr
  m_ip_local :: cmdline_ipaddr
  m_mac :: ether_addr
  m_mac2 :: ether_addr
  m_port :: "string list \<Rightarrow> nat \<Rightarrow> console \<Rightarrow> console option"
  m_call :: "string list \<Rightarrow> console \<Rightarrow> (int \<times> console) option"

section \<open>Ports and arguments\<close>

definition arg :: "string list \<Rightarrow> nat \<Rightarrow> string option" where
  "arg argv k = (if k < length argv then Some (argv ! k) else None)"

text \<open>\<open>foreach_port\<close>: \<open>view\<close> is the console in the state of the loop.\<close>

fun each_port :: "('s \<Rightarrow> console) \<Rightarrow> portlist \<Rightarrow> (nat \<Rightarrow> 's \<Rightarrow> 's option) \<Rightarrow> nat list \<Rightarrow> 's \<Rightarrow> 's option" where
  "each_port view pl act [] s = Some s"
| "each_port view pl act (p # ps) s =
     (if p \<ge> 64 then None
      else if \<not> bit pl p then each_port view pl act ps s
      else if p \<ge> length (c_ports (view s)) then None
      else if seq_pkt (c_ports (view s) ! p) = [] then each_port view pl act ps s
      else do { s \<leftarrow> act p s; each_port view pl act ps s })"

definition foreach_port :: "('s \<Rightarrow> console) \<Rightarrow> portlist \<Rightarrow> (nat \<Rightarrow> 's \<Rightarrow> 's option) \<Rightarrow> 's \<Rightarrow> 's option" where
  "foreach_port view pl act s = each_port view pl act [0..<unat (nb_ports (c_glob (view s)))] s"

definition on_port :: "port_cmd \<Rightarrow> nat \<Rightarrow> console \<Rightarrow> console option" where
  "on_port f p c =
     (if p < length (c_ports c) then do {
        (g, i) \<leftarrow> f (c_glob c) (c_ports c ! p);
        Some (c\<lparr>c_glob := g, c_ports := (c_ports c)[p := i]\<rparr>) }
      else None)"

definition ports_do :: "portlist \<Rightarrow> port_cmd \<Rightarrow> console \<Rightarrow> console option" where
  "ports_do pl f = foreach_port id pl (on_port f)"

text \<open>The forms of a port command.\<close>

definition plain :: "(port_info \<Rightarrow> port_info) \<Rightarrow> port_cmd" where "plain f g i = Some (g, f i)"
definition partial :: "(port_info \<Rightarrow> port_info option) \<Rightarrow> port_cmd" where "partial f g i = map_option (Pair g) (f i)"
definition reading :: "(glob \<Rightarrow> port_info \<Rightarrow> port_info option) \<Rightarrow> port_cmd" where "reading f g i = map_option (Pair g) (f g i)"
definition total :: "(glob \<Rightarrow> port_info \<Rightarrow> glob \<times> port_info) \<Rightarrow> port_cmd" where "total f g i = Some (f g i)"

definition and_then :: "port_cmd \<Rightarrow> port_cmd \<Rightarrow> port_cmd" where
  "and_then f h g i = do { (g, i) \<leftarrow> f g i; h g i }"

text \<open>A number or an address is converted when the command is called: a null pointer is read then.\<close>

definition with_int :: "string option \<Rightarrow> (u32 \<Rightarrow> port_cmd) \<Rightarrow> port_cmd" where
  "with_int s f g i = do { s \<leftarrow> s; v \<leftarrow> atoi32 s; f v g i }"

definition with_mac :: "string option \<Rightarrow> (ether_addr \<Rightarrow> port_cmd) \<Rightarrow> port_cmd" where
  "with_mac s f g i = do {
     s \<leftarrow> s;
     let (e, ok) = rte_ether_aton s (replicate 6 0);
     guard ok; f e g i }"

definition with_str :: "string option \<Rightarrow> (string \<Rightarrow> port_cmd) \<Rightarrow> port_cmd" where
  "with_str s f g i = do { s \<leftarrow> s; f s g i }"

definition valid_pkt_size :: "port_info \<Rightarrow> string \<Rightarrow> u16 option" where
  "valid_pkt_size i val = do {
     v \<leftarrow> atoi32 val;
     let sz = (ucast v :: u16);
     let sz = (if \<not> has_flag (port_flags i) SEND_SHORT_PACKETS \<and> sz < MIN_PKT_SIZE + FCS_SIZE
               then MIN_PKT_SIZE + FCS_SIZE else sz);
     let sz = (if sz > MAX_PKT_SIZE + FCS_SIZE then MAX_PKT_SIZE + FCS_SIZE else sz);
     Some sz }"

definition with_size :: "string option \<Rightarrow> (u16 \<Rightarrow> port_cmd) \<Rightarrow> port_cmd" where
  "with_size s f g i = do { s \<leftarrow> s; v \<leftarrow> valid_pkt_size i s; f v g i }"

definition cut_slash :: "string \<Rightarrow> string" where
  "cut_slash s = takeWhile (\<lambda>c. c \<noteq> CHR ''/'') s"

definition read_ip :: "machine \<Rightarrow> string \<Rightarrow> nat \<Rightarrow> cmdline_ipaddr \<Rightarrow> cmdline_ipaddr" where
  "read_ip m s fl ip = snd (rte_atoip (m_pton6 m) (m_ip_local m) s fl ip)"

text \<open>The end of a command: the display is updated and 0 is returned.\<close>

definition updated :: "console \<Rightarrow> int \<times> console" where
  "updated c = (0, c\<lparr>c_glob := pktgen_update_display (c_glob c)\<rparr>)"

definition on_screen :: "(glob \<Rightarrow> scrn \<Rightarrow> glob \<times> scrn) \<Rightarrow> console \<Rightarrow> console" where
  "on_screen f c = (let (g, s) = f (c_glob c) (c_scrn c) in c\<lparr>c_glob := g, c_scrn := s\<rparr>)"

text \<open>Every command first looks up its map; without an entry it prints an error and returns -1.\<close>

definition dispatch :: "cli_map list \<Rightarrow> (int \<Rightarrow> string \<Rightarrow> string list \<Rightarrow> console \<Rightarrow> (int \<times> console) option)
    \<Rightarrow> string list \<Rightarrow> console \<Rightarrow> (int \<times> console) option" where
  "dispatch maps run argv c = do {
     e \<leftarrow> cli_mapping maps argv;
     case e of None \<Rightarrow> Some (-1, c) | Some (n, fmt) \<Rightarrow> run n fmt argv c }"

text \<open>The address of a network: a prefix of 32 bits is added in a buffer of 32 characters.\<close>

definition read_net :: "machine \<Rightarrow> string \<Rightarrow> cmdline_ipaddr \<Rightarrow> cmdline_ipaddr" where
  "read_net m s ip =
     read_ip m (if CHR ''/'' \<in> set s then s else take 31 (s @ ''/32'')) (PG_IPADDR_V4 + PG_IPADDR_NETWORK) ip"

definition the_ports :: "machine \<Rightarrow> string list \<Rightarrow> nat \<Rightarrow> portlist option" where
  "the_ports m argv k = do { s \<leftarrow> arg argv k; Some (snd (rte_parse_portlist s (m_portlist m))) }"

section \<open>range\<close>

definition SMMI :: string where "SMMI = ''%|start|minimum|maximum|increment|min|max|inc''"

definition range_map :: "cli_map list" where
  "range_map =
    [(20, ''range %P dst mac '' @ SMMI @ '' %m''), (21, ''range %P src mac '' @ SMMI @ '' %m''),
     (22, ''range %P dst mac %m %m %m %m''), (23, ''range %P src mac %m %m %m %m''),
     (30, ''range %P dst ip '' @ SMMI @ '' %4''), (31, ''range %P src ip '' @ SMMI @ '' %4''),
     (32, ''range %P dst ip %4 %4 %4 %4''), (33, ''range %P src ip %4 %4 %4 %4''),
     (40, ''range %P proto %|tcp|udp''),
     (50, ''range %P dst port '' @ SMMI @ '' %d''), (51, ''range %P src port '' @ SMMI @ '' %d''),
     (52, ''range %P dst port %d %d %d %d''), (53, ''range %P src port %d %d %d %d''),
     (60, ''range %P vlan '' @ SMMI @ '' %d''), (61, ''range %P vlan %d %d %d %d''),
     (70, ''range %P size '' @ SMMI @ '' %d''), (71, ''range %P size %d %d %d %d''),
     (80, ''range %P mpls entry %h''), (85, ''range %P qinq index %d %d''), (90, ''range %P gre key %d''),
     (160, ''range %P cos '' @ SMMI @ '' %d''), (161, ''range %P cos %d %d %d %d''),
     (170, ''range %P tos '' @ SMMI @ '' %d''), (171, ''range %P tos %d %d %d %d'')]"

text \<open>The four values of an interval, given at once: start, minimum, maximum and increment.\<close>

definition four :: "(string \<Rightarrow> nat \<Rightarrow> port_cmd) \<Rightarrow> nat \<Rightarrow> port_cmd" where
  "four f k = and_then (f ''start'' k) (and_then (f ''min'' (k + 1)) (and_then (f ''max'' (k + 2)) (f ''inc'' (k + 3))))"

text \<open>The address keeps the value of the last conversion that succeeded, also from port to port.\<close>

definition four_ips :: "machine \<Rightarrow> (string \<Rightarrow> cmdline_ipaddr \<Rightarrow> port_cmd) \<Rightarrow> string list
    \<Rightarrow> nat \<Rightarrow> console \<times> cmdline_ipaddr \<Rightarrow> (console \<times> cmdline_ipaddr) option" where
  "four_ips m f argv p = (\<lambda>(c, ip). do {
     a \<leftarrow> arg argv 4; let ip = read_ip m a PG_IPADDR_V4 ip; c \<leftarrow> on_port (f ''start'' ip) p c;
     a \<leftarrow> arg argv 5; let ip = read_ip m a PG_IPADDR_V4 ip; c \<leftarrow> on_port (f ''min'' ip) p c;
     a \<leftarrow> arg argv 6; let ip = read_ip m a PG_IPADDR_V4 ip; c \<leftarrow> on_port (f ''max'' ip) p c;
     a \<leftarrow> arg argv 7; let ip = read_ip m a PG_IPADDR_V4 ip; c \<leftarrow> on_port (f ''inc'' ip) p c;
     Some (c, ip) })"

definition range_dst_ip :: "string \<Rightarrow> cmdline_ipaddr \<Rightarrow> port_cmd" where
  "range_dst_ip what ip = total (range_set_dst_ip what ip)"

definition range_src_ip :: "string \<Rightarrow> cmdline_ipaddr \<Rightarrow> port_cmd" where
  "range_src_ip what ip = total (range_set_src_ip what ip)"

text \<open>The numbers: what a command does on each port.\<close>

definition range_number :: "string list \<Rightarrow> int \<Rightarrow> port_cmd option" where
  "range_number argv n =
     (let a = arg argv; what = a 4; val = a 5;
          mac = (\<lambda>f w v. with_str w (\<lambda>w. with_mac v (\<lambda>e. partial (f w e))));
          num = (\<lambda>f w v. with_str w (\<lambda>w. with_int v (\<lambda>x. plain (f w x))));
          dport = (\<lambda>w x. range_set_dst_port w (ucast x)); sport = (\<lambda>w x. range_set_src_port w (ucast x));
          vlan = (\<lambda>w x. range_set_vlan_id w (ucast x)); cos = (\<lambda>w x. range_set_cos_id w (ucast x));
          tos = (\<lambda>w x. range_set_tos_id w (ucast x));
          sz = (\<lambda>w v. with_str w (\<lambda>w. with_size v (\<lambda>x. plain (range_set_pkt_size w x))))
      in map_of
        [(20, mac range_set_dest_mac what val), (21, mac range_set_src_mac what val),
         (22, four (\<lambda>w k. mac range_set_dest_mac (Some w) (a k)) 4),
         (23, four (\<lambda>w k. mac range_set_src_mac (Some w) (a k)) 4),
         (40, with_str (a 3) (\<lambda>s. partial (range_set_proto s))),
         (50, num dport what val), (51, num sport what val),
         (52, four (\<lambda>w k. num dport (Some w) (a k)) 4), (53, four (\<lambda>w k. num sport (Some w) (a k)) 4),
         (60, num vlan (a 3) what), (61, four (\<lambda>w k. num vlan (Some w) (a k)) 3),
         (70, sz (a 3) what), (71, four (\<lambda>w k. sz (Some w) (a k)) 3),
         (80, with_str what (\<lambda>s. range_set_mpls_entry (ucast (strtoul 16 s)))),
         (85, with_int what (\<lambda>x. with_int val (\<lambda>y. range_set_qinqids (ucast x) (ucast y)))),
         (90, with_str what (\<lambda>s. range_set_gre_key (ucast (strtoul 10 s)))),
         (160, num cos (a 3) what), (161, four (\<lambda>w k. num cos (Some w) (a k)) 3),
         (170, num tos (a 3) what), (171, four (\<lambda>w k. num tos (Some w) (a k)) 3)] n)"

text \<open>The addresses: the code looks for the slash in the word before the address.\<close>

definition run_range :: "machine \<Rightarrow> int \<Rightarrow> string \<Rightarrow> string list \<Rightarrow> console \<Rightarrow> (int \<times> console) option" where
  "run_range m n fmt argv c = do {
     pl \<leftarrow> the_ports m argv 1;
     if n = 30 \<or> n = 31 then do {
       w \<leftarrow> arg argv 4; v \<leftarrow> arg argv 5;
       let ip = read_ip m v PG_IPADDR_V4 (m_ip m);
       map_option updated (ports_do pl ((if n = 30 then range_dst_ip else range_src_ip) (cut_slash w) ip) c) }
     else if n = 32 \<or> n = 33 then
       map_option (\<lambda>(c, _). updated c)
         (foreach_port fst pl (four_ips m (if n = 32 then range_dst_ip else range_src_ip) argv) (c, m_ip m))
     else case range_number argv n of
       None \<Rightarrow> Some (-1, c)
     | Some f \<Rightarrow> map_option updated (ports_do pl f c) }"

definition range_cmd :: "machine \<Rightarrow> string list \<Rightarrow> console \<Rightarrow> (int \<times> console) option" where
  "range_cmd m = dispatch range_map (run_range m)"

section \<open>set\<close>

definition set_types :: string where
  "set_types = ''count|size|rate|burst|tx_cycles|sport|dport|seq_cnt|prime|dump|vlan|seqCnt|pps''"

definition set_map :: "cli_map list" where
  "set_map =
    [(10, ''set %P %|'' @ set_types @ '' %d''), (11, ''set %P jitter %D''),
     (20, ''set %P type %|arp|ipv4|ipv6|ip4|ip6|vlan''), (21, ''set %P proto %|udp|tcp|icmp''),
     (22, ''set %P src mac %m''), (23, ''set %P dst mac %m''), (24, ''set %P pattern %|abc|none|user|zero''),
     (25, ''set %P user pattern %s''), (30, ''set %P src ip %4''), (31, ''set %P dst ip %4''),
     (40, ''set ports_per_page %d''), (50, ''set %P qinqids %d %d''), (60, ''set %P rnd %d %d %s''),
     (70, ''set %P cos %d''), (80, ''set %P tos %d'')]"

text \<open>The number \<open>n\<close> of the type selects the command; the entry that was found has one of
  these types.  The transmit queues of a port are those of its identifier.\<close>

definition queued :: "machine \<Rightarrow> (u64 \<Rightarrow> port_cmd) \<Rightarrow> port_cmd" where
  "queued m f g i = f (m_txcnt m (pid i)) g i"

definition set_value :: "machine \<Rightarrow> string list \<Rightarrow> int \<Rightarrow> u32 \<Rightarrow> port_cmd option" where
  "set_value m argv n v =
     (let seqs = queued m (\<lambda>k. reading (pktgen_set_port_seqCnt (m_fp m) k v));
          field = with_str (arg argv 2) (\<lambda>w. case w of [] \<Rightarrow> single_set_port_value (char_of (0 :: nat)) v
            | h # _ \<Rightarrow> single_set_port_value h v)
      in map_of
        [(0, plain (single_set_tx_count v)), (1, with_size (arg argv 3) single_set_pkt_size),
         (2, with_str (arg argv 3) (\<lambda>s. queued m (\<lambda>k. reading (single_set_tx_rate (m_fp m) k (m_strtod m s))))),
         (3, plain (single_set_tx_burst v)), (4, plain (debug_set_tx_cycles v)), (5, field), (6, field), (7, seqs),
         (8, plain (pktgen_set_port_prime v)), (9, partial (debug_set_port_dump v)),
         (10, single_set_vlan_id (ucast v)), (11, seqs),
         (12, queued m (\<lambda>k. reading (pktgen_set_port_pps (m_fp m) k (scast v))))] n)"

definition set_field :: "machine \<Rightarrow> string list \<Rightarrow> int \<Rightarrow> port_cmd option" where
  "set_field m argv n =
     (let a = arg argv; num = (\<lambda>k f. with_str (a k) (\<lambda>s. f (word_of_int (strtol 0 s) :: u16)))
      in map_of
        [(11, with_str (a 3) (\<lambda>s. plain (single_set_jitter (m_timer_hz m) (strtoul 0 s)))),
         (20, with_str (a 3) single_set_pkt_type), (21, with_str (a 3) single_set_proto),
         (22, with_mac (a 4) single_set_src_mac), (23, with_mac (a 4) single_set_dst_mac),
         (24, with_str (a 3) (\<lambda>s. plain (pattern_set_type s))),
         (25, with_str (a 3) (\<lambda>s. partial (pattern_set_user_pattern s))),
         (30, with_str (a 4) (\<lambda>s. single_set_ipaddr (CHR ''s'') (read_net m s (m_ip m)))),
         (31, with_str (a 4) (\<lambda>s. single_set_ipaddr (CHR ''d'') (read_ip m (cut_slash s) PG_IPADDR_V4 (m_ip m)))),
         (50, num 3 (\<lambda>x. num 4 (\<lambda>y. single_set_qinqids x y))),
         (70, num 3 (\<lambda>x. single_set_cos (ucast x))), (80, num 3 (\<lambda>x. single_set_tos (ucast x)))] n)"

definition run_set :: "machine \<Rightarrow> int \<Rightarrow> string \<Rightarrow> string list \<Rightarrow> console \<Rightarrow> (int \<times> console) option" where
  "run_set m n fmt argv c = do {
     pl \<leftarrow> the_ports m argv 1;
     a2 \<leftarrow> arg argv 2;
     a3 \<leftarrow> arg argv 3;
     v \<leftarrow> atoi32 a3;
     if n = 40 then do { k \<leftarrow> atoi32 a2; Some (updated (on_screen (pktgen_set_page_size k) c)) }
     else do {
       f \<leftarrow> (if n = 10 then map_option (\<lambda>t. set_value m argv t v) (cli_map_list_search fmt a2 2)
            else Some (set_field m argv n));
       case f of None \<Rightarrow> Some (-1, c) | Some f \<Rightarrow> map_option updated (ports_do pl f c) } }"

definition set_cmd :: "machine \<Rightarrow> string list \<Rightarrow> console \<Rightarrow> (int \<times> console) option" where
  "set_cmd m = dispatch set_map (run_set m)"

section \<open>start and stop\<close>

definition start_map :: "cli_map list" where
  "start_map =
    [(10, ''start %P''), (20, ''stop %P''), (40, ''start %P prime''),
     (50, ''start %P arp %|request|gratuitous|req|grat'')]"

definition arp_kind :: "string list \<Rightarrow> u32 option" where
  "arp_kind argv = do { s \<leftarrow> arg argv 3; h \<leftarrow> char_at s 0; Some (if h = CHR ''g'' then GRATUITOUS_ARP else 0) }"

definition run_start :: "machine \<Rightarrow> int \<Rightarrow> string \<Rightarrow> string list \<Rightarrow> console \<Rightarrow> (int \<times> console) option" where
  "run_start m n fmt argv c = do {
     pl \<leftarrow> the_ports m argv 1;
     if n = 10 \<and> traffic_gen_as (c_glob c) = IL_TRAFFIC_RESP_AS_REF then Some (-1, c)
     else do {
       f \<leftarrow> (if n = 10 then Some (queued m (\<lambda>k. partial (pktgen_start_transmitting k)))
            else if n = 20 then Some (queued m (\<lambda>k. partial (pktgen_stop_transmitting k)))
            else if n = 40 then Some (queued m (\<lambda>k. partial (pktgen_prime_ports k)))
            else map_option (\<lambda>k. plain (pktgen_send_arp_requests k)) (arp_kind argv));
       map_option updated (ports_do pl f c) } }"

definition start_stop_cmd :: "machine \<Rightarrow> string list \<Rightarrow> console \<Rightarrow> (int \<times> console) option" where
  "start_stop_cmd m = dispatch start_map (run_start m)"

section \<open>enable and disable\<close>

definition ed_type :: string where
  "ed_type = ''process|mpls|qinq|gre|gre_eth|vlan|garp|random|latency|pcap|blink|rx_tap|tx_tap|icmp|range|capture|bonding|short''"

definition enable_map :: "cli_map list" where
  "enable_map =
    [(10, ''enable %P %|'' @ ed_type), (20, ''disable %P %|'' @ ed_type),
     (30, ''enable %|screen|mac_from_arp''), (31, ''disable %|screen|mac_from_arp'')]"

text \<open>\<open>pktgen_screen\<close>: the screen is paused, or resumed and drawn.\<close>

definition pktgen_screen :: "u32 \<Rightarrow> glob \<Rightarrow> scrn \<Rightarrow> glob \<times> scrn" where
  "pktgen_screen state g s =
     (if state = DISABLE_STATE then (g, s\<lparr>paused := True\<rparr>)
      else pktgen_force_update g (s\<lparr>paused := False\<rparr>))"

definition feature :: "machine \<Rightarrow> int \<Rightarrow> u32 \<Rightarrow> port_cmd option" where
  "feature m n v = map_of
     [(0, plain (enable_process v)), (1, enable_mpls v), (2, enable_qinq v), (3, enable_gre v), (4, enable_gre_eth v),
      (5, enable_vlan v), (6, plain (enable_garp v)), (7, plain (enable_random v)), (8, plain (enable_latency v)),
      (9, queued m (\<lambda>k. reading (enable_pcap (m_fp m) k v))), (10, debug_blink v), (13, plain (enable_icmp_echo v)),
      (14, queued m (\<lambda>k. reading (enable_range (m_fp m) k v))), (16, plain (enable_bonding v)),
      (17, plain (enable_short_pkts v))] n"

definition blink_flag :: "glob \<Rightarrow> glob" where
  "blink_flag g = (if blinklist g \<noteq> 0 then set_gflags g BLINK_PORTS_FLAG else clr_gflags g BLINK_PORTS_FLAG)"

definition capture_port :: "machine \<Rightarrow> u32 \<Rightarrow> nat \<Rightarrow> console \<Rightarrow> console option" where
  "capture_port m v p c =
     (if p < length (c_ports c) then do {
        let i = c_ports c ! p;
        (_, i, caps) \<leftarrow> pktgen_set_capture (m_lim m) (m_rxcnt m (pid i)) (m_lids m (pid i)) (m_sock m) (v = ENABLE_STATE) (i, c_caps c);
        Some (c\<lparr>c_ports := (c_ports c)[p := i], c_caps := caps\<rparr>) }
      else None)"

text \<open>The two halves of the command: a feature of the ports, and the screen or the MAC addresses.\<close>

definition run_feature :: "machine \<Rightarrow> portlist \<Rightarrow> u32 \<Rightarrow> int \<Rightarrow> string list \<Rightarrow> console \<Rightarrow> (int \<times> console) option" where
  "run_feature m pl v k argv c =
     (case feature m k v of
        Some f \<Rightarrow> do {
          c \<leftarrow> ports_do pl f c;
          Some (updated (if k = 10 then c\<lparr>c_glob := blink_flag (c_glob c)\<rparr> else c)) }
      | None \<Rightarrow>
          if k = 11 \<or> k = 12 then map_option updated (foreach_port id pl (m_port m argv) c)
          else if k = 15 then map_option updated (foreach_port id pl (capture_port m v) c)
          else Some (-1, c))"

definition run_screen :: "u32 \<Rightarrow> char \<Rightarrow> console \<Rightarrow> int \<times> console" where
  "run_screen v h c = updated (if h = CHR ''m'' then c\<lparr>c_glob := enable_mac_from_arp v (c_glob c)\<rparr>
     else on_screen (pktgen_screen v) c)"

definition run_enable :: "machine \<Rightarrow> int \<Rightarrow> string \<Rightarrow> string list \<Rightarrow> console \<Rightarrow> (int \<times> console) option" where
  "run_enable m n fmt argv c = do {
     pl \<leftarrow> the_ports m argv 1;
     a0 \<leftarrow> arg argv 0;
     a1 \<leftarrow> arg argv 1;
     if n = 10 \<or> n = 20 then do {
       a2 \<leftarrow> arg argv 2;
       k \<leftarrow> cli_map_list_search fmt a2 2;
       run_feature m pl (estate a0) k argv c }
     else map_option (\<lambda>h. run_screen (estate a0) h c) (char_at a1 0) }"

definition en_dis_cmd :: "machine \<Rightarrow> string list \<Rightarrow> console \<Rightarrow> (int \<times> console) option" where
  "en_dis_cmd m = dispatch enable_map (run_enable m)"

section \<open>sequence\<close>

definition seq_map :: "cli_map list" where
  "seq_map =
    [(10, ''%|seq|sequence %d %P %m %m %4 %4 %d %d %|ipv4|ipv6 %|udp|tcp|icmp %d %d''),
     (11, ''%|seq|sequence %d %P %m %m %4 %4 %d %d %|ipv4|ipv6 %|udp|tcp|icmp %d %d %d''),
     (12, ''%|seq|sequence %d %P dst %m src %m dst %4 src %4 sport %d dport %d %|ipv4|ipv6 %|udp|tcp|icmp vlan %d size %d''),
     (13, ''%|seq|sequence %d %P dst %m src %m dst %4 src %4 sport %d dport %d %|ipv4|ipv6 %|udp|tcp|icmp vlan %d size %d teid %d''),
     (15, ''%|seq|sequence %d %P cos %d tos %d'')]"

text \<open>The numbers of the template are converted for each port.\<close>

definition seq_port :: "u32 \<Rightarrow> seq_args \<Rightarrow> string option \<Rightarrow> string option \<Rightarrow> string option \<Rightarrow> string option \<Rightarrow> port_cmd" where
  "seq_port k a sp dp vl sz =
     with_int sp (\<lambda>sp. with_int dp (\<lambda>dp. with_int vl (\<lambda>vl. with_int sz (\<lambda>sz.
       pktgen_set_seq k (a\<lparr>a_sport := sp, a_dport := dp, a_vlanid := ucast vl, a_pktsize := sz\<rparr>)))))"

text \<open>The two forms of the command differ in the places of their arguments: those of the Ethernet
  type, the protocol, the addresses, the ports, the VLAN, the size and the TEID.\<close>

definition seq_places :: "machine \<Rightarrow> nat list \<Rightarrow> string list \<Rightarrow> console \<Rightarrow> console option" where
  "seq_places m ps argv c = do {
     proto \<leftarrow> arg argv (ps ! 1);
     eth \<leftarrow> arg argv (ps ! 0);
     s \<leftarrow> arg argv 1;
     k \<leftarrow> atoi32 s;
     p0 \<leftarrow> char_at proto 0;
     e3 \<leftarrow> char_at eth 3;
     if p0 = CHR ''i'' \<and> e3 = CHR ''6'' then Some c
     else if int NUM_SEQ_PKTS \<le> sint k then Some c
     else do {
       teid \<leftarrow> (if length argv = ps ! 10 + 1 then map_option (\<lambda>s. ucast (strtoul 10 s) :: u32) (arg argv (ps ! 10)) else Some 0);
       dip \<leftarrow> arg argv (ps ! 4);
       sip \<leftarrow> arg argv (ps ! 5);
       pl \<leftarrow> the_ports m argv 2;
       dmac \<leftarrow> arg argv (ps ! 2);
       smac \<leftarrow> arg argv (ps ! 3);
       let a = \<lparr>a_daddr = fst (rte_ether_aton dmac (m_mac m)), a_saddr = fst (rte_ether_aton smac (m_mac2 m)),
         a_ip_daddr = read_ip m (cut_slash dip) PG_IPADDR_V4 (m_ip m), a_ip_saddr = read_net m sip (m_ip2 m),
         a_sport = 0, a_dport = 0, a_type = e3, a_proto = p0, a_vlanid = 0, a_pktsize = 0, a_gtpu_teid = teid\<rparr>;
       c \<leftarrow> ports_do pl (seq_port k a (arg argv (ps ! 6)) (arg argv (ps ! 7)) (arg argv (ps ! 8)) (arg argv (ps ! 9))) c;
       Some (snd (updated c)) } }"

definition seq_1_set_cmd :: "machine \<Rightarrow> string list \<Rightarrow> console \<Rightarrow> console option" where
  "seq_1_set_cmd m = seq_places m [9, 10, 3, 4, 5, 6, 7, 8, 11, 12, 13]"

definition seq_2_set_cmd :: "machine \<Rightarrow> string list \<Rightarrow> console \<Rightarrow> console option" where
  "seq_2_set_cmd m = seq_places m [15, 16, 4, 6, 8, 10, 12, 14, 18, 20, 22]"

definition seq_3_set_cmd :: "machine \<Rightarrow> string list \<Rightarrow> console \<Rightarrow> console option" where
  "seq_3_set_cmd m argv c = do {
     s \<leftarrow> arg argv 1;
     k \<leftarrow> atoi32 s;
     if int NUM_SEQ_PKTS \<le> sint k then Some c
     else do {
       a4 \<leftarrow> arg argv 4;
       a6 \<leftarrow> arg argv 6;
       pl \<leftarrow> the_ports m argv 2;
       c \<leftarrow> ports_do pl (pktgen_set_cos_tos_seq k (ucast (strtoul 10 a4)) (ucast (strtoul 10 a6))) c;
       Some (snd (updated c)) } }"

definition run_seq :: "machine \<Rightarrow> int \<Rightarrow> string \<Rightarrow> string list \<Rightarrow> console \<Rightarrow> (int \<times> console) option" where
  "run_seq m n fmt argv c = map_option (Pair 0)
     ((if n = 10 \<or> n = 11 then seq_1_set_cmd else if n = 12 \<or> n = 13 then seq_2_set_cmd else seq_3_set_cmd) m argv c)"

definition seq_cmd :: "machine \<Rightarrow> string list \<Rightarrow> console \<Rightarrow> (int \<times> console) option" where
  "seq_cmd m = dispatch seq_map (run_seq m)"

section \<open>pcap, page, theme and debug commands\<close>

definition pcap_map :: "cli_map list" where
  "pcap_map = [(10, ''pcap index''), (20, ''pcap show''), (30, ''pcap filter %P %s'')]"

text \<open>\<open>pcap index\<close> reads the count of packets before it tests the pointer, and converts its own
  second word.\<close>

definition pcap_index :: "u32 \<Rightarrow> pcap_info \<Rightarrow> pcap_info" where
  "pcap_index v pc = pc\<lparr>pcap_pkt_idx :=
     (if v \<ge> pcap_pkt_count pc
      then pcap_pkt_count pc - word_of_int (min (sint PCAP_PAGE_SIZE) (sint (pcap_pkt_count pc))) else v)\<rparr>"

definition run_pcap :: "machine \<Rightarrow> int \<Rightarrow> string \<Rightarrow> string list \<Rightarrow> console \<Rightarrow> (int \<times> console) option" where
  "run_pcap m n fmt argv c = map_option updated (
     if n = 10 then do {
       let k = unat (portNum (c_glob c));
       guard (k < length (c_ports c) \<and> pcap (c_ports c ! k) \<noteq> None);
       s \<leftarrow> arg argv 1;
       ps \<leftarrow> on_pcap (pcap_index (ucast (strtoul 10 s))) (c_glob c) (c_ports c);
       Some (c\<lparr>c_glob := set_gflags (c_glob c) PRINT_LABELS_FLAG, c_ports := ps\<rparr>) }
     else if n = 20 then map_option snd (m_call m argv c)
     else do { pl \<leftarrow> the_ports m argv 2; foreach_port id pl (m_port m argv) c })"

definition pcap_cmd :: "machine \<Rightarrow> string list \<Rightarrow> console \<Rightarrow> (int \<times> console) option" where
  "pcap_cmd m = dispatch pcap_map (run_pcap m)"

definition page_map :: "cli_map list" where
  "page_map = [(10, ''page %d''), (11, ''page %|main|range|config|cfg|pcap|cpu|next|sequence|seq|rnd|log|latency|stats'')]"

definition run_page :: "int \<Rightarrow> string \<Rightarrow> string list \<Rightarrow> console \<Rightarrow> (int \<times> console) option" where
  "run_page n fmt argv c = do {
     s \<leftarrow> arg argv 1;
     (g, ps, sc) \<leftarrow> pktgen_set_page (Some s) (c_glob c) (c_ports c) (c_scrn c);
     Some (0, c\<lparr>c_glob := g, c_ports := ps, c_scrn := sc\<rparr>) }"

definition page_cmd :: "string list \<Rightarrow> console \<Rightarrow> (int \<times> console) option" where
  "page_cmd = dispatch page_map run_page"

definition theme_map :: "cli_map list" where
  "theme_map = [(0, ''theme''), (10, ''theme %|on|off''), (20, ''theme %s %s %s %s''), (30, ''theme save'')]"

definition run_theme :: "machine \<Rightarrow> int \<Rightarrow> string \<Rightarrow> string list \<Rightarrow> console \<Rightarrow> (int \<times> console) option" where
  "run_theme m n fmt argv c =
     (if n = 10 then do { (_, c) \<leftarrow> m_call m argv c; Some (0, on_screen pktgen_clear_display c) }
      else if n = 30 then do { s \<leftarrow> arg argv 2; (_, c) \<leftarrow> m_call m argv c; Some (0, c) }
      else do { (_, c) \<leftarrow> m_call m argv c; Some (0, c) })"

definition theme_cmd :: "machine \<Rightarrow> string list \<Rightarrow> console \<Rightarrow> (int \<times> console) option" where
  "theme_cmd m = dispatch theme_map (run_theme m)"

definition dbg_map :: "cli_map list" where
  "dbg_map =
    [(10, ''dbg l2p''), (20, ''dbg tx_dbg''), (30, ''dbg %|mempool|dump %P %s''), (40, ''dbg pdump %P''),
     (50, ''dbg memzone''), (51, ''dbg memseg''), (60, ''dbg hexdump %H %d''), (61, ''dbg hexdump %H''), (80, ''dbg break'')]"

definition TX_DEBUG_FLAG :: u32 where "TX_DEBUG_FLAG = 0x00000080"

definition run_dbg :: "machine \<Rightarrow> int \<Rightarrow> string \<Rightarrow> string list \<Rightarrow> console \<Rightarrow> (int \<times> console) option" where
  "run_dbg m n fmt argv c =
     (if n = 20 then
        let g = (if \<not> has_flag (flags (c_glob c)) TX_DEBUG_FLAG then set_gflags (c_glob c) TX_DEBUG_FLAG
                 else clr_gflags (c_glob c) TX_DEBUG_FLAG)
        in Some (0, on_screen pktgen_clear_display (c\<lparr>c_glob := g\<rparr>))
      else if n = 30 \<or> n = 40 then do {
        pl \<leftarrow> the_ports m argv 2;
        c \<leftarrow> foreach_port id pl (m_port m argv) c;
        Some (if n = 40 then updated c else (0, c)) }
      else do { (_, c) \<leftarrow> m_call m argv c; Some (0, c) })"

definition dbg_cmd :: "machine \<Rightarrow> string list \<Rightarrow> console \<Rightarrow> (int \<times> console) option" where
  "dbg_cmd m = dispatch dbg_map (run_dbg m)"

section \<open>Other commands\<close>

definition misc_map :: "cli_map list" where
  "misc_map =
    [(10, ''clear %P stats''), (20, ''geometry %s''), (21, ''geometry''), (30, ''load %s''), (40, ''script %l''),
     (50, ''lua %l''), (60, ''save %s''), (70, ''redisplay''), (100, ''reset %P''), (110, ''restart''),
     (130, ''port %d''), (135, ''ports per page %d''), (140, ''ping4 %P'')]"

definition clear_port :: "machine \<Rightarrow> port_cmd" where
  "clear_port m g i = Some (pktgen_clear_stats (m_dev m (pid i)) g i)"

definition reset_port :: "machine \<Rightarrow> nat \<Rightarrow> console \<Rightarrow> console option" where
  "reset_port m p c = do {
     guard (p < length (c_ports c));
     let k = pid (c_ports c ! p);
     (g, ps, s) \<leftarrow> pktgen_reset (m_fp m) (m_txcnt m k) (m_dev m k) (m_urandom m) p (c_glob c, c_ports c, c_rnd c);
     Some (c\<lparr>c_glob := g, c_ports := ps, c_rnd := s\<rparr>) }"

definition run_misc :: "machine \<Rightarrow> int \<Rightarrow> string \<Rightarrow> string list \<Rightarrow> console \<Rightarrow> (int \<times> console) option" where
  "run_misc m n fmt argv c =
     (if n = 10 then do {
        pl \<leftarrow> the_ports m argv 1;
        c \<leftarrow> ports_do pl (clear_port m) c;
        Some (0, on_screen pktgen_clear_display c) }
      else if n = 20 then do {
        s \<leftarrow> arg argv 1;
        if CHR ''x'' \<in> set s
        then do { (_, c) \<leftarrow> m_call m argv c; Some (0, on_screen pktgen_clear_display c) }
        else Some (-1, c) }
      else if n = 30 then do {
        (_, c) \<leftarrow> m_call m argv c;
        Some (0, if paused (c_scrn c) then c else on_screen pktgen_force_update c) }
      else if n = 70 then Some (0, on_screen pktgen_clear_display c)
      else if n = 100 then do { pl \<leftarrow> the_ports m argv 1; c \<leftarrow> foreach_port id pl (reset_port m) c; Some (0, c) }
      else if n = 110 then do { pl \<leftarrow> the_ports m argv 1; c \<leftarrow> foreach_port id pl (m_port m argv) c; Some (0, c) }
      else if n = 130 then do {
        s \<leftarrow> arg argv 1;
        k \<leftarrow> atoi32 s;
        Some (0, on_screen (pktgen_set_port_number k) c) }
      else if n = 140 then do {
        pl \<leftarrow> the_ports m argv 1;
        c \<leftarrow> ports_do pl pktgen_ping4 c;
        Some (0, on_screen pktgen_force_update c) }
      else if n = 135 then Some (-1, c)
      else do { (_, c) \<leftarrow> m_call m argv c; Some (0, c) })"

definition misc_cmd :: "machine \<Rightarrow> string list \<Rightarrow> console \<Rightarrow> (int \<times> console) option" where
  "misc_cmd m = dispatch misc_map (run_misc m)"

section \<open>The commands by name\<close>

text \<open>\<open>default_tree\<close>: the commands, and the aliases with what they stand for.\<close>

definition commands :: "machine \<Rightarrow> (string list \<times> (string list \<Rightarrow> console \<Rightarrow> (int \<times> console) option)) list" where
  "commands m =
    [([''clear'', ''geometry'', ''load'', ''script'', ''lua'', ''save'', ''redisplay'', ''reset'', ''restart'', ''port'', ''ping4''], misc_cmd m),
     ([''sequence''], seq_cmd m), ([''page''], page_cmd), ([''theme''], theme_cmd m), ([''range''], range_cmd m),
     ([''enable'', ''disable''], en_dis_cmd m), ([''start'', ''stop''], start_stop_cmd m), ([''pcap''], pcap_cmd m),
     ([''set''], set_cmd m), ([''dbg''], dbg_cmd m)]"

definition aliases :: "(string \<times> string) list" where
  "aliases =
    [(''clr'', ''clear all stats''), (''geom'', ''geometry''), (''cls'', ''redisplay''), (''rst'', ''reset all''),
     (''seq'', ''sequence''), (''str'', ''start all''), (''stp'', ''stop all''), (''on'', ''enable screen''), (''off'', ''disable screen'')]"

definition find_command :: "machine \<Rightarrow> string \<Rightarrow> (string list \<Rightarrow> console \<Rightarrow> (int \<times> console) option) option" where
  "find_command m w = map_option snd (List.find (\<lambda>(ns, f). w \<in> set ns) (commands m))"

end
