(* ===== verification/Console.thy ===== *)
theory Console
  imports Dispatch
begin

text \<open>
  What the commands of the console keep and change: every command line leaves every port in the
  invariant of \<open>PortInv\<close>, and a command with a port list changes only the listed ports.
\<close>

section \<open>The invariant of the console\<close>

text \<open>A port without templates is not configured.\<close>

definition port_ok :: "nat \<Rightarrow> port_info \<Rightarrow> bool" where
  "port_ok sz i \<longleftrightarrow> seq_pkt i = [] \<or> port_inv sz i"

definition console_inv :: "nat \<Rightarrow> console \<Rightarrow> bool" where
  "console_inv sz c \<longleftrightarrow> list_all (port_ok sz) (c_ports c)"

text \<open>What is asked of the commands that are parameters, and of the unknown values.\<close>

definition machine_ok :: "nat \<Rightarrow> machine \<Rightarrow> bool" where
  "machine_ok sz m \<longleftrightarrow> ip_arg (m_ip m) \<and> ip_arg (m_ip2 m) \<and> ip_arg (m_ip_local m)
     \<and> length (m_mac m) = 6 \<and> length (m_mac2 m) = 6
     \<and> (\<forall>argv p c c'. m_port m argv p c = Some c' \<longrightarrow> console_inv sz c \<longrightarrow> console_inv sz c')
     \<and> (\<forall>argv c r c'. m_call m argv c = Some (r, c') \<longrightarrow> console_inv sz c \<longrightarrow> console_inv sz c')"

text \<open>A command on one port keeps the invariant.\<close>

definition port_keeps :: "nat \<Rightarrow> port_cmd \<Rightarrow> bool" where
  "port_keeps sz f \<longleftrightarrow> (\<forall>g i g' i'. f g i = Some (g', i') \<longrightarrow> port_inv sz i \<longrightarrow> port_inv sz i')"

named_theorems keeps_intro "commands that keep the invariant of a port"

lemma keepsD: "port_keeps sz f \<Longrightarrow> f g i = Some (g', i') \<Longrightarrow> port_inv sz i \<Longrightarrow> port_inv sz i'"
  by (auto simp: port_keeps_def)

lemma keeps_forms [keeps_intro]:
  "(\<And>i. port_inv sz i \<Longrightarrow> port_inv sz (f1 i)) \<Longrightarrow> port_keeps sz (plain f1)"
  "(\<And>i i'. f2 i = Some i' \<Longrightarrow> port_inv sz i \<Longrightarrow> port_inv sz i') \<Longrightarrow> port_keeps sz (partial f2)"
  "(\<And>g i i'. f3 g i = Some i' \<Longrightarrow> port_inv sz i \<Longrightarrow> port_inv sz i') \<Longrightarrow> port_keeps sz (reading f3)"
  "(\<And>g i g' i'. f4 g i = (g', i') \<Longrightarrow> port_inv sz i \<Longrightarrow> port_inv sz i') \<Longrightarrow> port_keeps sz (total f4)"
  by (auto simp: port_keeps_def plain_def partial_def reading_def total_def)

lemma keeps_and_then [keeps_intro]: "port_keeps sz f \<Longrightarrow> port_keeps sz h \<Longrightarrow> port_keeps sz (and_then f h)"
  unfolding port_keeps_def and_then_def by (fastforce simp: bind_eq_Some_iff)

lemma keeps_with [keeps_intro]:
  "(\<And>v. port_keeps sz (fi v)) \<Longrightarrow> port_keeps sz (with_int s fi)"
  "(\<And>s. port_keeps sz (fs s)) \<Longrightarrow> port_keeps sz (with_str s fs)"
  "(\<And>v. port_keeps sz (fz v)) \<Longrightarrow> port_keeps sz (with_size s fz)"
  "(\<And>k. port_keeps sz (fq k)) \<Longrightarrow> port_keeps sz (queued m fq)"
  unfolding port_keeps_def with_int_def with_str_def with_size_def queued_def by (fastforce simp: bind_eq_Some_iff)+

lemma aton_length: "length (fst (rte_ether_aton s e)) = length e"
proof -
  have b: "length (fst (store_bytes n os e)) = length e" for n os e
    by (induction n arbitrary: e) auto
  have p: "length (fst (store_pairs n os e)) = length e" for n os e
    by (induction n arbitrary: e) auto
  show ?thesis by (simp add: rte_ether_aton_def b p split: option.split prod.split)
qed

lemma keeps_with_mac [keeps_intro]:
  assumes "\<And>e. length e = 6 \<Longrightarrow> port_keeps sz (f e)"
  shows "port_keeps sz (with_mac s f)"
proof -
  have "port_inv sz i'" if w: "with_mac s f g i = Some (g', i')" and i: "port_inv sz i" for g i g' i'
  proof -
    obtain t where t: "s = Some t" using w by (cases s) (auto simp: with_mac_def)
    obtain e ok where e: "rte_ether_aton t (replicate 6 0) = (e, ok)" by force
    have "f e g i = Some (g', i')"
      using w by (auto simp: with_mac_def t e bind_eq_Some_iff guard_def split: if_splits)
    with e show ?thesis using assms [of e] aton_length [of t "replicate 6 0"] i by (auto simp: port_keeps_def)
  qed
  then show ?thesis by (auto simp: port_keeps_def)
qed

text \<open>The groups of port commands.\<close>

lemma keeps_value:
  assumes "f \<in> set [single_set_tx_count v, single_set_tx_burst v, debug_set_tx_cycles v,
      pktgen_set_port_prime v, single_set_jitter thz v64, pattern_set_type str]"
  shows "port_keeps sz (plain f)"
  by (rule keeps_forms(1), rule inv_value [OF assms])

lemma keeps_option:
  assumes "f \<in> set [enable_icmp_echo on, enable_random on, enable_process on, enable_bonding on,
      enable_short_pkts on, enable_garp on, enable_latency on, pktgen_send_arp_requests on]"
  shows "port_keeps sz (plain f)"
  by (rule keeps_forms(1), rule inv_option [OF assms])

lemma keeps_range_value:
  assumes "f \<in> set [range_set_src_port str h, range_set_dst_port str h, range_set_vlan_id str h,
      range_set_tos_id str b, range_set_cos_id str b, range_set_pkt_size str h]"
  shows "port_keeps sz (plain f)"
  by (rule keeps_forms(1), rule inv_range_plain [OF assms])

lemma keeps_traffic:
  assumes "f \<in> set [pktgen_start_transmitting n, pktgen_stop_transmitting n, pktgen_prime_ports n,
      debug_set_port_dump v, pattern_set_user_pattern str]"
  shows "port_keeps sz (partial f)"
  by (rule keeps_forms(2), rule inv_traffic [OF assms])

lemma keeps_feed:
  assumes "f \<in> set [single_set_tx_rate fp n rate, enable_pcap fp n v, enable_range fp n v,
      pktgen_set_port_seqCnt fp n v, pktgen_set_port_pps fp n v64]"
  shows "port_keeps sz (reading f)"
  by (rule keeps_forms(3), rule inv_feed [OF assms])

lemma keeps_tags:
  assumes "f \<in> set [enable_vlan v, enable_mpls v, enable_qinq v, enable_gre v, enable_gre_eth v]"
  shows "port_keeps sz f"
  unfolding port_keeps_def using inv_tags [OF assms] by blast

lemma keeps_single:
  assumes "f \<in> set [single_set_proto str, single_set_pkt_type str, single_set_vlan_id h,
      single_set_cos b, single_set_tos b, range_set_mpls_entry v, single_set_qinqids h h',
      range_set_gre_key v, single_set_pkt_size h, single_set_port_value c v,
      range_set_qinqids h h', pktgen_ping4, pktgen_set_cos_tos_seq v v' v'',
      pktgen_add_cos_tos v v' v'']"
  shows "port_keeps sz f"
  unfolding port_keeps_def using inv_single [OF assms] by blast

lemma keeps_range_pkt:
  assumes "f \<in> set [range_set_proto str, range_set_pkt_type str, range_set_gtpu_teid str v]"
  shows "port_keeps sz (partial f)"
  by (rule keeps_forms(2), rule inv_range_pkt [OF assms])

lemma keeps_mac:
  assumes "length e = 6" "f \<in> set [single_set_dst_mac e, single_set_src_mac e]"
  shows "port_keeps sz f"
  unfolding port_keeps_def using inv_single_mac [OF assms] by blast

lemma keeps_range_mac:
  assumes "length e = 6" "f \<in> set [range_set_dest_mac s e, range_set_src_mac s e]"
  shows "port_keeps sz (partial f)"
  by (rule keeps_forms(2), rule inv_range_mac [OF assms])

lemma keeps_range_ip:
  assumes "f \<in> set [range_set_src_ip s ip, range_set_dst_ip s ip]"
  shows "port_keeps sz (total f)"
  by (rule keeps_forms(4), rule inv_range_ip [OF assms])

lemma keeps_macs [keeps_intro]:
  "length e = 6 \<Longrightarrow> port_keeps sz (single_set_dst_mac e)" "length e = 6 \<Longrightarrow> port_keeps sz (single_set_src_mac e)"
  by (rule keeps_mac, assumption, simp)+

lemma keeps_range_macs [keeps_intro]:
  "length e = 6 \<Longrightarrow> port_keeps sz (partial (range_set_dest_mac s e))"
  "length e = 6 \<Longrightarrow> port_keeps sz (partial (range_set_src_mac s e))"
  by (rule keeps_range_mac, assumption, auto)+

lemma keeps_ips [keeps_intro]:
  "port_keeps sz (single_set_ipaddr ch ip)" "port_keeps sz (range_dst_ip s ip)" "port_keeps sz (range_src_ip s ip)"
  unfolding range_dst_ip_def range_src_ip_def
  by (simp add: port_keeps_def, blast intro: inv_single_ip) (rule keeps_range_ip, auto)+

lemma keeps_blink [keeps_intro]: "port_keeps sz (debug_blink v)"
  by (auto simp: port_keeps_def debug_blink_def Let_def split: if_splits)

lemma keeps_clear [keeps_intro]: "port_keeps sz (clear_port m)"
  by (auto simp: port_keeps_def clear_port_def pktgen_clear_stats_def port_inv_defs)

lemma keeps_values [keeps_intro]:
  "port_keeps sz (plain (single_set_tx_count v))" "port_keeps sz (plain (single_set_tx_burst v))"
  "port_keeps sz (plain (debug_set_tx_cycles v))" "port_keeps sz (plain (pktgen_set_port_prime v))"
  "port_keeps sz (plain (single_set_jitter thz v64))" "port_keeps sz (plain (pattern_set_type str))"
  by (rule keeps_value, auto)+

lemma keeps_options [keeps_intro]:
  "port_keeps sz (plain (enable_icmp_echo v))" "port_keeps sz (plain (enable_random v))"
  "port_keeps sz (plain (enable_process v))" "port_keeps sz (plain (enable_bonding v))"
  "port_keeps sz (plain (enable_short_pkts v))" "port_keeps sz (plain (enable_garp v))"
  "port_keeps sz (plain (enable_latency v))" "port_keeps sz (plain (pktgen_send_arp_requests v))"
  by (rule keeps_option, auto)+

lemma keeps_range_values [keeps_intro]:
  "port_keeps sz (plain (range_set_src_port str h))" "port_keeps sz (plain (range_set_dst_port str h))"
  "port_keeps sz (plain (range_set_vlan_id str h))" "port_keeps sz (plain (range_set_tos_id str b))"
  "port_keeps sz (plain (range_set_cos_id str b))" "port_keeps sz (plain (range_set_pkt_size str h))"
  by (rule keeps_range_value, auto)+

lemma keeps_traffics [keeps_intro]:
  "port_keeps sz (partial (pktgen_start_transmitting n))" "port_keeps sz (partial (pktgen_stop_transmitting n))"
  "port_keeps sz (partial (pktgen_prime_ports n))" "port_keeps sz (partial (debug_set_port_dump v))"
  "port_keeps sz (partial (pattern_set_user_pattern str))"
  by (rule keeps_traffic, auto)+

lemma keeps_feeds [keeps_intro]:
  "port_keeps sz (reading (single_set_tx_rate fp n rate))" "port_keeps sz (reading (enable_pcap fp n v))"
  "port_keeps sz (reading (enable_range fp n v))" "port_keeps sz (reading (pktgen_set_port_seqCnt fp n v))"
  "port_keeps sz (reading (pktgen_set_port_pps fp n v64))"
  by (rule keeps_feed, auto)+

lemma keeps_tag_cmds [keeps_intro]:
  "port_keeps sz (enable_vlan v)" "port_keeps sz (enable_mpls v)" "port_keeps sz (enable_qinq v)"
  "port_keeps sz (enable_gre v)" "port_keeps sz (enable_gre_eth v)"
  by (rule keeps_tags, auto)+

lemma keeps_singles [keeps_intro]:
  "port_keeps sz (single_set_proto str)" "port_keeps sz (single_set_pkt_type str)" "port_keeps sz (single_set_vlan_id h)"
  "port_keeps sz (single_set_cos b)" "port_keeps sz (single_set_tos b)" "port_keeps sz (range_set_mpls_entry v)"
  "port_keeps sz (single_set_qinqids h h')" "port_keeps sz (range_set_gre_key v)" "port_keeps sz (single_set_pkt_size h)"
  "port_keeps sz (single_set_port_value ch v)" "port_keeps sz (range_set_qinqids h h')" "port_keeps sz pktgen_ping4"
  "port_keeps sz (pktgen_set_cos_tos_seq v v' v'')"
  by (rule keeps_single, auto)+

lemma keeps_range_pkts [keeps_intro]: "port_keeps sz (partial (range_set_proto str))"
  by (rule keeps_range_pkt, auto)

lemma keeps_four [keeps_intro]: "(\<And>w k. port_keeps sz (f w k)) \<Longrightarrow> port_keeps sz (four f k)"
  by (auto simp: four_def intro!: keeps_and_then)

section \<open>The tables of commands\<close>

lemma range_number_keeps: "range_number argv n = Some f \<Longrightarrow> port_keeps sz f"
  by (auto simp: range_number_def Let_def split: if_splits intro!: keeps_intro)

lemma set_value_keeps: "set_value m argv n v = Some f \<Longrightarrow> port_keeps sz f"
  by (auto simp: set_value_def Let_def split: if_splits list.splits intro!: keeps_intro)

lemma set_field_keeps: "set_field m argv n = Some f \<Longrightarrow> port_keeps sz f"
  by (auto simp: set_field_def Let_def split: if_splits intro!: keeps_intro)

lemma feature_keeps: "feature m n v = Some f \<Longrightarrow> port_keeps sz f"
  by (auto simp: feature_def split: if_splits intro!: keeps_intro)

section \<open>Reset\<close>

lemma port_ok_wf: "port_ok sz i \<Longrightarrow> seq_pkt i = [] \<or> wf_port sz i"
  by (auto simp: port_ok_def port_inv_def)

lemma list_all_upd: "list_all P xs \<Longrightarrow> P x \<Longrightarrow> list_all P (xs[k := x])"
  by (cases "k < length xs") (auto simp: list_all_length nth_list_update list_update_beyond)

lemma defaults_keep:
  assumes d: "pktgen_port_defaults fp txcnt p sq (g, ports) = Some (g', ports')" and ok: "list_all (port_ok sz) ports"
  shows "list_all (port_ok sz) ports'"
proof -
  have k: "unat p < length ports" using d by (auto simp: pktgen_port_defaults_def Let_def split: if_splits)
  from defaults_parts [OF d k] obtain i1 i2 i3 mac i4 i5 g1 where
    1: "upd_pkt sq default_pkt (ports ! unat p) = Some i1" and 2: "pktgen_packet_rate fp txcnt g (default_port i1) = Some i2"
    and 3: "upd_pkt sq (default_ips p) i2 = Some i3" and n: "unat (neighbour p) < length ports"
    and m: "default_mac (ports ! unat (neighbour p)) = Some mac"
    and 4: "upd_pkt sq (\<lambda>t. t\<lparr>eth_dst_addr := mac\<rparr>) i3 = Some i4"
    and 5: "rebuild sq (- 1) g i4 = Some (g1, i5)" and p': "ports' = ports[unat p := i5]" .
  have "seq_pkt (ports ! unat p) \<noteq> []" using 1 by (auto simp: upd_pkt_Some)
  then have i: "port_inv sz (ports ! unat p)" using ok k by (auto simp: list_all_length port_ok_def)
  have "port_inv sz i1"
    by (rule inv_upd_pkt [OF 1 i]) (simp_all add: default_pkt_fields(2) default_pkt_def size_consts)
  then have "port_inv sz (default_port i1)"
    by (simp add: port_inv_defs default_port_def default_consts MAX_PRIME_COUNT_def)
  then have "port_inv sz i2" by (rule inv_rate [OF 2])
  then have "port_inv sz i3"
    by (rule inv_upd_pkt [OF 3]) (simp_all add: default_pkt_fields(3), simp add: default_ips_def)
  moreover have "length mac = 6"
    by (rule default_mac_length [OF m]) (use ok n port_ok_wf in \<open>auto simp: list_all_length\<close>)
  ultimately have "port_inv sz i4"
    by (intro inv_upd_pkt [OF 4]) (simp_all add: default_pkt_fields(4))
  then have "port_inv sz i5" by (rule inv_rebuild [OF 5])
  then show ?thesis unfolding p' using ok by (intro list_all_upd) (simp_all add: port_ok_def)
qed

lemma all_defaults_keep:
  "all_defaults fp txcnt p n (g, ports) = Some (g', ports') \<Longrightarrow> list_all (port_ok sz) ports \<Longrightarrow> list_all (port_ok sz) ports'"
proof (induction n arbitrary: g' ports')
  case (Suc n)
  then obtain g1 ports1 where "all_defaults fp txcnt p n (g, ports) = Some (g1, ports1)"
    "pktgen_port_defaults fp txcnt p n (g1, ports1) = Some (g', ports')" by (auto simp: bind_eq_Some_iff)
  then show ?case using Suc defaults_keep by blast
qed simp

lemma reset_rest_keep:
  assumes "reset_rest fp txcnt dev urandom g i s = Some (g', i', s')" "port_inv sz i"
  shows "port_inv sz i'"
proof -
  obtain i1 a b rb where 1: "pktgen_range_setup i = Some i1"
    and i': "i' = (snd (pktgen_clear_stats dev g i1))\<lparr>port_flags := (port_flags i1 AND NOT SEND_RANGE_PKTS) AND NOT SEND_SEQ_PKTS,
      tx_pps := a, tx_cycles := b, rnd_bitfields := Some rb, seqCnt := 0\<rparr>"
    using reset_rest_frame [OF assms(1)] by metis
  let ?p = "(seq_pkt i ! RANGE_PKT)\<lparr>pktSize := MIN_PKT_SIZE\<rparr>"
  obtain r where i1: "i1 = i\<lparr>range := r, seq_pkt := (seq_pkt i)[RANGE_PKT := ?p]\<rparr>" and r: "inc_ok r"
    using range_setup_frame [OF 1] by metis
  have len: "RANGE_PKT < length (seq_pkt i)" using assms(2) by (simp add: port_inv_defs)
  then have "wf_pkt sz (seq_pkt i ! RANGE_PKT)" using assms(2) by (simp add: port_inv_defs list_all_length)
  then have "port_inv sz (i\<lparr>seq_pkt := (seq_pkt i)[RANGE_PKT := ?p]\<rparr>)"
    by (intro inv_pkt [OF assms(2) len]) (simp_all add: wf_pkt_def)
  with r show ?thesis
    by (simp add: i' i1 pktgen_clear_stats_def port_inv_defs at_most_one_clr)
qed

lemma reset_keep:
  assumes "reset_port m p c = Some c'" "console_inv sz c"
  shows "console_inv sz c'"
proof -
  let ?k = "pid (c_ports c ! p)" and ?ps = "c_ports c"
  obtain g ps s where r: "pktgen_reset (m_fp m) (m_txcnt m ?k) (m_dev m ?k) (m_urandom m) p (c_glob c, ?ps, c_rnd c) = Some (g, ps, s)"
    and c': "c' = c\<lparr>c_glob := g, c_ports := ps, c_rnd := s\<rparr>" and p: "p < length ?ps"
    using assms(1) by (auto simp: reset_port_def Let_def bind_eq_Some_iff guard_def split: if_splits)
  have ok: "list_all (port_ok sz) ?ps" using assms(2) by (simp add: console_inv_def)
  obtain i where i: "pktgen_stop_transmitting (m_txcnt m ?k) (?ps ! p) = Some i"
    using r p by (auto simp: pktgen_reset_def bind_eq_Some_iff)
  have seq: "seq_pkt i = seq_pkt (?ps ! p)"
    using i stop_frame by (cases "has_flag (port_flags (?ps ! p)) SENDING_PACKETS") (fastforce simp: pktgen_stop_transmitting_def)+
  have "port_ok sz (?ps ! p)" using ok p by (simp add: list_all_length)
  then have iok: "port_ok sz i" using i seq keepsD [OF keeps_traffics(2), of "m_txcnt m ?k" _ "?ps ! p" _ i]
    by (auto simp: port_ok_def partial_def)
  show ?thesis
  proof (cases "seq_pkt i = []")
    case True
    then show ?thesis using r p i iok ok
      by (auto simp: pktgen_reset_def Let_def c' console_inv_def intro!: list_all_upd)
  next
    case False
    then have "port_inv sz i" using iok by (simp add: port_ok_def)
    obtain i1 g1 ps1 g2 i2 s2 where 1: "upd_pkt SINGLE_PKT (\<lambda>p. p\<lparr>pktSize := MIN_PKT_SIZE\<rparr>) i = Some i1"
      and 2: "all_defaults (m_fp m) (m_txcnt m ?k) (ucast (pid i1)) NUM_TOTAL_PKTS (clr_gflags (c_glob c) MAC_FROM_ARP_FLAG, ?ps[p := i1]) = Some (g1, ps1)"
      and 3: "reset_rest (m_fp m) (m_txcnt m ?k) (m_dev m ?k) (m_urandom m) g1 (ps1 ! p) (c_rnd c) = Some (g2, i2, s2)"
      and ps: "ps = ps1[p := i2]"
      using r p i False by (auto simp: pktgen_reset_def Let_def bind_eq_Some_iff)
    have "port_inv sz i1" by (rule inv_upd_pkt [OF 1 \<open>port_inv sz i\<close>]) (simp_all add: wf_pkt_def size_consts)
    then have ok1: "list_all (port_ok sz) ps1"
      by (intro all_defaults_keep [OF 2]) (auto intro!: list_all_upd simp: ok port_ok_def)
    have "port_inv sz (ps1 ! p)" if "p < length ps1"
    proof -
      obtain j where "pktgen_range_setup (ps1 ! p) = Some j" using 3 by (auto simp: reset_rest_def bind_eq_Some_iff)
      then have "seq_pkt (ps1 ! p) \<noteq> []" by (auto simp: pktgen_range_setup_def Let_def split: if_splits)
      then show ?thesis using ok1 that by (auto simp: list_all_length port_ok_def)
    qed
    then have "list_all (port_ok sz) ps"
      using ok1 reset_rest_keep [OF 3, of sz]
      by (cases "p < length ps1") (auto simp: ps port_ok_def list_update_beyond intro!: list_all_upd)
    then show ?thesis by (simp add: c' console_inv_def)
  qed
qed

section \<open>Loops over the ports\<close>

lemma ok_port:
  "console_inv sz c \<Longrightarrow> p < length (c_ports c) \<Longrightarrow> seq_pkt (c_ports c ! p) \<noteq> [] \<Longrightarrow> port_inv sz (c_ports c ! p)"
  by (auto simp: console_inv_def list_all_length port_ok_def)

text \<open>What one turn keeps, the loop keeps.\<close>

lemma each_port_keep:
  assumes "\<And>p s s'. act p s = Some s' \<Longrightarrow> p < length (c_ports (view s)) \<Longrightarrow> port_inv sz (c_ports (view s) ! p) \<Longrightarrow>
      console_inv sz (view s) \<Longrightarrow> console_inv sz (view s')"
    and "each_port view pl act ps s = Some s'" "console_inv sz (view s)"
  shows "console_inv sz (view s')"
  using assms(2,3)
proof (induction ps arbitrary: s)
  case (Cons p ps)
  show ?case
  proof (cases "bit pl p \<and> seq_pkt (c_ports (view s) ! p) \<noteq> []")
    case True
    then obtain s1 where p: "p < length (c_ports (view s))" and 1: "act p s = Some s1"
      and 2: "each_port view pl act ps s1 = Some s'"
      using Cons.prems(1) by (auto simp: bind_eq_Some_iff split: if_splits)
    have "console_inv sz (view s1)" by (rule assms(1) [OF 1 p ok_port Cons.prems(2)]) (use Cons.prems(2) p True in auto)
    then show ?thesis by (rule Cons.IH [OF 2])
  next
    case False
    then show ?thesis using Cons by (auto split: if_splits)
  qed
qed simp

lemma foreach_keep:
  assumes "foreach_port view pl act s = Some s'" "console_inv sz (view s)"
    and "\<And>p s s'. act p s = Some s' \<Longrightarrow> p < length (c_ports (view s)) \<Longrightarrow> port_inv sz (c_ports (view s) ! p) \<Longrightarrow>
      console_inv sz (view s) \<Longrightarrow> console_inv sz (view s')"
  shows "console_inv sz (view s')"
  using each_port_keep [OF assms(3), where ps = "[0..<unat (nb_ports (c_glob (view s)))]"] assms(1,2)
  by (auto simp: foreach_port_def)

lemma on_port_keep:
  assumes "on_port f p c = Some c'" "port_keeps sz f" "port_inv sz (c_ports c ! p)" "console_inv sz c"
  shows "console_inv sz c' \<and> p < length (c_ports c') \<and> port_inv sz (c_ports c' ! p)"
proof -
  obtain g i where p: "p < length (c_ports c)" and f: "f (c_glob c) (c_ports c ! p) = Some (g, i)"
    and c': "c' = c\<lparr>c_glob := g, c_ports := (c_ports c)[p := i]\<rparr>"
    using assms(1) by (auto simp: on_port_def bind_eq_Some_iff split: if_splits)
  have "port_inv sz i" by (rule keepsD [OF assms(2) f assms(3)])
  with assms(4) p show ?thesis by (auto simp: c' console_inv_def port_ok_def intro!: list_all_upd)
qed

lemma ports_do_keep: "ports_do pl f c = Some c' \<Longrightarrow> port_keeps sz f \<Longrightarrow> console_inv sz c \<Longrightarrow> console_inv sz c'"
  unfolding ports_do_def by (drule foreach_keep) (auto dest: on_port_keep)

lemma four_ips_keep:
  assumes "four_ips m f argv p (c, ip) = Some (c', ip')" "\<And>w a. port_keeps sz (f w a)"
    and "port_inv sz (c_ports c ! p)" "console_inv sz c"
  shows "console_inv sz c'"
proof -
  obtain w1 w2 w3 w4 a1 a2 a3 a4 c1 c2 c3 where
    1: "on_port (f w1 a1) p c = Some c1" and 2: "on_port (f w2 a2) p c1 = Some c2"
    and 3: "on_port (f w3 a3) p c2 = Some c3" and 4: "on_port (f w4 a4) p c3 = Some c'"
    using assms(1) by (auto simp: four_ips_def bind_eq_Some_iff Let_def)
  note k = on_port_keep [OF _ assms(2)]
  from k [OF 1 assms(3,4)] have c1: "port_inv sz (c_ports c1 ! p)" "console_inv sz c1" by auto
  from k [OF 2 c1] have c2: "port_inv sz (c_ports c2 ! p)" "console_inv sz c2" by auto
  from k [OF 3 c2] have c3: "port_inv sz (c_ports c3 ! p)" "console_inv sz c3" by auto
  from k [OF 4 c3] show ?thesis by auto
qed

lemma inv_other [simp]:
  "console_inv sz (c\<lparr>c_glob := g\<rparr>) = console_inv sz c" "console_inv sz (c\<lparr>c_scrn := s\<rparr>) = console_inv sz c"
  "console_inv sz (snd (updated c)) = console_inv sz c" "console_inv sz (on_screen f c) = console_inv sz c"
  by (simp_all add: console_inv_def updated_def on_screen_def split: prod.split)

lemma updated_inv: "updated c = (r, c') \<Longrightarrow> console_inv sz c \<Longrightarrow> console_inv sz c'"
  using inv_other(3) [of sz c] by simp

section \<open>The commands\<close>

text \<open>A run of a command after its map was found.\<close>

definition run_keeps :: "nat \<Rightarrow> (int \<Rightarrow> string \<Rightarrow> string list \<Rightarrow> console \<Rightarrow> (int \<times> console) option) \<Rightarrow> bool" where
  "run_keeps sz run \<longleftrightarrow> (\<forall>n fmt argv c r c'. run n fmt argv c = Some (r, c') \<longrightarrow> console_inv sz c \<longrightarrow> console_inv sz c')"

lemma dispatch_keep:
  "dispatch maps run argv c = Some (r, c') \<Longrightarrow> run_keeps sz run \<Longrightarrow> console_inv sz c \<Longrightarrow> console_inv sz c'"
  by (auto simp: dispatch_def run_keeps_def bind_eq_Some_iff split: option.splits)

lemma map_updated: "map_option updated x = Some (r, c') \<Longrightarrow> (\<And>c. x = Some c \<Longrightarrow> console_inv sz c) \<Longrightarrow> console_inv sz c'"
  by (auto intro: updated_inv)

lemma port_call_keep: "machine_ok sz m \<Longrightarrow> foreach_port id pl (m_port m argv) c = Some c' \<Longrightarrow> console_inv sz c \<Longrightarrow> console_inv sz c'"
  by (drule foreach_keep) (auto simp: machine_ok_def)

lemma call_keep: "machine_ok sz m \<Longrightarrow> m_call m argv c = Some (r, c') \<Longrightarrow> console_inv sz c \<Longrightarrow> console_inv sz c'"
  by (auto simp: machine_ok_def)

lemma run_range_keeps: "run_keeps sz (run_range m)"
  unfolding run_keeps_def
proof (intro allI impI)
  fix n fmt argv c r c'
  assume r: "run_range m n fmt argv c = Some (r, c')" and c: "console_inv sz c"
  then obtain pl where pl: "the_ports m argv 1 = Some pl" by (auto simp: run_range_def bind_eq_Some_iff)
  consider "n = 30 \<or> n = 31" | "n = 32 \<or> n = 33" | "n \<notin> {30, 31, 32, 33}" by auto
  then show "console_inv sz c'"
  proof cases
    case 1
    then obtain w ip where "map_option updated (ports_do pl ((if n = 30 then range_dst_ip else range_src_ip) w ip) c) = Some (r, c')"
      using r pl by (auto simp: run_range_def bind_eq_Some_iff)
    then show ?thesis using c by (elim map_updated) (auto elim!: ports_do_keep intro: keeps_intro split: if_splits)
  next
    case 2
    then obtain c1 ip where f: "foreach_port fst pl (four_ips m (if n = 32 then range_dst_ip else range_src_ip) argv) (c, m_ip m) = Some (c1, ip)"
      and u: "updated c1 = (r, c')" using r pl by (auto simp: run_range_def bind_eq_Some_iff)
    have "console_inv sz (fst (c1, ip))"
      by (rule foreach_keep [OF f]) (use c in \<open>auto elim!: four_ips_keep intro: keeps_intro split: if_splits\<close>)
    then show ?thesis using updated_inv [OF u] by simp
  next
    case 3
    then show ?thesis using r pl c
      by (auto simp: run_range_def split: option.splits elim!: ports_do_keep updated_inv dest: range_number_keeps)
  qed
qed

lemma run_set_keeps: "run_keeps sz (run_set m)"
  unfolding run_keeps_def
proof (intro allI impI)
  fix n fmt argv c r c'
  assume r: "run_set m n fmt argv c = Some (r, c')" and c: "console_inv sz c"
  show "console_inv sz c'"
  proof (cases "n = 40")
    case True
    then obtain k where "updated (on_screen (pktgen_set_page_size k) c) = (r, c')"
      using r by (auto simp: run_set_def bind_eq_Some_iff)
    then show ?thesis using c by (elim updated_inv) simp
  next
    case False
    then obtain pl v where "(r, c') = (-1, c) \<or> (\<exists>f. map_option updated (ports_do pl f c) = Some (r, c') \<and>
        ((\<exists>t. set_value m argv t v = Some f) \<or> set_field m argv n = Some f))"
      using r by (auto simp: run_set_def bind_eq_Some_iff split: option.splits if_splits) blast+
    then show ?thesis using c
      by (auto elim!: ports_do_keep updated_inv dest: set_value_keeps set_field_keeps)
  qed
qed

lemma run_start_keeps: "run_keeps sz (run_start m)"
proof -
  have k: "port_keeps sz (queued m (\<lambda>k. partial (pktgen_start_transmitting k)))"
    "port_keeps sz (queued m (\<lambda>k. partial (pktgen_stop_transmitting k)))"
    "port_keeps sz (queued m (\<lambda>k. partial (pktgen_prime_ports k)))"
    "port_keeps sz (plain (pktgen_send_arp_requests v))" for v
    by (rule keeps_with keeps_traffics keeps_options)+
  show ?thesis unfolding run_keeps_def
    by (auto simp: run_start_def bind_eq_Some_iff k elim!: ports_do_keep updated_inv split: if_splits)
qed

text \<open>Capturing changes one flag of the port, which is no mode.\<close>

lemma capture_keep:
  assumes "capture_port m v p c = Some c'" "console_inv sz c" "port_inv sz (c_ports c ! p)"
  shows "console_inv sz c'"
proof -
  obtain msg i caps where s: "pktgen_set_capture (m_lim m) (m_rxcnt m (pid (c_ports c ! p))) (m_lids m (pid (c_ports c ! p))) (m_sock m)
      (v = ENABLE_STATE) (c_ports c ! p, c_caps c) = Some (msg, i, caps)"
    and c': "c' = c\<lparr>c_ports := (c_ports c)[p := i], c_caps := caps\<rparr>"
    using assms(1) by (auto simp: capture_port_def Let_def bind_eq_Some_iff split: if_splits)
  have "i = c_ports c ! p \<or> i = pktgen_set_port_flags (c_ports c ! p) CAPTURE_PKTS
      \<or> i = pktgen_clr_port_flags (c_ports c ! p) CAPTURE_PKTS"
    using s by (auto simp: pktgen_set_capture_def capture_on_def capture_off_def Let_def bind_eq_Some_iff
        split: if_splits option.splits)
  moreover have "list_all (\<lambda>h. CAPTURE_PKTS AND h = 0) all_modes" by (simp add: all_modes_list port_flag_defs)
  ultimately have "port_inv sz i" using assms(3) inv_set [of sz "c_ports c ! p" CAPTURE_PKTS] inv_clr by auto
  then show ?thesis using assms(2) by (auto simp: c' console_inv_def port_ok_def intro!: list_all_upd)
qed

lemma run_feature_keep:
  assumes m: "machine_ok sz m" and r: "run_feature m pl v k argv c = Some (r, c')" and c: "console_inv sz c"
  shows "console_inv sz c'"
proof (cases "feature m k v")
  case None
  have "map_option updated (foreach_port id pl (m_port m argv) c) = Some (r, c') \<Longrightarrow> ?thesis"
    by (erule map_updated) (rule port_call_keep [OF m _ c])
  moreover have "map_option updated (foreach_port id pl (capture_port m v) c) = Some (r, c') \<Longrightarrow> ?thesis"
    by (erule map_updated, drule foreach_keep [where sz = sz]) (use c in \<open>auto elim: capture_keep\<close>)
  ultimately show ?thesis using r c by (auto simp: run_feature_def None split: if_splits)
next
  case (Some f)
  then obtain c1 where "ports_do pl f c = Some c1"
    and u: "updated (if k = 10 then c1\<lparr>c_glob := blink_flag (c_glob c1)\<rparr> else c1) = (r, c')"
    using r by (auto simp: run_feature_def bind_eq_Some_iff)
  then have "console_inv sz c1" using c feature_keeps [OF Some] ports_do_keep by blast
  then show ?thesis by (intro updated_inv [OF u]) simp
qed

lemma run_enable_keeps: "machine_ok sz m \<Longrightarrow> run_keeps sz (run_enable m)"
  unfolding run_keeps_def
proof (intro allI impI)
  fix n fmt argv c r c'
  assume m: "machine_ok sz m" and r: "run_enable m n fmt argv c = Some (r, c')" and c: "console_inv sz c"
  show "console_inv sz c'"
  proof (cases "n = 10 \<or> n = 20")
    case True
    then obtain pl v k where "run_feature m pl v k argv c = Some (r, c')"
      using r by (auto simp: run_enable_def bind_eq_Some_iff)
    then show ?thesis by (rule run_feature_keep [OF m _ c])
  next
    case False
    then obtain v h where "run_screen v h c = (r, c')" using r by (auto simp: run_enable_def bind_eq_Some_iff)
    then show ?thesis using c unfolding run_screen_def by (elim updated_inv) simp
  qed
qed

text \<open>A sequence number below 16 that is not negative selects a template; a negative one is
  outside the array.\<close>

lemma sint_small32:
  fixes v :: u32
  assumes "unat v < 2 ^ 31"
  shows "sint v = int (unat v)"
proof -
  have "int (unat v) < 2 ^ 31" using assms by (metis of_nat_less_iff of_nat_numeral of_nat_power)
  then have "uint v < 2 ^ 31" by (simp only: uint_nat)
  then have "signed_take_bit 31 (uint v) = uint v"
    by (intro signed_take_bit_int_eq_self) (use uint_ge_0 [of v] in linarith)+
  then show ?thesis by (simp add: sint_uint)
qed

lemma keeps_seq:
  assumes "seq_arg a" "\<not> int NUM_SEQ_PKTS \<le> sint k"
  shows "port_keeps sz (pktgen_set_seq k a)"
  unfolding port_keeps_def
proof (intro allI impI)
  fix g i g' i'
  assume s: "pktgen_set_seq k a g i = Some (g', i')" and i: "port_inv sz i"
  then have "unat k < 28"
    by (auto simp: pktgen_set_seq_def Let_def bind_eq_Some_iff set_and_rebuild_def upd_pkt_Some port_inv_defs split: if_splits)
  then have "sint k = int (unat k)" by (intro sint_small32) simp
  then have "int (unat k) < int NUM_SEQ_PKTS" using assms(2) by (simp only: not_le)
  then have "unat k < NUM_SEQ_PKTS" by (simp only: of_nat_less_iff)
  from inv_seq [OF assms(1) this s i] show "port_inv sz i'" .
qed

lemma read_ip_arg: "ip_arg (m_ip_local m) \<Longrightarrow> ip_arg ip \<Longrightarrow> \<not> bit fl (Suc 0) \<Longrightarrow> ip_arg (read_ip m s fl ip)"
  by (auto simp: read_ip_def rte_atoip_def ip_arg_def Let_def split: option.splits prod.splits if_splits)

lemma seq_port_keeps:
  assumes "seq_arg a" "\<not> int NUM_SEQ_PKTS \<le> sint k"
  shows "port_keeps sz (seq_port k a sp dp vl ls)"
  unfolding seq_port_def by (intro keeps_with(1) keeps_seq) (use assms in \<open>simp_all add: seq_arg_def\<close>)

lemma seq_places_keeps:
  assumes m: "machine_ok sz m" and s: "seq_places m ps argv c = Some c'" and c: "console_inv sz c"
  shows "console_inv sz c'"
proof -
  have fl: "\<not> bit PG_IPADDR_V4 (Suc 0)" "\<not> bit (PG_IPADDR_V4 + PG_IPADDR_NETWORK) (Suc 0)"
    by (simp_all add: PG_IPADDR_V4_def PG_IPADDR_NETWORK_def bit_iff_odd)
  from s consider "c' = c" | k e3 p0 teid dip sip dmac smac pl c1 where "\<not> int NUM_SEQ_PKTS \<le> sint k"
    "ports_do pl (seq_port k \<lparr>a_daddr = fst (rte_ether_aton dmac (m_mac m)), a_saddr = fst (rte_ether_aton smac (m_mac2 m)),
         a_ip_daddr = read_ip m (cut_slash dip) PG_IPADDR_V4 (m_ip m), a_ip_saddr = read_net m sip (m_ip2 m),
         a_sport = 0, a_dport = 0, a_type = e3, a_proto = p0, a_vlanid = 0, a_pktsize = 0, a_gtpu_teid = teid\<rparr>
         (arg argv (ps ! 6)) (arg argv (ps ! 7)) (arg argv (ps ! 8)) (arg argv (ps ! 9))) c = Some c1" "c' = snd (updated c1)"
    by (auto simp: seq_places_def Let_def bind_eq_Some_iff split: if_splits)
  then show ?thesis
  proof cases
    case (2 k e3 p0 teid dip sip dmac smac pl c1)
    have "console_inv sz c1"
      by (rule ports_do_keep [OF 2(2) seq_port_keeps [OF _ 2(1)] c])
        (use m in \<open>auto simp: seq_arg_def machine_ok_def aton_length read_ip_arg fl read_net_def\<close>)
    with 2(3) show ?thesis by simp
  qed (use c in simp)
qed

lemma seq_3_keeps:
  assumes "seq_3_set_cmd m argv c = Some c'" "console_inv sz c"
  shows "console_inv sz c'"
proof -
  obtain pl k v w where "c' = c \<or> (\<exists>c1. ports_do pl (pktgen_set_cos_tos_seq k v w) c = Some c1 \<and> c' = snd (updated c1))"
    using assms(1) by (auto simp: seq_3_set_cmd_def bind_eq_Some_iff split: if_splits) blast+
  then show ?thesis using assms(2) keeps_singles by (auto elim!: ports_do_keep)
qed

lemma run_seq_keeps: "machine_ok sz m \<Longrightarrow> run_keeps sz (run_seq m)"
  unfolding run_keeps_def run_seq_def
  by (auto simp: seq_1_set_cmd_def seq_2_set_cmd_def elim: seq_places_keeps seq_3_keeps split: if_splits)

lemma on_pcap_ok:
  assumes "on_pcap f g ps = Some ps'" "list_all (port_ok sz) ps"
  shows "list_all (port_ok sz) ps'"
proof -
  let ?k = "unat (portNum g)"
  have k: "?k < length ps" and ps': "ps' = ps[?k := (ps ! ?k)\<lparr>pcap := map_option f (pcap (ps ! ?k))\<rparr>]"
    using assms(1) by (auto simp: on_pcap_def Let_def split: if_splits)
  have "port_ok sz ((ps ! ?k)\<lparr>pcap := map_option f (pcap (ps ! ?k))\<rparr>) = port_ok sz (ps ! ?k)"
    by (simp add: port_ok_def port_inv_defs)
  then show ?thesis unfolding ps' using assms(2) k by (intro list_all_upd) (auto simp: list_all_length)
qed

lemma run_pcap_keeps: "machine_ok sz m \<Longrightarrow> run_keeps sz (run_pcap m)"
  unfolding run_keeps_def
proof (intro allI impI)
  fix n fmt argv c r c'
  assume m: "machine_ok sz m" and r: "run_pcap m n fmt argv c = Some (r, c')" and c: "console_inv sz c"
  consider "n = 10" | "n = 20" | "n \<notin> {10, 20}" by auto
  then show "console_inv sz c'"
  proof cases
    case 1
    then obtain f ps where "on_pcap f (c_glob c) (c_ports c) = Some ps"
      and u: "updated (c\<lparr>c_glob := set_gflags (c_glob c) PRINT_LABELS_FLAG, c_ports := ps\<rparr>) = (r, c')"
      using r by (auto simp: run_pcap_def Let_def bind_eq_Some_iff)
    then show ?thesis using c by (intro updated_inv [OF u]) (auto simp: console_inv_def elim: on_pcap_ok)
  next
    case 2
    then show ?thesis using r call_keep [OF m] c by (auto simp: run_pcap_def intro: updated_inv)
  next
    case 3
    then show ?thesis using r port_call_keep [OF m] c by (auto simp: run_pcap_def bind_eq_Some_iff intro: updated_inv)
  qed
qed

lemma page_body_ports:
  "set_page_body str pg g ps = Some (g', ps') \<Longrightarrow> ps' = ps \<or> (\<exists>f h. on_pcap f h ps = Some ps')"
  by (auto simp: set_page_body_def Let_def split: option.splits if_splits)

lemma set_page_ports:
  assumes "pktgen_set_page a g ps sc = Some (g', ps', sc')"
  shows "ps' = ps \<or> (\<exists>str pg g1. set_page_body str pg g ps = Some (g1, ps'))"
proof (cases a)
  case (Some str)
  from assms obtain pg where "(if str \<noteq> [] \<and> is_digit (hd str) \<and> pg > nb_ports g then Some (g, ps, sc)
         else do {
           (g, ps) \<leftarrow> set_page_body str pg g ps;
           let (g, sc) = pktgen_clear_display g sc;
           Some (g, ps, sc) }) = Some (g', ps', sc')"
    unfolding pktgen_set_page_def Some option.case bind_eq_Some_iff by blast
  then show ?thesis
    by (auto simp: bind_eq_Some_iff split: if_splits prod.split_asm) (metis surj_pair)+
qed (use assms in \<open>simp add: pktgen_set_page_def\<close>)

lemma set_page_ok:
  assumes "pktgen_set_page a g ps sc = Some (g', ps', sc')" "list_all (port_ok sz) ps"
  shows "list_all (port_ok sz) ps'"
  using set_page_ports [OF assms(1)] page_body_ports on_pcap_ok assms(2) by blast

lemma run_page_keeps: "run_keeps sz run_page"
  unfolding run_keeps_def
  by (auto simp: run_page_def bind_eq_Some_iff console_inv_def elim: set_page_ok)

lemma run_theme_keeps: "machine_ok sz m \<Longrightarrow> run_keeps sz (run_theme m)"
  unfolding run_keeps_def by (auto simp: run_theme_def bind_eq_Some_iff dest: call_keep split: if_splits)

lemma run_dbg_keeps: "machine_ok sz m \<Longrightarrow> run_keeps sz (run_dbg m)"
  unfolding run_keeps_def
  by (auto simp: run_dbg_def Let_def bind_eq_Some_iff dest: call_keep port_call_keep intro: updated_inv split: if_splits)

lemma run_misc_keeps: "machine_ok sz m \<Longrightarrow> run_keeps sz (run_misc m)"
  unfolding run_keeps_def
proof (intro allI impI)
  fix n fmt argv c r c'
  assume m: "machine_ok sz m" and r: "run_misc m n fmt argv c = Some (r, c')" and c: "console_inv sz c"
  have call: "m_call m argv c = Some (v, c1) \<Longrightarrow> console_inv sz c1" for v c1 using call_keep [OF m _ c] .
  consider "n = 10" | "n = 100" | "n = 110" | "n = 140" | "n \<notin> {10, 100, 110, 140}" by auto
  then show "console_inv sz c'"
  proof cases
    case 1
    then show ?thesis using r c ports_do_keep [OF _ keeps_clear]
      by (auto simp: run_misc_def bind_eq_Some_iff)
  next
    case 2
    then obtain pl where "foreach_port id pl (reset_port m) c = Some c'" using r by (auto simp: run_misc_def bind_eq_Some_iff)
    from foreach_keep [OF this, of sz] show ?thesis using c reset_keep by auto
  next
    case 3
    then show ?thesis using r port_call_keep [OF m _ c] by (auto simp: run_misc_def bind_eq_Some_iff)
  next
    case 4
    then show ?thesis using r c ports_do_keep [OF _ keeps_singles(12)] by (auto simp: run_misc_def bind_eq_Some_iff)
  next
    case 5
    then show ?thesis using r c call by (auto simp: run_misc_def bind_eq_Some_iff split: if_splits)
  qed
qed

lemmas command_defs = misc_cmd_def seq_cmd_def page_cmd_def theme_cmd_def range_cmd_def
  en_dis_cmd_def start_stop_cmd_def pcap_cmd_def set_cmd_def dbg_cmd_def

lemma cmd_runs:
  assumes "machine_ok sz m"
    and "f \<in> {misc_cmd m, seq_cmd m, page_cmd, theme_cmd m, range_cmd m, en_dis_cmd m, start_stop_cmd m, pcap_cmd m, set_cmd m, dbg_cmd m}"
  shows "\<exists>maps run. f = dispatch maps run \<and> run_keeps sz run"
proof -
  note runs = run_range_keeps run_set_keeps run_start_keeps run_enable_keeps [OF assms(1)] run_seq_keeps [OF assms(1)]
    run_pcap_keeps [OF assms(1)] run_page_keeps run_theme_keeps [OF assms(1)] run_dbg_keeps [OF assms(1)]
    run_misc_keeps [OF assms(1)]
  show ?thesis using assms(2) unfolding command_defs using runs by (elim insertE emptyE) blast+
qed

lemma command_runs:
  assumes "machine_ok sz m" "(ns, f) \<in> set (commands m)"
  shows "\<exists>maps run. f = dispatch maps run \<and> run_keeps sz run"
  by (rule cmd_runs [OF assms(1)]) (use assms(2) in \<open>auto simp: commands_def\<close>)

lemma command_keep:
  assumes "find_command m w = Some f" "f argv c = Some (r, c')" "machine_ok sz m" "console_inv sz c"
  shows "console_inv sz c'"
proof -
  obtain ns where "(ns, f) \<in> set (commands m)"
    using assms(1) by (auto simp: find_command_def find_Some_iff) (metis nth_mem)
  then show ?thesis using command_runs [OF assms(3)] assms(2,4) dispatch_keep by blast
qed

section \<open>Only the listed ports change\<close>

text \<open>The ports outside of a list are those of the first state.\<close>

definition others_same :: "portlist \<Rightarrow> console \<Rightarrow> console \<Rightarrow> bool" where
  "others_same pl c c' \<longleftrightarrow> length (c_ports c') = length (c_ports c)
     \<and> (\<forall>j<length (c_ports c). \<not> bit pl j \<longrightarrow> c_ports c' ! j = c_ports c ! j)"

lemma others_refl [simp]: "others_same pl c c"
  by (simp add: others_same_def)

lemma others_trans: "others_same pl c c1 \<Longrightarrow> others_same pl c1 c' \<Longrightarrow> others_same pl c c'"
  by (simp add: others_same_def)

lemma others_glob [simp]:
  "others_same pl c (snd (updated c')) = others_same pl c c'" "others_same pl c (on_screen f c') = others_same pl c c'"
  by (simp_all add: others_same_def updated_def on_screen_def split: prod.split)

lemma on_port_others: "on_port f p c = Some c' \<Longrightarrow> bit pl p \<Longrightarrow> others_same pl c c'"
  by (auto simp: on_port_def others_same_def bind_eq_Some_iff nth_list_update split: if_splits)

lemma each_port_others:
  assumes "\<And>p s s'. act p s = Some s' \<Longrightarrow> bit pl p \<Longrightarrow> others_same pl (view s) (view s')"
  shows "each_port view pl act ps s = Some s' \<Longrightarrow> others_same pl (view s) (view s')"
proof (induction ps arbitrary: s)
  case (Cons p ps)
  then show ?case using assms others_trans by (auto simp: bind_eq_Some_iff split: if_splits) blast
qed simp

lemma ports_do_others: "ports_do pl f c = Some c' \<Longrightarrow> others_same pl c c'"
  using each_port_others [of "on_port f" pl id] on_port_others by (auto simp: ports_do_def foreach_port_def)

lemma four_ips_others:
  assumes "four_ips m f argv p (c, ip) = Some (c', ip')" "bit pl p"
  shows "others_same pl c c'"
proof -
  obtain w1 w2 w3 w4 a1 a2 a3 a4 c1 c2 c3 where
    "on_port (f w1 a1) p c = Some c1" "on_port (f w2 a2) p c1 = Some c2"
    "on_port (f w3 a3) p c2 = Some c3" "on_port (f w4 a4) p c3 = Some c'"
    using assms(1) by (auto simp: four_ips_def bind_eq_Some_iff Let_def)
  then show ?thesis using on_port_others assms(2) others_trans by meson
qed

lemma map_updated_others:
  "map_option updated x = Some (r, c') \<Longrightarrow> (\<And>c1. x = Some c1 \<Longrightarrow> others_same pl c c1) \<Longrightarrow> others_same pl c c'"
  using others_glob(1) by (metis map_option_eq_Some snd_conv)

lemma updated_others: "updated c1 = (r, c') \<Longrightarrow> others_same pl c c1 \<Longrightarrow> others_same pl c c'"
  using others_glob(1) [of pl c c1] by simp

lemma range_others:
  assumes r: "run_range m n fmt argv c = Some (r, c')" and pl: "the_ports m argv 1 = Some pl"
  shows "others_same pl c c'"
proof -
  consider f where "map_option updated (ports_do pl f c) = Some (r, c')" | "c' = c"
    | f ip where "map_option (\<lambda>(c, _). updated c) (foreach_port fst pl (four_ips m f argv) (c, ip)) = Some (r, c')"
    using r pl by (auto simp: run_range_def bind_eq_Some_iff split: if_splits option.splits)
  then show ?thesis
  proof cases
    case (1 f)
    then show ?thesis by (rule map_updated_others) (rule ports_do_others)
  next
    case (3 f ip)
    then obtain c1 ip1 where f: "foreach_port fst pl (four_ips m f argv) (c, ip) = Some (c1, ip1)"
      and u: "c' = snd (updated c1)" by (auto simp: prod_eq_iff)
    have "others_same pl (fst (c, ip)) (fst (c1, ip1))"
      by (rule each_port_others [OF _ f [unfolded foreach_port_def]]) (auto elim: four_ips_others)
    then show ?thesis by (simp add: u)
  qed simp
qed

lemma start_others:
  assumes r: "run_start m n fmt argv c = Some (r, c')" and pl: "the_ports m argv 1 = Some pl"
  shows "others_same pl c c'"
proof (cases "n = 10 \<and> traffic_gen_as (c_glob c) = IL_TRAFFIC_RESP_AS_REF")
  case False
  then obtain f c1 where "ports_do pl f c = Some c1" "updated c1 = (r, c')"
    using r pl by (auto simp: run_start_def bind_eq_Some_iff)
  then show ?thesis using ports_do_others updated_others by blast
qed (use r pl in \<open>simp add: run_start_def\<close>)

lemma set_others:
  assumes r: "run_set m n fmt argv c = Some (r, c')" and pl: "the_ports m argv 1 = Some pl"
  shows "others_same pl c c'"
proof -
  consider f c1 where "ports_do pl f c = Some c1" "updated c1 = (r, c')" | "c' = c"
    | k where "updated (on_screen (pktgen_set_page_size k) c) = (r, c')"
    using r pl by (auto simp: run_set_def bind_eq_Some_iff split: option.splits if_splits)
  then show ?thesis
  proof cases
    case (1 f c1)
    then show ?thesis using ports_do_others updated_others by blast
  next
    case (3 k)
    then have "c' = snd (updated (on_screen (pktgen_set_page_size k) c))" by simp
    then show ?thesis by (simp only: others_glob others_refl)
  qed simp
qed

lemma commands_others:
  assumes "f \<in> {set_cmd m, range_cmd m, start_stop_cmd m}" "f argv c = Some (r, c')"
    and "the_ports m argv 1 = Some pl"
  shows "others_same pl c c'"
  using assms range_others start_others set_others
  by (auto simp: command_defs dispatch_def bind_eq_Some_iff split: option.splits)

section \<open>A command on a list of ports\<close>

text \<open>A total command changes the listed ports that are configured, each once.\<close>

definition on_listed :: "portlist \<Rightarrow> nat list \<Rightarrow> (port_info \<Rightarrow> port_info) \<Rightarrow> port_info list \<Rightarrow> port_info list" where
  "on_listed pl ps f is = map (\<lambda>j. if j \<in> set ps \<and> bit pl j \<and> seq_pkt (is ! j) \<noteq> [] then f (is ! j) else is ! j) [0..<length is]"

lemma on_listed_Nil: "on_listed pl [] f is = is"
  by (simp add: on_listed_def map_nth)

lemma on_listed_skip:
  "\<not> bit pl p \<or> seq_pkt (is ! p) = [] \<Longrightarrow> on_listed pl (p # ps) f is = on_listed pl ps f is"
  by (auto simp: on_listed_def)

lemma on_listed_step:
  assumes "bit pl p" "seq_pkt (is ! p) \<noteq> []" "p < length is" "p \<notin> set ps"
  shows "on_listed pl (p # ps) f is = on_listed pl ps f (is[p := f (is ! p)])"
  using assms by (auto simp: on_listed_def nth_list_update intro!: map_cong)

lemma ports_do_plain:
  assumes "distinct ps" "\<forall>p\<in>set ps. p < 64 \<and> p < length (c_ports c)"
  shows "each_port id pl (on_port (plain f)) ps c = Some (c\<lparr>c_ports := on_listed pl ps f (c_ports c)\<rparr>)"
  using assms
proof (induction ps arbitrary: c)
  case (Cons p ps)
  let ?c = "c\<lparr>c_ports := (c_ports c)[p := f (c_ports c ! p)]\<rparr>"
  show ?case
  proof (cases "bit pl p \<and> seq_pkt (c_ports c ! p) \<noteq> []")
    case True
    have "on_port (plain f) p c = Some ?c" using Cons.prems by (simp add: on_port_def plain_def)
    moreover have "each_port id pl (on_port (plain f)) ps ?c = Some (?c\<lparr>c_ports := on_listed pl ps f (c_ports ?c)\<rparr>)"
      by (rule Cons.IH) (use Cons.prems in auto)
    moreover have "on_listed pl (p # ps) f (c_ports c) = on_listed pl ps f (c_ports ?c)"
      using on_listed_step [of pl p "c_ports c" ps f] True Cons.prems by simp
    ultimately show ?thesis using True Cons.prems by (simp add: id_def)
  next
    case False
    have "on_listed pl (p # ps) f (c_ports c) = on_listed pl ps f (c_ports c)" by (rule on_listed_skip) (use False in auto)
    moreover have "each_port id pl (on_port (plain f)) ps c = Some (c\<lparr>c_ports := on_listed pl ps f (c_ports c)\<rparr>)"
      by (rule Cons.IH) (use Cons.prems in auto)
    ultimately show ?thesis using False Cons.prems by (auto simp: id_def)
  qed
qed (simp add: on_listed_Nil)

text \<open>The words of the command and the first entry of its map.\<close>

lemma set_map_count: "hd set_map = (10, ''set %P %|'' @ set_types @ '' %d'')"
  "rte_strtok CLI_MAX_ARGVS '' '' (''set %P %|'' @ set_types @ '' %d'') = [''set'', ''%P'', ''%|'' @ set_types, ''%d'']"
  "cli_map_list_search (''set %P %|'' @ set_types @ '' %d'') ''count'' 2 = Some 0"
  "rte_stropt (''|'' @ set_types) ''count'' ''|'' = 0"
  by code_simp+

lemma digit_word_fits: "ds \<noteq> [] \<Longrightarrow> isdigit (hd ds) \<Longrightarrow> ok (hd ds) \<Longrightarrow> scan_arg ok ds = Some True"
  by (cases "(ok, ds)" rule: scan_arg.cases) auto

definition listed :: "(nat \<times> nat) list \<Rightarrow> nat \<Rightarrow> bool" where
  "listed xs j \<longleftrightarrow> (\<exists>(a, b)\<in>set xs. a \<le> j \<and> j \<le> b)"

lemma dec_digit: "\<exists>c\<in>set (dec n). isdigit c"
  using dec_nonempty [of n] dec_digits [of _ n] by (meson ex_in_conv set_empty)

lemma show_ports_word:
  assumes "xs \<noteq> []"
  shows "show_ports xs \<noteq> []" "isdigit (hd (show_ports xs))"
proof -
  obtain a b ys where xs: "xs = (a, b) # ys" using assms by (cases xs) auto
  have h: "isdigit (hd (dec a))" using dec_digits [of "hd (dec a)" a] by simp
  have "hd (show_interval (a, b)) = hd (dec a) \<and> show_interval (a, b) \<noteq> []" by simp
  then show "show_ports xs \<noteq> []" "isdigit (hd (show_ports xs))"
    using join_hd [of "show_interval (a, b)" "'',''" "map show_interval ys"] h by (simp_all add: xs show_ports_def)
qed

lemma set_count_entry:
  assumes "xs \<noteq> []"
  shows "cli_mapping set_map [''set'', show_ports xs, ''count'', dec n] = Some (Some (hd set_map))"
proof -
  let ?argv = "[''set'', show_ports xs, ''count'', dec n]"
  obtain ms where m: "set_map = hd set_map # ms" by (simp add: set_map_def)
  have "set (dec n) \<subseteq> Collect isdigit" using dec_digits by blast
  then have h: "\<not> help_word (dec n)" by (auto simp: help_word_def isdigit_def is_digit_of_def digit_val_def)
  have "scan_arg (\<lambda>c. isdigit c \<or> c = CHR ''a'') (show_ports xs) = Some True" "scan_arg isdigit (dec n) = Some True"
    using show_ports_word [OF assms] dec_digits [of "hd (dec n)" n] by (auto intro: digit_word_fits)
  then have "map_fits [''set'', ''%P'', ''%|'' @ set_types, ''%d''] ?argv = Some True"
    using set_map_count(4) by (simp add: is_map_valid_def map_class_def)
  then show ?thesis using h set_map_count(1,2) by (subst m) simp
qed

lemma set_count_words:
  assumes xs: "xs \<noteq> []" "length xs \<le> 64" "\<forall>(a, b)\<in>set xs. a \<le> b \<and> b < 64"
    and n: "n < 2 ^ 31" and nb: "unat (nb_ports (c_glob c)) \<le> 64" "unat (nb_ports (c_glob c)) \<le> length (c_ports c)"
  shows "\<exists>c'. set_cmd m [''set'', show_ports xs, ''count'', dec n] c = Some (0, c') \<and> length (c_ports c') = length (c_ports c)
    \<and> (\<forall>j<length (c_ports c). c_ports c' ! j =
        (if j < unat (nb_ports (c_glob c)) \<and> listed xs j \<and> seq_pkt (c_ports c ! j) \<noteq> []
         then single_set_tx_count (word_of_nat n) (c_ports c ! j) else c_ports c ! j))"
proof -
  let ?argv = "[''set'', show_ports xs, ''count'', dec n]" and ?ps = "[0..<unat (nb_ports (c_glob c))]"
  from portlist_roundtrip [OF xs, of "m_portlist m", folded listed_def]
  obtain pl where pl: "rte_parse_portlist (show_ports xs) (m_portlist m) = (0, pl)" and b: "\<forall>j. bit pl j \<longleftrightarrow> listed xs j"
    by (elim exE conjE)
  let ?f = "single_set_tx_count (word_of_nat n)"
  have d: "ports_do pl (plain ?f) c = Some (c\<lparr>c_ports := on_listed pl ?ps ?f (c_ports c)\<rparr>)"
    unfolding ports_do_def foreach_port_def using ports_do_plain [of ?ps c pl ?f] nb by simp
  let ?fmt = "''set %P %|'' @ set_types @ '' %d''"
  have a: "arg ?argv 2 = Some ''count''" "arg ?argv 3 = Some (dec n)" "the_ports m ?argv 1 = Some pl"
    by (simp_all add: arg_def the_ports_def pl)
  have v: "set_value m ?argv 0 (word_of_nat n) = Some (plain ?f)" by (simp add: set_value_def Let_def)
  have "run_set m 10 ?fmt ?argv c = map_option updated (ports_do pl (plain ?f) c)"
    using n by (simp only: run_set_def a v atoi_dec set_map_count(3) bind.bind_lunit option.map option.case if_True) simp
  then have "set_cmd m ?argv c = map_option updated (ports_do pl (plain ?f) c)"
    by (simp only: set_cmd_def dispatch_def set_count_entry [OF xs(1)] set_map_count(1) bind.bind_lunit option.case prod.case)
  then have "set_cmd m ?argv c = Some (updated (c\<lparr>c_ports := on_listed pl ?ps ?f (c_ports c)\<rparr>))" using d by simp
  then show ?thesis by (simp add: updated_def on_listed_def b)
qed

section \<open>What the code does against its description\<close>

text \<open>\<open>set ports_per_page\<close>, \<open>theme save\<close> and \<open>restart\<close> read a word that their entries do
  not have; the entry of \<open>restart\<close> has no list of ports, which the help asks for.\<close>

lemma words_past_the_end:
  "set_cmd m [''set'', ''ports_per_page'', ''4''] c = None" "theme_cmd m [''theme'', ''save''] c = None"
  "misc_cmd m [''restart''] c = None" "misc_cmd m [''restart'', ''all''] c = Some (-1, c)"
proof -
  have e: "cli_mapping set_map [''set'', ''ports_per_page'', ''4''] = Some (Some (40, ''set ports_per_page %d''))"
    "cli_mapping theme_map [''theme'', ''save''] = Some (Some (30, ''theme save''))"
    "cli_mapping misc_map [''restart''] = Some (Some (110, ''restart''))" "cli_mapping misc_map [''restart'', ''all''] = Some None"
    by code_simp+
  show "set_cmd m [''set'', ''ports_per_page'', ''4''] c = None" using e(1) by (simp add: set_cmd_def dispatch_def run_set_def arg_def)
  show "theme_cmd m [''theme'', ''save''] c = None" using e(2) by (simp add: theme_cmd_def dispatch_def run_theme_def arg_def)
  show "misc_cmd m [''restart''] c = None" using e(3) by (simp add: misc_cmd_def dispatch_def run_misc_def arg_def the_ports_def)
  show "misc_cmd m [''restart'', ''all''] c = Some (-1, c)" using e(4) by (simp add: misc_cmd_def dispatch_def)
qed

text \<open>\<open>ports per page\<close> and \<open>set rnd\<close> have entries but no case.\<close>

lemma entries_without_case:
  "misc_cmd m [''ports'', ''per'', ''page'', ''4''] c = Some (-1, c)"
  "set_cmd m [''set'', ''0'', ''rnd'', ''0'', ''3'', ''XX''] c = Some (-1, c)"
proof -
  have e: "cli_mapping misc_map [''ports'', ''per'', ''page'', ''4''] = Some (Some (135, ''ports per page %d''))"
    "cli_mapping set_map [''set'', ''0'', ''rnd'', ''0'', ''3'', ''XX''] = Some (Some (60, ''set %P rnd %d %d %s''))"
    "atoi32 ''0'' = Some 0"
    by code_simp+
  show "misc_cmd m [''ports'', ''per'', ''page'', ''4''] c = Some (-1, c)" using e(1) by (simp add: misc_cmd_def dispatch_def run_misc_def)
  show "set_cmd m [''set'', ''0'', ''rnd'', ''0'', ''3'', ''XX''] c = Some (-1, c)"
    using e(2,3) by (simp add: set_cmd_def dispatch_def run_set_def arg_def the_ports_def set_field_def)
qed

text \<open>The user pattern is the word \<open>pattern\<close>, whatever the line says.\<close>

lemma user_pattern_word:
  "set_field m [''set'', ps, ''user'', ''pattern'', s] 25 = Some (partial (pattern_set_user_pattern ''pattern''))"
  by (simp add: set_field_def arg_def with_str_def Let_def fun_eq_iff)

text \<open>\<open>range\<close> cuts the mask off its fourth word, which is no address; the address keeps it.\<close>

lemma range_keeps_mask:
  "cut_slash ''start'' = ''start''" "cut_slash ''10.0.0.1/24'' = ''10.0.0.1''"
  by (simp_all add: cut_slash_def)

text \<open>\<open>pcap index\<close> takes no number: it reads its own word and always goes to the first packet.\<close>

lemma pcap_index_word: "strtoul 10 ''index'' = 0" "cli_mapping pcap_map [''pcap'', ''index'', ''5''] = Some None"
  by code_simp+

end
