(* ===== verification/Exec.thy ===== *)
theory Exec
  imports Nodes Console History
begin

text \<open>
  The run of a command line (\<open>cli_execute\<close> of \<open>lib/cli/cli.c\<close>), with the commands of
  the library (\<open>lib/cli/cli_cmds.c\<close>) and those of the program, in the tree that
  \<open>app/cli-functions.c\<close> sets up.

  The line is the text of the gap buffer.  What runs on the host (\<open>@\<close>), \<open>strdup\<close> and the
  commands that only print or wait are parameters.
\<close>

section \<open>State\<close>

record shell =
  sh_tree :: tree
  sh_env :: cli_env
  sh_hist :: hist
  sh_quit :: bool
  sh_con :: console

record host =
  h_system :: "string \<Rightarrow> int"
  h_dup :: "string \<Rightarrow> string option"
  h_grow :: bool
  h_calls :: nat
  h_other :: "string \<Rightarrow> string list \<Rightarrow> shell \<Rightarrow> (int \<times> shell) option"

definition CLI_MAX_SCRATCH_LENGTH :: nat where "CLI_MAX_SCRATCH_LENGTH = 4096"

section \<open>Commands of the library\<close>

definition on_tree :: "(tree \<Rightarrow> tree) \<Rightarrow> shell \<Rightarrow> shell" where
  "on_tree f s = s\<lparr>sh_tree := f (sh_tree s)\<rparr>"

text \<open>Any node can become the current directory.\<close>

definition cd_cmd :: "string list \<Rightarrow> shell \<Rightarrow> (int \<times> shell) option" where
  "cd_cmd argv s =
     (if length argv > 1 then
        if argv ! 1 = ''-?'' then Some (0, s)
        else do {
          node \<leftarrow> cli_find_node (sh_tree s) (argv ! 1);
          case node of None \<Rightarrow> Some (-1, s) | Some k \<Rightarrow> Some (0, on_tree (set_cwd (Some k)) s) }
      else Some (0, s))"

definition mkdir_cmd :: "bool \<Rightarrow> string list \<Rightarrow> shell \<Rightarrow> (int \<times> shell) option" where
  "mkdir_cmd grow argv s =
     (if length argv \<noteq> 2 then Some (-1, s)
      else do {
        (d, t) \<leftarrow> cli_add_dir grow (argv ! 1) (get_cwd (sh_tree s)) (sh_tree s);
        Some (if d = None then -1 else 0, s\<lparr>sh_tree := t\<rparr>) })"

definition rm_cmd :: "nat \<Rightarrow> string list \<Rightarrow> shell \<Rightarrow> (int \<times> shell) option" where
  "rm_cmd n argv s =
     (if length argv \<noteq> 2 then Some (-1, s)
      else do {
        node \<leftarrow> cli_find_node (sh_tree s) (argv ! 1);
        case node of None \<Rightarrow> Some (-1, s)
        | Some k \<Rightarrow> do { (r, t) \<leftarrow> cli_remove_node n k (sh_tree s); Some (r, s\<lparr>sh_tree := t\<rparr>) } })"

text \<open>A path without its last slash: what \<open>pwd\<close> and \<open>path\<close> print.\<close>

definition shown_path :: "string \<Rightarrow> string" where
  "shown_path s = (if length s > 1 then butlast s else s)"

definition pwd_cmd :: "nat \<Rightarrow> tree \<Rightarrow> string option" where
  "pwd_cmd n t = map_option shown_path (cli_cwd_path n t)"

definition path_cmd :: "nat \<Rightarrow> tree \<Rightarrow> string option" where
  "path_cmd n t = map_option (\<lambda>ps. ''  Path = .:'' @ concat (map (\<lambda>p. shown_path p @ '':'') ps) @ [CHR 0x0A])
     (those (map (\<lambda>d. cli_path_string n t (the d)) (filter (\<lambda>d. d \<noteq> None) (tl (bins t)))))"

definition echo_cmd :: "string list \<Rightarrow> string" where
  "echo_cmd argv = concat (map (\<lambda>w. w @ '' '') (tl argv)) @ [CHR 0x0A]"

definition cli_env_map :: "cli_map list" where
  "cli_env_map = [(10, ''env''), (20, ''env get %s''), (30, ''env set %s %s''), (40, ''env del %s'')]"

text \<open>A line that fits no entry is reported, and then its entry is read.\<close>

definition env_cmd :: "string list \<Rightarrow> shell \<Rightarrow> (int \<times> shell) option" where
  "env_cmd argv s = do {
     e \<leftarrow> cli_mapping cli_env_map argv;
     (n, _) \<leftarrow> e;
     env \<leftarrow> (if n = 10 then map_option (\<lambda>_. sh_env s) (cli_env_show (sh_env s))
       else if n = 20 then do { v \<leftarrow> cli_env_get (argv ! 2) (sh_env s); v \<leftarrow> v; Some (sh_env s) }
       else if n = 30 then map_option snd (cli_env_set (argv ! 2) (argv ! 3) (sh_env s))
       else map_option snd (cli_env_del (argv ! 2) (sh_env s)));
     Some (0, s\<lparr>sh_env := env\<rparr>) }"

section \<open>The function of a command\<close>

text \<open>The functions of the program, by their names.\<close>

definition pktgen_funcs :: "machine \<Rightarrow> (string \<times> (string list \<Rightarrow> console \<Rightarrow> (int \<times> console) option)) list" where
  "pktgen_funcs m =
    [(''misc_cmd'', misc_cmd m), (''seq_cmd'', seq_cmd m), (''page_cmd'', page_cmd), (''theme_cmd'', theme_cmd m),
     (''range_cmd'', range_cmd m), (''en_dis_cmd'', en_dis_cmd m), (''start_stop_cmd'', start_stop_cmd m),
     (''pcap_cmd'', pcap_cmd m), (''set_cmd'', set_cmd m), (''dbg_cmd'', dbg_cmd m)]"

definition call_node :: "host \<Rightarrow> machine \<Rightarrow> string \<Rightarrow> string list \<Rightarrow> shell \<Rightarrow> (int \<times> shell) option" where
  "call_node h m f argv s =
     (case map_of (pktgen_funcs m) f of
        Some g \<Rightarrow> map_option (\<lambda>(r, c). (r, s\<lparr>sh_con := c\<rparr>)) (g argv (sh_con s))
      | None \<Rightarrow>
          if f = ''cd_cmd'' then cd_cmd argv s
          else if f = ''mkdir_cmd'' then mkdir_cmd (h_grow h) argv s
          else if f = ''rm_cmd'' then rm_cmd (h_calls h) argv s
          else if f = ''env_cmd'' then env_cmd argv s
          else if f = ''quit_cmd'' then Some (0, s\<lparr>sh_quit := True\<rparr>)
          else h_other h f argv s)"

section \<open>A line\<close>

text \<open>A history line is copied over the line; the text that runs starts where the trimmed line
  started.\<close>

definition over_line :: "nat \<Rightarrow> string \<Rightarrow> string \<Rightarrow> string" where
  "over_line off hl p = (if off \<le> length hl then drop off hl else p)"

text \<open>The text to run and the new history: None in the middle when nothing is left to do but
  to return the number.\<close>

definition fetch_line :: "host \<Rightarrow> string \<Rightarrow> hist \<Rightarrow> ((int + string) \<times> hist) option" where
  "fetch_line h line hs =
     (let p = rte_strtrim line; off = length (takeWhile isspace line); sz = max (length line) CLI_MAX_PATH_LENGTH
      in if p = [] \<or> hd p = CHR ''#'' then Some (Inl 0, hs)
         else if hd p = CHR ''!'' then do {
           n \<leftarrow> atoi32 (tl p);
           case cli_history_line (sint n) hs of None \<Rightarrow> Some (Inl 0, hs)
           | Some hl \<Rightarrow> if length hl > sz then None else Some (Inr (over_line off hl p), hs) }
         else if hd p = CHR ''@'' then
           let r = h_system h (tl p)
           in map_option (Pair (Inl r)) (if r = 0 then cli_history_add (h_dup h) (Some p) hs else Some hs)
         else map_option (Pair (Inr p)) (cli_history_add (h_dup h) (Some p) hs))"

text \<open>The words of the text after the substitution, in the buffer that is left.\<close>

definition line_words :: "cli_env \<Rightarrow> string \<Rightarrow> string \<Rightarrow> string list option" where
  "line_words env line p = do {
     q \<leftarrow> cli_env_substitution env p (max (length line) CLI_MAX_PATH_LENGTH - length (takeWhile isspace line));
     rte_strqtok CLI_MAX_ARGVS blanks q }"

text \<open>The line that an alias stands for: its text and what follows in the line after as many
  characters as the name has.\<close>

definition alias_text :: "string \<Rightarrow> string \<Rightarrow> string \<Rightarrow> string" where
  "alias_text line name str = str @ (if length line > length name then drop (length name) line else [])"

definition reset_hist :: "int \<times> shell \<Rightarrow> int \<times> shell" where
  "reset_hist = (\<lambda>(r, s). (r, s\<lparr>sh_hist := cli_history_reset (sh_hist s)\<rparr>))"

fun cli_execute :: "host \<Rightarrow> machine \<Rightarrow> nat \<Rightarrow> string \<Rightarrow> shell \<Rightarrow> (int \<times> shell) option" where
  "cli_execute h m 0 line s = None"
| "cli_execute h m (Suc n) line s = do {
     (x, hs) \<leftarrow> fetch_line h line (sh_hist s);
     let s = s\<lparr>sh_hist := hs\<rparr>;
     case x of Inl r \<Rightarrow> Some (r, s)
     | Inr p \<Rightarrow> do {
         argv \<leftarrow> line_words (sh_env s) line p;
         if argv = [] then Some (0, s)
         else do {
           node \<leftarrow> cli_find_cmd (sh_tree s) (hd argv);
           case node of None \<Rightarrow> Some (-1, s)
           | Some k \<Rightarrow> do {
               nd \<leftarrow> node_at (sh_tree s) k;
               map_option reset_hist (
                 case n_type nd of
                   CLI_CMD_NODE \<Rightarrow> do { f \<leftarrow> n_func nd; call_node h m f argv s }
                 | CLI_ALIAS_NODE \<Rightarrow> do {
                     str \<leftarrow> n_alias nd;
                     guard (length line \<le> CLI_MAX_SCRATCH_LENGTH);
                     cli_execute h m n (alias_text line (n_name nd) str) (s\<lparr>sh_hist := cli_history_del (sh_hist s)\<rparr>) }
                 | _ \<Rightarrow> Some (-1, s)) } } } }"

text \<open>Lines run one after the other, whatever each returns, until the console is left.\<close>

fun run_lines :: "host \<Rightarrow> machine \<Rightarrow> nat \<Rightarrow> string list \<Rightarrow> shell \<Rightarrow> shell option" where
  "run_lines h m n [] s = Some s"
| "run_lines h m n (l # ls) s =
     (if sh_quit s then Some s else do { (_, s) \<leftarrow> cli_execute h m n l s; run_lines h m n ls s })"

section \<open>The tree of the program\<close>

definition cli_default_tree :: "tree_entry list" where
  "cli_default_tree =
    [File ''copyright'' ''copyright_file'' [], File ''dpdk-version'' ''version_file'' [], Dir ''/sbin'' True,
     Cmd ''delay'' ''delay_cmd'' [], Cmd ''sleep'' ''sleep_cmd'' [], Cmd ''chelp'' ''chelp_cmd'' [], Cmd ''mkdir'' ''mkdir_cmd'' [],
     Cmd ''rm'' ''rm_cmd'' [], Cmd ''ls'' ''ls_cmd'' [], Cmd ''cd'' ''cd_cmd'' [], Cmd ''pwd'' ''pwd_cmd'' [],
     Cmd ''screen.clear'' ''scrn_cmd'' [], Cmd ''quit'' ''quit_cmd'' [], Cmd ''history'' ''hist_cmd'' [], Cmd ''more'' ''more_cmd'' [],
     Cmd ''cmap'' ''core_cmd'' [], Cmd ''hugepages'' ''huge_cmd'' [], Cmd ''path'' ''path_cmd'' [], Cmd ''env'' ''env_cmd'' [],
     Cmd ''script'' ''script_cmd'' [], Cmd ''echo'' ''echo_cmd'' [], Cmd ''version'' ''version_cmd'' [],
     Str ''SHELL'' None ''CLI shell'', Str ''DPDK_VER'' (Some (\<lambda>_. ''DPDK'')) []]"

definition default_tree :: "tree_entry list" where
  "default_tree =
    [Dir ''/pktgen/bin'' False, Cmd ''help'' ''help_cmd'' [],
     Cmd ''clear'' ''misc_cmd'' [], Alias ''clr'' ''clear all stats'' [], Cmd ''geometry'' ''misc_cmd'' [], Alias ''geom'' ''geometry'' [],
     Cmd ''load'' ''misc_cmd'' [], Cmd ''script'' ''misc_cmd'' [], Cmd ''lua'' ''misc_cmd'' [], Cmd ''save'' ''misc_cmd'' [],
     Cmd ''redisplay'' ''misc_cmd'' [], Alias ''cls'' ''redisplay'' [], Cmd ''reset'' ''misc_cmd'' [], Alias ''rst'' ''reset all'' [],
     Cmd ''restart'' ''misc_cmd'' [], Cmd ''port'' ''misc_cmd'' [], Cmd ''ping4'' ''misc_cmd'' [],
     Cmd ''sequence'' ''seq_cmd'' [], Alias ''seq'' ''sequence'' [], Cmd ''page'' ''page_cmd'' [], Cmd ''theme'' ''theme_cmd'' [],
     Cmd ''range'' ''range_cmd'' [], Cmd ''enable'' ''en_dis_cmd'' [], Cmd ''disable'' ''en_dis_cmd'' [],
     Cmd ''start'' ''start_stop_cmd'' [], Cmd ''stop'' ''start_stop_cmd'' [], Alias ''str'' ''start all'' [], Alias ''stp'' ''stop all'' [],
     Cmd ''pcap'' ''pcap_cmd'' [], Cmd ''set'' ''set_cmd'' [], Cmd ''dbg'' ''dbg_cmd'' [],
     Alias ''on'' ''enable screen'' [], Alias ''off'' ''disable screen'' []]"

text \<open>\<open>pktgen_cli_create\<close>: the pool, the two tables and the search path.\<close>

definition init_tree :: "tree \<times> cli_env \<Rightarrow> (int \<times> tree \<times> cli_env) option" where
  "init_tree w = do {
     (r, t, env) \<leftarrow> cli_add_tree False None cli_default_tree w;
     if r \<noteq> 0 then Some (-1, t, env)
     else do {
       (r, t, env) \<leftarrow> cli_add_tree False (root t) default_tree (t, env);
       if r \<noteq> 0 then Some (-1, t, env)
       else do {
         (r, t) \<leftarrow> cli_add_bin_path ''/pktgen/bin'' t;
         Some (if r \<noteq> 0 then -1 else 0, t, env) } } }"

definition pktgen_cli_create :: "int \<Rightarrow> (int \<times> tree \<times> cli_env) option" where
  "pktgen_cli_create nb = do { (_, t) \<leftarrow> init_nodes nb; init_tree (t, []) }"

definition pktgen_tree :: tree where
  "pktgen_tree = (case pktgen_cli_create 60 of Some (_, t, _) \<Rightarrow> t | None \<Rightarrow> \<lparr>pool = [], free_nodes = [], root = None, bins = [], unlimited = False\<rparr>)"

text \<open>The function or the text of the command that a word finds.\<close>

definition found :: "tree \<Rightarrow> string \<Rightarrow> (string option \<times> string option) option" where
  "found t w = do { k \<leftarrow> cli_find_cmd t w; k \<leftarrow> k; nd \<leftarrow> node_at t k;
     Some (if n_type nd = CLI_CMD_NODE then n_func nd else None, if n_type nd = CLI_ALIAS_NODE then n_alias nd else None) }"

section \<open>Every line keeps the invariant of the ports\<close>

definition host_ok :: "nat \<Rightarrow> host \<Rightarrow> bool" where
  "host_ok sz h \<longleftrightarrow> (\<forall>f argv s r s'. h_other h f argv s = Some (r, s') \<longrightarrow>
     console_inv sz (sh_con s) \<longrightarrow> console_inv sz (sh_con s'))"

lemma library_same_console:
  "cd_cmd argv s = Some (r, s') \<Longrightarrow> sh_con s' = sh_con s" "mkdir_cmd b argv s = Some (r, s') \<Longrightarrow> sh_con s' = sh_con s"
  "rm_cmd n argv s = Some (r, s') \<Longrightarrow> sh_con s' = sh_con s" "env_cmd argv s = Some (r, s') \<Longrightarrow> sh_con s' = sh_con s"
proof -
  show "cd_cmd argv s = Some (r, s') \<Longrightarrow> sh_con s' = sh_con s"
    by (auto simp: cd_cmd_def on_tree_def bind_eq_Some_iff split: if_splits option.splits)
  show "mkdir_cmd b argv s = Some (r, s') \<Longrightarrow> sh_con s' = sh_con s"
    by (auto simp: mkdir_cmd_def bind_eq_Some_iff split: if_splits)
  show "rm_cmd n argv s = Some (r, s') \<Longrightarrow> sh_con s' = sh_con s"
    by (auto simp: rm_cmd_def bind_eq_Some_iff split: if_splits option.splits)
  show "sh_con s' = sh_con s" if e: "env_cmd argv s = Some (r, s')"
  proof -
    show ?thesis using e unfolding env_cmd_def
      by (elim bind_SomeE) (simp only: case_prod_beta, elim bind_SomeE, simp only: option.inject prod.inject, clarify, simp)
  qed
qed

lemma pktgen_func_keep:
  assumes "map_of (pktgen_funcs m) f = Some g" "g argv c = Some (r, c')" "machine_ok sz m" "console_inv sz c"
  shows "console_inv sz c'"
proof -
  have "(f, g) \<in> set (pktgen_funcs m)" using assms(1) by (rule map_of_SomeD)
  then have "g \<in> {misc_cmd m, seq_cmd m, page_cmd, theme_cmd m, range_cmd m, en_dis_cmd m, start_stop_cmd m, pcap_cmd m, set_cmd m, dbg_cmd m}"
    unfolding pktgen_funcs_def by auto
  from cmd_runs [OF assms(3) this] show ?thesis using dispatch_keep assms(2,4) by blast
qed

lemma call_node_keep:
  assumes c: "call_node h m f argv s = Some (r, s')" and ok: "machine_ok sz m" "host_ok sz h" "console_inv sz (sh_con s)"
  shows "console_inv sz (sh_con s')"
proof (cases "map_of (pktgen_funcs m) f")
  case None
  then have "sh_con s' = sh_con s \<or> h_other h f argv s = Some (r, s')"
    using c library_same_console by (auto simp: call_node_def split: if_splits)
  then show ?thesis using ok(2,3) by (auto simp: host_ok_def)
next
  case (Some g)
  then obtain c1 where "g argv (sh_con s) = Some (r, c1)" "sh_con s' = c1" using c by (auto simp: call_node_def)
  then show ?thesis using pktgen_func_keep [OF Some _ ok(1,3)] by simp
qed

lemma execute_keep:
  assumes "machine_ok sz m" "host_ok sz h"
  shows "cli_execute h m n line s = Some (r, s') \<Longrightarrow> console_inv sz (sh_con s) \<Longrightarrow> console_inv sz (sh_con s')"
proof (induction n arbitrary: line s r s')
  case (Suc n)
  obtain x hs where x: "fetch_line h line (sh_hist s) = Some (x, hs)" using Suc.prems(1) by (auto simp: bind_eq_Some_iff)
  let ?s = "s\<lparr>sh_hist := hs\<rparr>"
  show ?case
  proof (cases x)
    case (Inl v)
    then show ?thesis using Suc.prems x by auto
  next
    case (Inr p)
    have con: "sh_con (snd (reset_hist v)) = sh_con (snd v)" for v by (simp add: reset_hist_def split: prod.split)
    obtain argv where w: "line_words (sh_env s) line p = Some argv" using Suc.prems(1) x Inr by (auto simp: bind_eq_Some_iff Let_def)
    let ?run = "\<lambda>nd :: cli_node. case n_type nd of
        CLI_CMD_NODE \<Rightarrow> do { f \<leftarrow> n_func nd; call_node h m f argv ?s }
      | CLI_ALIAS_NODE \<Rightarrow> do {
          str \<leftarrow> n_alias nd;
          guard (length line \<le> CLI_MAX_SCRATCH_LENGTH);
          cli_execute h m n (alias_text line (n_name nd) str) (?s\<lparr>sh_hist := cli_history_del (sh_hist ?s)\<rparr>) }
      | _ \<Rightarrow> Some (-1, ?s)"
    have "s' = ?s \<or> (\<exists>(nd :: cli_node) v. ?run nd = Some v \<and> reset_hist v = (r, s'))"
    proof (cases "argv = [] \<or> cli_find_cmd (sh_tree s) (hd argv) = Some None")
      case True
      then show ?thesis using Suc.prems(1) x Inr w by (cases "argv = []") (simp_all add: Let_def)
    next
      case False
      then obtain k nd where "cli_find_cmd (sh_tree s) (hd argv) = Some (Some k)" "node_at (sh_tree s) k = Some nd"
        using Suc.prems(1) x Inr w by (auto simp: bind_eq_Some_iff Let_def split: option.split_asm)
      then have "map_option reset_hist (?run nd) = Some (r, s')" using Suc.prems(1) x Inr w False by (simp add: Let_def)
      then show ?thesis unfolding map_option_eq_Some by blast
    qed
    then consider "s' = ?s" | f v where "call_node h m f argv ?s = Some v" "reset_hist v = (r, s')"
      | l h' v where "cli_execute h m n l (?s\<lparr>sh_hist := h'\<rparr>) = Some v" "reset_hist v = (r, s')"
      | v where "sh_con (snd v) = sh_con s" "reset_hist v = (r, s')"
    proof (elim disjE exE conjE)
      fix nd v
      assume v: "?run nd = Some v" "reset_hist v = (r, s')"
      have "(\<exists>f. call_node h m f argv ?s = Some v) \<or> (\<exists>l h'. cli_execute h m n l (?s\<lparr>sh_hist := h'\<rparr>) = Some v) \<or> sh_con (snd v) = sh_con s"
        using v(1) by (cases "n_type nd") (auto simp: bind_eq_Some_iff guard_def split: if_splits)
      then show thesis using that(2-) v(2) by blast
    qed (use that in blast)
    then show ?thesis
    proof cases
      case 1
      then show ?thesis using Suc.prems(2) by simp
    next
      case (2 f v)
      then have "console_inv sz (sh_con (snd v))"
        using call_node_keep [OF _ assms, of f argv ?s "fst v" "snd v"] Suc.prems(2) by simp
      then show ?thesis using con [of v] 2(2) by simp
    next
      case (3 l h' v)
      then have "console_inv sz (sh_con (snd v))" using Suc.IH [of l "?s\<lparr>sh_hist := h'\<rparr>" "fst v" "snd v"] Suc.prems(2) by simp
      then show ?thesis using con [of v] 3(2) by simp
    next
      case (4 v)
      then show ?thesis using con [of v] Suc.prems(2) by simp
    qed
  qed
qed simp

lemma lines_keep:
  "run_lines h m n ls s = Some s' \<Longrightarrow> machine_ok sz m \<Longrightarrow> host_ok sz h \<Longrightarrow> console_inv sz (sh_con s) \<Longrightarrow> console_inv sz (sh_con s')"
proof (induction ls arbitrary: s)
  case (Cons l ls)
  show ?case
  proof (cases "sh_quit s")
    case False
    then obtain r s1 where "cli_execute h m n l s = Some (r, s1)" "run_lines h m n ls s1 = Some s'"
      using Cons.prems(1) by (auto simp: bind_eq_Some_iff)
    then show ?thesis using Cons.IH Cons.prems execute_keep by blast
  qed (use Cons.prems in simp)
qed simp

section \<open>A typed command\<close>

text \<open>The characters of a list of ports and of a number are those of plain words.\<close>

lemma ports_char: "isdigit c \<or> c = CHR ''-'' \<or> c = CHR '','' \<Longrightarrow> plain_char c \<and> c \<noteq> CHR ''$''"
  by (auto simp: plain_char_def isdigit_def is_digit_of_def digit_val_def char_defs split: if_splits)

lemma dec_chars: "\<forall>c\<in>set (dec n). plain_char c \<and> c \<noteq> CHR ''$''"
  using dec_digits ports_char by blast

lemma interval_chars: "\<forall>c\<in>set (show_interval (a, b)). plain_char c \<and> c \<noteq> CHR ''$''"
  using dec_chars ports_char by auto

lemma show_ports_chars: "\<forall>c\<in>set (show_ports xs). plain_char c \<and> c \<noteq> CHR ''$''"
proof
  fix c assume "c \<in> set (show_ports xs)"
  then have "c = CHR '','' \<or> (\<exists>x\<in>set (map show_interval xs). c \<in> set x)"
    unfolding show_ports_def by (drule_tac join_chars) auto
  then show "plain_char c \<and> c \<noteq> CHR ''$''" using interval_chars ports_char by force
qed

text \<open>A line of plain words runs as it was typed, and the history keeps it.\<close>

lemma plain_line:
  assumes ws: "\<forall>x\<in>set (w # ws). x \<noteq> [] \<and> (\<forall>c\<in>set x. plain_char c \<and> c \<noteq> CHR ''$'')" "length ws < CLI_MAX_ARGVS"
    and w: "hd w \<notin> {CHR ''#'', CHR ''!'', CHR ''@''}" and len: "length (join_with '' '' (w # ws)) < CLI_MAX_PATH_LENGTH"
    and h: "h_dup h = Some" "hist_ok cap hs"
  shows "\<exists>hs'. fetch_line h (join_with '' '' (w # ws)) hs = Some (Inr (join_with '' '' (w # ws)), hs')
      \<and> lines_of hs' = add_line cap (join_with '' '' (w # ws)) (lines_of hs) \<and> hist_ok cap hs'"
    and "line_words env (join_with '' '' (w # ws)) (join_with '' '' (w # ws)) = Some (w # ws)"
proof -
  let ?l = "join_with '' '' (w # ws)"
  have ok: "word_ok (Plain w)" "\<forall>x\<in>set (map Plain ws). word_ok x" using ws(1) by auto
  have m: "map show_word (map Plain ws) = ws" "map word_text (map Plain ws) = ws" by (simp_all add: comp_def)
  have "trimmed ?l" using words_trimmed [OF ok] by (simp only: m)
  moreover have hd: "hd ?l = hd w" "?l \<noteq> []" using join_hd [of w "'' ''" ws] ws(1) by auto
  moreover have "\<not> isspace (hd w)" using ws(1) by (cases w) (auto simp: plain_char_def)
  ultimately have p: "rte_strtrim ?l = ?l" "takeWhile isspace ?l = []"
    using strtrim_trimmed by (auto simp: takeWhile_eq_Nil_iff)
  obtain hs' where a: "cli_history_add Some (Some ?l) hs = Some hs'" "hist_ok cap hs'" "lines_of hs' = add_line cap ?l (lines_of hs)"
    using add_adds [OF h(2)] by blast
  have "fetch_line h ?l hs = map_option (Pair (Inr ?l)) (cli_history_add Some (Some ?l) hs)"
    unfolding fetch_line_def Let_def p using hd w h(1) by simp
  then show "\<exists>hs'. fetch_line h ?l hs = Some (Inr ?l, hs') \<and> lines_of hs' = add_line cap ?l (lines_of hs) \<and> hist_ok cap hs'"
    using a by auto
  have "CHR ''$'' \<notin> set ?l" using join_chars [of "CHR ''$''" "'' ''" "w # ws"] ws(1) by fastforce
  then have "cli_env_substitution env ?l CLI_MAX_PATH_LENGTH = Some ?l"
    using subst_pieces [of "[Text ?l]" env "[]" CLI_MAX_PATH_LENGTH] len by (simp add: cli_env_substitution_def)
  moreover have "rte_strqtok CLI_MAX_ARGVS blanks ?l = Some (w # ws)"
    using words_roundtrip [OF ok, of CLI_MAX_ARGVS] ws(2) by (simp only: m length_map)
  ultimately show "line_words env ?l ?l = Some (w # ws)"
    unfolding line_words_def p using len by (simp add: max_def)
qed

lemma dec_length: "n < 10 ^ Suc k \<Longrightarrow> length (dec n) \<le> Suc k"
proof (induction k arbitrary: n)
  case (Suc k)
  have "n div 10 < 10 ^ Suc k" using Suc.prems by (simp add: less_mult_imp_div_less)
  then have "length (dec (n div 10)) \<le> Suc k" by (rule Suc.IH)
  then show ?case by (simp add: dec.simps [of n])
qed (simp add: dec.simps)

lemma set_line_length:
  assumes "length xs \<le> 64" "\<forall>(a, b)\<in>set xs. a \<le> b \<and> b < 64" "n < 2 ^ 31"
  shows "length (join_with '' '' [''set'', show_ports xs, ''count'', dec n]) < CLI_MAX_PATH_LENGTH"
proof -
  have d: "length (dec a) \<le> 3" if "a < 64" for a using dec_short [of a] that by simp
  have "length (show_interval (a, b)) \<le> 7" if "(a, b) \<in> set xs" for a b
    using d [of a] d [of b] assms(2) that by fastforce
  then have "\<forall>s\<in>set (map show_interval xs). length s \<le> 7" by force
  then have "length (show_ports xs) \<le> length (map show_interval xs) * (7 + 1)"
    unfolding show_ports_def by (rule join_length)
  then have "length (show_ports xs) \<le> 512" using assms(1) by simp
  moreover have "length (dec n) \<le> 10" using dec_length [of n 9] assms(3) by simp
  ultimately show ?thesis by (simp add: CLI_MAX_PATH_LENGTH_def)
qed

lemma set_count_line:
  assumes "found (sh_tree s) ''set'' = Some (Some ''set_cmd'', None)" "hist_ok cap (sh_hist s)" "h_dup h = Some"
    and xs: "xs \<noteq> []" "length xs \<le> 64" "\<forall>(a, b)\<in>set xs. a \<le> b \<and> b < 64" and n: "n < 2 ^ 31"
    and nb: "unat (nb_ports (c_glob (sh_con s))) \<le> 64" "unat (nb_ports (c_glob (sh_con s))) \<le> length (c_ports (sh_con s))"
  shows "\<exists>s'. cli_execute h m (Suc k) (join_with '' '' [''set'', show_ports xs, ''count'', dec n]) s = Some (0, s')
    \<and> lines_of (sh_hist s') = add_line cap (join_with '' '' [''set'', show_ports xs, ''count'', dec n]) (lines_of (sh_hist s))
    \<and> length (c_ports (sh_con s')) = length (c_ports (sh_con s))
    \<and> (\<forall>j<length (c_ports (sh_con s)). c_ports (sh_con s') ! j =
        (if j < unat (nb_ports (c_glob (sh_con s))) \<and> listed xs j \<and> seq_pkt (c_ports (sh_con s) ! j) \<noteq> []
         then single_set_tx_count (word_of_nat n) (c_ports (sh_con s) ! j) else c_ports (sh_con s) ! j))"
proof -
  let ?ws = "[show_ports xs, ''count'', dec n]" and ?t = "sh_tree s"
  let ?l = "join_with '' '' (''set'' # ?ws)"
  have w: "\<forall>x\<in>set (''set'' # ?ws). x \<noteq> [] \<and> (\<forall>c\<in>set x. plain_char c \<and> c \<noteq> CHR ''$'')" "length ?ws < CLI_MAX_ARGVS"
    "hd ''set'' \<notin> {CHR ''#'', CHR ''!'', CHR ''@''}"
    using show_ports_word(1) [OF xs(1)] show_ports_chars [of xs] dec_chars [of n] dec_nonempty [of n]
    by (auto simp: plain_char_def char_defs CLI_MAX_ARGVS_def)
  obtain hs where f: "fetch_line h ?l (sh_hist s) = Some (Inr ?l, hs)" "lines_of hs = add_line cap ?l (lines_of (sh_hist s))"
    using plain_line(1) [OF w set_line_length [OF xs(2,3) n] assms(3,2)] by blast
  have args: "line_words (sh_env s) ?l ?l = Some (''set'' # ?ws)"
    by (rule plain_line(2) [OF w set_line_length [OF xs(2,3) n] assms(3,2)])
  obtain j nd where nd: "cli_find_cmd ?t ''set'' = Some (Some j)" "node_at ?t j = Some nd" "n_type nd = CLI_CMD_NODE" "n_func nd = Some ''set_cmd''"
    using assms(1) by (auto simp: found_def bind_eq_Some_iff split: if_splits)
  obtain c' where c': "set_cmd m (''set'' # ?ws) (sh_con s) = Some (0, c')" "length (c_ports c') = length (c_ports (sh_con s))"
    "\<forall>j<length (c_ports (sh_con s)). c_ports c' ! j =
        (if j < unat (nb_ports (c_glob (sh_con s))) \<and> listed xs j \<and> seq_pkt (c_ports (sh_con s) ! j) \<noteq> []
         then single_set_tx_count (word_of_nat n) (c_ports (sh_con s) ! j) else c_ports (sh_con s) ! j)"
    using set_count_words [OF xs n nb] by blast
  have "map_of (pktgen_funcs m) ''set_cmd'' = Some (set_cmd m)" by (simp add: pktgen_funcs_def)
  then have call: "call_node h m ''set_cmd'' (''set'' # ?ws) (s\<lparr>sh_hist := hs\<rparr>) = Some (0, s\<lparr>sh_hist := hs, sh_con := c'\<rparr>)"
    using c'(1) by (simp add: call_node_def)
  have "cli_execute h m (Suc k) ?l s = Some (reset_hist (0, s\<lparr>sh_hist := hs, sh_con := c'\<rparr>))"
    using f(1) args nd call by (simp del: join_with.simps)
  moreover have "lines_of (cli_history_reset hs) = lines_of hs" by (simp add: cli_history_reset_def lines_of_def)
  ultimately show ?thesis using f(2) c'(2,3) by (simp add: reset_hist_def del: join_with.simps)
qed

section \<open>A console\<close>

definition sample_machine :: machine where
  "sample_machine = \<lparr>m_fp = id, m_strtod = (\<lambda>_. 0), m_pton6 = (\<lambda>_. None), m_txcnt = (\<lambda>_. 1), m_rxcnt = (\<lambda>_. 1), m_lids = (\<lambda>_. []),
     m_sock = (\<lambda>_. 0), m_lim = \<lparr>max_lcore = 128, max_port = 32\<rparr>, m_timer_hz = 2000000000, m_dev = (\<lambda>_. zero_eth_stats),
     m_urandom = None, m_portlist = 0, m_ip = sample_ip 1, m_ip2 = sample_ip 2, m_ip_local = sample_ip 3,
     m_mac = replicate 6 0, m_mac2 = replicate 6 0, m_port = (\<lambda>_ _ c. Some c), m_call = (\<lambda>_ c. Some (0, c))\<rparr>"

definition sample_host :: host where
  "sample_host = \<lparr>h_system = (\<lambda>_. 0), h_dup = Some, h_grow = False, h_calls = 64, h_other = (\<lambda>_ _ s. Some (0, s))\<rparr>"

text \<open>Two ports, in the tree of the program.\<close>

definition sample_shell :: shell where
  "sample_shell = \<lparr>sh_tree = pktgen_tree, sh_env = [], sh_hist = fst (cli_set_history True 8 empty_hist), sh_quit = False,
     sh_con = \<lparr>c_glob = sample_glob, c_ports = [sample_port, sample_port\<lparr>pid := 1\<rparr>],
       c_scrn = \<lparr>paused = False, update_display = 0, shown = []\<rparr>, c_caps = [], c_rnd = 7\<rparr>\<rparr>"

lemma sample_ok: "machine_ok sz sample_machine" "host_ok sz sample_host" "console_inv 128 (sh_con sample_shell)"
  "hist_ok 8 (sh_hist sample_shell)" "lines_of (sh_hist sample_shell) = []"
proof -
  show "machine_ok sz sample_machine" by (simp add: machine_ok_def sample_machine_def ip_arg_def sample_ip_def)
  show "host_ok sz sample_host" by (simp add: host_ok_def sample_host_def)
  have "port_inv 128 (sample_port\<lparr>pid := 1\<rparr>) = port_inv 128 sample_port" by (simp add: port_inv_defs)
  then show "console_inv 128 (sh_con sample_shell)" by (simp add: console_inv_def sample_shell_def port_ok_def)
  show "hist_ok 8 (sh_hist sample_shell)" "lines_of (sh_hist sample_shell) = []"
    using set_history_rel [of 8] by (simp_all add: sample_shell_def hist_rel_def)
qed

section \<open>Commands that are found\<close>

text \<open>A pool of 60 nodes is enough for the tables of the library and of the program; from the root
  directory a name leads to its function, to the text of its alias or to a directory.\<close>

lemma tree_of_the_program:
  "(case pktgen_cli_create 60 of None \<Rightarrow> (1, []) | Some (r, t, _) \<Rightarrow> (r, map (found t)
      [''set'', ''seq'', ''clr'', ''cd'', ''script'', ''pktgen'']))
    = (0, [Some (Some ''set_cmd'', None), Some (None, Some ''sequence''),
        Some (None, Some ''clear all stats''), Some (Some ''cd_cmd'', None), Some (Some ''script_cmd'', None),
        Some (None, None)])"
  by code_simp

lemma pktgen_found:
  "found pktgen_tree ''set'' = Some (Some ''set_cmd'', None)" "found pktgen_tree ''script'' = Some (Some ''script_cmd'', None)"
  using tree_of_the_program by (auto simp: pktgen_tree_def split: option.splits)

text \<open>The sample ports and a typed line.\<close>

lemma sample_line: "join_with '' '' [''set'', show_ports [(1, 1)], ''count'', dec 7] = ''set 1 count 7''"
  by code_simp

lemma sample_con:
  "unat (nb_ports (c_glob (sh_con sample_shell))) = 2" "c_ports (sh_con sample_shell) = [sample_port, sample_port\<lparr>pid := 1\<rparr>]"
  "sh_tree sample_shell = pktgen_tree" "\<not> sh_quit sample_shell" "seq_pkt sample_port \<noteq> []"
  by (simp_all add: sample_shell_def sample_glob_def) (simp add: sample_port_def)

section \<open>Properties\<close>



text \<open>C21 A typed line sets the count of packets: \<open>set\<close> with a list of ports and a number, in a
  tree that finds the command, returns 0, gives the number to the listed ports that are
  configured and to no other, and adds the line to the history.\<close>

theorem line_sets_count:
  assumes "found (sh_tree s) ''set'' = Some (Some ''set_cmd'', None)" "hist_ok cap (sh_hist s)" "h_dup h = Some"
    and "xs \<noteq> []" "length xs \<le> 64" "\<forall>(a, b)\<in>set xs. a \<le> b \<and> b < 64" "n < 2 ^ 31"
    and "unat (nb_ports (c_glob (sh_con s))) \<le> 64" "unat (nb_ports (c_glob (sh_con s))) \<le> length (c_ports (sh_con s))"
  shows "\<exists>s'. cli_execute h m (Suc k) (join_with '' '' [''set'', show_ports xs, ''count'', dec n]) s = Some (0, s')
    \<and> lines_of (sh_hist s') = add_line cap (join_with '' '' [''set'', show_ports xs, ''count'', dec n]) (lines_of (sh_hist s))
    \<and> length (c_ports (sh_con s')) = length (c_ports (sh_con s))
    \<and> (\<forall>j<length (c_ports (sh_con s)). c_ports (sh_con s') ! j =
        (if j < unat (nb_ports (c_glob (sh_con s))) \<and> listed xs j \<and> seq_pkt (c_ports (sh_con s) ! j) \<noteq> []
         then single_set_tx_count (word_of_nat n) (c_ports (sh_con s) ! j) else c_ports (sh_con s) ! j))"
  by (rule set_count_line [OF assms])

theorem line_sets_count_witness:
  "\<exists>s'. cli_execute sample_host sample_machine 1 ''set 1 count 7'' sample_shell = Some (0, s')
    \<and> lines_of (sh_hist s') = [''set 1 count 7'']
    \<and> c_ports (sh_con s') ! 0 = sample_port \<and> c_ports (sh_con s') ! 1 = single_set_tx_count 7 (sample_port\<lparr>pid := 1\<rparr>)"
proof -
  have h: "h_dup sample_host = Some" by (simp add: sample_host_def)
  have l: "listed [(1, 1)] 1" "\<not> listed [(1, 1)] 0" by (simp_all add: listed_def)
  have q: "seq_pkt (sample_port\<lparr>pid := 1\<rparr>) \<noteq> []" using sample_con(5) by simp
  obtain s' where s': "cli_execute sample_host sample_machine (Suc 0) ''set 1 count 7'' sample_shell = Some (0, s')"
    "lines_of (sh_hist s') = add_line 8 ''set 1 count 7'' []"
    "\<forall>j<2. c_ports (sh_con s') ! j = (if j < 2 \<and> listed [(1, 1)] j \<and> seq_pkt (c_ports (sh_con sample_shell) ! j) \<noteq> []
         then single_set_tx_count 7 (c_ports (sh_con sample_shell) ! j) else c_ports (sh_con sample_shell) ! j)"
    using line_sets_count [of sample_shell 8 sample_host "[(1, 1)]" 7 sample_machine 0] h pktgen_found(1) sample_ok(4,5) sample_con
    unfolding sample_line by auto
  have "c_ports (sh_con s') ! 0 = sample_port" using s'(3) [rule_format, of 0] l(2) sample_con(2) by simp
  moreover have "c_ports (sh_con s') ! 1 = single_set_tx_count 7 (sample_port\<lparr>pid := 1\<rparr>)"
    using s'(3) [rule_format, of 1] l(1) q sample_con(2) by simp
  ultimately show ?thesis using s'(1,2) by (auto simp: add_line_def simp del: cli_execute.simps)
qed

text \<open>C33 The commands with a list of ports (\<open>set\<close>, \<open>range\<close>, \<open>start\<close> and \<open>stop\<close>) touch only the
  listed ports: whatever the words of the command, a port that the list does not name is the
  same afterwards.\<close>

theorem commands_touch_listed:
  assumes "f \<in> {set_cmd m, range_cmd m, start_stop_cmd m}" "f argv c = Some (r, c')"
    and "the_ports m argv 1 = Some pl" "j < length (c_ports c)" "\<not> bit pl j"
  shows "length (c_ports c') = length (c_ports c) \<and> c_ports c' ! j = c_ports c ! j"
  using commands_others [OF assms(1-3)] assms(4,5) by (simp add: others_same_def)

theorem commands_touch_listed_witness:
  "\<exists>c'. set_cmd sample_machine [''set'', ''1'', ''count'', ''7''] (sh_con sample_shell) = Some (0, c') \<and> c_ports c' ! 0 = sample_port"
proof -
  have w: "show_ports [(1, 1)] = ''1''" "dec 7 = ''7''" by code_simp+
  obtain c' where c': "set_cmd sample_machine [''set'', ''1'', ''count'', ''7''] (sh_con sample_shell) = Some (0, c')"
    using set_count_words [of "[(1, 1)]" 7 "sh_con sample_shell" sample_machine] sample_con(1,2) unfolding w by auto
  have "rte_parse_portlist ''1'' 0 = (0, 2)" by code_simp
  then have "the_ports sample_machine [''set'', ''1'', ''count'', ''7''] 1 = Some 2"
    by (simp add: the_ports_def arg_def sample_machine_def)
  from commands_touch_listed [where f = "set_cmd sample_machine" and j = 0, OF _ c' this] c' show ?thesis using sample_con(2) by (auto simp: bit_iff_odd)
qed

section \<open>What the code does against its description\<close>

text \<open>The command \<open>script\<close> of the program is never run: the search path has the directory of the
  library before the one of the program.\<close>

lemma script_of_the_library: "found pktgen_tree ''script'' = Some (Some ''script_cmd'', None)"
  by (rule pktgen_found)

text \<open>An alias in a line that starts with blanks keeps the last letters of its name.\<close>

lemma alias_after_blanks: "alias_text ''  clr'' ''clr'' ''clear all stats'' = ''clear all statslr''"
  by (simp add: alias_text_def)

text \<open>Every path is a directory for \<open>cd\<close>, a command too.\<close>

lemma cd_to_a_command:
  assumes "sh_tree s = small_tree"
  shows "\<exists>s'. cd_cmd [''cd'', ''/bin/ls''] s = Some (0, s') \<and> get_cwd (sh_tree s') = Some 2"
proof -
  have "cli_find_node small_tree ''/bin/ls'' = Some (Some 2)" "bins small_tree \<noteq> []" by code_simp+
  then show ?thesis using assms by (simp add: cd_cmd_def on_tree_def set_cwd_def get_cwd_def)
qed

text \<open>A line that no entry of \<open>env\<close> fits is reported and its entry, which is none, is read.\<close>

lemma env_unknown: "env_cmd [''env'', ''put''] s = None"
proof -
  have "cli_mapping cli_env_map [''env'', ''put''] = Some None" by code_simp
  then show ?thesis by (simp add: env_cmd_def)
qed

end
