(* ===== verification/Spec2Isabelle.thy ===== *)
theory Spec2Isabelle
  imports UserConfig Conserve Answers Exec
begin

text \<open>
  \<^bold>\<open>A model of the traffic generator pktgen.\<close>

  The program (\<open>src/pktgen\<close>) sends generated packets on DPDK ports.  A port
  (\<open>port_info_t\<close>, \<open>app/pktgen-port-cfg.h\<close>) holds 28 packet templates
  (\<open>pkt_seq_t\<close>: 16 of a sequence, the single packet, ping, range, dump, and 8 extra ones), a
  description of a packet range, a flag word and counters.  Console commands
  (\<open>app/pktgen-cmds.c\<close>) change the port and rebuild the byte image of a template;
  the sending lcores copy the image into buffers and take credit from shared counters.

  \<^item> \<open>Prelude\<close>: words, byte buffers with checked loads and stores, byte order.
  \<^item> \<open>Inet\<close> (\<open>lib/common/pg_inet.h\<close>): structures as layouts, addresses, masks.
  \<^item> \<open>Cksum\<close> (\<open>lib/common/cksum.c\<close>): the Internet checksum and its reference.
  \<^item> \<open>PortData\<close>: the records and flag bits; \<open>Samples\<close>: values to apply theorems on.
  \<^item> \<open>Range\<close> (\<open>app/pktgen-range.c\<close>): the range constructor.
  \<^item> \<open>Headers\<close> (\<open>app/pktgen-ether.c\<close>, \<open>-ipv4.c\<close>, \<open>-tcp.c\<close>, \<open>-udp.c\<close>,
    \<open>-gtpu.c\<close>, \<open>-gre.c\<close>, \<open>-ipv6.c\<close>): the header constructors.
  \<^item> \<open>PacketCtor\<close>, \<open>Rate\<close> (\<open>app/pktgen.c\<close>): packet construction, wire size and rate.
  \<^item> \<open>Atomic\<close> (\<open>app/pktgen.h\<close>, \<open>app/pktgen-port-cfg.h\<close>): compare-and-set loops.
  \<^item> \<open>Pages\<close> (\<open>app/pktgen-cmds.c\<close>, \<open>app/pktgen.c\<close>): the page that is shown.
  \<^item> \<open>Commands\<close>, \<open>PortInv\<close> (\<open>app/pktgen-cmds.c\<close>): the port commands, their invariant
    and what they do.
  \<^item> \<open>RndBits\<close> (\<open>app/pktgen-random.c\<close>, \<open>app/xorshift64star.h\<close>): random bit fields.
  \<^item> \<open>Flows\<close> (\<open>app/pktgen-tool.c\<close>): packet counters per flow and the reports made from them.
  \<^item> \<open>UserConfig\<close> (\<open>parse_user_config\<close>), over \<open>CLib\<close>: the functions of the C library it calls.
  \<^item> \<open>Capture\<close> (\<open>app/pktgen-capture.c\<close>): packets captured to memory and dumped to a file.
  \<^item> \<open>Sender\<close> (\<open>app/pktgen.c\<close>, \<open>lib/common/mbuf.h\<close>, the senders of \<open>app/pktgen-arp.c\<close> and
    \<open>app/pktgen-ipv4.c\<close>): allocation and set up of buffers, the bursts, one turn of the sender.
  \<^item> \<open>Receive\<close> (\<open>app/pktgen.c\<close>, \<open>app/pktgen-arp.c\<close>, \<open>app/pktgen-ipv4.c\<close>,
    \<open>app/pktgen-vlan.c\<close>, \<open>app/pktgen-dump.c\<close>): one turn of the receiver.
  \<^item> \<open>Answers\<close>: the answers to ARP requests and pings, byte for byte, and the packets a dump keeps.
  \<^item> \<open>GapBuf\<close> (\<open>lib/cli/cli_gapbuf.h\<close>, \<open>cli_gapbuf.c\<close>): the gap buffer of the command line, the text
    with a cursor it stands for, and the interface \<open>text_editor\<close> between it and its clients.
  \<^item> \<open>History\<close> (\<open>lib/cli/cli_history.c\<close>): the lines entered before, as a bounded list.
  \<^item> \<open>LineEdit\<close> (\<open>lib/cli/cli_vt100.c\<close>, \<open>cli_input.c\<close>, \<open>cli_input.h\<close>): the recogniser of keys, their
    handlers and the display of the line; the editor they implement, and the keys that go wrong.
  \<^item> \<open>CliText\<close> (\<open>lib/cli/cli_string_fns.c\<close>, \<open>cli_string_fns.h\<close>, \<open>cli_map.c\<close>): the words of a line, port lists,
    numbers and addresses, and the maps that a line is matched with.
  \<^item> \<open>Nodes\<close> (\<open>lib/cli/cli.c\<close>, \<open>cli_search.c\<close>, \<open>cli.h\<close>, \<open>cli_env.c\<close>): the tree of commands and its pool
    of nodes, the search for a command, and the variables of a line.
  \<^item> \<open>Reset\<close> (\<open>app/pktgen-cmds.c\<close>): the default values of a port and the reset.
  \<^item> \<open>Dispatch\<close> (\<open>app/cli-functions.c\<close>): the commands of the program, from the words of a line to the ports;
    \<open>Console\<close>: what they keep and which ports they touch.
  \<^item> \<open>Exec\<close> (\<open>lib/cli/cli.c\<close>, \<open>cli_cmds.c\<close>, \<open>app/cli-functions.c\<close>): the run of a typed line, the commands of
    the library and the tree of the program.
  \<^item> \<open>Conserve\<close>: what every sequence of turns of the sender and the receiver keeps.

  \<^bold>\<open>Conventions.\<close>  A C structure is a record or, where the code works on its bytes, a byte
  list with a layout.  An integer keeps its width.  A function that may access memory out of
  bounds, follow a null pointer or run into undefined behaviour returns an option, and None stands
  for that.  The loops of a sender wait for the device and may not end; they are
  \<open>partial_function (option)\<close>, and None stands for not returning as well.  Code outside the repository (DPDK calls, \<open>strtod\<close>, rounding to a double, the
  number of queues of a port) is a parameter.  A record field that would clash with another name
  has a prefix (\<open>pvlanid\<close>, \<open>pkt_cos\<close>, \<open>rtos\<close>).

  \<^bold>\<open>Interfaces.\<close>  \<open>range_field\<close> (a field that is stepped through an interval) is interpreted
  on the four step routines of the range constructor; \<open>flag_word\<close> (test, set, clear) on the port
  flags and on the program flags; \<open>burst\<close> (a routine that prepares the packets of a burst and one
  that looks at those taken) on the five kinds of burst of \<open>Sender\<close>; \<open>text_editor\<close> (edits that agree
  with a text and its cursor while there is room) on the gap buffer.

  \<^bold>\<open>The device.\<close>  The record \<open>env\<close> says how many packets the device takes at each call, what the
  clock reads and what the checksum routines of DPDK compute; \<open>world\<close> holds the state of the
  program and of one port, the buffers still in the pools, and what went to the wire.

  \<^bold>\<open>The command line.\<close>  A pointer into the gap buffer is an offset from its start, a cell that was
  never written reads as undefined; the screen is the string of what was written to it.  In \<open>LineEdit\<close>
  what runs or completes a line is a parameter; \<open>Exec\<close> runs a line that is given as its text.  The line must stay 9 characters shorter than the window, so
  that the offset of the point, which can count the gap, stays inside it.

  \<^bold>\<open>The console.\<close>  The record \<open>console\<close> is the state that the commands change: the program, all
  ports, the screen, the captures and the random number.  \<open>machine\<close> and \<open>host\<close> hold what comes from
  outside: the queues and counters of the devices, the values of variables that are not set before
  they are read, and the commands that only print, wait or call the system.  \<open>shell\<close> adds the tree,
  the variables and the history.

  \<^bold>\<open>Fuel.\<close>  \<open>cli_execute\<close> calls itself for the text of an alias; one more call than aliases that lead
  to each other is enough, and a line whose command is found at once needs one.
  \<open>cli_path_string\<close> needs the depth of the node and one more, \<open>cli_remove_node\<close> one call for each
  node and each list of items below the node.  The pool of the tree has 60 nodes where the tables
  are evaluated; the program uses 256.

  \<^bold>\<open>Not modelled.\<close>  Output of the pages, the Lua binding, help texts and completion, start up and the
  discovery of the machine only call libraries or print.
\<close>

end
